(* ===== verification/Prelude.thy ===== *)
theory Prelude imports Main "HOL-Library.AList" begin

text \<open>
  Shared vocabulary of the development: the state-and-exception computations in which the
  engine's asynchronous methods are written, their invariant and Hoare rules, and the list
  and association-list lemmas that several components use.  An association list stands for
  a JavaScript \<open>Map\<close> or plain object: \<open>AList.update\<close> keeps the position of a key that is
  already present, as \<open>Map.set\<close> does.
\<close>

named_theorems sem_defs "definitions of the computation combinators"
named_theorems keeps_rules "the combinators keep every reflexive and transitive relation"
named_theorems hoare_rules "weakest-precondition style rules"

section \<open>Computations with state and exceptions\<close>

text \<open>
  A computation takes a state and returns either an exception or a value, and the state
  after it.  \<open>await\<close> followed by the rest of a method is \<open>bindE\<close>, \<open>throw\<close> is \<open>throwE\<close>,
  \<open>try/catch\<close> is \<open>catchE\<close>, and \<open>try/finally\<close> is \<open>finallyE\<close>.
\<close>

type_synonym ('s, 'e, 'a) sem = "'s \<Rightarrow> ('e + 'a) \<times> 's"

definition ret :: "'a \<Rightarrow> ('s, 'e, 'a) sem" where
  [sem_defs]: "ret x = (\<lambda>s. (Inr x, s))"

definition throwE :: "'e \<Rightarrow> ('s, 'e, 'a) sem" where
  [sem_defs]: "throwE e = (\<lambda>s. (Inl e, s))"

definition bindE :: "('s, 'e, 'a) sem \<Rightarrow> ('a \<Rightarrow> ('s, 'e, 'b) sem) \<Rightarrow> ('s, 'e, 'b) sem" where
  [sem_defs]: "bindE m f = (\<lambda>s. case m s of (Inl e, s') \<Rightarrow> (Inl e, s') | (Inr x, s') \<Rightarrow> f x s')"

definition thenE :: "('s, 'e, 'a) sem \<Rightarrow> ('s, 'e, 'b) sem \<Rightarrow> ('s, 'e, 'b) sem" where
  [sem_defs]: "thenE m k = bindE m (\<lambda>_. k)"

definition catchE :: "('s, 'e, 'a) sem \<Rightarrow> ('e \<Rightarrow> ('s, 'f, 'a) sem) \<Rightarrow> ('s, 'f, 'a) sem" where
  [sem_defs]: "catchE m h = (\<lambda>s. case m s of (Inl e, s') \<Rightarrow> h e s' | (Inr x, s') \<Rightarrow> (Inr x, s'))"

definition finallyE :: "('s, 'e, 'a) sem \<Rightarrow> ('s, 'e, unit) sem \<Rightarrow> ('s, 'e, 'a) sem" where
  [sem_defs]: "finallyE m f = (\<lambda>s. case m s of (r, s') \<Rightarrow>
     (case f s' of (Inl e, s'') \<Rightarrow> (Inl e, s'') | (Inr _, s'') \<Rightarrow> (r, s'')))"

definition getsE :: "('s \<Rightarrow> 'a) \<Rightarrow> ('s, 'e, 'a) sem" where
  [sem_defs]: "getsE f = (\<lambda>s. (Inr (f s), s))"

definition modifyE :: "('s \<Rightarrow> 's) \<Rightarrow> ('s, 'e, unit) sem" where
  [sem_defs]: "modifyE f = (\<lambda>s. (Inr (), f s))"

definition whenE :: "bool \<Rightarrow> ('s, 'e, unit) sem \<Rightarrow> ('s, 'e, unit) sem" where
  [sem_defs]: "whenE b m = (if b then m else ret ())"

definition of_sum :: "'e + 'a \<Rightarrow> ('s, 'e, 'a) sem" where
  [sem_defs]: "of_sum r = (\<lambda>s. (r, s))"

text \<open>\<open>for ... of\<close> with an asynchronous body, and \<open>Promise.all\<close> of two calls: both run, and the
  first failure is the result.\<close>

fun forE :: "('a \<Rightarrow> ('s, 'e, unit) sem) \<Rightarrow> 'a list \<Rightarrow> ('s, 'e, unit) sem" where
  "forE f [] = ret ()"
| "forE f (x # xs) = thenE (f x) (forE f xs)"

definition bothE :: "('s, 'e, 'a) sem \<Rightarrow> ('s, 'e, 'b) sem \<Rightarrow> ('s, 'e, 'a \<times> 'b) sem" where
  [sem_defs]: "bothE m k = (\<lambda>s. case m s of (x, s1) \<Rightarrow> (case k s1 of (y, s2) \<Rightarrow>
     ((case x of Inl e \<Rightarrow> Inl e | Inr a \<Rightarrow> (case y of Inl e \<Rightarrow> Inl e | Inr b \<Rightarrow> Inr (a, b))), s2)))"

text \<open>A computation on a part of the state, run inside the whole state.\<close>

definition zoomE :: "('t \<Rightarrow> 's) \<Rightarrow> ('s \<Rightarrow> 't \<Rightarrow> 't) \<Rightarrow> ('s, 'e, 'a) sem \<Rightarrow> ('t, 'e, 'a) sem" where
  [sem_defs]: "zoomE get put m = (\<lambda>t. case m (get t) of (r, s') \<Rightarrow> (r, put s' t))"

lemma bindE_assoc: "bindE (bindE m f) g = bindE m (\<lambda>x. bindE (f x) g)"
  by (auto simp: bindE_def split: prod.splits sum.splits)

lemma bindE_ret [simp]: "bindE (ret x) f = f x"
  by (simp add: bindE_def ret_def)

lemma bindE_ret_right [simp]: "bindE m ret = m"
  by (rule ext) (auto simp: bindE_def ret_def split: prod.splits sum.splits)

section \<open>Relations kept by a computation\<close>

text \<open>
  \<open>keeps R m\<close>: whatever \<open>m\<close> does, and whether or not it throws, the state before and the
  state after are related by \<open>R\<close>.  For a reflexive and transitive \<open>R\<close> every combinator
  keeps it, so a property of a whole method reduces to its primitive calls.
\<close>

definition keeps :: "('s \<Rightarrow> 's \<Rightarrow> bool) \<Rightarrow> ('s, 'e, 'a) sem \<Rightarrow> bool" where
  "keeps R m \<longleftrightarrow> (\<forall>s. R s (snd (m s)))"

lemma keepsI: "(\<And>s. R s (snd (m s))) \<Longrightarrow> keeps R m"
  by (simp add: keeps_def)

lemma keepsD: "keeps R m \<Longrightarrow> m s = (r, s') \<Longrightarrow> R s s'"
  unfolding keeps_def by (metis snd_conv)

locale step_relation =
  fixes R :: "'s \<Rightarrow> 's \<Rightarrow> bool"
  assumes R_refl: "R s s"
    and R_trans: "R s t \<Longrightarrow> R t u \<Longrightarrow> R s u"
begin

lemma keeps_ret [keeps_rules]: "keeps R (ret x)"
  by (simp add: keeps_def ret_def R_refl)

lemma keeps_throwE [keeps_rules]: "keeps R (throwE e)"
  by (simp add: keeps_def throwE_def R_refl)

lemma keeps_getsE [keeps_rules]: "keeps R (getsE f)"
  by (simp add: keeps_def getsE_def R_refl)

lemma keeps_of_sum [keeps_rules]: "keeps R (of_sum r)"
  by (simp add: keeps_def of_sum_def R_refl)

lemma keeps_modifyE: "(\<And>s. R s (f s)) \<Longrightarrow> keeps R (modifyE f)"
  by (simp add: keeps_def modifyE_def)

lemma keeps_bindE [keeps_rules]: "keeps R m \<Longrightarrow> (\<And>x. keeps R (f x)) \<Longrightarrow> keeps R (bindE m f)"
  unfolding keeps_def bindE_def
  by (auto split: prod.splits sum.splits intro: R_trans) (metis R_trans snd_conv)+

lemma keeps_bindE_val:
  "keeps R m \<Longrightarrow> (\<And>s x s'. m s = (Inr x, s') \<Longrightarrow> keeps R (f x)) \<Longrightarrow> keeps R (bindE m f)"
  unfolding keeps_def bindE_def
  by (auto split: prod.splits sum.splits intro: R_trans) (metis R_trans snd_conv)+

lemma keeps_thenE [keeps_rules]: "keeps R m \<Longrightarrow> keeps R k \<Longrightarrow> keeps R (thenE m k)"
  unfolding thenE_def by (rule keeps_bindE)

lemma keeps_catchE [keeps_rules]: "keeps R m \<Longrightarrow> (\<And>e. keeps R (h e)) \<Longrightarrow> keeps R (catchE m h)"
  unfolding keeps_def catchE_def
  by (auto split: prod.splits sum.splits) (metis R_trans snd_conv)+

lemma keeps_finallyE [keeps_rules]: "keeps R m \<Longrightarrow> keeps R f \<Longrightarrow> keeps R (finallyE m f)"
  unfolding keeps_def finallyE_def
  by (auto split: prod.splits sum.splits) (metis R_trans snd_conv)+

lemma keeps_bothE [keeps_rules]: "keeps R m \<Longrightarrow> keeps R k \<Longrightarrow> keeps R (bothE m k)"
  unfolding keeps_def bothE_def by (auto split: prod.splits) (metis R_trans snd_conv)

lemma keeps_forE [keeps_rules]: "(\<And>x. x \<in> set xs \<Longrightarrow> keeps R (f x)) \<Longrightarrow> keeps R (forE f xs)"
  by (induction xs) (auto intro: keeps_ret keeps_thenE)

lemma keeps_whenE [keeps_rules]: "(b \<Longrightarrow> keeps R m) \<Longrightarrow> keeps R (whenE b m)"
  by (simp add: whenE_def keeps_ret)

end

lemma keeps_mono: "keeps R m \<Longrightarrow> (\<And>s s'. R s s' \<Longrightarrow> Q s s') \<Longrightarrow> keeps Q m"
  by (simp add: keeps_def)

lemma keeps_if [keeps_rules]:
  "(b \<Longrightarrow> keeps R m) \<Longrightarrow> (\<not> b \<Longrightarrow> keeps R k) \<Longrightarrow> keeps R (if b then m else k)"
  by simp

lemma keeps_option [keeps_rules]:
  "(x = None \<Longrightarrow> keeps R m) \<Longrightarrow> (\<And>y. x = Some y \<Longrightarrow> keeps R (f y)) \<Longrightarrow> keeps R (case x of None \<Rightarrow> m | Some y \<Rightarrow> f y)"
  by (cases x) simp_all

lemma keeps_sum [keeps_rules]:
  "(\<And>y. x = Inl y \<Longrightarrow> keeps R (f y)) \<Longrightarrow> (\<And>z. x = Inr z \<Longrightarrow> keeps R (g z)) \<Longrightarrow> keeps R (case x of Inl y \<Rightarrow> f y | Inr z \<Rightarrow> g z)"
  by (cases x) simp_all

lemma keeps_prod [keeps_rules]:
  "(\<And>y z. x = (y, z) \<Longrightarrow> keeps R (f y z)) \<Longrightarrow> keeps R (case x of (y, z) \<Rightarrow> f y z)"
  by (cases x) simp

lemma keeps_list [keeps_rules]:
  "(x = [] \<Longrightarrow> keeps R m) \<Longrightarrow> (\<And>y ys. x = y # ys \<Longrightarrow> keeps R (f y ys)) \<Longrightarrow> keeps R (case x of [] \<Rightarrow> m | y # ys \<Rightarrow> f y ys)"
  by (cases x) simp_all

text \<open>What a run that returns has gone through.\<close>

lemma bindE_Inr_iff: "bindE m f s = (Inr y, s') \<longleftrightarrow> (\<exists>x s1. m s = (Inr x, s1) \<and> f x s1 = (Inr y, s'))"
  by (auto simp: bindE_def split: prod.splits sum.splits)

lemma thenE_Inr_iff: "thenE m k s = (Inr y, s') \<longleftrightarrow> (\<exists>x s1. m s = (Inr x, s1) \<and> k s1 = (Inr y, s'))"
  unfolding thenE_def bindE_Inr_iff ..

lemma atomic_Inr_iff:
  "ret x s = (Inr y, s') \<longleftrightarrow> x = y \<and> s' = s" "throwE e s = (Inr y, s') \<longleftrightarrow> False"
  "of_sum r s = (Inr y, s') \<longleftrightarrow> r = Inr y \<and> s' = s"
  by (auto simp: ret_def throwE_def of_sum_def)

lemmas run_Inr = bindE_Inr_iff thenE_Inr_iff atomic_Inr_iff

section \<open>Hoare triples with an exceptional postcondition\<close>

definition hoare :: "('s \<Rightarrow> bool) \<Rightarrow> ('s, 'e, 'a) sem \<Rightarrow> ('a \<Rightarrow> 's \<Rightarrow> bool) \<Rightarrow> ('e \<Rightarrow> 's \<Rightarrow> bool) \<Rightarrow> bool" where
  "hoare P m Q E \<longleftrightarrow> (\<forall>s. P s \<longrightarrow> (case m s of (Inr x, s') \<Rightarrow> Q x s' | (Inl e, s') \<Rightarrow> E e s'))"

lemma hoareI:
  "(\<And>s x s'. P s \<Longrightarrow> m s = (Inr x, s') \<Longrightarrow> Q x s') \<Longrightarrow>
   (\<And>s e s'. P s \<Longrightarrow> m s = (Inl e, s') \<Longrightarrow> E e s') \<Longrightarrow> hoare P m Q E"
  by (auto simp: hoare_def split: prod.splits sum.splits)

lemma hoareD_Inr: "hoare P m Q E \<Longrightarrow> P s \<Longrightarrow> m s = (Inr x, s') \<Longrightarrow> Q x s'"
  by (auto simp: hoare_def split: prod.splits sum.splits)

lemma hoareD_Inl: "hoare P m Q E \<Longrightarrow> P s \<Longrightarrow> m s = (Inl e, s') \<Longrightarrow> E e s'"
  by (auto simp: hoare_def split: prod.splits sum.splits)

lemma hoare_ret [hoare_rules]: "hoare (Q x) (ret x) Q E"
  by (simp add: hoare_def ret_def)

lemma hoare_throwE [hoare_rules]: "hoare (E e) (throwE e) Q E"
  by (simp add: hoare_def throwE_def)

lemma hoare_getsE [hoare_rules]: "hoare (\<lambda>s. Q (f s) s) (getsE f) Q E"
  by (simp add: hoare_def getsE_def)

lemma hoare_modifyE [hoare_rules]: "hoare (\<lambda>s. Q () (f s)) (modifyE f) Q E"
  by (simp add: hoare_def modifyE_def)

lemma hoare_bindE: "hoare P m M E \<Longrightarrow> (\<And>x. hoare (M x) (f x) Q E) \<Longrightarrow> hoare P (bindE m f) Q E"
  unfolding hoare_def bindE_def by (auto split: prod.splits sum.splits) (force+)?

lemma hoare_thenE: "hoare P m (\<lambda>_. M) E \<Longrightarrow> hoare M k Q E \<Longrightarrow> hoare P (thenE m k) Q E"
  unfolding thenE_def by (rule hoare_bindE) auto

lemma hoare_catchE: "hoare P m Q M \<Longrightarrow> (\<And>e. hoare (M e) (h e) Q E) \<Longrightarrow> hoare P (catchE m h) Q E"
  unfolding hoare_def catchE_def by (auto split: prod.splits sum.splits) (force+)?

lemma hoare_conseq:
  "hoare P m Q E \<Longrightarrow> (\<And>s. P' s \<Longrightarrow> P s) \<Longrightarrow> (\<And>x s. Q x s \<Longrightarrow> Q' x s) \<Longrightarrow>
   (\<And>e s. E e s \<Longrightarrow> E' e s) \<Longrightarrow> hoare P' m Q' E'"
  unfolding hoare_def by (fastforce split: prod.splits sum.splits)

section \<open>Lists and association lists\<close>

lemma map_of_update: "map_of (AList.update k v al) k' = (if k' = k then Some v else map_of al k')"
  by (simp add: update_conv')

lemma filter_map_keep:
  "(\<And>x. x \<in> set xs \<Longrightarrow> P (f x) = P x) \<Longrightarrow> filter P (map f xs) = map f (filter P xs)"
  by (induction xs) auto

lemma distinct_map_take: "distinct (map f xs) \<Longrightarrow> distinct (map f (take n xs))"
  by (metis distinct_take take_map)

lemma mem_take_filterD: "x \<in> set (take n (filter P xs)) \<Longrightarrow> x \<in> set xs \<and> P x"
  by (auto dest: in_set_takeD)

lemma distinct_key_eq: "distinct (map f xs) \<Longrightarrow> x \<in> set xs \<Longrightarrow> y \<in> set xs \<Longrightarrow> f x = f y \<Longrightarrow> x = y"
  by (meson distinct_map inj_onD)

text \<open>Replacing the elements with a given key, as an in-place update of a \<open>Map\<close> value does.\<close>

definition update_where :: "('a \<Rightarrow> bool) \<Rightarrow> ('a \<Rightarrow> 'a) \<Rightarrow> 'a list \<Rightarrow> 'a list" where
  "update_where P f xs = map (\<lambda>x. if P x then f x else x) xs"

lemma update_where_Nil [simp]: "update_where P f [] = []"
  by (simp add: update_where_def)

lemma update_where_Cons [simp]:
  "update_where P f (x # xs) = (if P x then f x else x) # update_where P f xs"
  by (simp add: update_where_def)

lemma length_update_where [simp]: "length (update_where P f xs) = length xs"
  by (simp add: update_where_def)

lemma update_where_append [simp]:
  "update_where P f (xs @ ys) = update_where P f xs @ update_where P f ys"
  by (simp add: update_where_def)

lemma map_update_where_same [simp]:
  "(\<And>x. g (f x) = g x) \<Longrightarrow> map g (update_where P f xs) = map g xs"
  by (simp add: update_where_def)

lemma update_where_false: "(\<And>x. x \<in> set xs \<Longrightarrow> \<not> P x) \<Longrightarrow> update_where P f xs = xs"
  by (simp add: update_where_def map_idI)

lemma update_where_none [simp]: "update_where (\<lambda>_. False) f xs = xs"
  by (simp add: update_where_false)

lemma set_update_where: "set (update_where P f xs) = (\<lambda>x. if P x then f x else x) ` set xs"
  by (simp add: update_where_def)

lemma list_all2_update_where:
  "(\<And>x. x \<in> set xs \<Longrightarrow> \<not> P x \<Longrightarrow> R x x) \<Longrightarrow> (\<And>x. x \<in> set xs \<Longrightarrow> P x \<Longrightarrow> R x (f x)) \<Longrightarrow> list_all2 R xs (update_where P f xs)"
  by (induction xs) auto

lemma update_where_cong:
  "(\<And>x. x \<in> set xs \<Longrightarrow> P x = Q x) \<Longrightarrow> (\<And>x. x \<in> set xs \<Longrightarrow> P x \<Longrightarrow> f x = g x) \<Longrightarrow>
   update_where P f xs = update_where Q g xs"
  by (simp add: update_where_def)

end
