(* ===== verification/Regex.thy ===== *)
theory Regex imports JsString begin

text \<open>
  The regular expressions of the source are transliterated into the abstract syntax below
  and matched the way ECMAScript matches them: by backtracking, with the alternatives of a
  choice in order and a repetition taking as much as it can first.  \<open>run r st\<close> is the list
  of all ways to match \<open>r\<close> from a position, in the order in which a backtracking matcher
  finds them, so its head is the match JavaScript reports.  A position is the character
  before it (for \<open>^\<close> and \<open>\b\<close>), the rest of the input, and the groups captured so far.
\<close>

datatype re =
    Eps
  | Sat "char \<Rightarrow> bool"
  | Seq re re
  | Alt re re
  | Rep re nat nat     \<comment> \<open>\<open>r{lo,hi}\<close>, greedy\<close>
  | Star re            \<comment> \<open>\<open>r*\<close>, greedy\<close>
  | Bol                \<comment> \<open>\<open>^\<close>\<close>
  | Eol                \<comment> \<open>\<open>$\<close>\<close>
  | WordB              \<comment> \<open>\<open>\b\<close>\<close>
  | Cap nat re         \<comment> \<open>a capturing group with its number\<close>

type_synonym pos = "char option \<times> string \<times> (nat \<times> string) list"

abbreviation rest_of :: "pos \<Rightarrow> string" where "rest_of st \<equiv> fst (snd st)"

definition word_before :: "char option \<Rightarrow> bool" where
  "word_before p \<longleftrightarrow> (case p of None \<Rightarrow> False | Some c \<Rightarrow> is_word c)"

definition word_after :: "string \<Rightarrow> bool" where
  "word_after s \<longleftrightarrow> (case s of [] \<Rightarrow> False | c # _ \<Rightarrow> is_word c)"

definition boundary :: "char option \<Rightarrow> string \<Rightarrow> bool" where
  "boundary p s \<longleftrightarrow> word_before p \<noteq> word_after s"

text \<open>
  Up to \<open>hi\<close> rounds, at least \<open>lo\<close> of them.  Once the minimum is met, a round that
  consumes nothing is rejected, as in ECMAScript's RepeatMatcher.
\<close>

primrec iter :: "(pos \<Rightarrow> pos list) \<Rightarrow> nat \<Rightarrow> nat \<Rightarrow> pos \<Rightarrow> pos list" where
  "iter f 0 lo st = [st]"
| "iter f (Suc hi) lo st =
     concat (map (iter f hi (lo - 1))
       (if lo = 0 then filter (\<lambda>st'. length (rest_of st') < length (rest_of st)) (f st) else f st))
     @ (if lo = 0 then [st] else [])"

definition consumed :: "string \<Rightarrow> string \<Rightarrow> string" where
  "consumed s s' = take (length s - length s') s"

primrec run :: "re \<Rightarrow> pos \<Rightarrow> pos list" where
  "run Eps = (\<lambda>st. [st])"
| "run (Sat P) = (\<lambda>(p, s, cs). case s of [] \<Rightarrow> [] | c # t \<Rightarrow> (if P c then [(Some c, t, cs)] else []))"
| "run (Seq a b) = (\<lambda>st. concat (map (run b) (run a st)))"
| "run (Alt a b) = (\<lambda>st. run a st @ run b st)"
| "run (Rep r lo hi) = iter (run r) hi lo"
| "run (Star r) = (\<lambda>st. iter (run r) (length (rest_of st)) 0 st)"
| "run Bol = (\<lambda>(p, s, cs). if p = None then [(p, s, cs)] else [])"
| "run Eol = (\<lambda>(p, s, cs). if s = [] then [(p, s, cs)] else [])"
| "run WordB = (\<lambda>(p, s, cs). if boundary p s then [(p, s, cs)] else [])"
| "run (Cap n r) = (\<lambda>(p, s, cs). map (\<lambda>(p', s', cs'). (p', s', (n, consumed s s') # cs')) (run r (p, s, cs)))"

text \<open>The equations at a position, which do not expose the matcher of a repeated expression.\<close>

declare run.simps [simp del]

lemma run_at [simp]:
  "run Eps st = [st]"
  "run (Sat P) (p, [], cs) = []"
  "run (Sat P) (p, c # t, cs) = (if P c then [(Some c, t, cs)] else [])"
  "run (Seq a b) st = concat (map (run b) (run a st))"
  "run (Alt a b) st = run a st @ run b st"
  "run (Rep r lo hi) st = iter (run r) hi lo st"
  "run (Star r) st = iter (run r) (length (rest_of st)) 0 st"
  "run Bol (p, s, cs) = (if p = None then [(p, s, cs)] else [])"
  "run Eol (p, s, cs) = (if s = [] then [(p, s, cs)] else [])"
  "run WordB (p, s, cs) = (if boundary p s then [(p, s, cs)] else [])"
  "run (Cap n r) (p, s, cs) =
     map (\<lambda>(p', s', cs'). (p', s', (n, consumed s s') # cs')) (run r (p, s, cs))"
  by (simp_all add: run.simps)

section \<open>Shorthands for the literals of the source\<close>

definition chr :: "char \<Rightarrow> re" where "chr c = Sat (\<lambda>x. x = c)"
definition one_of :: "string \<Rightarrow> re" where "one_of cs = Sat (\<lambda>x. x \<in> set cs)"
definition digit :: re where "digit = Sat is_digit"
definition opt :: "re \<Rightarrow> re" where "opt r = Rep r 0 1"
definition plus :: "re \<Rightarrow> re" where "plus r = Seq r (Star r)"
definition times :: "re \<Rightarrow> nat \<Rightarrow> re" where "times r n = Rep r n n"

text \<open>\<open>.\<close> matches anything but a line terminator.\<close>

definition not_newline :: "char \<Rightarrow> bool" where
  "not_newline c \<longleftrightarrow> c \<noteq> CHR 0x0A \<and> c \<noteq> CHR 0x0D"

definition dot :: re where "dot = Sat not_newline"

fun seqs :: "re list \<Rightarrow> re" where
  "seqs [] = Eps"
| "seqs [r] = r"
| "seqs (r # rs) = Seq r (seqs rs)"

fun alts :: "re list \<Rightarrow> re" where
  "alts [] = Sat (\<lambda>_. False)"
| "alts [r] = r"
| "alts (r # rs) = Alt r (alts rs)"

text \<open>A literal string, and one matched without regard to case (the \<open>i\<close> flag).\<close>

definition lit :: "string \<Rightarrow> re" where "lit s = seqs (map chr s)"
definition lit_i :: "string \<Rightarrow> re" where
  "lit_i s = seqs (map (\<lambda>c. Sat (\<lambda>x. lower_char x = lower_char c)) s)"

lemmas re_shorthands = chr_def one_of_def digit_def opt_def plus_def times_def dot_def lit_def lit_i_def

section \<open>Matching, testing and replacing\<close>

definition match_at :: "re \<Rightarrow> char option \<Rightarrow> string \<Rightarrow> (string \<times> string \<times> (nat \<times> string) list) option" where
  "match_at r p s = (case run r (p, s, []) of
     [] \<Rightarrow> None
   | (_, s', cs) # _ \<Rightarrow> Some (consumed s s', s', cs))"

text \<open>\<open>RegExp.prototype.test\<close>: some position matches.\<close>

fun test_from :: "re \<Rightarrow> char option \<Rightarrow> string \<Rightarrow> bool" where
  "test_from r p [] = (run r (p, [], []) \<noteq> [])"
| "test_from r p (c # s) = (run r (p, c # s, []) \<noteq> [] \<or> test_from r (Some c) s)"

definition re_test :: "re \<Rightarrow> string \<Rightarrow> bool" where
  "re_test r s = test_from r None s"

text \<open>\<open>String.prototype.match\<close> without the \<open>g\<close> flag: the captured groups of the first match.\<close>

fun captures_from :: "re \<Rightarrow> char option \<Rightarrow> string \<Rightarrow> (nat \<times> string) list option" where
  "captures_from r p [] = map_option (\<lambda>(_, _, cs). cs) (match_at r p [])"
| "captures_from r p (c # s) = (case match_at r p (c # s) of
     Some (_, _, cs) \<Rightarrow> Some cs
   | None \<Rightarrow> captures_from r (Some c) s)"

definition re_match :: "re \<Rightarrow> string \<Rightarrow> (nat \<times> string) list option" where
  "re_match r s = captures_from r None s"

definition group :: "(nat \<times> string) list \<Rightarrow> nat \<Rightarrow> string" where
  "group cs n = (case map_of cs n of None \<Rightarrow> [] | Some s \<Rightarrow> s)"

lemma consumed_Nil_iff [simp]: "length s' \<le> length s \<Longrightarrow> consumed s s' = [] \<longleftrightarrow> length s' = length s"
  by (auto simp: consumed_def)

text \<open>\<open>s.replace(/r/g, f)\<close>: leftmost matches first, the search resuming after each match.\<close>

function replace_from :: "re \<Rightarrow> (string \<Rightarrow> string) \<Rightarrow> char option \<Rightarrow> string \<Rightarrow> string" where
  "replace_from r f p s = (case match_at r p s of
     None \<Rightarrow> (case s of [] \<Rightarrow> [] | c # t \<Rightarrow> c # replace_from r f (Some c) t)
   | Some (m, s', cs) \<Rightarrow>
       (if m = [] then f [] @ (case s of [] \<Rightarrow> [] | c # t \<Rightarrow> c # replace_from r f (Some c) t)
        else f m @ replace_from r f (Some (last m)) s'))"
  by pat_completeness auto
termination
  by (relation "measure (\<lambda>(r, f, p, s). length s)")
     (auto simp: match_at_def consumed_def split: list.splits)

declare replace_from.simps [simp del]

definition replace_all :: "re \<Rightarrow> (string \<Rightarrow> string) \<Rightarrow> string \<Rightarrow> string" where
  "replace_all r f s = replace_from r f None s"

section \<open>What a match consumes\<close>

text \<open>The position after reading \<open>m\<close>.\<close>

definition after :: "char option \<Rightarrow> string \<Rightarrow> char option" where
  "after p m = (if m = [] then p else Some (last m))"

lemma after_Nil [simp]: "after p [] = p"
  by (simp add: after_def)

lemma after_Cons [simp]: "after p (c # m) = after (Some c) m"
  by (simp add: after_def)

lemma after_append [simp]: "after (after p m) n = after p (m @ n)"
  by (simp add: after_def)

lemma after_not_Nil: "m \<noteq> [] \<Longrightarrow> after p m = Some (last m)"
  by (simp add: after_def)

definition reads :: "pos \<Rightarrow> string \<Rightarrow> pos \<Rightarrow> bool" where
  "reads st m st' \<longleftrightarrow> rest_of st = m @ rest_of st' \<and> fst st' = after (fst st) m"

lemma reads_trans: "reads st m st' \<Longrightarrow> reads st' n st'' \<Longrightarrow> reads st (m @ n) st''"
  by (simp add: reads_def)

lemma reads_refl: "reads st [] st"
  by (simp add: reads_def)

lemma iter_reads:
  assumes "\<And>st st'. st' \<in> set (f st) \<Longrightarrow> \<exists>m. reads st m st'"
  shows "st' \<in> set (iter f hi lo st) \<Longrightarrow> \<exists>m. reads st m st'"
proof (induction hi arbitrary: lo st)
  case 0
  then have "reads st [] st'" by (simp add: reads_refl)
  then show ?case by blast
next
  case (Suc hi)
  show ?case
  proof (cases "lo = 0 \<and> st' = st")
    case True
    then have "reads st [] st'" by (simp add: reads_refl)
    then show ?thesis by blast
  next
    case False
    with Suc.prems obtain mid where "mid \<in> set (f st)" and "st' \<in> set (iter f hi (lo - 1) mid)"
      by (auto split: if_splits)
    with assms Suc.IH show ?thesis by (meson reads_trans)
  qed
qed

lemma run_reads: "st' \<in> set (run r st) \<Longrightarrow> \<exists>m. reads st m st'"
proof (induction r arbitrary: st st')
  case (Sat P)
  then obtain p c t cs where "st = (p, c # t, cs)" and "st' = (Some c, t, cs)"
    by (auto simp: run.simps split: prod.splits list.splits if_splits)
  then have "reads st [c] st'" by (simp add: reads_def)
  then show ?case by blast
next
  case (Seq a b)
  then obtain mid where "mid \<in> set (run a st)" and "st' \<in> set (run b mid)" by auto
  with Seq.IH show ?case by (meson reads_trans)
next
  case (Rep r lo hi)
  then show ?case using iter_reads [of "run r"] by auto
next
  case (Star r)
  then show ?case using iter_reads [of "run r"] by auto
next
  case (Cap n r)
  obtain p s cs where st: "st = (p, s, cs)" by (cases st)
  with Cap.prems obtain p' s' cs' where mid: "(p', s', cs') \<in> set (run r st)"
    and st': "st' = (p', s', (n, consumed s s') # cs')" by auto
  obtain m where "reads st m (p', s', cs')" using Cap.IH [OF mid] by blast
  then have "reads st m st'" by (simp add: reads_def st')
  then show ?case by blast
qed (auto simp: run.simps reads_def split: if_splits prod.splits)

lemma consumed_append [simp]: "consumed (m @ s) s = m"
  by (simp add: consumed_def)

lemma match_at_reads:
  assumes "match_at r p s = Some (m, s', cs)"
  shows "s = m @ s'"
proof -
  from assms obtain p' where "(p', s', cs) \<in> set (run r (p, s, []))" and m: "m = consumed s s'"
    by (auto simp: match_at_def split: list.splits prod.splits)
  then obtain n where "s = n @ s'" by (auto simp: reads_def dest: run_reads)
  with m show ?thesis by simp
qed

section \<open>Runs of one class\<close>

lemma run_Seq_nonempty: "run (Seq a b) st \<noteq> [] \<longleftrightarrow> (\<exists>st' \<in> set (run a st). run b st' \<noteq> [])"
  by auto

lemma iter_Sat:
  "st' \<in> set (iter (run (Sat P)) hi lo (p, s, cs)) \<longleftrightarrow>
   (\<exists>m t. s = m @ t \<and> st' = (after p m, t, cs) \<and> (\<forall>c \<in> set m. P c) \<and> length m \<le> hi \<and> (lo \<le> length m \<or> hi < lo \<and> length m = hi))"
proof (induction hi arbitrary: lo p s)
  case 0
  then show ?case by auto
next
  case (Suc hi)
  show ?case
  proof (cases s)
    case Nil
    then show ?thesis by auto
  next
    case (Cons c t)
    show ?thesis
    proof (cases "P c")
      case False
      with Cons show ?thesis by (auto simp: Cons_eq_append_conv)
    next
      case True
      have "st' \<in> set (iter (run (Sat P)) (Suc hi) lo (p, s, cs)) \<longleftrightarrow>
          st' \<in> set (iter (run (Sat P)) hi (lo - 1) (Some c, t, cs)) \<or> lo = 0 \<and> st' = (p, s, cs)"
        using Cons True by auto
      also have "\<dots> \<longleftrightarrow> (\<exists>m u. s = m @ u \<and> st' = (after p m, u, cs) \<and> (\<forall>c \<in> set m. P c) \<and>
          length m \<le> Suc hi \<and> (lo \<le> length m \<or> Suc hi < lo \<and> length m = Suc hi))"
        using Cons True unfolding Suc
        by (auto simp: Cons_eq_append_conv)
      finally show ?thesis .
    qed
  qed
qed

lemma iter_Sat_le:
  "lo \<le> hi \<Longrightarrow> st' \<in> set (iter (run (Sat P)) hi lo (p, s, cs)) \<longleftrightarrow>
   (\<exists>m t. s = m @ t \<and> st' = (after p m, t, cs) \<and> (\<forall>c \<in> set m. P c) \<and> lo \<le> length m \<and> length m \<le> hi)"
  by (auto simp: iter_Sat)

lemma run_Star_Sat:
  "st' \<in> set (run (Star (Sat P)) (p, s, cs)) \<longleftrightarrow>
   (\<exists>m t. s = m @ t \<and> st' = (after p m, t, cs) \<and> (\<forall>c \<in> set m. P c))"
  by (auto simp: iter_Sat)

section \<open>The language of an expression\<close>

text \<open>
  \<open>consumes r L\<close>: wherever it is tried, \<open>r\<close> can consume exactly the words of \<open>L\<close>, without
  looking at what surrounds them and without capturing.  The rules follow the syntax, so the
  language of an expression is computed by \<open>intro consumes_rules\<close>.
\<close>

definition consumes :: "re \<Rightarrow> (string \<Rightarrow> bool) \<Rightarrow> bool" where
  "consumes r L \<longleftrightarrow> (\<forall>p s cs st'. st' \<in> set (run r (p, s, cs)) \<longleftrightarrow>
     (\<exists>m t. s = m @ t \<and> st' = (after p m, t, cs) \<and> L m))"

named_theorems consumes_rules "the language of an expression"

lemma consumesD: "consumes r L \<Longrightarrow> st' \<in> set (run r (p, s, cs)) \<longleftrightarrow>
     (\<exists>m t. s = m @ t \<and> st' = (after p m, t, cs) \<and> L m)"
  unfolding consumes_def by blast

lemma consumesI:
  "(\<And>p s cs st'. st' \<in> set (run r (p, s, cs)) \<longleftrightarrow>
     (\<exists>m t. s = m @ t \<and> st' = (after p m, t, cs) \<and> L m)) \<Longrightarrow> consumes r L"
  unfolding consumes_def by blast

lemma ex_word:
  "(\<exists>ms t. s = f ms @ t \<and> Q (f ms) t \<and> X ms) \<longleftrightarrow> (\<exists>m t. s = m @ t \<and> Q m t \<and> (\<exists>ms. m = f ms \<and> X ms))"
  by metis

lemma ex_first:
  "(\<exists>u v. m = u @ v \<and> (\<exists>x. u = [x] \<and> P x) \<and> L v) \<longleftrightarrow> (\<exists>x v. m = x # v \<and> P x \<and> L v)"
  by (metis append_Cons append_Nil)

lemma consumes_cong: "consumes r L \<Longrightarrow> (\<And>m. L m = L' m) \<Longrightarrow> consumes r L'"
  by (simp add: consumes_def)

lemma consumes_Eps [consumes_rules]: "consumes Eps (\<lambda>m. m = [])"
  by (auto simp: consumes_def)

lemma consumes_Sat [consumes_rules]: "consumes (Sat P) (\<lambda>m. \<exists>c. m = [c] \<and> P c)"
proof -
  have "st' \<in> set (run (Sat P) (p, s, cs)) \<longleftrightarrow>
      (\<exists>m t. s = m @ t \<and> st' = (after p m, t, cs) \<and> (\<exists>c. m = [c] \<and> P c))" for p s cs st'
    by (cases s) auto
  then show ?thesis by (simp add: consumes_def)
qed

lemma consumes_Seq [consumes_rules]:
  assumes "consumes a L" and "consumes b M"
  shows "consumes (Seq a b) (\<lambda>m. \<exists>u v. m = u @ v \<and> L u \<and> M v)"
  unfolding consumes_def
proof (intro allI)
  fix p s cs st'
  have "st' \<in> set (run (Seq a b) (p, s, cs)) \<longleftrightarrow> (\<exists>mid \<in> set (run a (p, s, cs)). st' \<in> set (run b mid))"
    by simp
  also have "\<dots> \<longleftrightarrow> (\<exists>u t. s = u @ t \<and> L u \<and> st' \<in> set (run b (after p u, t, cs)))"
    unfolding Bex_def consumesD [OF assms(1)] by blast
  also have "\<dots> \<longleftrightarrow> (\<exists>m t. s = m @ t \<and> st' = (after p m, t, cs) \<and> (\<exists>u v. m = u @ v \<and> L u \<and> M v))"
    by (auto simp: consumesD [OF assms(2)]) (metis append.assoc)+
  finally show "st' \<in> set (run (Seq a b) (p, s, cs)) \<longleftrightarrow>
      (\<exists>m t. s = m @ t \<and> st' = (after p m, t, cs) \<and> (\<exists>u v. m = u @ v \<and> L u \<and> M v))" .
qed

lemma consumes_Alt [consumes_rules]:
  "consumes a L \<Longrightarrow> consumes b M \<Longrightarrow> consumes (Alt a b) (\<lambda>m. L m \<or> M m)"
  unfolding consumes_def by simp blast

lemma consumes_iter:
  assumes "consumes r L" and "\<And>m. L m \<Longrightarrow> m \<noteq> []" and "lo \<le> hi"
  shows "st' \<in> set (iter (run r) hi lo (p, s, cs)) \<longleftrightarrow>
    (\<exists>ms t. s = concat ms @ t \<and> st' = (after p (concat ms), t, cs) \<and> (\<forall>m \<in> set ms. L m) \<and>
       lo \<le> length ms \<and> length ms \<le> hi)"
  using assms(3)
proof (induction hi arbitrary: lo p s)
  case 0
  then show ?case by auto
next
  case (Suc hi)
  let ?round = "if lo = 0 then filter (\<lambda>st'. length (rest_of st') < length s) (run r (p, s, cs)) else run r (p, s, cs)"
  have step: "mid \<in> set ?round \<longleftrightarrow> (\<exists>m t. s = m @ t \<and> mid = (after p m, t, cs) \<and> L m)" for mid
    using assms(2) by (auto simp: consumesD [OF assms(1)])
  have split: "st' \<in> set (iter (run r) (Suc hi) lo (p, s, cs)) \<longleftrightarrow>
      (\<exists>mid \<in> set ?round. st' \<in> set (iter (run r) hi (lo - 1) mid)) \<or> lo = 0 \<and> st' = (p, s, cs)"
    by auto
  have "lo - 1 \<le> hi" using Suc.prems by simp
  note IH = Suc.IH [OF this]
  show ?case
  proof
    assume "st' \<in> set (iter (run r) (Suc hi) lo (p, s, cs))"
    then consider m t where "s = m @ t" "L m" "st' \<in> set (iter (run r) hi (lo - 1) (after p m, t, cs))"
      | "lo = 0" "st' = (p, s, cs)"
      unfolding split Bex_def step by blast
    then show "\<exists>ms t. s = concat ms @ t \<and> st' = (after p (concat ms), t, cs) \<and> (\<forall>m \<in> set ms. L m) \<and>
       lo \<le> length ms \<and> length ms \<le> Suc hi"
    proof cases
      case (1 m t)
      from 1(3) obtain ms u where "t = concat ms @ u" "st' = (after (after p m) (concat ms), u, cs)"
        "\<forall>m \<in> set ms. L m" "lo - 1 \<le> length ms" "length ms \<le> hi" unfolding IH by blast
      with 1 show ?thesis by (intro exI [of _ "m # ms"] exI [of _ u]) auto
    next
      case 2
      then show ?thesis by (intro exI [of _ "[]"] exI [of _ s]) simp
    qed
  next
    assume "\<exists>ms t. s = concat ms @ t \<and> st' = (after p (concat ms), t, cs) \<and> (\<forall>m \<in> set ms. L m) \<and>
       lo \<le> length ms \<and> length ms \<le> Suc hi"
    then obtain ms t where ms: "s = concat ms @ t" "st' = (after p (concat ms), t, cs)"
      "\<forall>m \<in> set ms. L m" "lo \<le> length ms" "length ms \<le> Suc hi" by blast
    show "st' \<in> set (iter (run r) (Suc hi) lo (p, s, cs))"
    proof (cases ms)
      case Nil
      with ms show ?thesis by simp
    next
      case (Cons m ms')
      with ms have "st' \<in> set (iter (run r) hi (lo - 1) (after p m, concat ms' @ t, cs))"
        unfolding IH by (intro exI [of _ ms'] exI [of _ t]) auto
      moreover from Cons ms have "(after p m, concat ms' @ t, cs) \<in> set ?round" unfolding step by auto
      ultimately show ?thesis unfolding split by blast
    qed
  qed
qed

lemma consumes_Rep [consumes_rules]:
  assumes "consumes r L" and "\<And>m. L m \<Longrightarrow> m \<noteq> []" and "lo \<le> hi"
  shows "consumes (Rep r lo hi) (\<lambda>w. \<exists>ms. w = concat ms \<and> (\<forall>m \<in> set ms. L m) \<and> lo \<le> length ms \<and> length ms \<le> hi)"
proof (rule consumesI)
  fix p s cs st'
  show "st' \<in> set (run (Rep r lo hi) (p, s, cs)) \<longleftrightarrow> (\<exists>m t. s = m @ t \<and> st' = (after p m, t, cs) \<and>
      (\<exists>ms. m = concat ms \<and> (\<forall>m \<in> set ms. L m) \<and> lo \<le> length ms \<and> length ms \<le> hi))"
    unfolding run_at ex_word [where Q = "\<lambda>m t. st' = (after p m, t, cs)", symmetric]
    by (rule consumes_iter [OF assms])
qed

lemma length_concat_ge: "(\<And>m. m \<in> set ms \<Longrightarrow> m \<noteq> []) \<Longrightarrow> length ms \<le> length (concat ms)"
proof (induction ms)
  case Nil
  then show ?case by simp
next
  case (Cons m ms)
  then have "length ms \<le> length (concat ms)" and "m \<noteq> []" by auto
  then show ?case by (cases m) auto
qed

lemma consumes_Star [consumes_rules]:
  assumes "consumes r L" and "\<And>m. L m \<Longrightarrow> m \<noteq> []"
  shows "consumes (Star r) (\<lambda>w. \<exists>ms. w = concat ms \<and> (\<forall>m \<in> set ms. L m))"
proof (rule consumesI)
  fix p s cs st'
  have "length ms \<le> length (concat ms @ t)" if "\<forall>m \<in> set ms. L m" for ms and t :: string
    using length_concat_ge [of ms] that assms(2) by fastforce
  then have "st' \<in> set (run (Star r) (p, s, cs)) \<longleftrightarrow>
      (\<exists>ms t. s = concat ms @ t \<and> st' = (after p (concat ms), t, cs) \<and> (\<forall>m \<in> set ms. L m))"
    using consumes_iter [OF assms(1) assms(2) le0, of st' "length (rest_of (p, s, cs))" p s cs] by fastforce
  also have "\<dots> \<longleftrightarrow> (\<exists>m t. s = m @ t \<and> st' = (after p m, t, cs) \<and> (\<exists>ms. m = concat ms \<and> (\<forall>m \<in> set ms. L m)))"
    by (rule ex_word [where Q = "\<lambda>m t. st' = (after p m, t, cs)"])
  finally show "st' \<in> set (run (Star r) (p, s, cs)) \<longleftrightarrow>
      (\<exists>m t. s = m @ t \<and> st' = (after p m, t, cs) \<and> (\<exists>ms. m = concat ms \<and> (\<forall>m \<in> set ms. L m)))" .
qed

section \<open>Anchored expressions\<close>

lemma test_from_Bol: "test_from (Seq Bol r) (Some c) s = False"
  by (induction "Seq Bol r" "Some c" s arbitrary: c rule: test_from.induct) auto

lemma re_test_Bol: "re_test (Seq Bol r) s \<longleftrightarrow> run r (None, s, []) \<noteq> []"
  by (cases s) (simp_all add: re_test_def test_from_Bol)

text \<open>\<open>/^r$/.test(s)\<close>: the whole string is a word of \<open>r\<close>.\<close>

lemma re_test_anchored:
  assumes "consumes r L"
  shows "re_test (seqs [Bol, r, Eol]) s \<longleftrightarrow> L s"
proof -
  have "re_test (seqs [Bol, r, Eol]) s \<longleftrightarrow> (\<exists>st' \<in> set (run r (None, s, [])). run Eol st' \<noteq> [])"
    by (simp add: re_test_Bol run_Seq_nonempty del: run_at(4))
  also have "\<dots> \<longleftrightarrow> L s"
    by (auto simp: consumesD [OF assms] Bex_def)
  finally show ?thesis .
qed

text \<open>Words of one class, and words of a literal.\<close>

lemma concat_singletons: "(\<forall>m \<in> set ms. \<exists>c. m = [c] \<and> P c) \<Longrightarrow> (\<forall>c \<in> set (concat ms). P c) \<and> length (concat ms) = length ms"
  by (induction ms) auto

lemma consumes_Star_Sat [consumes_rules]: "consumes (Star (Sat P)) (\<lambda>w. \<forall>c \<in> set w. P c)"
  unfolding consumes_def run_Star_Sat by blast

lemma consumes_Rep_Sat [consumes_rules]:
  "lo \<le> hi \<Longrightarrow> consumes (Rep (Sat P) lo hi) (\<lambda>w. (\<forall>c \<in> set w. P c) \<and> lo \<le> length w \<and> length w \<le> hi)"
  unfolding consumes_def run_at iter_Sat_le by blast

lemma consumes_opt [consumes_rules]:
  assumes "consumes r L" and "\<And>m. L m \<Longrightarrow> m \<noteq> []"
  shows "consumes (opt r) (\<lambda>m. m = [] \<or> L m)"
proof -
  have "consumes (opt r) (\<lambda>w. \<exists>ms. w = concat ms \<and> (\<forall>m \<in> set ms. L m) \<and> 0 \<le> length ms \<and> length ms \<le> 1)"
    unfolding opt_def by (rule consumes_Rep [OF assms]) auto
  then show ?thesis
  proof (rule consumes_cong)
    fix w
    show "(\<exists>ms. w = concat ms \<and> (\<forall>m \<in> set ms. L m) \<and> 0 \<le> length ms \<and> length ms \<le> 1) = (w = [] \<or> L w)"
    proof
      assume "\<exists>ms. w = concat ms \<and> (\<forall>m \<in> set ms. L m) \<and> 0 \<le> length ms \<and> length ms \<le> 1"
      then obtain ms where "w = concat ms" "\<forall>m \<in> set ms. L m" "length ms \<le> 1" by blast
      then show "w = [] \<or> L w" by (cases ms) auto
    next
      assume "w = [] \<or> L w"
      then show "\<exists>ms. w = concat ms \<and> (\<forall>m \<in> set ms. L m) \<and> 0 \<le> length ms \<and> length ms \<le> 1"
        by (elim disjE) (auto intro: exI [of _ "[]"] exI [of _ "[w]"])
    qed
  qed
qed

lemma consumes_plus_Sat [consumes_rules]: "consumes (plus (Sat P)) (\<lambda>w. w \<noteq> [] \<and> (\<forall>c \<in> set w. P c))"
  unfolding plus_def
proof (rule consumes_cong [OF consumes_Seq [OF consumes_Sat consumes_Star_Sat]])
  show "(\<exists>u v. m = u @ v \<and> (\<exists>c. u = [c] \<and> P c) \<and> (\<forall>c \<in> set v. P c)) = (m \<noteq> [] \<and> (\<forall>c \<in> set m. P c))" for m
    unfolding ex_first by (cases m) auto
qed

lemma consumes_seqs_sat:
  "consumes (seqs (map (\<lambda>c. Sat (Q c)) ps)) (\<lambda>m. list_all2 Q ps m)"
proof (induction ps rule: induct_list012)
  case 1
  show ?case by (simp add: consumes_Eps)
next
  case (2 c)
  show ?case
    by (simp, rule consumes_cong [OF consumes_Sat]) (auto simp: list_all2_Cons1)
next
  case (3 c d ps)
  show ?case
    unfolding list.map seqs.simps
  proof (rule consumes_cong [OF consumes_Seq [OF consumes_Sat 3(2) [unfolded list.map]]])
    show "(\<exists>u v. m = u @ v \<and> (\<exists>x. u = [x] \<and> Q c x) \<and> list_all2 Q (d # ps) v) = list_all2 Q (c # d # ps) m" for m
      unfolding ex_first by (simp only: list_all2_Cons1 [of Q c])
  qed
qed

lemma consumes_lit [consumes_rules]: "consumes (lit s) (\<lambda>m. m = s)"
proof -
  have "consumes (lit s) (\<lambda>m. list_all2 (\<lambda>c x. x = c) s m)"
    unfolding lit_def chr_def by (rule consumes_seqs_sat)
  then show ?thesis
    by (rule consumes_cong) (metis (mono_tags, lifting) list.rel_eq list.rel_mono_strong)
qed

lemma consumes_lit_i [consumes_rules]: "consumes (lit_i s) (\<lambda>m. to_lower m = to_lower s)"
proof -
  have "consumes (lit_i s) (\<lambda>m. list_all2 (\<lambda>c x. lower_char x = lower_char c) s m)"
    unfolding lit_i_def by (rule consumes_seqs_sat)
  then show ?thesis
    by (rule consumes_cong)
       (auto simp: to_lower_def list_all2_conv_all_nth list_eq_iff_nth_eq)
qed

end
