(* ===== verification/Json.thy ===== *)
theory Json imports JsString "HOL-Library.List_Lexorder" "HOL-Library.Char_ord" begin

text \<open>
  JSON documents as JavaScript holds them, the dot paths of \<open>packages/core/src/mask/paths.ts\<close>
  and the log shapes of \<open>packages/core/src/util/payload-shape.ts\<close>.

  A number is kept as its canonical text, the result of \<open>String(n)\<close>: two finite numbers are
  the same exactly when their texts are (but for the sign of zero), and the engine uses
  numbers through that text only.  An object is the list of its own entries in enumeration
  order.  \<open>JNative k\<close> is what a property access finds on \<open>Object.prototype\<close> when the object
  has no own property \<open>k\<close>: a function, or for \<open>__proto__\<close> the prototype object itself.
\<close>

datatype json =
    JNull
  | JBool bool
  | JNum string
  | JStr string
  | JArr "json list"
  | JObj "(string \<times> json) list"
  | JNative string

definition proto_names :: "string list" where
  "proto_names = [''constructor'', ''__defineGetter__'', ''__defineSetter__'', ''hasOwnProperty'',
     ''__lookupGetter__'', ''__lookupSetter__'', ''isPrototypeOf'', ''propertyIsEnumerable'',
     ''toString'', ''valueOf'', ''__proto__'', ''toLocaleString'']"

text \<open>\<open>typeof\<close>.\<close>

fun typeof :: "json \<Rightarrow> string" where
  "typeof JNull = ''object''"
| "typeof (JBool _) = ''boolean''"
| "typeof (JNum _) = ''number''"
| "typeof (JStr _) = ''string''"
| "typeof (JArr _) = ''object''"
| "typeof (JObj _) = ''object''"
| "typeof (JNative k) = (if k = ''__proto__'' then ''object'' else ''function'')"

text \<open>\<open>node === null || typeof node !== 'object'\<close> is the negation.\<close>

definition is_object :: "json \<Rightarrow> bool" where
  "is_object v \<longleftrightarrow> v \<noteq> JNull \<and> typeof v = ''object''"

section \<open>Property access\<close>

text \<open>
  \<open>Number(head)\<close> as an array index: decimal numerals with an optional sign, and the empty
  string, which converts to 0.  A negative number, other than \<open>-0\<close>, is no index.  (Numerals
  with an exponent or a radix prefix are taken as no index.)
\<close>

definition array_index :: "string \<Rightarrow> nat option" where
  "array_index h = (let s = js_trim h in
     if s = [] then Some 0
     else if \<forall>c \<in> set s. is_digit c then Some (nat_of_digits s)
     else if hd s = CHR ''+'' \<and> tl s \<noteq> [] \<and> (\<forall>c \<in> set (tl s). is_digit c) then Some (nat_of_digits (tl s))
     else if hd s = CHR ''-'' \<and> tl s \<noteq> [] \<and> (\<forall>c \<in> set (tl s). is_digit c) \<and> nat_of_digits (tl s) = 0 then Some 0
     else None)"

definition nth_opt :: "'a list \<Rightarrow> nat \<Rightarrow> 'a option" where
  "nth_opt xs i = (if i < length xs then Some (xs ! i) else None)"

text \<open>\<open>node[key]\<close> of a plain object: an own property, else one of the prototype.\<close>

definition object_get :: "(string \<times> json) list \<Rightarrow> string \<Rightarrow> json option" where
  "object_get kvs k = (case map_of kvs k of
     Some v \<Rightarrow> Some v
   | None \<Rightarrow> (if k \<in> set proto_names then Some (JNative k) else None))"

fun get_child :: "json \<Rightarrow> string \<Rightarrow> json option" where
  "get_child (JArr vs) h = (case array_index h of None \<Rightarrow> None | Some i \<Rightarrow> nth_opt vs i)"
| "get_child (JObj kvs) h = object_get kvs h"
| "get_child (JNative k) h =
     (if h = ''__proto__'' then Some JNull else if h \<in> set proto_names then Some (JNative h) else None)"
| "get_child _ h = None"

fun children :: "json \<Rightarrow> json list" where
  "children (JArr vs) = vs"
| "children (JObj kvs) = map snd kvs"
| "children _ = []"

section \<open>Paths\<close>

fun getSegments :: "json \<Rightarrow> string list \<Rightarrow> json option" where
  "getSegments node [] = Some node"
| "getSegments node (head # rest) =
     (if \<not> is_object node then None
      else if head = ''*'' then Some (JArr (List.map_filter (\<lambda>c. getSegments c rest) (children node)))
      else (case get_child node head of
          None \<Rightarrow> None
        | Some child \<Rightarrow> getSegments child rest))"

definition getAtPath :: "json \<Rightarrow> string \<Rightarrow> json option" where
  "getAtPath doc path = getSegments doc (split_on CHR ''.'' path)"

text \<open>\<open>prefix ? `${prefix}.${k}` : k\<close>.\<close>

definition extend_path :: "string \<Rightarrow> string \<Rightarrow> string" where
  "extend_path pre k = (if pre \<noteq> [] then pre @ ''.'' @ k else k)"

definition leaf_here :: "string \<Rightarrow> string list" where
  "leaf_here pre = (if pre \<noteq> [] then [pre] else [])"

fun leafPaths :: "json \<Rightarrow> string \<Rightarrow> string list"
  and leaf_items :: "json list \<Rightarrow> nat \<Rightarrow> string \<Rightarrow> string list"
  and leaf_entries :: "(string \<times> json) list \<Rightarrow> string \<Rightarrow> string list"
where
  "leafPaths (JArr vs) pre = (if vs = [] then leaf_here pre else leaf_items vs 0 pre)"
| "leafPaths (JObj kvs) pre = (if kvs = [] then leaf_here pre else leaf_entries kvs pre)"
| "leafPaths v pre = leaf_here pre"
| "leaf_items [] i pre = []"
| "leaf_items (v # vs) i pre = leafPaths v (extend_path pre (string_of_nat i)) @ leaf_items vs (Suc i) pre"
| "leaf_entries [] pre = []"
| "leaf_entries ((k, v) # kvs) pre = leafPaths v (extend_path pre k) @ leaf_entries kvs pre"

section \<open>JSON.stringify\<close>

definition hex4 :: "nat \<Rightarrow> string" where
  "hex4 n = map (\<lambda>d. ''0123456789abcdef'' ! d) [n div 4096 mod 16, n div 256 mod 16, n div 16 mod 16, n mod 16]"

definition quote_char :: "char \<Rightarrow> string" where
  "quote_char c = (let n = (of_char c :: nat) in
     if n = 8 then [CHR 0x5C, CHR ''b''] else if n = 9 then [CHR 0x5C, CHR ''t'']
     else if n = 10 then [CHR 0x5C, CHR ''n''] else if n = 12 then [CHR 0x5C, CHR ''f'']
     else if n = 13 then [CHR 0x5C, CHR ''r''] else if n = 34 then [CHR 0x5C, CHR 0x22]
     else if n = 92 then [CHR 0x5C, CHR 0x5C] else if n < 32 then [CHR 0x5C, CHR ''u''] @ hex4 n
     else [c])"

definition quote :: "string \<Rightarrow> string" where
  "quote s = [CHR 0x22] @ concat (map quote_char s) @ [CHR 0x22]"

text \<open>
  \<open>None\<close> is \<open>undefined\<close>, the result for a function: inside an array it becomes \<open>null\<close>, inside
  an object the entry is left out.
\<close>

fun stringify :: "json \<Rightarrow> string option" where
  "stringify JNull = Some ''null''"
| "stringify (JBool b) = Some (if b then ''true'' else ''false'')"
| "stringify (JNum n) = Some (if n \<in> set [''Infinity'', ''-Infinity'', ''NaN''] then ''null'' else n)"
| "stringify (JStr s) = Some (quote s)"
| "stringify (JArr vs) = Some (''['' @ join '','' (map (\<lambda>v. case stringify v of None \<Rightarrow> ''null'' | Some s \<Rightarrow> s) vs) @ '']'')"
| "stringify (JObj kvs) = Some (''{'' @ join '','' (concat (map (\<lambda>(k, v).
     case stringify v of None \<Rightarrow> [] | Some s \<Rightarrow> [quote k @ '':'' @ s]) kvs)) @ ''}'')"
| "stringify (JNative k) = (if k = ''__proto__'' then Some ''{}'' else None)"

text \<open>A value in a template literal that holds the result of \<open>JSON.stringify\<close>.\<close>

definition show_json :: "json \<Rightarrow> string" where
  "show_json v = (case stringify v of None \<Rightarrow> ''undefined'' | Some s \<Rightarrow> s)"

section \<open>Shapes for the logs\<close>

fun jsonTopLevelKeys :: "json \<Rightarrow> string" where
  "jsonTopLevelKeys (JArr _) = ''(array)''"
| "jsonTopLevelKeys (JObj kvs) = join '','' (sort (map fst kvs))"
| "jsonTopLevelKeys JNull = ''object''"
| "jsonTopLevelKeys v = (if typeof v = ''object'' then [] else typeof v)"

definition requestHeaderNames :: "string list \<Rightarrow> string" where
  "requestHeaderNames hs = join '',''
     (sort (filter (\<lambda>h. let n = to_lower h in
        n \<noteq> ''authorization'' \<and> \<not> contains ''secret'' n \<and> \<not> contains ''api-key'' n) hs))"

section \<open>Path lemmas\<close>

lemma getSegments_append:
  "''*'' \<notin> set ss \<Longrightarrow> getSegments v (ss @ ts) = (case getSegments v ss of None \<Rightarrow> None | Some w \<Rightarrow> getSegments w ts)"
proof (induction ss arbitrary: v)
  case Nil
  then show ?case by simp
next
  case (Cons h ss)
  then have h: "h \<noteq> ''*''" and IH: "\<And>v. getSegments v (ss @ ts) =
      (case getSegments v ss of None \<Rightarrow> None | Some w \<Rightarrow> getSegments w ts)" by auto
  show ?case by (cases "get_child v h") (simp_all add: h IH)
qed

lemma nth_opt_append: "nth_opt (us @ v # vs) (length us) = Some v"
  by (simp add: nth_opt_def nth_append)

lemma array_index_string_of_nat [simp]: "array_index (string_of_nat i) = Some i"
proof -
  have d: "\<forall>c \<in> set (string_of_nat i). is_digit c" by (rule string_of_nat_digits)
  have *: "dropWhile is_space s = s" if "\<forall>c \<in> set s. is_digit c" for s
    using that by (cases s) (auto simp: is_digit_not_space)
  have "js_trim (string_of_nat i) = string_of_nat i"
    using d * [of "string_of_nat i"] * [of "rev (string_of_nat i)"] by (simp add: js_trim_def trim_start_def)
  then show ?thesis using d by (simp add: array_index_def Let_def)
qed

text \<open>
  Keys that a dot path can name: non-empty, without a dot, and not the wildcard.  Documents
  whose keys are all of this kind and do not repeat.
\<close>

definition plain_key :: "string \<Rightarrow> bool" where
  "plain_key k \<longleftrightarrow> k \<noteq> [] \<and> CHR ''.'' \<notin> set k \<and> k \<noteq> ''*''"

fun plain_doc :: "json \<Rightarrow> bool" where
  "plain_doc (JArr vs) = (\<forall>v \<in> set vs. plain_doc v)"
| "plain_doc (JObj kvs) = (distinct (map fst kvs) \<and> (\<forall>kv \<in> set kvs. plain_key (fst kv) \<and> plain_doc (snd kv)))"
| "plain_doc (JNative k) = False"
| "plain_doc v = True"

text \<open>A leaf in the sense of \<open>leafPaths\<close>: a scalar, or an empty array or object.\<close>

fun is_leaf :: "json \<Rightarrow> bool" where
  "is_leaf (JArr vs) = (vs = [])"
| "is_leaf (JObj kvs) = (kvs = [])"
| "is_leaf v = True"

lemma string_of_nat_plain: "plain_key (string_of_nat i)"
proof -
  have "\<not> is_digit CHR ''.''" and "\<not> is_digit CHR ''*''" by (simp_all add: is_digit_def digits_def)
  then have "CHR ''.'' \<notin> set (string_of_nat i)" and "CHR ''*'' \<notin> set (string_of_nat i)"
    using string_of_nat_digits by blast+
  moreover from this have "string_of_nat i \<noteq> ''*''" by force
  ultimately show ?thesis by (simp add: plain_key_def)
qed

lemma split_extend: "CHR ''.'' \<notin> set k \<Longrightarrow> pre \<noteq> [] \<Longrightarrow>
  split_on CHR ''.'' (extend_path pre k) = split_on CHR ''.'' pre @ [k]"
proof (induction pre)
  case Nil
  then show ?case by simp
next
  case (Cons c pre)
  show ?case
  proof (cases "pre = []")
    case True
    with Cons.prems show ?thesis by (simp add: extend_path_def split_on_no_sep)
  next
    case False
    with Cons obtain y ys where "split_on CHR ''.'' pre = y # ys"
      by (meson list.exhaust split_on_not_Nil)
    with Cons False show ?thesis by (simp add: extend_path_def)
  qed
qed

text \<open>
  The segments of a prefix: none for the empty prefix, which stands for the document itself.
\<close>

definition prefix_segments :: "string \<Rightarrow> string list" where
  "prefix_segments pre = (if pre = [] then [] else split_on CHR ''.'' pre)"

lemma prefix_segments_extend:
  "plain_key k \<Longrightarrow> prefix_segments (extend_path pre k) = prefix_segments pre @ [k]"
proof (cases "pre = []")
  case True
  moreover assume "plain_key k"
  ultimately show ?thesis by (simp add: prefix_segments_def extend_path_def plain_key_def split_on_no_sep)
next
  case False
  moreover assume "plain_key k"
  moreover have "extend_path pre k \<noteq> []" using False by (simp add: extend_path_def)
  ultimately show ?thesis by (simp add: prefix_segments_def split_extend plain_key_def)
qed

lemma leaf_here_addr: "p \<in> set (leaf_here pre) \<Longrightarrow> p = pre"
  by (simp add: leaf_here_def split: if_splits)

lemma leaf_addr:
  "plain_doc v \<Longrightarrow> p \<in> set (leafPaths v pre) \<Longrightarrow>
     \<exists>ss w. prefix_segments p = prefix_segments pre @ ss \<and> getSegments v ss = Some w \<and> is_leaf w"
  "(\<forall>v \<in> set vs. plain_doc v) \<Longrightarrow> p \<in> set (leaf_items vs i pre) \<Longrightarrow>
     \<exists>j ss w. j < length vs \<and> prefix_segments p = prefix_segments pre @ string_of_nat (i + j) # ss \<and>
       getSegments (vs ! j) ss = Some w \<and> is_leaf w"
  "(\<forall>kv \<in> set kvs. plain_key (fst kv) \<and> plain_doc (snd kv)) \<Longrightarrow> p \<in> set (leaf_entries kvs pre) \<Longrightarrow>
     \<exists>k v ss w. (k, v) \<in> set kvs \<and> prefix_segments p = prefix_segments pre @ k # ss \<and>
       getSegments v ss = Some w \<and> is_leaf w"
proof (induction v pre and vs i pre and kvs pre rule: leafPaths_leaf_items_leaf_entries.induct)
  case (1 vs pre)
  show ?case
  proof (cases "vs = []")
    case True
    with 1 have "p = pre" by (simp add: leaf_here_addr)
    with True show ?thesis by (intro exI [of _ "[]"] exI [of _ "JArr vs"]) simp
  next
    case False
    with 1 obtain j ss w where j: "j < length vs" "getSegments (vs ! j) ss = Some w" "is_leaf w"
      and p: "prefix_segments p = prefix_segments pre @ string_of_nat (0 + j) # ss"
      by auto
    have "string_of_nat j \<noteq> ''*''" using string_of_nat_plain by (simp add: plain_key_def)
    with j have "getSegments (JArr vs) (string_of_nat j # ss) = Some w"
      by (simp add: is_object_def nth_opt_def)
    with p j show ?thesis by auto
  qed
next
  case (2 kvs pre)
  show ?case
  proof (cases "kvs = []")
    case True
    with 2 have "p = pre" by (simp add: leaf_here_addr)
    with True show ?thesis by (intro exI [of _ "[]"] exI [of _ "JObj kvs"]) simp
  next
    case False
    with 2 obtain k v ss w where kv: "(k, v) \<in> set kvs" "getSegments v ss = Some w" "is_leaf w"
      and p: "prefix_segments p = prefix_segments pre @ k # ss"
      by auto
    from 2 kv have "map_of kvs k = Some v" and "plain_key k" by auto
    with kv have "getSegments (JObj kvs) (k # ss) = Some w"
      by (simp add: is_object_def object_get_def plain_key_def)
    with p kv show ?thesis by blast
  qed
next
  case (5 v vs i pre)
  from 5 show ?case
  proof (cases "p \<in> set (leafPaths v (extend_path pre (string_of_nat i)))")
    case True
    with 5 obtain ss w where "prefix_segments p = prefix_segments (extend_path pre (string_of_nat i)) @ ss"
      and "getSegments v ss = Some w" "is_leaf w" by auto
    then show ?thesis
      by (intro exI [of _ 0] exI [of _ ss] exI [of _ w]) (simp add: prefix_segments_extend string_of_nat_plain)
  next
    case False
    with 5 obtain j ss w where "j < length vs" "getSegments (vs ! j) ss = Some w" "is_leaf w"
      and "prefix_segments p = prefix_segments pre @ string_of_nat (Suc i + j) # ss" by auto
    then show ?thesis by (intro exI [of _ "Suc j"] exI [of _ ss] exI [of _ w]) simp
  qed
next
  case (7 k v kvs pre)
  from 7 show ?case
  proof (cases "p \<in> set (leafPaths v (extend_path pre k))")
    case True
    with 7 obtain ss w where "prefix_segments p = prefix_segments (extend_path pre k) @ ss"
      and "getSegments v ss = Some w" "is_leaf w" by auto
    with 7 show ?thesis
      by (intro exI [of _ k] exI [of _ v] exI [of _ ss] exI [of _ w]) (simp add: prefix_segments_extend)
  next
    case False
    with 7 obtain k' v' ss w where "(k', v') \<in> set kvs" "getSegments v' ss = Some w" "is_leaf w"
      and "prefix_segments p = prefix_segments pre @ k' # ss" by auto
    then show ?thesis by (intro exI [of _ k'] exI [of _ v'] exI [of _ ss] exI [of _ w]) simp
  qed
qed (auto simp: leaf_here_def prefix_segments_def split: if_splits intro!: exI [of _ "[]"])

lemma leafPaths_not_Nil:
  "p \<in> set (leafPaths v pre) \<Longrightarrow> plain_doc v \<Longrightarrow> p \<noteq> []"
  "p \<in> set (leaf_items vs i pre) \<Longrightarrow> (\<forall>v \<in> set vs. plain_doc v) \<Longrightarrow> p \<noteq> []"
  "p \<in> set (leaf_entries kvs pre) \<Longrightarrow> (\<forall>kv \<in> set kvs. plain_key (fst kv) \<and> plain_doc (snd kv)) \<Longrightarrow> p \<noteq> []"
  by (induction v pre and vs i pre and kvs pre rule: leafPaths_leaf_items_leaf_entries.induct)
     (auto simp: leaf_here_def split: if_splits)

text \<open>Every path of the report addresses a leaf of the document.\<close>

lemma leafPaths_address:
  assumes "plain_doc doc" and "p \<in> set (leafPaths doc [])"
  shows "\<exists>w. getAtPath doc p = Some w \<and> is_leaf w"
  using leaf_addr(1) [OF assms] leafPaths_not_Nil(1) [OF assms(2,1)]
  by (auto simp: getAtPath_def prefix_segments_def)

end
