(* ===== verification/Mask.thy ===== *)
theory Mask imports Regex Json begin

text \<open>
  The hard denylist of \<open>packages/core/src/mask/defaults.ts\<close>: which key names are sensitive,
  and the redaction of social security numbers and card numbers inside string values.
\<close>

definition REDACTED :: string where "REDACTED = ''[REDACTED]''"

section \<open>Sensitive key names\<close>

definition alnum :: "char \<Rightarrow> bool" where
  "alnum c \<longleftrightarrow> is_digit c \<or> is_lower c \<or> is_upper c"

definition two_words :: "string \<Rightarrow> string \<Rightarrow> re" where
  "two_words a b = seqs [lit_i a, opt (one_of ''-_''), lit_i b]"

definition sensitive_names :: re where
  "sensitive_names = alts [seqs [lit_i ''cvv'', opt (chr CHR ''2'')], lit_i ''cvc'', lit_i ''cid'', lit_i ''pin'',
     lit_i ''password'', lit_i ''passwd'', lit_i ''secret'', two_words ''api'' ''key'', two_words ''private'' ''key'',
     two_words ''access'' ''token'', two_words ''refresh'' ''token'', lit_i ''ssn'',
     two_words ''social'' ''security'', two_words ''routing'' ''number'', two_words ''account'' ''number'']"

definition SENSITIVE_KEY_RE :: re where
  "SENSITIVE_KEY_RE = seqs [alts [Bol, chr CHR ''_'', WordB], sensitive_names, alts [Eol, chr CHR ''_'', WordB]]"

text \<open>\<open>key.replace(/([a-z0-9])([A-Z])/g, '$1_$2')\<close>.\<close>

definition camel_re :: re where
  "camel_re = seqs [Sat (\<lambda>c. is_lower c \<or> is_digit c), Sat is_upper]"

definition split_camel :: "string \<Rightarrow> string" where
  "split_camel key = replace_all camel_re (\<lambda>m. take 1 m @ ''_'' @ drop 1 m) key"

definition keyNameIsSensitive :: "string \<Rightarrow> bool" where
  "keyNameIsSensitive key = re_test SENSITIVE_KEY_RE (split_camel key)"

section \<open>Values\<close>

definition SSN_RE :: re where
  "SSN_RE = seqs [WordB, times digit 3, chr CHR ''-'', times digit 2, chr CHR ''-'', times digit 4, WordB]"

definition pan_group :: re where
  "pan_group = Seq (opt (one_of '' -'')) digit"

definition PAN_CANDIDATE_RE :: re where
  "PAN_CANDIDATE_RE = seqs [WordB, digit, Rep pan_group 12 18, WordB]"

text \<open>The loop runs from the last digit to the first; \<open>dbl\<close> is the variable \<open>double\<close>.\<close>

fun luhn_loop :: "string \<Rightarrow> bool \<Rightarrow> nat \<Rightarrow> nat" where
  "luhn_loop [] dbl acc = acc"
| "luhn_loop (c # cs) dbl acc =
     (let d = digit_val c; d = (if dbl then d * 2 else d); d = (if dbl \<and> d > 9 then d - 9 else d)
      in luhn_loop cs (\<not> dbl) (acc + d))"

definition luhnValid :: "string \<Rightarrow> bool" where
  "luhnValid ds = (luhn_loop (rev ds) False 0 mod 10 = 0)"

definition strip_separators :: "string \<Rightarrow> string" where
  "strip_separators s = filter (\<lambda>c. c \<noteq> CHR '' '' \<and> c \<noteq> CHR ''-'') s"

definition redact_pan :: "string \<Rightarrow> string" where
  "redact_pan candidate = (let ds = strip_separators candidate in
     if 13 \<le> length ds \<and> length ds \<le> 19 \<and> luhnValid ds then REDACTED else candidate)"

definition hardDenyValue :: "string \<Rightarrow> string" where
  "hardDenyValue value = replace_all PAN_CANDIDATE_RE redact_pan (replace_all SSN_RE (\<lambda>_. REDACTED) value)"

text \<open>
  Strings are redacted; arrays and objects are rebuilt entry by entry; numbers, booleans,
  \<open>null\<close> and functions are returned as they are.
\<close>

fun hardDenyDeep :: "json \<Rightarrow> json" where
  "hardDenyDeep (JStr s) = JStr (hardDenyValue s)"
| "hardDenyDeep (JArr vs) = JArr (map hardDenyDeep vs)"
| "hardDenyDeep (JObj kvs) = JObj (map (\<lambda>(k, v). (k, hardDenyDeep v)) kvs)"
| "hardDenyDeep (JNative k) = (if k = ''__proto__'' then JObj [] else JNative k)"
| "hardDenyDeep v = v"

lemmas mask_res = SSN_RE_def PAN_CANDIDATE_RE_def pan_group_def

end
