(* ===== verification/Schema.thy ===== *)
theory Schema imports Mask begin

text \<open>
  The routes document of \<open>packages/core/src/config/schema.ts\<close> and the checks of
  \<open>packages/core/src/engine/routes.ts\<close>.  The datatypes are the inferred types of the zod
  schemas, after defaults; the regular expressions and the \<open>superRefine\<close> of a record map are
  predicates.  Reading a document into these types is the work of the zod package, which is a
  parameter of \<open>parseRoutes\<close>.
\<close>

section \<open>Fields\<close>

datatype transform_name = Trim | Lowercase | Hash

datatype transform = OneTransform transform_name | ManyTransforms "transform_name list"

datatype field_ref =
    PathRef string
  | ObjRef string "transform option" "string option"  \<comment> \<open>\<open>source\<close>, \<open>transform\<close>, \<open>enrich\<close>\<close>

fun refSource :: "field_ref \<Rightarrow> string" where
  "refSource (PathRef p) = p"
| "refSource (ObjRef p _ _) = p"

fun refTransforms :: "field_ref \<Rightarrow> transform_name list" where
  "refTransforms (PathRef _) = []"
| "refTransforms (ObjRef _ None _) = []"
| "refTransforms (ObjRef _ (Some (OneTransform t)) _) = [t]"
| "refTransforms (ObjRef _ (Some (ManyTransforms ts)) _) = ts"

fun refEnrichment :: "field_ref \<Rightarrow> string option" where
  "refEnrichment (PathRef _) = None"
| "refEnrichment (ObjRef _ _ e) = e"

datatype date_format = Iso8601 | MdyHms

datatype date_ref = DatePath string | DateObj string date_format

section \<open>Routes\<close>

datatype hmac_algorithm = Sha256 | Sha512

datatype signed_content = SignBody | SignTimestampBody

record payabli_auth =
  pa_header :: string
  pa_secret_env :: string
  pa_allowed_ips :: "string list"

record generic_hmac_auth =
  ga_header :: string
  ga_algorithm :: hmac_algorithm
  ga_secret_env :: string
  ga_signed_content :: signed_content
  ga_timestamp_header :: "string option"
  ga_tolerance_seconds :: nat
  ga_event_id :: "string option"
  ga_event_type :: "string option"

datatype auth_config = StaticHeader payabli_auth | HmacAuth generic_hmac_auth

datatype direction = Credit | Debit

record record_map =
  m_data_stream_key :: string
  m_external_id :: field_ref
  m_amount :: field_ref
  m_direction :: direction
  m_date :: "date_ref option"
  m_description :: "field_ref option"
  m_currency :: "string option"
  m_metadata :: "(string \<times> field_ref) list"

record route_config =
  r_id :: string
  r_source :: string
  r_auth :: auth_config
  r_events :: "string list option"
  r_map :: record_map
  r_max_body_bytes :: nat

fun secret_env :: "auth_config \<Rightarrow> string" where
  "secret_env (StaticHeader a) = pa_secret_env a"
| "secret_env (HmacAuth a) = ga_secret_env a"

section \<open>The refinements\<close>

definition is_path_char :: "char \<Rightarrow> bool" where
  "is_path_char c \<longleftrightarrow> \<not> is_space c \<and> c \<noteq> CHR ''.''"

definition dotPath_re :: re where
  "dotPath_re = seqs [Bol, Seq (plus (Sat is_path_char)) (Star (Seq (chr CHR ''.'') (plus (Sat is_path_char)))), Eol]"

definition dotPath :: "string \<Rightarrow> bool" where "dotPath s = re_test dotPath_re s"

definition is_snake_char :: "char \<Rightarrow> bool" where
  "is_snake_char c \<longleftrightarrow> is_lower c \<or> is_digit c \<or> c = CHR ''_''"

definition snake_re :: re where
  "snake_re = seqs [Bol, Seq (Sat is_lower) (Star (Sat is_snake_char)), Eol]"

text \<open>\<open>enrichNameSchema\<close> and the keys of \<open>metadata\<close>: \<open>/^[a-z][a-z0-9_]*$/\<close>.\<close>

definition snake_name :: "string \<Rightarrow> bool" where "snake_name s = re_test snake_re s"

text \<open>Route ids and sources: \<open>/^[a-z0-9][a-z0-9-_]*$/\<close>.\<close>

definition slug_re :: re where
  "slug_re = seqs [Bol, Seq (Sat (\<lambda>c. is_lower c \<or> is_digit c))
     (Star (Sat (\<lambda>c. is_snake_char c \<or> c = CHR ''-''))), Eol]"

definition slug :: "string \<Rightarrow> bool" where "slug s = re_test slug_re s"

definition currency_re :: re where
  "currency_re = seqs [Bol, times (Sat (\<lambda>c. is_lower c \<or> is_upper c)) 3, Eol]"

definition currency_ok :: "string \<Rightarrow> bool" where "currency_ok s = re_test currency_re s"

fun enrichable_ok :: "field_ref \<Rightarrow> bool" where
  "enrichable_ok (PathRef p) = dotPath p"
| "enrichable_ok (ObjRef p t e) =
     (dotPath p \<and> t \<noteq> Some (ManyTransforms []) \<and> (case e of None \<Rightarrow> True | Some n \<Rightarrow> snake_name n))"

definition field_ok :: "field_ref \<Rightarrow> bool" where
  "field_ok f \<longleftrightarrow> enrichable_ok f \<and> refEnrichment f = None"

fun date_ok :: "date_ref \<Rightarrow> bool" where
  "date_ok (DatePath p) = dotPath p"
| "date_ok (DateObj p _) = dotPath p"

text \<open>\<open>path.split('.').at(-1)\<close>.\<close>

definition source_leaf :: "field_ref \<Rightarrow> string" where
  "source_leaf r = last (split_on CHR ''.'' (refSource r))"

datatype issue = DeniedOutputName string string | DeniedClearName string string  \<comment> \<open>the key and the name that matched\<close>

definition name_issue :: "string \<Rightarrow> field_ref \<Rightarrow> string \<Rightarrow> issue list" where
  "name_issue outputKey r name =
     (let hashed = Hash \<in> set (refTransforms r); enriched = refEnrichment r \<noteq> None in
      if \<not> keyNameIsSensitive name then []
      else if hashed \<and> \<not> (enriched \<and> name = outputKey) then []
      else [if enriched \<and> name = outputKey then DeniedOutputName outputKey name else DeniedClearName outputKey name])"

text \<open>The \<open>superRefine\<close> of \<open>recordMapSchema\<close>.\<close>

definition map_issues :: "record_map \<Rightarrow> issue list" where
  "map_issues m = concat (map (\<lambda>(outputKey, r).
     concat (map (name_issue outputKey r) [outputKey, source_leaf r])) (m_metadata m))"

definition record_map_ok :: "record_map \<Rightarrow> bool" where
  "record_map_ok m \<longleftrightarrow> m_data_stream_key m \<noteq> [] \<and> field_ok (m_external_id m) \<and> field_ok (m_amount m) \<and>
     (case m_date m of None \<Rightarrow> True | Some d \<Rightarrow> date_ok d) \<and>
     (case m_description m of None \<Rightarrow> True | Some r \<Rightarrow> enrichable_ok r) \<and>
     (case m_currency m of None \<Rightarrow> True | Some c \<Rightarrow> currency_ok c) \<and>
     distinct (map fst (m_metadata m)) \<and>
     (\<forall>kr \<in> set (m_metadata m). snake_name (fst kr) \<and> enrichable_ok (snd kr)) \<and>
     map_issues m = []"

fun auth_ok :: "auth_config \<Rightarrow> bool" where
  "auth_ok (StaticHeader a) = (pa_secret_env a \<noteq> [])"
| "auth_ok (HmacAuth a) = (ga_secret_env a \<noteq> [] \<and> 0 < ga_tolerance_seconds a \<and>
     (case ga_event_id a of None \<Rightarrow> True | Some p \<Rightarrow> dotPath p) \<and>
     (case ga_event_type a of None \<Rightarrow> True | Some p \<Rightarrow> dotPath p))"

definition route_ok :: "route_config \<Rightarrow> bool" where
  "route_ok r \<longleftrightarrow> slug (r_id r) \<and> slug (r_source r) \<and> auth_ok (r_auth r) \<and> r_events r \<noteq> Some [] \<and>
     record_map_ok (r_map r) \<and> 0 < r_max_body_bytes r \<and> r_max_body_bytes r \<le> 10 * 1024 * 1024"

section \<open>Words of the refinements\<close>

lemma snake_name_iff: "snake_name s \<longleftrightarrow> (\<exists>c cs. s = c # cs \<and> is_lower c \<and> (\<forall>x \<in> set cs. is_snake_char x))"
proof -
  have "consumes (Seq (Sat is_lower) (Star (Sat is_snake_char)))
      (\<lambda>m. \<exists>u v. m = u @ v \<and> (\<exists>c. u = [c] \<and> is_lower c) \<and> (\<forall>c \<in> set v. is_snake_char c))"
    by (intro consumes_rules)
  then show ?thesis
    unfolding snake_name_def snake_re_def by (simp only: re_test_anchored ex_first)
qed

lemma slug_iff: "slug s \<longleftrightarrow> (\<exists>c cs. s = c # cs \<and> (is_lower c \<or> is_digit c) \<and> (\<forall>x \<in> set cs. is_snake_char x \<or> x = CHR ''-''))"
proof -
  have "consumes (Seq (Sat (\<lambda>c. is_lower c \<or> is_digit c)) (Star (Sat (\<lambda>c. is_snake_char c \<or> c = CHR ''-''))))
      (\<lambda>m. \<exists>u v. m = u @ v \<and> (\<exists>c. u = [c] \<and> (is_lower c \<or> is_digit c)) \<and> (\<forall>c \<in> set v. is_snake_char c \<or> c = CHR ''-''))"
    by (intro consumes_rules)
  then show ?thesis
    unfolding slug_def slug_re_def by (simp only: re_test_anchored ex_first)
qed

lemma currency_ok_iff: "currency_ok s \<longleftrightarrow> length s = 3 \<and> (\<forall>c \<in> set s. is_lower c \<or> is_upper c)"
proof -
  have "consumes (times (Sat (\<lambda>c. is_lower c \<or> is_upper c)) 3)
      (\<lambda>w. (\<forall>c \<in> set w. is_lower c \<or> is_upper c) \<and> 3 \<le> length w \<and> length w \<le> 3)"
    unfolding times_def by (intro consumes_rules) simp
  then show ?thesis
    unfolding currency_ok_def currency_re_def by (auto simp only: re_test_anchored)
qed

lemma dotPath_consumes:
  "consumes (Seq (plus (Sat is_path_char)) (Star (Seq (chr CHR ''.'') (plus (Sat is_path_char)))))
     (\<lambda>w. \<exists>u v. w = u @ v \<and> (u \<noteq> [] \<and> (\<forall>c \<in> set u. is_path_char c)) \<and>
        (\<exists>ms. v = concat ms \<and> (\<forall>m \<in> set ms. \<exists>a b. m = a @ b \<and> (\<exists>c. a = [c] \<and> c = CHR ''.'') \<and>
           (b \<noteq> [] \<and> (\<forall>c \<in> set b. is_path_char c)))))"
  unfolding chr_def by (intro consumes_rules) auto

lemma split_dotted:
  assumes "\<forall>c \<in> set u. is_path_char c"
    and "\<forall>m \<in> set ms. \<exists>b. m = CHR ''.'' # b \<and> b \<noteq> [] \<and> (\<forall>c \<in> set b. is_path_char c)"
  shows "split_on CHR ''.'' (u @ concat ms) = u # map tl ms"
  using assms
proof (induction ms arbitrary: u)
  case Nil
  then have "CHR ''.'' \<notin> set u" by (auto simp: is_path_char_def)
  then show ?case by (simp add: split_on_no_sep)
next
  case (Cons m ms)
  then obtain b where b: "m = CHR ''.'' # b" "\<forall>c \<in> set b. is_path_char c" by auto
  from Cons.prems have "CHR ''.'' \<notin> set u" by (auto simp: is_path_char_def)
  with b Cons show ?case by (simp add: split_on_append_sep)
qed

text \<open>A dot path is a path whose segments are all non-empty and without white space.\<close>

lemma dotPath_iff:
  "dotPath s \<longleftrightarrow> (\<forall>seg \<in> set (split_on CHR ''.'' s). seg \<noteq> [] \<and> (\<forall>c \<in> set seg. \<not> is_space c))"
proof -
  have iff: "dotPath s \<longleftrightarrow> (\<exists>u ms. s = u @ concat ms \<and> u \<noteq> [] \<and> (\<forall>c \<in> set u. is_path_char c) \<and>
      (\<forall>m \<in> set ms. \<exists>b. m = CHR ''.'' # b \<and> b \<noteq> [] \<and> (\<forall>c \<in> set b. is_path_char c)))"
    unfolding dotPath_def dotPath_re_def re_test_anchored [OF dotPath_consumes]
    by (simp add: ex_simps) blast
  show ?thesis
  proof
    assume "dotPath s"
    then obtain u ms where s: "s = u @ concat ms" and u: "u \<noteq> []" "\<forall>c \<in> set u. is_path_char c"
      and ms: "\<forall>m \<in> set ms. \<exists>b. m = CHR ''.'' # b \<and> b \<noteq> [] \<and> (\<forall>c \<in> set b. is_path_char c)"
      unfolding iff by blast
    have "split_on CHR ''.'' s = u # map tl ms" unfolding s by (rule split_dotted [OF u(2) ms])
    with u ms show "\<forall>seg \<in> set (split_on CHR ''.'' s). seg \<noteq> [] \<and> (\<forall>c \<in> set seg. \<not> is_space c)"
      by (fastforce simp: is_path_char_def)
  next
    assume seg: "\<forall>seg \<in> set (split_on CHR ''.'' s). seg \<noteq> [] \<and> (\<forall>c \<in> set seg. \<not> is_space c)"
    obtain u rest where sp: "split_on CHR ''.'' s = u # rest" by (meson list.exhaust split_on_not_Nil)
    have free: "\<forall>x \<in> set (u # rest). CHR ''.'' \<notin> set x" using split_on_free [of _ "CHR ''.''" s] sp by auto
    have "join ''.'' (u # rest) = u @ concat (map (\<lambda>b. CHR ''.'' # b) rest)" for u
      by (induction rest arbitrary: u) auto
    then have s: "s = u @ concat (map (\<lambda>b. CHR ''.'' # b) rest)"
      using join_split_on [of "CHR ''.''" s] sp by simp
    show "dotPath s" unfolding iff
      by (rule exI [of _ u], rule exI [of _ "map (\<lambda>b. CHR ''.'' # b) rest"])
         (use s seg free sp in \<open>auto simp: is_path_char_def\<close>)
  qed
qed

section \<open>The denylist on names\<close>

lemma map_issues_Nil_iff: "map_issues m = [] \<longleftrightarrow>
  (\<forall>(k, r) \<in> set (m_metadata m). name_issue k r k = [] \<and> name_issue k r (source_leaf r) = [])"
  unfolding map_issues_def concat_eq_Nil_conv by (fastforce simp: concat_eq_Nil_conv)

lemma name_issue_Nil_iff: "name_issue k r n = [] \<longleftrightarrow>
  (keyNameIsSensitive n \<longrightarrow> Hash \<in> set (refTransforms r) \<and> (refEnrichment r \<noteq> None \<longrightarrow> n \<noteq> k))"
  by (auto simp: name_issue_def Let_def)

lemma sensitive_entry_hashed:
  assumes "record_map_ok m" and "(k, r) \<in> set (m_metadata m)"
    and "keyNameIsSensitive k \<or> keyNameIsSensitive (source_leaf r)"
  shows "Hash \<in> set (refTransforms r)"
  using assms by (auto simp: record_map_ok_def map_issues_Nil_iff name_issue_Nil_iff)

lemma enriched_name_not_sensitive:
  assumes "record_map_ok m" and "(k, r) \<in> set (m_metadata m)" and "refEnrichment r \<noteq> None"
  shows "\<not> keyNameIsSensitive k"
  using assms by (auto simp: record_map_ok_def map_issues_Nil_iff name_issue_Nil_iff)

section \<open>Checks across routes\<close>

definition BUILTIN_SOURCES :: "string list" where "BUILTIN_SOURCES = [''payabli'', ''generic_hmac'']"

text \<open>\<open>routeEnrichments\<close>: every \<open>enrich\<close> reference, as field and enrichment name.\<close>

definition routeEnrichments :: "route_config \<Rightarrow> (string \<times> string) list" where
  "routeEnrichments route =
     (case m_description (r_map route) of None \<Rightarrow> []
      | Some d \<Rightarrow> (case refEnrichment d of None \<Rightarrow> [] | Some n \<Rightarrow> [(''description'', n)]))
     @ concat (map (\<lambda>(key, r). case refEnrichment r of None \<Rightarrow> [] | Some n \<Rightarrow> [(''metadata.'' @ key, n)])
         (m_metadata (r_map route)))"

end
