(* ===== verification/Bytes.thy ===== *)
theory Bytes imports JsString "HOL-Library.Word" begin

text \<open>
  Node buffers, their text encodings, and the cryptographic primitives of \<open>node:crypto\<close>.
  The primitives are not code of this repository: they are the fields of a record that the
  definitions take as a parameter, and what the proofs need of them is stated as named
  hypotheses (\<open>aead_correct\<close>, \<open>collision_free\<close>).
\<close>

type_synonym bytes = "8 word list"

section \<open>UTF-8\<close>

definition utf8_char :: "char \<Rightarrow> bytes" where
  "utf8_char c = (let n = (of_char c :: nat) in
     if n < 128 then [of_nat n] else [of_nat (192 + n div 64), of_nat (128 + n mod 64)])"

text \<open>\<open>Buffer.from(s, 'utf8')\<close>.\<close>

definition utf8 :: "string \<Rightarrow> bytes" where
  "utf8 s = concat (map utf8_char s)"

fun utf8_decode :: "bytes \<Rightarrow> string" where
  "utf8_decode [] = []"
| "utf8_decode [b] = [char_of (unat b)]"
| "utf8_decode (b # b' # bs) =
     (if unat b < 128 then char_of (unat b) # utf8_decode (b' # bs)
      else char_of ((unat b - 192) * 64 + (unat b' - 128)) # utf8_decode bs)"

lemma of_char_lt_256: "(of_char c :: nat) < 256"
  using nat_of_char_less_256 by simp

lemma unat_byte: "n < 256 \<Longrightarrow> unat (of_nat n :: 8 word) = n"
  by (simp add: unat_of_nat take_bit_eq_mod)

lemma utf8_decode_char: "utf8_decode (utf8_char c @ bs) = c # utf8_decode bs"
proof -
  define n where "n = (of_char c :: nat)"
  have n: "n < 256" "char_of n = c" by (simp_all add: n_def of_char_lt_256)
  show ?thesis
  proof (cases "n < 128")
    case True
    then have "utf8_char c = [of_nat n]" by (simp add: utf8_char_def n_def)
    with True n show ?thesis by (cases bs) (simp_all add: unat_byte)
  next
    case False
    then have eq: "utf8_char c = [of_nat (192 + n div 64), of_nat (128 + n mod 64)]"
      by (simp add: utf8_char_def n_def Let_def)
    have "n div 64 < 4" using n by auto
    then have u1: "unat (of_nat (192 + n div 64) :: 8 word) = 192 + n div 64" by (intro unat_byte) simp
    have u2: "unat (of_nat (128 + n mod 64) :: 8 word) = 128 + n mod 64"
      by (intro unat_byte) (use mod_less_divisor [of 64 n] in linarith)
    have "(192 + n div 64 - 192) * 64 + (128 + n mod 64 - 128) = n" by simp
    with n show ?thesis unfolding eq by (simp del: of_nat_add add: u1 u2)
  qed
qed

lemma utf8_decode_utf8 [simp]: "utf8_decode (utf8 s) = s"
  by (induction s) (simp_all add: utf8_def utf8_decode_char)

lemma utf8_inject [simp]: "utf8 s = utf8 t \<longleftrightarrow> s = t"
  by (metis utf8_decode_utf8)

lemma utf8_append: "utf8 (s @ t) = utf8 s @ utf8 t"
  by (simp add: utf8_def)

section \<open>Hexadecimal text\<close>

definition hex_digits :: string where "hex_digits = ''0123456789abcdef''"

definition hex_digit :: "nat \<Rightarrow> char" where "hex_digit n = hex_digits ! n"

definition hex_byte :: "8 word \<Rightarrow> string" where
  "hex_byte b = [hex_digit (unat b div 16), hex_digit (unat b mod 16)]"

text \<open>\<open>digest('hex')\<close>.\<close>

definition hex :: "bytes \<Rightarrow> string" where
  "hex bs = concat (map hex_byte bs)"

lemma distinct_hex_digits: "distinct hex_digits" and length_hex_digits: "length hex_digits = 16"
  by (simp_all add: hex_digits_def)

lemma hex_digit_inject: "m < 16 \<Longrightarrow> n < 16 \<Longrightarrow> hex_digit m = hex_digit n \<longleftrightarrow> m = n"
  using distinct_hex_digits by (simp add: hex_digit_def nth_eq_iff_index_eq length_hex_digits)

lemma hex_byte_inject [simp]: "hex_byte a = hex_byte b \<longleftrightarrow> a = b"
proof
  assume eq: "hex_byte a = hex_byte b"
  have lt: "unat x div 16 < 16" for x :: "8 word"
    using unsigned_less [of x, where 'a = nat] by (simp add: div_less_iff_less_mult)
  from eq lt have "unat a div 16 = unat b div 16" and "unat a mod 16 = unat b mod 16"
    by (simp_all add: hex_byte_def hex_digit_inject)
  then have "unat a = unat b" by (metis div_mult_mod_eq)
  then show "a = b" by (rule unsigned_word_eqI)
qed simp

lemma hex_inject [simp]: "hex xs = hex ys \<longleftrightarrow> xs = ys"
proof
  show "hex xs = hex ys \<Longrightarrow> xs = ys"
  proof (induction xs arbitrary: ys)
    case Nil
    then show ?case by (cases ys) (simp_all add: hex_def hex_byte_def)
  next
    case (Cons x xs)
    then obtain y ys' where ys: "ys = y # ys'" by (cases ys) (simp_all add: hex_def hex_byte_def)
    from Cons.prems have "hex_byte x @ hex xs = hex_byte y @ hex ys'" by (simp add: hex_def ys)
    then have "hex_byte x = hex_byte y" and "hex xs = hex ys'" by (auto simp: hex_byte_def)
    with Cons.IH ys show ?case by simp
  qed
qed simp

lemma length_hex [simp]: "length (hex bs) = 2 * length bs"
  by (induction bs) (simp_all add: hex_def hex_byte_def)

section \<open>Slices\<close>

text \<open>\<open>a.subarray(start, end)\<close>: negative positions count from the end.\<close>

definition rel_index :: "nat \<Rightarrow> int \<Rightarrow> nat" where
  "rel_index n i = (if i < 0 then nat (int n + i) else min (nat i) n)"

definition subarray :: "'a list \<Rightarrow> int \<Rightarrow> int \<Rightarrow> 'a list" where
  "subarray xs i j = take (rel_index (length xs) j - rel_index (length xs) i) (drop (rel_index (length xs) i) xs)"

lemma subarray_split:
  assumes "n \<le> length xs"
  shows "subarray xs 0 (int n) = take n xs" "subarray xs (int n) (int (length xs)) = drop n xs"
  using assms by (simp_all add: subarray_def rel_index_def)

section \<open>Cryptographic primitives\<close>

datatype hash_alg = SHA256 | SHA512

record crypto =
  sha256 :: "bytes \<Rightarrow> bytes"                       \<comment> \<open>\<open>createHash('sha256').update(m).digest()\<close>\<close>
  hmac :: "hash_alg \<Rightarrow> bytes \<Rightarrow> bytes \<Rightarrow> bytes"     \<comment> \<open>\<open>createHmac(alg, key).update(m).digest()\<close>\<close>
  gcm_seal :: "bytes \<Rightarrow> bytes \<Rightarrow> bytes \<Rightarrow> bytes \<times> bytes"   \<comment> \<open>key, iv, plaintext: ciphertext and tag\<close>
  gcm_open :: "bytes \<Rightarrow> bytes \<Rightarrow> bytes \<Rightarrow> bytes \<Rightarrow> bytes option"  \<comment> \<open>key, iv, ciphertext, tag\<close>

text \<open>
  Documented behaviour of AES-256-GCM in \<open>node:crypto\<close>: the tag has 16 bytes, and opening
  what was sealed under the same key and iv gives the plaintext back.
\<close>

definition aead_correct :: "crypto \<Rightarrow> bool" where
  "aead_correct C \<longleftrightarrow> (\<forall>k iv p. length (snd (gcm_seal C k iv p)) = 16 \<and>
     gcm_open C k iv (fst (gcm_seal C k iv p)) (snd (gcm_seal C k iv p)) = Some p)"

text \<open>No two messages of a given set have the same SHA-256 digest.\<close>

definition collision_free :: "crypto \<Rightarrow> bytes set \<Rightarrow> bool" where
  "collision_free C M \<longleftrightarrow> inj_on (sha256 C) M"

text \<open>\<open>timingSafeEqual\<close> throws on different lengths; the source compares lengths first.\<close>

definition timing_safe_equal :: "bytes \<Rightarrow> bytes \<Rightarrow> bool" where
  "timing_safe_equal a b \<longleftrightarrow> a = b"

end
