(* ===== verification/Exn.thy ===== *)
theory Exn imports JsString begin

text \<open>
  The exceptions of the engine: the error classes the source declares and throws, and one
  constructor for every other error the runtime throws (\<open>TypeError\<close>, \<open>SyntaxError\<close>, \<open>Error\<close>,
  and the error of a driver that carries a \<open>code\<close>).
\<close>

datatype exn =
    StoreError string string             \<comment> \<open>message, op\<close>
  | StoreUnavailableError string string  \<comment> \<open>message, op; a subclass of \<open>StoreError\<close>\<close>
  | TransientHttpError string "nat option"
  | PermanentHttpError string nat string \<comment> \<open>message, status, body\<close>
  | MappingError string
  | EnrichmentError string
  | EnrichTimeoutError string
  | CodedError string string             \<comment> \<open>message, \<open>code\<close> (SQLite driver errors)\<close>
  | OtherError string

fun message :: "exn \<Rightarrow> string" where
  "message (StoreError m _) = m"
| "message (StoreUnavailableError m _) = m"
| "message (TransientHttpError m _) = m"
| "message (PermanentHttpError m _ _) = m"
| "message (MappingError m) = m"
| "message (EnrichmentError m) = m"
| "message (EnrichTimeoutError m) = m"
| "message (CodedError m _) = m"
| "message (OtherError m) = m"

text \<open>\<open>err instanceof StoreError\<close>, which also holds of the subclass.\<close>

fun is_store_error :: "exn \<Rightarrow> bool" where
  "is_store_error (StoreError _ _) = True"
| "is_store_error (StoreUnavailableError _ _) = True"
| "is_store_error _ = False"

fun is_store_unavailable :: "exn \<Rightarrow> bool" where
  "is_store_unavailable (StoreUnavailableError _ _) = True"
| "is_store_unavailable _ = False"

fun is_transient :: "exn \<Rightarrow> bool" where
  "is_transient (TransientHttpError _ _) = True"
| "is_transient _ = False"

fun is_parking_error :: "exn \<Rightarrow> bool" where
  "is_parking_error (MappingError _) = True"
| "is_parking_error (EnrichmentError _) = True"
| "is_parking_error _ = False"

fun is_enrichment_error :: "exn \<Rightarrow> bool" where
  "is_enrichment_error (EnrichmentError _) = True"
| "is_enrichment_error _ = False"

text \<open>\<open>storeOp\<close>: the operation a store error names.\<close>

fun storeOp :: "exn \<Rightarrow> string option" where
  "storeOp (StoreError _ op) = Some op"
| "storeOp (StoreUnavailableError _ op) = Some op"
| "storeOp _ = None"

end
