(* ===== verification/Codec.thy ===== *)
theory Codec imports Bytes Exn begin

text \<open>
  Key derivation (\<open>packages/core/src/crypto/keys.ts\<close>), AES-256-GCM at rest
  (\<open>packages/core/src/crypto/at-rest.ts\<close>) and the payload codecs
  (\<open>packages/core/src/engine/codec.ts\<close>).  The iv that \<open>randomBytes(12)\<close> draws is an argument.
\<close>

section \<open>Keys\<close>

definition MIN_KEY_CHARS :: nat where "MIN_KEY_CHARS = 16"

definition deriveKey :: "crypto \<Rightarrow> string \<Rightarrow> string option \<Rightarrow> exn + bytes" where
  "deriveKey C envName raw =
     (let refused = Inl (OtherError (envName @ '' must be set to at least '' @ string_of_nat MIN_KEY_CHARS @ '' characters'')) in
      case raw of None \<Rightarrow> refused
      | Some r \<Rightarrow> (if length r < MIN_KEY_CHARS then refused else Inr (sha256 C (utf8 r))))"

section \<open>Encryption at rest\<close>

definition IV_BYTES :: nat where "IV_BYTES = 12"
definition TAG_BYTES :: nat where "TAG_BYTES = 16"

definition encrypt :: "crypto \<Rightarrow> bytes \<Rightarrow> bytes \<Rightarrow> bytes \<Rightarrow> bytes \<times> bytes" where
  "encrypt C key iv plaintext = (let (body, tag) = gcm_seal C key iv plaintext in (body @ tag, iv))"

text \<open>The tag lengths \<open>decipher.setAuthTag\<close> takes for GCM; it throws on the others.\<close>

definition gcm_tag_length :: "nat \<Rightarrow> bool" where
  "gcm_tag_length n \<longleftrightarrow> n \<in> {4, 8, 12, 13, 14, 15, 16}"

definition decrypt :: "crypto \<Rightarrow> bytes \<Rightarrow> bytes \<Rightarrow> bytes \<Rightarrow> exn + bytes" where
  "decrypt C key ciphertext iv =
     (let n = int (length ciphertext);
          tag = subarray ciphertext (n - int TAG_BYTES) n;
          body = subarray ciphertext 0 (n - int TAG_BYTES) in
      if \<not> gcm_tag_length (length tag)
      then Inl (OtherError (''Invalid authentication tag length: '' @ string_of_nat (length tag)))
      else (case gcm_open C key iv body tag of
          None \<Rightarrow> Inl (OtherError ''Unsupported state or unable to authenticate data'')
        | Some p \<Rightarrow> Inr p))"

section \<open>Codecs\<close>

record payload_codec =
  encode :: "bytes \<Rightarrow> bytes \<Rightarrow> bytes \<times> bytes option"  \<comment> \<open>the iv drawn, the plain text\<close>
  decode :: "bytes \<Rightarrow> bytes option \<Rightarrow> exn + bytes"

definition aesGcmCodec :: "crypto \<Rightarrow> bytes \<Rightarrow> payload_codec" where
  "aesGcmCodec C key = \<lparr>
     encode = (\<lambda>iv0 plain. let (ciphertext, iv) = encrypt C key iv0 plain in (ciphertext, Some iv)),
     decode = (\<lambda>payload iv. case iv of
         None \<Rightarrow> Inl (OtherError ''encrypted payload has no iv'')
       | Some i \<Rightarrow> decrypt C key payload i) \<rparr>"

definition plainCodec :: payload_codec where
  "plainCodec = \<lparr> encode = (\<lambda>iv0 plain. (plain, None)), decode = (\<lambda>payload iv. Inr payload) \<rparr>"

text \<open>What the engine relies on: a stored payload decodes to the body that was received.\<close>

locale codec_contract =
  fixes enc :: "bytes \<Rightarrow> bytes \<Rightarrow> bytes \<times> bytes option"
    and dec :: "bytes \<Rightarrow> bytes option \<Rightarrow> exn + bytes"
  assumes dec_enc: "dec (fst (enc iv plain)) (snd (enc iv plain)) = Inr plain"
begin

lemma enc_inject: "enc iv p = enc iv' q \<Longrightarrow> p = q"
  using dec_enc [of iv p] dec_enc [of iv' q] by simp

end

interpretation plain_codec: codec_contract "encode plainCodec" "decode plainCodec"
  by unfold_locales (simp add: plainCodec_def)

lemma decrypt_encrypt:
  assumes "aead_correct C"
  shows "decrypt C key (fst (encrypt C key iv p)) (snd (encrypt C key iv p)) = Inr p"
proof -
  obtain body tag where bt: "gcm_seal C key iv p = (body, tag)" by fastforce
  with assms have tag: "length tag = 16" and op: "gcm_open C key iv body tag = Some p"
    unfolding aead_correct_def by (metis fst_conv snd_conv)+
  let ?c = "body @ tag"
  have n: "int (length ?c) - int TAG_BYTES = int (length body)" by (simp add: tag TAG_BYTES_def)
  have "subarray ?c (int (length body)) (int (length ?c)) = tag" and "subarray ?c 0 (int (length body)) = body"
    using subarray_split [of "length body" ?c] by simp_all
  with bt tag op n show ?thesis
    by (simp add: decrypt_def encrypt_def gcm_tag_length_def Let_def)
qed

lemma aes_codec_contract:
  "aead_correct C \<Longrightarrow> codec_contract (encode (aesGcmCodec C key)) (decode (aesGcmCodec C key))"
  by unfold_locales (simp add: aesGcmCodec_def decrypt_encrypt split_beta)

text \<open>\<^bold>\<open>C26.\<close> A payload stored under a key decodes to the plain text under that key, with the
  iv that was stored beside it; without an iv it does not decode.\<close>

theorem aes_codec_roundtrip:
  assumes "aead_correct C"
  shows "(case encode (aesGcmCodec C key) iv plain of (payload, iv') \<Rightarrow>
    iv' = Some iv \<and> decode (aesGcmCodec C key) payload iv' = Inr plain \<and>
    decode (aesGcmCodec C key) payload None = Inl (OtherError ''encrypted payload has no iv''))"
  using decrypt_encrypt [OF assms, of key iv plain] by (simp add: aesGcmCodec_def encrypt_def split_beta)

text \<open>A cipher that satisfies the documented laws: a constant key stream and a tag of zeros.\<close>

definition toy_crypto :: crypto where
  "toy_crypto = \<lparr> sha256 = (\<lambda>m. m), hmac = (\<lambda>_ k m. replicate 32 7),
     gcm_seal = (\<lambda>k iv p. (map (xor 90) p, replicate 16 0)),
     gcm_open = (\<lambda>k iv c t. Some (map (xor 90) c)) \<rparr>"

lemma toy_crypto_correct: "aead_correct toy_crypto"
  by (simp add: aead_correct_def toy_crypto_def comp_def xor.assoc [symmetric])

theorem aes_codec_roundtrip_witness:
  "case encode (aesGcmCodec toy_crypto []) [1] [2, 3] of (payload, iv') \<Rightarrow>
    iv' = Some [1] \<and> decode (aesGcmCodec toy_crypto []) payload iv' = Inr [2, 3] \<and>
    decode (aesGcmCodec toy_crypto []) payload None = Inl (OtherError ''encrypted payload has no iv'')"
  by (rule aes_codec_roundtrip [OF toy_crypto_correct])

end
