(* ===== verification/Dates.thy ===== *)
theory Dates imports JsString begin

text \<open>
  Points in time as milliseconds since the epoch, and \<open>Date.prototype.toISOString\<close>, the form
  in which the engine and its stores keep them.
\<close>

definition DAY_MS :: int where "DAY_MS = 86400000"

text \<open>Year, month and day of a day number (0 is 1970-01-01) in the proleptic Gregorian calendar.\<close>

definition civil_from_days :: "int \<Rightarrow> int \<times> nat \<times> nat" where
  "civil_from_days days =
     (let z = days + 719468;
          era = z div 146097;
          doe = z mod 146097;
          yoe = (doe - doe div 1460 + doe div 36524 - doe div 146096) div 365;
          doy = doe - (365 * yoe + yoe div 4 - yoe div 100);
          mp = (5 * doy + 2) div 153;
          d = doy - (153 * mp + 2) div 5 + 1;
          m = (if mp < 10 then mp + 3 else mp - 9)
      in (yoe + era * 400 + (if m \<le> 2 then 1 else 0), nat m, nat d))"

text \<open>Years outside 0 to 9999 are written with a sign and six digits.\<close>

definition show_year :: "int \<Rightarrow> string" where
  "show_year y = (if 0 \<le> y \<and> y \<le> 9999 then pad_start 4 CHR ''0'' (string_of_nat (nat y))
     else (if y < 0 then ''-'' else ''+'') @ pad_start 6 CHR ''0'' (string_of_nat (nat \<bar>y\<bar>)))"

definition two :: "nat \<Rightarrow> string" where "two n = pad_start 2 CHR ''0'' (string_of_nat n)"

definition iso_string :: "int \<Rightarrow> string" where
  "iso_string ms = (let (y, m, d) = civil_from_days (ms div DAY_MS); t = nat (ms mod DAY_MS) in
     show_year y @ ''-'' @ two m @ ''-'' @ two d @ ''T'' @ two (t div 3600000) @ '':'' @
     two (t div 60000 mod 60) @ '':'' @ two (t div 1000 mod 60) @ ''.'' @
     pad_start 3 CHR ''0'' (string_of_nat (t mod 1000)) @ ''Z'')"

text \<open>\<open>d.toISOString().slice(0, 10)\<close>.\<close>

definition iso_date :: "int \<Rightarrow> string" where "iso_date ms = slice_to 10 (iso_string ms)"

end
