(* ===== verification/Mapper.thy ===== *)
theory Mapper imports Schema Codec Dates begin

text \<open>
  The event mapper of \<open>packages/core/src/forward/mapper.ts\<close>: amounts, dates, transforms, and
  \<open>mapEvent\<close>, which builds the record that leaves the network and the report of what does not.
  The mapper is a computation over its local state (report, pending enrichments and used
  paths) that may throw.
\<close>

section \<open>Amounts\<close>

text \<open>
  Numbers are IEEE doubles: an exact non-negative integer is rounded to 53 significant bits,
  ties to even, and overflows to infinity from \<open>2 ^ 1024\<close>.
\<close>

definition round_to :: "nat \<Rightarrow> nat \<Rightarrow> nat" where
  "round_to unit n = (let q = n div unit; r = n mod unit in
     (if unit < 2 * r \<or> (unit = 2 * r \<and> odd q) then q + 1 else q) * unit)"

fun bit_length :: "nat \<Rightarrow> nat" where
  "bit_length n = (if n = 0 then 0 else Suc (bit_length (n div 2)))"

declare bit_length.simps [simp del]

definition to_double :: "nat \<Rightarrow> nat option" where
  "to_double n = (let d = round_to (2 ^ (bit_length n - 53)) n in if bit_length d \<le> 1024 then Some d else None)"

datatype amount = Cents int | InfiniteCents bool  \<comment> \<open>negative?\<close>

definition amount_re :: re where
  "amount_re = seqs [Bol, Seq (opt (chr CHR ''-'')) (Seq (plus digit)
     (opt (Seq (chr CHR ''.'') (Rep digit 1 2)))), Eol]"

definition strip_amount :: "string \<Rightarrow> string" where
  "strip_amount v = filter (\<lambda>c. \<not> (c = CHR ''$'' \<or> c = CHR '','' \<or> is_space c)) v"

definition amount_text :: "json \<Rightarrow> exn + string" where
  "amount_text value = (case value of
     JNum n \<Rightarrow> Inr n
   | JStr v \<Rightarrow> Inr (strip_amount v)
   | _ \<Rightarrow> Inl (MappingError (''amount is not a string or number: '' @ show_json value)))"

text \<open>\<open>Number(whole) * 100 + Number(frac.padEnd(2, '0') || '0')\<close>, each operation rounded.\<close>

definition cents_of :: "string \<Rightarrow> string \<Rightarrow> nat option" where
  "cents_of whole frac = (case to_double (nat_of_digits whole) of
     None \<Rightarrow> None
   | Some w \<Rightarrow> (case to_double (w * 100) of
       None \<Rightarrow> None
     | Some h \<Rightarrow> to_double (h + nat_of_digits (pad_end 2 CHR ''0'' frac))))"

definition toCents :: "json \<Rightarrow> exn + amount" where
  "toCents value = (case amount_text value of
     Inl e \<Rightarrow> Inl e
   | Inr s \<Rightarrow>
     if \<not> re_test amount_re s then Inl (MappingError (''unparseable amount: '' @ s))
     else (let negative = starts_with ''-'' s;
               t = (if negative then drop 1 s else s);
               parts = split_on CHR ''.'' t;
               whole = (case parts of w # _ \<Rightarrow> w | [] \<Rightarrow> ''0'');
               frac = (case parts of _ # f # _ \<Rightarrow> f | _ \<Rightarrow> [])
           in case cents_of whole frac of
                None \<Rightarrow> Inr (InfiniteCents negative)
              | Some c \<Rightarrow> Inr (Cents (if negative then - int c else int c))))"

section \<open>Dates\<close>

definition mdy_re :: re where
  "mdy_re = seqs [Bol, Cap 1 (Rep digit 1 2), chr CHR ''/'', Cap 2 (Rep digit 1 2), chr CHR ''/'',
     Cap 3 (times digit 4), Alt (Sat is_space) Eol]"

text \<open>
  \<open>new Date(value)\<close> accepts more than the ISO format, in ways the language leaves to the
  engine; the parser is an argument, \<open>None\<close> standing for an invalid date.
\<close>

definition parseDate :: "(string \<Rightarrow> int option) \<Rightarrow> json \<Rightarrow> date_format \<Rightarrow> exn + string" where
  "parseDate date_parse value fmt = (case value of
     JStr (c # cs) \<Rightarrow> (let v = c # cs in
       case fmt of
         MdyHms \<Rightarrow> (case re_match mdy_re v of
             None \<Rightarrow> Inl (MappingError (''unparseable M/D/YYYY date: '' @ v))
           | Some m \<Rightarrow> Inr (group m 3 @ ''-'' @ pad_start 2 CHR ''0'' (group m 1) @ ''-'' @
                 pad_start 2 CHR ''0'' (group m 2)))
       | Iso8601 \<Rightarrow> (case date_parse v of
             None \<Rightarrow> Inl (MappingError (''unparseable date: '' @ v))
           | Some ms \<Rightarrow> Inr (iso_date ms)))
   | _ \<Rightarrow> Inl (MappingError (''date is not a string: '' @ show_json value)))"

section \<open>Transforms\<close>

text \<open>\<open>JSON.stringify\<close> of a function is \<open>undefined\<close>, which \<open>update\<close> refuses.\<close>

definition hashValue :: "crypto \<Rightarrow> bytes \<Rightarrow> json \<Rightarrow> exn + string" where
  "hashValue C maskingKey value =
     (case (case value of JStr v \<Rightarrow> Some v | _ \<Rightarrow> stringify value) of
        None \<Rightarrow> Inl (OtherError ''The \"data\" argument must be of type string'')
      | Some raw \<Rightarrow> Inr (''hmac256:'' @ hex (hmac C SHA256 maskingKey (utf8 raw))))"

text \<open>\<open>trim\<close> and \<open>lowercase\<close>, elementwise over arrays.\<close>

fun text_transform :: "transform_name \<Rightarrow> json \<Rightarrow> json" where
  "text_transform name (JArr vs) = JArr (map (text_transform name) vs)"
| "text_transform name (JStr s) = JStr (if name = Trim then js_trim s else to_lower s)"
| "text_transform name v = v"

definition applyTransform :: "crypto \<Rightarrow> transform_name \<Rightarrow> json \<Rightarrow> bytes \<Rightarrow> exn + json" where
  "applyTransform C name value maskingKey =
     (if name = Hash then map_sum id JStr (hashValue C maskingKey value) else Inr (text_transform name value))"

fun applyTransforms :: "crypto \<Rightarrow> transform_name list \<Rightarrow> json \<Rightarrow> bytes \<Rightarrow> exn + json" where
  "applyTransforms C [] value k = Inr value"
| "applyTransforms C (t # ts) value k =
     (case applyTransform C t value k of Inl e \<Rightarrow> Inl e | Inr v \<Rightarrow> applyTransforms C ts v k)"

definition resolve :: "crypto \<Rightarrow> field_ref \<Rightarrow> json \<Rightarrow> bytes \<Rightarrow> exn + json option" where
  "resolve C r payload maskingKey = (case getAtPath payload (refSource r) of
     None \<Rightarrow> Inr None
   | Some value \<Rightarrow> map_sum id Some (applyTransforms C (refTransforms r) value maskingKey))"

fun dateSource :: "date_ref \<Rightarrow> string \<times> date_format" where
  "dateSource (DatePath p) = (p, Iso8601)"
| "dateSource (DateObj p f) = (p, f)"

section \<open>Records and reports\<close>

record endclose_record =
  ec_date :: string
  ec_data_stream_key :: string
  ec_amount :: amount
  ec_currency :: "string option"
  ec_direction :: direction
  ec_description :: "string option"
  ec_external_id :: string
  ec_metadata :: "(string \<times> json) list"

record map_report =
  rp_mapped :: "(string \<times> string) list"
  rp_hashed :: "string list"
  rp_enriched :: "string list"
  rp_not_forwarded :: "string list"

record pending_enrichment =
  pe_field :: string
  pe_enrichment :: string
  pe_input :: json
  pe_source :: string

text \<open>The local variables \<open>report\<close>, \<open>pending\<close> and \<open>usedPaths\<close> of \<open>mapEvent\<close>.\<close>

record map_state =
  ms_report :: map_report
  ms_pending :: "pending_enrichment list"
  ms_used :: "string list"

type_synonym 'a mapping = "(map_state, exn, 'a) sem"

definition add_used :: "string \<Rightarrow> map_state \<Rightarrow> map_state" where
  "add_used p s = s\<lparr>ms_used := List.insert p (ms_used s)\<rparr>"

definition add_mapped :: "string \<Rightarrow> string \<Rightarrow> map_state \<Rightarrow> map_state" where
  "add_mapped field src s =
     s\<lparr>ms_report := (ms_report s)\<lparr>rp_mapped := AList.update field src (rp_mapped (ms_report s))\<rparr>\<rparr>"

definition add_hashed :: "string \<Rightarrow> map_state \<Rightarrow> map_state" where
  "add_hashed field s = s\<lparr>ms_report := (ms_report s)\<lparr>rp_hashed := rp_hashed (ms_report s) @ [field]\<rparr>\<rparr>"

definition add_pending :: "pending_enrichment \<Rightarrow> map_state \<Rightarrow> map_state" where
  "add_pending pe s = s\<lparr>ms_pending := ms_pending s @ [pe],
     ms_report := (ms_report s)\<lparr>rp_enriched := rp_enriched (ms_report s) @ [pe_field pe]\<rparr>\<rparr>"

text \<open>The inner function \<open>use\<close> (the arrow of the report text is written in ASCII).\<close>

definition use_field :: "crypto \<Rightarrow> bytes \<Rightarrow> json \<Rightarrow> string \<Rightarrow> field_ref \<Rightarrow> json option mapping" where
  "use_field C maskingKey payload field r =
     bindE (of_sum (resolve C r payload maskingKey)) (\<lambda>value. case value of
       None \<Rightarrow> ret None
     | Some v \<Rightarrow>
         thenE (modifyE (add_used (refSource r)))
           (case refEnrichment r of
              Some n \<Rightarrow>
                thenE (modifyE (add_mapped field (refSource r @ '' -> enrich:'' @ n)))
                  (thenE (modifyE (add_pending \<lparr>pe_field = field, pe_enrichment = n, pe_input = v, pe_source = refSource r\<rparr>))
                    (ret None))
            | None \<Rightarrow>
                thenE (modifyE (add_mapped field (refSource r)))
                  (thenE (whenE (Hash \<in> set (refTransforms r)) (modifyE (add_hashed field)))
                    (ret (Some v)))))"

definition map_external_id :: "crypto \<Rightarrow> bytes \<Rightarrow> record_map \<Rightarrow> json \<Rightarrow> string mapping" where
  "map_external_id C k m payload = bindE (use_field C k payload ''external_id'' (m_external_id m)) (\<lambda>v.
     case v of
       Some (JStr s) \<Rightarrow> ret s
     | Some (JNum n) \<Rightarrow> ret n
     | _ \<Rightarrow> throwE (MappingError (''missing external id at '' @ refSource (m_external_id m))))"

definition map_amount :: "crypto \<Rightarrow> bytes \<Rightarrow> record_map \<Rightarrow> json \<Rightarrow> amount mapping" where
  "map_amount C k m payload = bindE (use_field C k payload ''amount'' (m_amount m)) (\<lambda>v.
     of_sum (toCents (case v of Some j \<Rightarrow> j | None \<Rightarrow> JNull)))"

definition map_date :: "(string \<Rightarrow> int option) \<Rightarrow> record_map \<Rightarrow> json \<Rightarrow> string \<Rightarrow> string mapping" where
  "map_date date_parse m payload receivedAt = (case m_date m of
     Some d \<Rightarrow> (let (src, fmt) = dateSource d in
       bindE (of_sum (parseDate date_parse (case getAtPath payload src of Some j \<Rightarrow> j | None \<Rightarrow> JNull) fmt)) (\<lambda>date.
         thenE (modifyE (add_mapped ''date'' src)) (thenE (modifyE (add_used src)) (ret date))))
   | None \<Rightarrow> thenE (modifyE (add_mapped ''date'' ''(receive time)'')) (ret (slice_to 10 receivedAt)))"

fun map_metadata :: "crypto \<Rightarrow> bytes \<Rightarrow> json \<Rightarrow> (string \<times> field_ref) list \<Rightarrow> (string \<times> json) list \<Rightarrow> (string \<times> json) list mapping" where
  "map_metadata C k payload [] acc = ret acc"
| "map_metadata C k payload ((outputKey, r) # rs) acc =
     bindE (use_field C k payload (''metadata.'' @ outputKey) r) (\<lambda>value.
       map_metadata C k payload rs
         (case value of None \<Rightarrow> acc | Some v \<Rightarrow> AList.update outputKey (hardDenyDeep v) acc))"

definition map_description :: "crypto \<Rightarrow> bytes \<Rightarrow> record_map \<Rightarrow> json \<Rightarrow> string option mapping" where
  "map_description C k m payload = (case m_description m of
     None \<Rightarrow> ret None
   | Some r \<Rightarrow> bindE (use_field C k payload ''description'' r) (\<lambda>desc.
       ret (case desc of Some (JStr s) \<Rightarrow> Some (hardDenyValue s) | _ \<Rightarrow> None)))"

text \<open>The pattern of a used path with wildcards: \<open>*\<close> stands for one segment.\<close>

definition segment_re :: "string \<Rightarrow> re" where
  "segment_re s = (if s = ''*'' then plus (Sat (\<lambda>c. c \<noteq> CHR ''.'')) else lit s)"

fun dotted_re :: "string list \<Rightarrow> re" where
  "dotted_re [] = Eps"
| "dotted_re [s] = segment_re s"
| "dotted_re (s # ss) = Seq (segment_re s) (Seq (chr CHR ''.'') (dotted_re ss))"

definition wildcard_re :: "string \<Rightarrow> re" where
  "wildcard_re p = seqs [Bol, dotted_re (split_on CHR ''.'' p), Eol]"

definition not_forwarded :: "string list \<Rightarrow> json \<Rightarrow> string list" where
  "not_forwarded usedPaths payload =
     (let wildcards = map wildcard_re (filter (\<lambda>p. includes_char p CHR ''*'') usedPaths) in
      filter (\<lambda>leaf. leaf \<notin> set usedPaths \<and> \<not> (\<exists>r \<in> set wildcards. re_test r leaf)) (leafPaths payload []))"

definition initial_map_state :: map_state where
  "initial_map_state = \<lparr>ms_report = \<lparr>rp_mapped = [], rp_hashed = [], rp_enriched = [], rp_not_forwarded = []\<rparr>,
     ms_pending = [], ms_used = []\<rparr>"

definition build_record ::
  "crypto \<Rightarrow> (string \<Rightarrow> int option) \<Rightarrow> record_map \<Rightarrow> json \<Rightarrow> string \<Rightarrow> bytes \<Rightarrow> endclose_record mapping" where
  "build_record C date_parse m payload receivedAt k =
     bindE (map_external_id C k m payload) (\<lambda>externalId.
     bindE (map_amount C k m payload) (\<lambda>amount.
     bindE (map_date date_parse m payload receivedAt) (\<lambda>date.
     bindE (map_metadata C k payload (m_metadata m) []) (\<lambda>metadata.
     bindE (map_description C k m payload) (\<lambda>description.
       ret \<lparr>ec_date = date, ec_data_stream_key = m_data_stream_key m, ec_amount = amount,
         ec_currency = (case m_currency m of None \<Rightarrow> None | Some c \<Rightarrow> if c = [] then None else Some c),
         ec_direction = m_direction m, ec_description = description, ec_external_id = externalId,
         ec_metadata = metadata\<rparr>)))))"

record mapped_event =
  me_record :: endclose_record
  me_report :: map_report
  me_pending :: "pending_enrichment list"

definition mapEvent ::
  "crypto \<Rightarrow> (string \<Rightarrow> int option) \<Rightarrow> route_config \<Rightarrow> json \<Rightarrow> string \<Rightarrow> bytes \<Rightarrow> exn + mapped_event" where
  "mapEvent C date_parse route payload receivedAt maskingKey =
     (case build_record C date_parse (r_map route) payload receivedAt maskingKey initial_map_state of
        (Inl e, _) \<Rightarrow> Inl e
      | (Inr r, s) \<Rightarrow> Inr \<lparr>me_record = r,
          me_report = (ms_report s)\<lparr>rp_not_forwarded := not_forwarded (ms_used s) payload\<rparr>,
          me_pending = ms_pending s\<rparr>)"

end
