(* ===== verification/MaskFacts.thy ===== *)
theory MaskFacts imports Mask begin

text \<open>
  What the hard denylist of theory \<open>Mask\<close> guarantees, and where it stops: the Luhn sum and
  the errors it detects, the sensitive names as a language, the absence of social security
  numbers from every redacted value, the redaction of a card number that stands alone, and
  the card numbers that escape.
\<close>

section \<open>The Luhn sum\<close>

text \<open>What a digit contributes: itself, or the digit sum of its double.\<close>

definition luhn_digit :: "bool \<Rightarrow> nat \<Rightarrow> nat" where
  "luhn_digit dbl d = (if dbl then (2 * d) div 10 + (2 * d) mod 10 else d)"

text \<open>The reference: position \<open>i\<close> counted from the right is doubled when \<open>i\<close> is odd.\<close>

definition luhn_sum :: "string \<Rightarrow> nat" where
  "luhn_sum ds = (\<Sum>i<length ds. luhn_digit (odd i) (digit_val (rev ds ! i)))"

lemma luhn_step: "d < 10 \<Longrightarrow> (let d' = (if dbl then d * 2 else d); d' = (if dbl \<and> d' > 9 then d' - 9 else d') in d') = luhn_digit dbl d"
  by (elim nat_lt_10_cases) (auto simp: luhn_digit_def Let_def)

lemma luhn_loop_Cons:
  "is_digit c \<Longrightarrow> luhn_loop (c # cs) dbl s = luhn_loop cs (\<not> dbl) (s + luhn_digit dbl (digit_val c))"
  using luhn_step [of "digit_val c" dbl] by (auto simp: Let_def)

lemma luhn_loop_sum:
  "\<forall>c \<in> set cs. is_digit c \<Longrightarrow>
   luhn_loop cs dbl s = s + (\<Sum>i<length cs. luhn_digit (odd i \<noteq> dbl) (digit_val (cs ! i)))"
proof (induction cs arbitrary: dbl s)
  case Nil
  then show ?case by simp
next
  case (Cons c cs)
  have "luhn_loop (c # cs) dbl s = luhn_loop cs (\<not> dbl) (s + luhn_digit dbl (digit_val c))"
    using Cons.prems by (simp add: luhn_loop_Cons del: luhn_loop.simps)
  also have "\<dots> = s + luhn_digit dbl (digit_val c) + (\<Sum>i<length cs. luhn_digit (odd i \<noteq> (\<not> dbl)) (digit_val (cs ! i)))"
    using Cons by simp
  also have "\<dots> = s + (\<Sum>i<Suc (length cs). luhn_digit (odd i \<noteq> dbl) (digit_val ((c # cs) ! i)))"
    by (subst sum.lessThan_Suc_shift) (simp add: eq_commute)
  finally show ?case by simp
qed

lemma luhn_valid_sum: "\<forall>c \<in> set ds. is_digit c \<Longrightarrow> luhnValid ds \<longleftrightarrow> luhn_sum ds mod 10 = 0"
  by (simp add: luhnValid_def luhn_loop_sum luhn_sum_def)

lemma luhn_digit_inj: "a < 10 \<Longrightarrow> b < 10 \<Longrightarrow> luhn_digit dbl a mod 10 = luhn_digit dbl b mod 10 \<Longrightarrow> a = b"
  by (elim nat_lt_10_cases) (auto simp: luhn_digit_def split: if_splits)

lemma luhn_digit_lt: "a < 10 \<Longrightarrow> luhn_digit dbl a < 10"
  by (elim nat_lt_10_cases) (auto simp: luhn_digit_def)

lemma sum_update_one:
  fixes f g :: "nat \<Rightarrow> nat"
  assumes "k < n" and "\<And>i. i \<noteq> k \<Longrightarrow> f i = g i"
  shows "(\<Sum>i<n. f i) + g k = (\<Sum>i<n. g i) + f k"
proof -
  have "(\<Sum>i<n. f i) = f k + (\<Sum>i\<in>{..<n} - {k}. f i)" and "(\<Sum>i<n. g i) = g k + (\<Sum>i\<in>{..<n} - {k}. g i)"
    using assms(1) by (simp_all add: sum.remove)
  moreover have "(\<Sum>i\<in>{..<n} - {k}. f i) = (\<Sum>i\<in>{..<n} - {k}. g i)"
    using assms(2) by (intro sum.cong) auto
  ultimately show ?thesis by simp
qed

lemma luhn_sum_replace:
  assumes "\<forall>c \<in> set (xs @ [a] @ ys). is_digit c" and "is_digit b"
  shows "luhn_sum (xs @ [a] @ ys) + luhn_digit (odd (length ys)) (digit_val b) =
    luhn_sum (xs @ [b] @ ys) + luhn_digit (odd (length ys)) (digit_val a)"
proof -
  let ?d = "\<lambda>c i. luhn_digit (odd i) (digit_val (rev (xs @ [c] @ ys) ! i))"
  have k: "rev (xs @ [c] @ ys) ! length ys = c" for c by (simp add: nth_append)
  have other: "?d a i = ?d b i" if "i \<noteq> length ys" for i
    using that by (auto simp: nth_append nth_Cons')
  show ?thesis
    using sum_update_one [of "length ys" "length (xs @ [a] @ ys)" "?d a" "?d b", OF _ other] k
    by (simp add: luhn_sum_def)
qed

text \<open>\<^bold>\<open>C23.\<close> No single mistyped digit passes the Luhn check.\<close>

theorem luhn_detects_single_error:
  assumes "\<forall>c \<in> set (xs @ [a] @ ys). is_digit c" and "is_digit b" and "a \<noteq> b"
    and "luhnValid (xs @ [a] @ ys)"
  shows "\<not> luhnValid (xs @ [b] @ ys)"
proof
  assume b: "luhnValid (xs @ [b] @ ys)"
  have "luhn_sum (xs @ [a] @ ys) mod 10 = 0" and "luhn_sum (xs @ [b] @ ys) mod 10 = 0"
    using assms b by (auto simp: luhn_valid_sum)
  then have "luhn_digit (odd (length ys)) (digit_val b) mod 10 = luhn_digit (odd (length ys)) (digit_val a) mod 10"
    using luhn_sum_replace [OF assms(1,2)] by (metis add_0 mod_add_left_eq)
  then have "digit_val b = digit_val a"
    by (rule luhn_digit_inj [rotated 2]) (use assms(1,2) in auto)
  then show False using assms by (metis digit_char_digit_val in_set_conv_decomp append_Cons append_Nil)
qed

section \<open>Delimited matches\<close>

text \<open>
  Both patterns have the form \<open>\bW\b\<close> for a language \<open>W\<close> of words that begin and end with
  a digit: they match where such a word stands between two non-word characters.
\<close>

lemma run_Seq: "run (Seq a b) = (\<lambda>st. concat (map (run b) (run a st)))"
  by (rule ext) simp

lemma run_Seq_assoc: "run (Seq (Seq a b) c) = run (Seq a (Seq b c))"
proof -
  have "concat (map (run c) (concat (map (run b) xs))) = concat (map (\<lambda>st. concat (map (run c) (run b st))) xs)" for xs
    by (induction xs) simp_all
  then show ?thesis by (simp add: run_Seq)
qed

lemma run_Seq_cong: "run b = run b' \<Longrightarrow> run (Seq a b) = run (Seq a b')"
  by (simp add: run_Seq)

definition delimited :: "char option \<Rightarrow> string \<Rightarrow> string \<Rightarrow> bool" where
  "delimited p m t \<longleftrightarrow> \<not> word_before p \<and> \<not> word_after t"

lemma word_after_digit [simp]: "is_digit c \<Longrightarrow> word_after (c # s)"
  by (simp add: word_after_def is_digit_word)

lemma word_before_digit [simp]: "is_digit c \<Longrightarrow> word_before (Some c)"
  by (simp add: word_before_def is_digit_word)

lemma run_delimited:
  assumes "consumes r W" and "\<And>m. W m \<Longrightarrow> m \<noteq> [] \<and> is_digit (hd m) \<and> is_digit (last m)"
  shows "st' \<in> set (run (Seq WordB (Seq r WordB)) (p, s, cs)) \<longleftrightarrow>
    (\<exists>m t. s = m @ t \<and> st' = (Some (last m), t, cs) \<and> W m \<and> delimited p m t)"
proof -
  have *: "boundary p (m @ t) \<and> boundary (after p m) t \<longleftrightarrow> delimited p m t" and **: "after p m = Some (last m)"
    if "W m" for m t
    using assms(2) [OF that]
    by (cases m; simp add: boundary_def delimited_def after_def is_digit_word word_before_def word_after_def)+
  have "st' \<in> set (run (Seq WordB (Seq r WordB)) (p, s, cs)) \<longleftrightarrow>
      boundary p s \<and> (\<exists>mid \<in> set (run r (p, s, cs)). st' \<in> set (run WordB mid))" by auto
  also have "\<dots> \<longleftrightarrow> (\<exists>m t. s = m @ t \<and> st' = (after p m, t, cs) \<and> W m \<and> boundary p (m @ t) \<and> boundary (after p m) t)"
    unfolding Bex_def consumesD [OF assms(1)] by auto
  also have "\<dots> \<longleftrightarrow> (\<exists>m t. s = m @ t \<and> st' = (Some (last m), t, cs) \<and> W m \<and> delimited p m t)"
    using * by (intro ex_cong1) (metis **)
  finally show ?thesis .
qed

definition digit_run :: "nat \<Rightarrow> string \<Rightarrow> bool" where
  "digit_run n w \<longleftrightarrow> (\<forall>c \<in> set w. is_digit c) \<and> length w = n"

definition ssn_word :: "string \<Rightarrow> bool" where
  "ssn_word m \<longleftrightarrow> (\<exists>a b c. m = a @ ''-'' @ b @ ''-'' @ c \<and> digit_run 3 a \<and> digit_run 2 b \<and> digit_run 4 c)"

definition pan_step :: "string \<Rightarrow> bool" where
  "pan_step g \<longleftrightarrow> (\<exists>x. is_digit x \<and> (g = [x] \<or> g = [CHR '' '', x] \<or> g = [CHR ''-'', x]))"

definition pan_word :: "string \<Rightarrow> bool" where
  "pan_word m \<longleftrightarrow> (\<exists>d gs. m = d # concat gs \<and> is_digit d \<and> (\<forall>g \<in> set gs. pan_step g) \<and> 12 \<le> length gs \<and> length gs \<le> 18)"

lemma consumes_times_digit: "consumes (times digit n) (digit_run n)"
proof -
  have "consumes (times digit n) (\<lambda>w. (\<forall>c \<in> set w. is_digit c) \<and> n \<le> length w \<and> length w \<le> n)"
    unfolding times_def digit_def by (intro consumes_Rep_Sat) simp
  then show ?thesis by (rule consumes_cong) (auto simp: digit_run_def)
qed

lemma consumes_chr: "consumes (chr c) (\<lambda>m. m = [c])"
  unfolding chr_def by (rule consumes_cong [OF consumes_Sat]) simp

lemma ssn_consumes:
  "consumes (Seq (times digit 3) (Seq (chr CHR ''-'') (Seq (times digit 2) (Seq (chr CHR ''-'') (times digit 4))))) ssn_word"
proof -
  have "consumes (Seq (times digit 3) (Seq (chr CHR ''-'') (Seq (times digit 2) (Seq (chr CHR ''-'') (times digit 4)))))
    (\<lambda>m. \<exists>u v. m = u @ v \<and> digit_run 3 u \<and> (\<exists>u' v'. v = u' @ v' \<and> u' = ''-'' \<and> (\<exists>x y. v' = x @ y \<and> digit_run 2 x \<and>
      (\<exists>x' y'. y = x' @ y' \<and> x' = ''-'' \<and> digit_run 4 y'))))"
    by (intro consumes_Seq consumes_chr consumes_times_digit)
  then show ?thesis by (rule consumes_cong) (unfold ssn_word_def, blast)
qed

lemma pan_group_consumes: "consumes pan_group pan_step"
proof -
  have "consumes (one_of '' -'') (\<lambda>m. m = '' '' \<or> m = ''-'')"
    unfolding one_of_def by (rule consumes_cong [OF consumes_Sat]) auto
  then have "consumes (opt (one_of '' -'')) (\<lambda>m. m = [] \<or> m = '' '' \<or> m = ''-'')"
    by (rule consumes_opt) auto
  moreover have "consumes digit (\<lambda>m. \<exists>x. m = [x] \<and> is_digit x)"
    unfolding digit_def by (rule consumes_Sat)
  ultimately have "consumes pan_group (\<lambda>m. \<exists>u v. m = u @ v \<and> (u = [] \<or> u = '' '' \<or> u = ''-'') \<and> (\<exists>x. v = [x] \<and> is_digit x))"
    unfolding pan_group_def by (rule consumes_Seq)
  then show ?thesis
  proof (rule consumes_cong)
    fix m
    show "(\<exists>u v. m = u @ v \<and> (u = [] \<or> u = '' '' \<or> u = ''-'') \<and> (\<exists>x. v = [x] \<and> is_digit x)) \<longleftrightarrow> pan_step m" (is "?l = _")
    proof
      assume ?l
      then show "pan_step m" unfolding pan_step_def by auto
    next
      assume "pan_step m"
      then obtain x where "is_digit x" "m = [] @ [x] \<or> m = '' '' @ [x] \<or> m = ''-'' @ [x]"
        unfolding pan_step_def by auto
      then show ?l by blast
    qed
  qed
qed

lemma pan_consumes: "consumes (Seq digit (Rep pan_group 12 18)) pan_word"
proof -
  have "consumes digit (\<lambda>m. \<exists>x. m = [x] \<and> is_digit x)"
    unfolding digit_def by (rule consumes_Sat)
  moreover have "consumes (Rep pan_group 12 18)
      (\<lambda>w. \<exists>gs. w = concat gs \<and> (\<forall>g \<in> set gs. pan_step g) \<and> 12 \<le> length gs \<and> length gs \<le> 18)"
    by (rule consumes_Rep [OF pan_group_consumes]) (auto simp: pan_step_def)
  ultimately have "consumes (Seq digit (Rep pan_group 12 18)) (\<lambda>m. \<exists>u v. m = u @ v \<and> (\<exists>x. u = [x] \<and> is_digit x) \<and>
      (\<exists>gs. v = concat gs \<and> (\<forall>g \<in> set gs. pan_step g) \<and> 12 \<le> length gs \<and> length gs \<le> 18))"
    by (rule consumes_Seq)
  then show ?thesis
    by (rule consumes_cong) (unfold pan_word_def ex_first, blast)
qed

lemma ssn_word_ends: "ssn_word m \<Longrightarrow> m \<noteq> [] \<and> is_digit (hd m) \<and> is_digit (last m)"
  by (auto simp: ssn_word_def digit_run_def hd_append)

lemma pan_word_ends:
  assumes "pan_word m"
  shows "m \<noteq> [] \<and> is_digit (hd m) \<and> is_digit (last m)"
proof -
  from assms obtain d gs where m: "m = d # concat gs" "is_digit d" "gs \<noteq> []" and gs: "\<forall>g \<in> set gs. pan_step g"
    unfolding pan_word_def by (metis list.size(3) not_numeral_le_zero)
  then obtain x where x: "is_digit x" "last gs = [x] \<or> last gs = [CHR '' '', x] \<or> last gs = [CHR ''-'', x]"
    unfolding pan_step_def by (meson last_in_set)
  have "last (concat (butlast gs @ [last gs])) = x" using x by auto
  moreover have "concat gs \<noteq> []" using gs m(3) by (cases gs) (auto simp: pan_step_def)
  ultimately show ?thesis using m x by simp
qed

lemma ssn_at: "st' \<in> set (run SSN_RE (p, s, cs)) \<longleftrightarrow>
    (\<exists>m t. s = m @ t \<and> st' = (Some (last m), t, cs) \<and> ssn_word m \<and> delimited p m t)"
proof -
  have "run SSN_RE = run (Seq WordB (Seq (Seq (times digit 3) (Seq (chr CHR ''-'') (Seq (times digit 2)
      (Seq (chr CHR ''-'') (times digit 4))))) WordB))"
    unfolding SSN_RE_def seqs.simps by (rule run_Seq_cong, (rule trans [OF run_Seq_cong run_Seq_assoc [symmetric]])+, rule refl)
  then show ?thesis using run_delimited [OF ssn_consumes ssn_word_ends] by metis
qed

lemma pan_at: "st' \<in> set (run PAN_CANDIDATE_RE (p, s, cs)) \<longleftrightarrow>
    (\<exists>m t. s = m @ t \<and> st' = (Some (last m), t, cs) \<and> pan_word m \<and> delimited p m t)"
proof -
  have "run PAN_CANDIDATE_RE = run (Seq WordB (Seq (Seq digit (Rep pan_group 12 18)) WordB))"
    unfolding PAN_CANDIDATE_RE_def seqs.simps by (rule run_Seq_cong) (simp only: run_Seq_assoc)
  then show ?thesis using run_delimited [OF pan_consumes pan_word_ends] by metis
qed

section \<open>Redaction as a relation\<close>

text \<open>
  \<open>redacts N p s out\<close>: \<open>out\<close> is \<open>s\<close>, read after the character \<open>p\<close>, with some words that stand
  between boundaries replaced by the marker; \<open>N\<close> holds wherever a character is kept.
\<close>

inductive redacts :: "(char option \<Rightarrow> string \<Rightarrow> bool) \<Rightarrow> char option \<Rightarrow> string \<Rightarrow> string \<Rightarrow> bool" for N where
  redacts_Nil: "redacts N p [] []"
| redacts_keep: "N p (c # s) \<Longrightarrow> redacts N (Some c) s out \<Longrightarrow> redacts N p (c # s) (c # out)"
| redacts_mark: "m \<noteq> [] \<Longrightarrow> is_digit (hd m) \<Longrightarrow> is_digit (last m) \<Longrightarrow> delimited p m s \<Longrightarrow>
    redacts N (Some (last m)) s out \<Longrightarrow> redacts N p (m @ s) (REDACTED @ out)"

inductive_cases redacts_NilE: "redacts N p s []"
inductive_cases redacts_ConsE: "redacts N p s (c # out)"

lemma redacts_keep_word:
  "(\<And>q t. N q t) \<Longrightarrow> redacts N (after p m) s out \<Longrightarrow> redacts N p (m @ s) (m @ out)"
  by (induction m arbitrary: p) (auto intro: redacts_keep)

text \<open>The characters of the two patterns do not occur in the marker.\<close>

definition is_mark_free :: "char \<Rightarrow> bool" where
  "is_mark_free c \<longleftrightarrow> is_digit c \<or> c = CHR ''-''"

lemma REDACTED_chars: "c \<in> set REDACTED \<Longrightarrow> \<not> is_mark_free c" and REDACTED_Cons: "REDACTED = CHR ''['' # tl REDACTED"
  and REDACTED_last: "last REDACTED = CHR '']''" and REDACTED_not_Nil: "REDACTED \<noteq> []"
  by (auto simp: REDACTED_def is_mark_free_def is_digit_def digits_def)

lemma redacts_word_prefix:
  "redacts N p s (m @ t) \<Longrightarrow> (\<forall>c \<in> set m. is_mark_free c) \<Longrightarrow>
   \<exists>t'. s = m @ t' \<and> redacts N (after p m) t' t \<and> (m \<noteq> [] \<longrightarrow> N p s)"
proof (induction m arbitrary: p s)
  case Nil
  then show ?case by simp
next
  case (Cons c m)
  have "c \<noteq> CHR ''[''" using Cons.prems(2) by (auto simp: is_mark_free_def is_digit_def digits_def)
  with Cons.prems(1) obtain s' where s: "s = c # s'" "N p s" "redacts N (Some c) s' (m @ t)"
    by (auto elim!: redacts_ConsE) (metis REDACTED_Cons append_Cons list.inject)+
  with Cons.IH [of "Some c" s'] Cons.prems(2) show ?case by auto
qed

lemma redacts_word_after: "redacts N p s out \<Longrightarrow> word_before p \<Longrightarrow> \<not> word_after out \<Longrightarrow> \<not> word_after s"
proof (induction rule: redacts.cases)
  case (redacts_mark m p s out)
  then show ?case by (simp add: delimited_def)
qed (auto simp: word_after_def)

lemma redacts_occurrence:
  assumes "redacts N p s out" and "out = u @ m @ t"
    and "m \<noteq> []" "\<forall>c \<in> set m. is_mark_free c" "is_digit (hd m)" "is_digit (last m)"
    and "\<not> word_before (after q u)" "\<not> word_after t" and "word_before p = word_before q \<or> \<not> word_after s"
  shows "\<exists>u' t'. s = u' @ m @ t' \<and> delimited (after p u') m t' \<and> N (after p u') (m @ t')"
  using assms
proof (induction arbitrary: u q rule: redacts.induct)
  case (redacts_Nil p)
  then show ?case by simp
next
  case (redacts_keep p c s out)
  show ?case
  proof (cases u)
    case Nil
    have "redacts N p (c # s) (m @ t)"
      using redacts.redacts_keep [of N p c s out] redacts_keep.hyps redacts_keep.prems(1) Nil by simp
    with redacts_keep.prems obtain t' where t': "c # s = m @ t'" "redacts N (after p m) t' t" "N p (c # s)"
      using redacts_word_prefix by blast
    have "word_before (after p m)" using redacts_keep.prems by (simp add: after_not_Nil)
    with t' redacts_keep.prems have "\<not> word_after t'" using redacts_word_after by blast
    moreover have "word_after (c # s)" unfolding t'(1) using redacts_keep.prems
      by (cases m) auto
    then have "\<not> word_before p" using redacts_keep.prems Nil by simp
    ultimately show ?thesis using t' by (intro exI [of _ "[]"] exI [of _ t']) (simp add: delimited_def)
  next
    case (Cons d u0)
    with redacts_keep.prems(1) have "d = c" "out = u0 @ m @ t" by auto
    with redacts_keep.prems Cons redacts_keep.IH [of u0 "Some c"]
    obtain u' t' where "s = u' @ m @ t'" "delimited (after (Some c) u') m t'" "N (after (Some c) u') (m @ t')"
      by auto
    then show ?thesis by (intro exI [of _ "c # u'"] exI [of _ t']) simp
  qed
next
  case (redacts_mark m0 p s out)
  have len: "length REDACTED \<le> length u"
  proof (rule ccontr)
    assume "\<not> ?thesis"
    then have lt: "length u < length REDACTED" by simp
    then have "REDACTED ! length u = (u @ m @ t) ! length u"
      using redacts_mark.prems(1) by (metis nth_append)
    also have "\<dots> = hd m" using redacts_mark.prems(2) by (simp add: nth_append hd_conv_nth)
    finally have "\<not> is_mark_free (hd m)" using lt REDACTED_chars by (metis nth_mem)
    then show False using redacts_mark.prems by (simp add: is_mark_free_def)
  qed
  then obtain u0 where u: "u = REDACTED @ u0" and o: "out = u0 @ m @ t"
    using redacts_mark.prems(1) by (metis append_eq_append_conv_if append_take_drop_id)
  have "after q u = after (Some CHR '']'') u0"
    unfolding u by (simp add: REDACTED_last REDACTED_not_Nil after_def)
  with redacts_mark.prems redacts_mark.hyps o redacts_mark.IH [of u0 "Some CHR '']''"]
  obtain u' t' where "s = u' @ m @ t'" "delimited (after (Some (last m0)) u') m t'"
    "N (after (Some (last m0)) u') (m @ t')"
    by (auto simp: delimited_def)
  moreover have "after p (m0 @ u') = after (Some (last m0)) u'"
    using redacts_mark.hyps(1) by (simp add: after_def)
  ultimately show ?case by (intro exI [of _ "m0 @ u'"] exI [of _ t']) simp
qed

section \<open>The two replacements\<close>

lemma match_at_None: "match_at r p s = None \<longleftrightarrow> run r (p, s, []) = []"
  by (auto simp: match_at_def split: list.splits)

lemma match_at_SomeD:
  assumes "match_at r p s = Some (m, s', cs)"
  shows "\<exists>q. (q, s', cs) \<in> set (run r (p, s, [])) \<and> s = m @ s'"
  using assms match_at_reads [OF assms] by (fastforce simp: match_at_def split: list.splits prod.splits)

lemma ssn_match_Some:
  "match_at SSN_RE p s = Some (m, s', cs) \<Longrightarrow> s = m @ s' \<and> ssn_word m \<and> delimited p m s'"
  using match_at_SomeD [of SSN_RE p s m s' cs] by (auto simp: ssn_at)

lemma pan_match_Some:
  "match_at PAN_CANDIDATE_RE p s = Some (m, s', cs) \<Longrightarrow> s = m @ s' \<and> pan_word m \<and> delimited p m s'"
  using match_at_SomeD [of PAN_CANDIDATE_RE p s m s' cs] by (auto simp: pan_at)

lemma replace_from_None: "match_at r p (c # s) = None \<Longrightarrow> replace_from r f p (c # s) = c # replace_from r f (Some c) s"
  by (simp add: replace_from.simps [of r f p "c # s"])

lemma replace_from_Some:
  "match_at r p s = Some (m, s', cs) \<Longrightarrow> m \<noteq> [] \<Longrightarrow> replace_from r f p s = f m @ replace_from r f (Some (last m)) s'"
  by (simp add: replace_from.simps [of r f p s])

lemma ssn_replace_redacts:
  "redacts (\<lambda>p s. match_at SSN_RE p s = None) p s (replace_from SSN_RE (\<lambda>_. REDACTED) p s)"
proof (induction "length s" arbitrary: p s rule: less_induct)
  case less
  show ?case
  proof (cases "match_at SSN_RE p s")
    case None
    show ?thesis
    proof (cases s)
      case Nil
      with None show ?thesis by (simp add: replace_from.simps [of _ _ p "[]"] redacts_Nil)
    next
      case (Cons c t)
      with None less show ?thesis by (auto simp: replace_from_None intro: redacts_keep)
    qed
  next
    case (Some r)
    obtain m s' cs where r: "r = (m, s', cs)" by (cases r)
    note m = ssn_match_Some [OF Some [unfolded r]] and e = ssn_word_ends [of m]
    have "redacts (\<lambda>p s. match_at SSN_RE p s = None) p (m @ s')
        (REDACTED @ replace_from SSN_RE (\<lambda>_. REDACTED) (Some (last m)) s')"
      using m e less by (intro redacts_mark) auto
    then show ?thesis using replace_from_Some [OF Some [unfolded r]] m e by simp
  qed
qed

lemma pan_replace_redacts: "redacts (\<lambda>_ _. True) p s (replace_from PAN_CANDIDATE_RE redact_pan p s)"
proof (induction "length s" arbitrary: p s rule: less_induct)
  case less
  show ?case
  proof (cases "match_at PAN_CANDIDATE_RE p s")
    case None
    show ?thesis
    proof (cases s)
      case Nil
      with None show ?thesis by (simp add: replace_from.simps [of _ _ p "[]"] redacts_Nil)
    next
      case (Cons c t)
      with None less show ?thesis by (auto simp: replace_from_None intro: redacts_keep)
    qed
  next
    case (Some r)
    obtain m s' cs where r: "r = (m, s', cs)" by (cases r)
    note m = pan_match_Some [OF Some [unfolded r]] and e = pan_word_ends [of m]
    let ?o = "replace_from PAN_CANDIDATE_RE redact_pan (Some (last m)) s'"
    have IH: "redacts (\<lambda>_ _. True) (Some (last m)) s' ?o" using m e less by auto
    have "redacts (\<lambda>_ _. True) p (m @ s') (redact_pan m @ ?o)"
    proof (cases "redact_pan m = REDACTED")
      case True
      with IH m e show ?thesis by (auto intro: redacts_mark)
    next
      case False
      then have "redact_pan m = m" by (auto simp: redact_pan_def Let_def split: if_splits)
      with IH m e show ?thesis by (auto intro!: redacts_keep_word simp: after_not_Nil)
    qed
    then show ?thesis using replace_from_Some [OF Some [unfolded r]] m e by simp
  qed
qed

lemma test_from_iff: "test_from r p s \<longleftrightarrow> (\<exists>u v. s = u @ v \<and> run r (after p u, v, []) \<noteq> [])"
proof (induction s arbitrary: p)
  case Nil
  then show ?case by auto
next
  case (Cons c s)
  have split: "(\<exists>u v. c # s = u @ v \<and> Q u v) \<longleftrightarrow> Q [] (c # s) \<or> (\<exists>u v. s = u @ v \<and> Q (c # u) v)" for Q
    unfolding Cons_eq_append_conv by blast
  show ?case unfolding split test_from.simps Cons [of "Some c"] by simp
qed

lemma run_nonempty: "run r st \<noteq> [] \<longleftrightarrow> (\<exists>st'. st' \<in> set (run r st))"
  by (metis empty_iff empty_set list.set_intros(1) neq_Nil_conv)

text \<open>A social security number in a text: a word of the pattern between non-word characters.\<close>

lemma ssn_test_iff:
  "re_test SSN_RE s \<longleftrightarrow> (\<exists>u m t. s = u @ m @ t \<and> ssn_word m \<and> delimited (after None u) m t)"
proof -
  have "run SSN_RE (p, v, []) \<noteq> [] \<longleftrightarrow> (\<exists>m t. v = m @ t \<and> ssn_word m \<and> delimited p m t)" for p v
    unfolding run_nonempty ssn_at by blast
  then have "re_test SSN_RE s \<longleftrightarrow> (\<exists>u v. s = u @ v \<and> (\<exists>m t. v = m @ t \<and> ssn_word m \<and> delimited (after None u) m t))"
    unfolding re_test_def test_from_iff by simp
  then show ?thesis by auto
qed

lemma ssn_word_mark_free: "ssn_word m \<Longrightarrow> \<forall>c \<in> set m. is_mark_free c"
  by (auto simp: ssn_word_def digit_run_def is_mark_free_def)

lemma hardDenyValue_clean: "\<not> re_test SSN_RE (hardDenyValue v)"
proof
  assume "re_test SSN_RE (hardDenyValue v)"
  then obtain u m t where o: "hardDenyValue v = u @ m @ t" and m: "ssn_word m" "delimited (after None u) m t"
    unfolding ssn_test_iff by blast
  note e = ssn_word_ends [OF m(1)] and f = ssn_word_mark_free [OF m(1)]
  let ?mid = "replace_from SSN_RE (\<lambda>_. REDACTED) None v"
  obtain u' t' where mid: "?mid = u' @ m @ t'" "delimited (after None u') m t'"
    using redacts_occurrence [OF pan_replace_redacts [of None ?mid], of u m t None] o m e f
    unfolding hardDenyValue_def replace_all_def by (auto simp: delimited_def)
  obtain u2 t2 where "v = u2 @ m @ t2" "delimited (after None u2) m t2"
    "match_at SSN_RE (after None u2) (m @ t2) = None"
    using redacts_occurrence [OF ssn_replace_redacts [of None v], of "u'" m "t'" None] mid e f
    by (auto simp: delimited_def)
  then have "run SSN_RE (after None u2, m @ t2, []) = []" by (simp add: match_at_None)
  moreover have "(Some (last m), t2, []) \<in> set (run SSN_RE (after None u2, m @ t2, []))"
    unfolding ssn_at using m \<open>delimited (after None u2) m t2\<close> by blast
  ultimately show False by simp
qed

section \<open>Documents\<close>

text \<open>The string values of a document, at any depth.\<close>

fun string_values :: "json \<Rightarrow> string list" where
  "string_values (JStr s) = [s]"
| "string_values (JArr vs) = concat (map string_values vs)"
| "string_values (JObj kvs) = concat (map (\<lambda>(k, v). string_values v) kvs)"
| "string_values _ = []"

lemma string_values_deny: "string_values (hardDenyDeep v) = map hardDenyValue (string_values v)"
proof (induction v rule: hardDenyDeep.induct)
  case (2 vs)
  then show ?case by (simp add: map_concat comp_def cong: map_cong)
next
  case (3 kvs)
  have "string_values (hardDenyDeep v) = map hardDenyValue (string_values v)" if "(k, v) \<in> set kvs" for k v
    using 3 that by blast
  then have "map (\<lambda>kv. string_values (hardDenyDeep (snd kv))) kvs = map (\<lambda>kv. map hardDenyValue (string_values (snd kv))) kvs"
    by (intro map_cong) auto
  then show ?case by (simp only: map_concat map_map comp_def split_beta string_values.simps hardDenyDeep.simps fst_conv snd_conv)
qed simp_all

text \<open>
  \<^bold>\<open>C22.\<close> No string value of a redacted document, at any depth, contains a social security
  number.
\<close>

theorem hardDenyDeep_no_ssn: "\<not> (\<exists>t \<in> set (string_values (hardDenyDeep v)). re_test SSN_RE t)"
  by (auto simp: string_values_deny hardDenyValue_clean)

section \<open>Card numbers\<close>

lemma digits_no_separator: "\<forall>c \<in> set ds. is_digit c \<Longrightarrow> strip_separators ds = ds"
  unfolding strip_separators_def by (intro filter_True ballI) (drule (1) bspec, elim is_digit_cases, simp_all)

text \<open>Characters that can continue neither a word nor a candidate.\<close>

definition ends_number :: "string \<Rightarrow> bool" where
  "ends_number t \<longleftrightarrow> (case t of [] \<Rightarrow> True | c # _ \<Rightarrow> \<not> is_word c \<and> c \<noteq> CHR '' '' \<and> c \<noteq> CHR ''-'')"

lemma replace_from_no_digit:
  assumes "\<And>p s. run r (p, s, []) \<noteq> [] \<Longrightarrow> \<exists>c s'. s = c # s' \<and> is_digit c" and "\<forall>c \<in> set u. \<not> is_digit c"
  shows "replace_from r f p (u @ s) = u @ replace_from r f (after p u) s"
  using assms(2)
proof (induction u arbitrary: p)
  case Nil
  then show ?case by simp
next
  case (Cons c u)
  then have "match_at r p (c # u @ s) = None" unfolding match_at_None using assms(1) by fastforce
  with Cons show ?case by (simp add: replace_from_None)
qed

lemma run_starts_digit:
  "run SSN_RE (p, s, []) \<noteq> [] \<Longrightarrow> \<exists>c s'. s = c # s' \<and> is_digit c"
  "run PAN_CANDIDATE_RE (p, s, []) \<noteq> [] \<Longrightarrow> \<exists>c s'. s = c # s' \<and> is_digit c"
proof -
  have *: "\<exists>c s'. s = c # s' \<and> is_digit c" if "s = m @ t" "m \<noteq> [] \<and> is_digit (hd m) \<and> is_digit (last m)" for m t
    using that by (cases m) auto
  show "run SSN_RE (p, s, []) \<noteq> [] \<Longrightarrow> \<exists>c s'. s = c # s' \<and> is_digit c"
    unfolding run_nonempty ssn_at by (elim exE conjE) (rule *, assumption, rule ssn_word_ends)
  show "run PAN_CANDIDATE_RE (p, s, []) \<noteq> [] \<Longrightarrow> \<exists>c s'. s = c # s' \<and> is_digit c"
    unfolding run_nonempty pan_at by (elim exE conjE) (rule *, assumption, rule pan_word_ends)
qed

lemma replace_from_skip:
  "(\<And>u v. w = u @ v \<Longrightarrow> v \<noteq> [] \<Longrightarrow> match_at r (after p u) (v @ t) = None) \<Longrightarrow>
   replace_from r f p (w @ t) = w @ replace_from r f (after p w) t"
proof (induction w arbitrary: p)
  case Nil
  then show ?case by simp
next
  case (Cons c w)
  have "match_at r p (c # w @ t) = None" using Cons.prems [of "[]"] by simp
  moreover have "replace_from r f (Some c) (w @ t) = w @ replace_from r f (after (Some c) w) t"
    by (rule Cons.IH) (use Cons.prems [of "c # u" for u] in auto)
  ultimately show ?case by (simp add: replace_from_None)
qed

lemma digits_pan_word:
  assumes "\<forall>c \<in> set ds. is_digit c" "13 \<le> length ds" "length ds \<le> 19"
  shows "pan_word ds"
proof -
  obtain d rest where ds: "ds = d # rest" using assms(2) by (cases ds) auto
  have "concat (map (\<lambda>x. [x]) rest) = rest" by (induction rest) auto
  with ds assms show ?thesis unfolding pan_word_def
    by (intro exI [of _ d] exI [of _ "map (\<lambda>x. [x]) rest"]) (auto simp: pan_step_def)
qed

lemma pan_word_chars: "pan_word m \<Longrightarrow> c \<in> set m \<Longrightarrow> is_digit c \<or> c = CHR '' '' \<or> c = CHR ''-''"
  by (fastforce simp: pan_word_def pan_step_def)

lemma ssn_not_in_digits:
  assumes "\<forall>c \<in> set ds. is_digit c" "4 \<le> length ds" "ds = u @ v" "v \<noteq> []"
  shows "match_at SSN_RE (after p u) (v @ t) = None"
proof (cases "match_at SSN_RE (after p u) (v @ t)")
  case (Some r)
  obtain m s' cs where r: "r = (m, s', cs)" by (cases r)
  note m = ssn_match_Some [OF Some [unfolded r]]
  then have "\<not> word_before (after p u)" by (simp add: delimited_def)
  then have u: "u = []" using assms(1,3) by (metis after_not_Nil in_set_conv_decomp append_butlast_last_id append_assoc append_Cons word_before_digit)
  from m obtain a b where "m = a @ CHR ''-'' # b" "length a = 3" unfolding ssn_word_def digit_run_def by auto
  with m have "(v @ t) ! 3 = CHR ''-''" by (metis append_assoc append_Cons nth_append_length)
  moreover have "(v @ t) ! 3 = ds ! 3" and "is_digit (ds ! 3)" using assms u by (simp_all add: nth_append)
  ultimately show ?thesis by (simp add: is_digit_def digits_def)
qed

lemma pan_match_digits:
  assumes "\<forall>c \<in> set ds. is_digit c" "13 \<le> length ds" "length ds \<le> 19" "\<not> word_before p" "ends_number t"
  shows "match_at PAN_CANDIDATE_RE p (ds @ t) = Some (ds, t, [])"
proof -
  have "(Some (last ds), t, []) \<in> set (run PAN_CANDIDATE_RE (p, ds @ t, []))"
    unfolding pan_at using assms digits_pan_word
    by (auto simp: delimited_def ends_number_def word_after_def split: list.splits intro!: exI [of _ ds])
  moreover have "st' = (Some (last ds), t, [])" if run: "st' \<in> set (run PAN_CANDIDATE_RE (p, ds @ t, []))" for st'
  proof -
    obtain m t2 where m: "ds @ t = m @ t2" "st' = (Some (last m), t2, [])" "pan_word m" "delimited p m t2"
      using run unfolding pan_at by blast
    have "m = ds"
    proof (cases "length m" "length ds" rule: linorder_cases)
      case less
      then obtain x where "ds = m @ x" "t2 = x @ t" "x \<noteq> []"
        using m(1) by (metis append_eq_append_conv_if append_Nil2 append_take_drop_id drop_eq_Nil less_le_not_le linorder_not_less)
      with m(4) assms(1) show ?thesis by (cases x) (auto simp: delimited_def)
    next
      case equal
      with m(1) show ?thesis by simp
    next
      case greater
      then obtain x where x: "m = ds @ x" "t = x @ t2" "x \<noteq> []"
        using m(1) by (metis append_eq_append_conv2 append_Nil2 less_irrefl length_append not_add_less1)
      then have "hd x \<in> set m" by simp
      then have "is_digit (hd x) \<or> hd x = CHR '' '' \<or> hd x = CHR ''-''" by (rule pan_word_chars [OF m(3)])
      with x assms(5) show ?thesis by (cases x) (auto simp: ends_number_def is_digit_word)
    qed
    with m show ?thesis by simp
  qed
  ultimately obtain rest where "run PAN_CANDIDATE_RE (p, ds @ t, []) = (Some (last ds), t, []) # rest"
    by (cases "run PAN_CANDIDATE_RE (p, ds @ t, [])") auto
  then show ?thesis by (simp add: match_at_def)
qed

text \<open>
  A card number that passes the Luhn check and stands alone (after no digit, between
  non-word characters, and not followed by a separator) is redacted.
\<close>

theorem isolated_card_redacted:
  assumes "\<forall>c \<in> set ds. is_digit c" "13 \<le> length ds" "length ds \<le> 19" "luhnValid ds"
    and "\<forall>c \<in> set u. \<not> is_digit c" "\<not> word_before (after None u)" "ends_number t"
  shows "\<exists>rest. hardDenyValue (u @ ds @ t) = u @ REDACTED @ rest"
proof -
  let ?s = "replace_from SSN_RE (\<lambda>_. REDACTED)" and ?p = "replace_from PAN_CANDIDATE_RE redact_pan"
  let ?t = "?s (after (after None u) ds) t"
  have "?s None (u @ ds @ t) = u @ ?s (after None u) (ds @ t)"
    by (rule replace_from_no_digit [OF run_starts_digit(1) assms(5)])
  also have "?s (after None u) (ds @ t) = ds @ ?t"
    by (rule replace_from_skip) (rule ssn_not_in_digits [OF assms(1)], use assms(2) in auto)
  finally have "?s None (u @ ds @ t) = u @ ds @ ?t" .
  moreover have t: "ends_number ?t"
  proof (cases t)
    case Nil
    then have "match_at SSN_RE (after (after None u) ds) [] = None"
      using run_starts_digit(1) unfolding match_at_None by blast
    with Nil show ?thesis by (simp add: replace_from.simps [of _ _ _ "[]"] ends_number_def)
  next
    case (Cons c t')
    with assms(7) have "\<not> is_digit c" by (auto simp: ends_number_def is_digit_word)
    then have "match_at SSN_RE (after (after None u) ds) (c # t') = None"
      using run_starts_digit(1) [of _ "c # t'"] unfolding match_at_None by blast
    with Cons assms(7) show ?thesis by (simp add: replace_from_None ends_number_def)
  qed
  moreover have "ds \<noteq> []" and "redact_pan ds = REDACTED"
    using assms(1-4) by (auto simp: redact_pan_def digits_no_separator)
  then have "?p (after None u) (ds @ ?t) = REDACTED @ ?p (Some (last ds)) ?t"
    using replace_from_Some [OF pan_match_digits [OF assms(1-3,6) t], of redact_pan] by simp
  moreover have "?p None (u @ ds @ ?t) = u @ ?p (after None u) (ds @ ?t)"
    by (rule replace_from_no_digit [OF run_starts_digit(2) assms(5)])
  ultimately have "hardDenyValue (u @ ds @ t) = u @ REDACTED @ ?p (Some (last ds)) ?t"
    unfolding hardDenyValue_def replace_all_def by (simp only:)
  then show ?thesis by blast
qed

theorem isolated_card_redacted_witness:
  "\<exists>rest. hardDenyValue (''card: '' @ ''4111111111111111'' @ '', paid'') = ''card: '' @ REDACTED @ rest"
proof (rule isolated_card_redacted)
  show "luhnValid ''4111111111111111''" by code_simp
  show "ends_number '', paid''" by code_simp
  show "\<not> word_before (after None ''card: '')" by code_simp
  show "\<forall>c \<in> set ''4111111111111111''. is_digit c" by code_simp
  show "\<forall>c \<in> set ''card: ''. \<not> is_digit c" by code_simp
qed simp_all

theorem luhn_detects_single_error_witness: "\<not> luhnValid (''411111111111111'' @ [CHR ''2''] @ [])"
proof (rule luhn_detects_single_error)
  show "luhnValid (''411111111111111'' @ [CHR ''1''] @ [])" by code_simp
  show "\<forall>c \<in> set (''411111111111111'' @ [CHR ''1''] @ []). is_digit c" by code_simp
  show "is_digit CHR ''2''" by code_simp
qed simp

text \<open>
  The candidate pattern is greedy over separators: a valid card number that is followed
  by a separator and a few more digits is tested together with them, fails the Luhn check as a
  whole, and is left in clear.
\<close>

theorem card_before_digits_escapes:
  "luhnValid ''4111111111111111'' \<and> hardDenyValue ''4111111111111111 12'' = ''4111111111111111 12''"
  by code_simp

end
