(* ===== verification/MaskNames.thy ===== *)
theory MaskNames imports MaskFacts begin

text \<open>
  Which key names the hard denylist catches, as a list of names and what may stand around
  them; and the values it cannot change: keyed hashes.
\<close>

section \<open>The listed names\<close>

definition joined :: "string \<Rightarrow> string \<Rightarrow> string list" where
  "joined a b = [a @ b, a @ ''-'' @ b, a @ ''_'' @ b]"

definition sensitive_list :: "string list" where
  "sensitive_list = [''cvv'', ''cvv2'', ''cvc'', ''cid'', ''pin'', ''password'', ''passwd'', ''secret'', ''ssn'']
     @ joined ''api'' ''key'' @ joined ''private'' ''key'' @ joined ''access'' ''token''
     @ joined ''refresh'' ''token'' @ joined ''social'' ''security'' @ joined ''routing'' ''number''
     @ joined ''account'' ''number''"

text \<open>
  The reference: some name of the list, in any case, stands in the key (once its camel case
  is split) with no letter or digit next to it.
\<close>

definition listed_name :: "string \<Rightarrow> bool" where
  "listed_name key \<longleftrightarrow> (\<exists>u n t. split_camel key = u @ n @ t \<and> to_lower n \<in> set sensitive_list \<and>
     (u = [] \<or> \<not> alnum (last u)) \<and> (t = [] \<or> \<not> alnum (hd t)))"

lemma to_lower_append: "to_lower (u @ v) = to_lower u @ to_lower v"
  by (simp add: to_lower_def)

lemma to_lower_split:
  "to_lower m = a @ b \<longleftrightarrow> (\<exists>u v. m = u @ v \<and> to_lower u = a \<and> to_lower v = b)"
  by (auto simp: to_lower_def map_eq_append_conv)

lemma to_lower_single:
  assumes "d \<notin> set (map fst lower_table)" and "d \<notin> set (map snd lower_table)"
  shows "to_lower x = [d] \<longleftrightarrow> x = [d]"
  using lower_char_other [OF assms] by (cases x) (auto simp: to_lower_def)

lemma to_lower_separator: "to_lower x = ''-'' \<longleftrightarrow> x = ''-''" "to_lower x = ''_'' \<longleftrightarrow> x = ''_''" "to_lower x = ''2'' \<longleftrightarrow> x = ''2''"
  by (rule to_lower_single, code_simp, code_simp)+

lemma lower_char_fixed: "is_lower c \<Longrightarrow> lower_char c = c" "is_digit c \<Longrightarrow> lower_char c = c" "lower_char CHR '':'' = CHR '':''"
proof -
  have "\<forall>c \<in> set lowers. lower_char c = c" "\<forall>c \<in> set digits. lower_char c = c" by code_simp+
  then show "is_lower c \<Longrightarrow> lower_char c = c" "is_digit c \<Longrightarrow> lower_char c = c" by (auto simp: is_lower_def is_digit_def)
  show "lower_char CHR '':'' = CHR '':''" by code_simp
qed

lemma to_lower_lowers: "\<forall>c \<in> set w. is_lower c \<Longrightarrow> to_lower w = w"
  unfolding to_lower_def by (rule map_idI) (auto simp: lower_char_fixed)

lemma to_lower_Cons: "to_lower (c # w) = lower_char c # to_lower w"
  by (simp add: to_lower_def)

lemma consumes_name: "to_lower a = a \<Longrightarrow> consumes (lit_i a) (\<lambda>m. to_lower m = a)"
  by (rule consumes_cong [OF consumes_lit_i]) simp

lemma consumes_two_words:
  assumes "to_lower a = a" and "to_lower b = b"
  shows "consumes (two_words a b) (\<lambda>m. to_lower m \<in> set (joined a b))"
proof -
  have "consumes (one_of ''-_'') (\<lambda>m. m = ''-'' \<or> m = ''_'')"
    unfolding one_of_def by (rule consumes_cong [OF consumes_Sat]) auto
  then have "consumes (opt (one_of ''-_'')) (\<lambda>m. m = [] \<or> m = ''-'' \<or> m = ''_'')"
    by (rule consumes_opt) auto
  from consumes_Seq [OF consumes_name [OF assms(1)] consumes_Seq [OF this consumes_name [OF assms(2)]]]
  have "consumes (two_words a b) (\<lambda>m. \<exists>u v. m = u @ v \<and> to_lower u = a \<and>
      (\<exists>x y. v = x @ y \<and> (x = [] \<or> x = ''-'' \<or> x = ''_'') \<and> to_lower y = b))"
    by (simp add: two_words_def)
  then show ?thesis
  proof (rule consumes_cong)
    fix m
    show "(\<exists>u v. m = u @ v \<and> to_lower u = a \<and>
        (\<exists>x y. v = x @ y \<and> (x = [] \<or> x = ''-'' \<or> x = ''_'') \<and> to_lower y = b)) \<longleftrightarrow> to_lower m \<in> set (joined a b)" (is "?l = ?r")
    proof
      assume ?l
      then obtain u x y where m: "m = u @ x @ y" "to_lower u = a" "to_lower y = b" and x: "x = [] \<or> x = ''-'' \<or> x = ''_''"
        by blast
      from x to_lower_separator [of x] have "to_lower x = x" by (elim disjE) (simp_all add: to_lower_def)
      then have "to_lower m = a @ x @ b" by (simp only: m to_lower_append)
      with x show ?r by (elim disjE) (simp_all add: joined_def)
    next
      assume ?r
      then have "to_lower m = a @ [] @ b \<or> to_lower m = a @ ''-'' @ b \<or> to_lower m = a @ ''_'' @ b"
        by (simp add: joined_def)
      then obtain x where x: "x = [] \<or> x = ''-'' \<or> x = ''_''" and m: "to_lower m = a @ x @ b"
        by blast
      then obtain u v w where uvw: "m = u @ v @ w" "to_lower u = a" "to_lower w = b" and v: "to_lower v = x"
        unfolding to_lower_split by blast
      have "v = x"
        using x
      proof (elim disjE)
        assume "x = []"
        with v show ?thesis by (simp add: to_lower_def)
      next
        assume "x = ''-''"
        with v to_lower_separator(1) [of v] show ?thesis by (simp only:)
      next
        assume "x = ''_''"
        with v to_lower_separator(2) [of v] show ?thesis by (simp only:)
      qed
      with uvw x show ?l
        by (intro exI [of _ u] exI [of _ "v @ w"] exI [of _ v] exI [of _ w] conjI) simp_all
    qed
  qed
qed

lemma to_lower_optional:
  assumes "\<And>x. to_lower x = w \<longleftrightarrow> x = w"
  shows "(\<exists>u v. m = u @ v \<and> to_lower u = a \<and> (v = [] \<or> v = w)) \<longleftrightarrow> to_lower m = a \<or> to_lower m = a @ w"
  unfolding to_lower_split assms by auto

lemma sensitive_names_consumes: "consumes sensitive_names (\<lambda>m. to_lower m \<in> set sensitive_list)"
proof -
  have w: "\<forall>c \<in> set w. is_lower c" if "w \<in> set [''cvv'', ''cvc'', ''cid'', ''pin'', ''password'', ''passwd'', ''secret'', ''ssn'',
      ''api'', ''key'', ''private'', ''access'', ''refresh'', ''token'', ''social'', ''security'', ''routing'', ''number'', ''account'']" for w
    using that by (auto simp: is_lower_def lowers_def)
  note one = consumes_name [OF to_lower_lowers [OF w]] and two = consumes_two_words [OF to_lower_lowers [OF w] to_lower_lowers [OF w]]
  have "consumes (chr CHR ''2'') (\<lambda>m. m = ''2'')" by (rule consumes_chr)
  then have "consumes (opt (chr CHR ''2'')) (\<lambda>m. m = [] \<or> m = ''2'')" by (rule consumes_opt) simp
  from consumes_Seq [OF one [of "''cvv''"] this]
  have "consumes (seqs [lit_i ''cvv'', opt (chr CHR ''2'')]) (\<lambda>m. \<exists>u v. m = u @ v \<and> to_lower u = ''cvv'' \<and> (v = [] \<or> v = ''2''))"
    by simp
  then have cvv: "consumes (seqs [lit_i ''cvv'', opt (chr CHR ''2'')]) (\<lambda>m. to_lower m \<in> set [''cvv'', ''cvv2''])"
  proof (rule consumes_cong)
    show "(\<exists>u v. m = u @ v \<and> to_lower u = ''cvv'' \<and> (v = [] \<or> v = ''2'')) \<longleftrightarrow> to_lower m \<in> set [''cvv'', ''cvv2'']" for m
      unfolding to_lower_optional [OF to_lower_separator(3)] by simp
  qed
  show ?thesis
    unfolding sensitive_names_def alts.simps
    by (rule consumes_cong [OF consumes_Alt [OF cvv
      consumes_Alt [OF one [of "''cvc''"]
      consumes_Alt [OF one [of "''cid''"]
      consumes_Alt [OF one [of "''pin''"]
      consumes_Alt [OF one [of "''password''"]
      consumes_Alt [OF one [of "''passwd''"]
      consumes_Alt [OF one [of "''secret''"]
      consumes_Alt [OF two [of "''api''" "''key''"]
      consumes_Alt [OF two [of "''private''" "''key''"]
      consumes_Alt [OF two [of "''access''" "''token''"]
      consumes_Alt [OF two [of "''refresh''" "''token''"]
      consumes_Alt [OF one [of "''ssn''"]
      consumes_Alt [OF two [of "''social''" "''security''"]
      consumes_Alt [OF two [of "''routing''" "''number''"]
      two [of "''account''" "''number''"]]]]]]]]]]]]]]]])
       (simp_all add: sensitive_list_def joined_def disj_ac)
qed

section \<open>What stands around a name\<close>

lemma sensitive_list_words: "w \<in> set sensitive_list \<Longrightarrow> w \<noteq> [] \<and> alnum (hd w) \<and> alnum (last w)"
proof -
  have "\<forall>w \<in> set sensitive_list. w \<noteq> [] \<and> alnum (hd w) \<and> alnum (last w)" by code_simp
  then show "w \<in> set sensitive_list \<Longrightarrow> w \<noteq> [] \<and> alnum (hd w) \<and> alnum (last w)" by blast
qed

lemma alnum_lower_char:
  assumes "alnum (lower_char c)"
  shows "alnum c"
proof -
  have "\<forall>(c, d) \<in> set lower_table. alnum d \<longrightarrow> alnum c" by code_simp
  then show ?thesis using lower_char_cases [of c] assms by (metis case_prodD)
qed

lemma name_ends:
  assumes "to_lower n \<in> set sensitive_list"
  shows "n \<noteq> [] \<and> alnum (hd n) \<and> alnum (last n)"
proof -
  from sensitive_list_words [OF assms] have n: "n \<noteq> []" "alnum (lower_char (hd n))" "alnum (lower_char (last n))"
    by (auto simp: to_lower_def hd_map last_map)
  then show ?thesis using alnum_lower_char by blast
qed

lemma run_Alt: "st' \<in> set (run (Alt a b) st) \<longleftrightarrow> st' \<in> set (run a st) \<or> st' \<in> set (run b st)"
  by simp

lemma word_alnum: "is_word c \<longleftrightarrow> alnum c \<or> c = CHR ''_''" "\<not> alnum CHR ''_''"
  by (auto simp: is_word_def alnum_def is_digit_def digits_def is_lower_def lowers_def is_upper_def uppers_def)

lemma sensitive_run:
  "run SENSITIVE_KEY_RE (p, s, []) \<noteq> [] \<longleftrightarrow>
    (\<exists>q w. (w = s \<and> q = p \<and> (p = None \<or> boundary p s) \<or> s = CHR ''_'' # w \<and> q = Some CHR ''_'') \<and>
      (\<exists>n t. w = n @ t \<and> to_lower n \<in> set sensitive_list \<and>
         (t = [] \<or> (\<exists>t'. t = CHR ''_'' # t') \<or> boundary (after q n) t)))"
proof -
  let ?pre = "alts [Bol, chr CHR ''_'', WordB]" and ?post = "alts [Eol, chr CHR ''_'', WordB]"
  have pre: "st' \<in> set (run ?pre (p, s, [])) \<longleftrightarrow> (\<exists>q w. st' = (q, w, []) \<and>
      (w = s \<and> q = p \<and> (p = None \<or> boundary p s) \<or> s = CHR ''_'' # w \<and> q = Some CHR ''_''))" for st'
    by (cases s) (auto simp: chr_def)
  have post: "run ?post (q, t, []) \<noteq> [] \<longleftrightarrow> t = [] \<or> (\<exists>t'. t = CHR ''_'' # t') \<or> boundary q t" for q t
    by (cases t) (auto simp: chr_def)
  have "run SENSITIVE_KEY_RE (p, s, []) \<noteq> [] \<longleftrightarrow>
      (\<exists>st' \<in> set (run ?pre (p, s, [])). \<exists>st2 \<in> set (run sensitive_names st'). run ?post st2 \<noteq> [])"
    unfolding SENSITIVE_KEY_RE_def seqs.simps run_Seq_nonempty by blast
  also have "\<dots> \<longleftrightarrow> (\<exists>q w. (w = s \<and> q = p \<and> (p = None \<or> boundary p s) \<or> s = CHR ''_'' # w \<and> q = Some CHR ''_'') \<and>
      (\<exists>st2 \<in> set (run sensitive_names (q, w, [])). run ?post st2 \<noteq> []))"
    unfolding Bex_def pre by blast
  also have "\<dots> \<longleftrightarrow> (\<exists>q w. (w = s \<and> q = p \<and> (p = None \<or> boundary p s) \<or> s = CHR ''_'' # w \<and> q = Some CHR ''_'') \<and>
      (\<exists>n t. w = n @ t \<and> to_lower n \<in> set sensitive_list \<and> run ?post (after q n, t, []) \<noteq> []))"
    unfolding Bex_def consumesD [OF sensitive_names_consumes] by blast
  finally show ?thesis unfolding post .
qed

lemma sensitive_runI:
  assumes "to_lower n \<in> set sensitive_list" and "t = [] \<or> (\<exists>t'. t = CHR ''_'' # t') \<or> boundary (after p n) t"
    and "p = None \<or> boundary p (n @ t)"
  shows "run SENSITIVE_KEY_RE (p, n @ t, []) \<noteq> []"
proof -
  have "\<exists>n' t'. n @ t = n' @ t' \<and> to_lower n' \<in> set sensitive_list \<and>
      (t' = [] \<or> (\<exists>t2. t' = CHR ''_'' # t2) \<or> boundary (after p n') t')"
    using assms(1,2) by blast
  with assms(3) show ?thesis unfolding sensitive_run by blast
qed

text \<open>
  \<^bold>\<open>C24.\<close> A key name is caught exactly when a listed name stands in it, in any case and
  camel case split, with no letter or digit next to it.
\<close>

theorem keyNameIsSensitive_iff: "keyNameIsSensitive key \<longleftrightarrow> listed_name key"
proof -
  let ?k = "split_camel key"
  have after_word: "boundary (after q n) t \<longleftrightarrow> \<not> word_after t" if "to_lower n \<in> set sensitive_list" for q n t
    using name_ends [OF that] by (simp add: boundary_def after_not_Nil word_before_def word_alnum)
  have before_word: "boundary p (n @ t) \<longleftrightarrow> \<not> word_before p" if "to_lower n \<in> set sensitive_list" for p n t
    using name_ends [OF that] by (cases n) (auto simp: boundary_def word_after_def word_alnum)
  have right: "(t = [] \<or> (\<exists>t'. t = CHR ''_'' # t') \<or> \<not> word_after t) \<longleftrightarrow> t = [] \<or> \<not> alnum (hd t)" for t
    using word_alnum by (cases t) (auto simp: word_after_def)
  have left: "(\<exists>u. u' = u @ ''_'') \<or> u' = [] \<or> \<not> word_before (after None u') \<longleftrightarrow> u' = [] \<or> \<not> alnum (last u')" for u'
    using word_alnum by (cases u' rule: rev_cases) (auto simp: word_before_def after_def)
  have "keyNameIsSensitive key \<longleftrightarrow> (\<exists>u v. ?k = u @ v \<and> run SENSITIVE_KEY_RE (after None u, v, []) \<noteq> [])"
    unfolding keyNameIsSensitive_def re_test_def test_from_iff ..
  also have "\<dots> \<longleftrightarrow> (\<exists>u' n t. ?k = u' @ n @ t \<and> to_lower n \<in> set sensitive_list \<and>
      ((\<exists>u. u' = u @ ''_'') \<or> u' = [] \<or> \<not> word_before (after None u')) \<and>
      (t = [] \<or> (\<exists>t'. t = CHR ''_'' # t') \<or> \<not> word_after t))" (is "?l \<longleftrightarrow> ?r")
  proof
    assume ?l
    then obtain u v q w n t where k: "?k = u @ v" and n: "w = n @ t" "to_lower n \<in> set sensitive_list"
      and qw: "w = v \<and> q = after None u \<and> (after None u = None \<or> boundary (after None u) v) \<or> v = CHR ''_'' # w \<and> q = Some CHR ''_''"
      and t: "t = [] \<or> (\<exists>t'. t = CHR ''_'' # t') \<or> boundary (after q n) t"
      unfolding sensitive_run by blast
    from qw show ?r
    proof (elim disjE conjE)
      assume "v = CHR ''_'' # w"
      with k n t after_word show ?r
        by (intro exI [of _ "u @ ''_''"] exI [of _ n] exI [of _ t]) auto
    next
      assume "w = v" "after None u = None"
      then have "u = []" by (auto simp: after_def split: if_splits)
      with k n t \<open>w = v\<close> after_word show ?r
        by (intro exI [of _ u] exI [of _ n] exI [of _ t]) auto
    next
      assume "w = v" "boundary (after None u) v"
      with k n t after_word before_word show ?r
        by (intro exI [of _ u] exI [of _ n] exI [of _ t]) auto
    qed
  next
    assume ?r
    then obtain u' n t where k: "?k = u' @ n @ t" and n: "to_lower n \<in> set sensitive_list"
      and u: "(\<exists>u. u' = u @ ''_'') \<or> u' = [] \<or> \<not> word_before (after None u')"
      and t: "t = [] \<or> (\<exists>t'. t = CHR ''_'' # t') \<or> \<not> word_after t" by blast
    have t': "t = [] \<or> (\<exists>t'. t = CHR ''_'' # t') \<or> boundary (after q n) t" for q using t after_word [OF n] by blast
    have "run SENSITIVE_KEY_RE (after None u', n @ t, []) \<noteq> []"
      if "after None u' = None \<or> boundary (after None u') (n @ t)"
      by (rule sensitive_runI [OF n t' that])
    then have here: "after None u' = None \<or> boundary (after None u') (n @ t) \<Longrightarrow> ?l"
      using k by blast
    from u show ?l
    proof (elim disjE exE)
      fix u assume u': "u' = u @ ''_''"
      have "\<exists>n' t'. n @ t = n' @ t' \<and> to_lower n' \<in> set sensitive_list \<and>
          (t' = [] \<or> (\<exists>t2. t' = CHR ''_'' # t2) \<or> boundary (after (Some CHR ''_'') n') t')"
        using n t' by blast
      then have "run SENSITIVE_KEY_RE (after None u, CHR ''_'' # n @ t, []) \<noteq> []"
        unfolding sensitive_run by blast
      moreover have "?k = u @ CHR ''_'' # n @ t" using k u' by simp
      ultimately show ?l by blast
    next
      assume "u' = []"
      then have "after None u' = None" by simp
      then show ?l using here by blast
    next
      assume "\<not> word_before (after None u')"
      then have "boundary (after None u') (n @ t)" using before_word [OF n] by simp
      then show ?l using here by blast
    qed
  qed
  also have "\<dots> \<longleftrightarrow> listed_name key" unfolding listed_name_def left right by blast
  finally show ?thesis .
qed

section \<open>Keyed hashes are left alone\<close>

lemma pan_word_length: "pan_word m \<Longrightarrow> length m \<le> 37"
proof -
  assume "pan_word m"
  then obtain d gs where m: "m = d # concat gs" "length gs \<le> 18" "\<forall>g \<in> set gs. pan_step g" unfolding pan_word_def by blast
  have "length g \<le> 2" if "pan_step g" for g using that by (auto simp: pan_step_def)
  then have "length (concat gs) \<le> 2 * length gs" using m(3) by (induction gs) fastforce+
  with m show ?thesis by simp
qed

lemma replace_from_unchanged:
  "(\<And>u v. w = u @ v \<Longrightarrow> v \<noteq> [] \<Longrightarrow> match_at r (after p u) v = None) \<Longrightarrow> match_at r (after p w) [] = None \<Longrightarrow>
   replace_from r f p w = w"
  using replace_from_skip [of w r p "[]" f] by (simp add: replace_from.simps [of _ _ _ "[]"])

lemma not_alnum: "\<not> alnum CHR ''-''" "\<not> alnum CHR '':''"
  by code_simp+

lemma hash_not_redacted:
  assumes "\<forall>c \<in> set w. alnum c" and "37 < length w"
  shows "hardDenyValue (''hmac256:'' @ w) = ''hmac256:'' @ w"
proof -
  let ?h = "''hmac256:'' @ w"
  have not_dash: "CHR ''-'' \<notin> set ?h" and no_colon: "CHR '':'' \<notin> set w"
    using assms(1) not_alnum by auto
  have ssn: "match_at SSN_RE (after None u) v = None" if "?h = u @ v" for u v
  proof (cases "match_at SSN_RE (after None u) v")
    case (Some r)
    obtain m s' cs where r: "r = (m, s', cs)" by (cases r)
    have "v = m @ s'" "ssn_word m" using ssn_match_Some [OF Some [unfolded r]] by auto
    then have "CHR ''-'' \<in> set v" by (auto simp: ssn_word_def)
    with that not_dash show ?thesis by (metis Un_iff set_append)
  qed
  have pan: "match_at PAN_CANDIDATE_RE (after None u) v = None" if h: "?h = u @ v" for u v
  proof (cases "match_at PAN_CANDIDATE_RE (after None u) v")
    case (Some r)
    obtain m s' cs where r: "r = (m, s', cs)" by (cases r)
    have m: "v = m @ s'" "pan_word m" "\<not> word_before (after None u)" "\<not> word_after s'"
      using pan_match_Some [OF Some [unfolded r]] by (auto simp: delimited_def)
    note e = pan_word_ends [OF m(2)]
    have "u = ''hmac256:''"
    proof (cases u rule: rev_cases)
      case Nil
      with h m e show ?thesis by (cases m) (auto simp: is_digit_def digits_def)
    next
      case (snoc u0 c)
      then have c: "\<not> is_word c" using m(3) by (simp add: after_def word_before_def)
      have eq: "''hmac256'' @ CHR '':'' # w = u0 @ c # v" using h snoc by simp
      have "c \<in> set ?h" using h snoc by auto
      moreover have "\<forall>d \<in> set ''hmac256''. is_word d" by code_simp
      ultimately have "c = CHR '':''" using c assms(1) by (auto simp: word_alnum)
      then have "''hmac256'' @ CHR '':'' # w = u0 @ CHR '':'' # v" using eq by simp
      moreover have "CHR '':'' \<notin> set ''hmac256''" by simp
      ultimately have "u0 = ''hmac256''"
        using no_colon by (metis append_Cons_eq_iff)
      with snoc \<open>c = CHR '':''\<close> show ?thesis by simp
    qed
    with h m(1) have w: "w = m @ s'" by simp
    have "s' = []" using m(4) w assms(1) by (cases s') (auto simp: word_after_def word_alnum)
    with w pan_word_length [OF m(2)] assms(2) show ?thesis by simp
  qed
  have "replace_from SSN_RE f None ?h = ?h" and "replace_from PAN_CANDIDATE_RE f None ?h = ?h" for f
    by (rule replace_from_unchanged, erule ssn pan, rule ssn pan, simp)+
  then show ?thesis by (simp only: hardDenyValue_def replace_all_def)
qed

end
