(* ===== verification/MapperFacts.thy ===== *)
theory MapperFacts imports Mapper MaskNames begin

text \<open>
  What \<open>mapEvent\<close> guarantees: amounts are exact cents, only configured sources reach the
  record, every forwarded string is free of social security numbers, sensitive names leave as
  keyed hashes only, and the report lists exactly the leaves no used source covers.
\<close>

section \<open>Amounts\<close>

lemma bit_length_le: "n < 2 ^ k \<Longrightarrow> bit_length n \<le> k"
proof (induction k arbitrary: n)
  case 0
  then show ?case by (simp add: bit_length.simps)
next
  case (Suc k)
  show ?case
  proof (cases "n = 0")
    case True
    then show ?thesis by (simp add: bit_length.simps)
  next
    case False
    have "n div 2 < 2 ^ k" using Suc.prems by auto
    with Suc.IH False show ?thesis by (subst bit_length.simps) simp
  qed
qed

lemma to_double_exact:
  assumes "n < 2 ^ 53"
  shows "to_double n = Some n"
proof -
  have "bit_length n \<le> 53" by (rule bit_length_le [OF assms])
  then show ?thesis by (simp add: to_double_def round_to_def)
qed

definition frac_text :: "string option \<Rightarrow> string" where
  "frac_text f = (case f of None \<Rightarrow> [] | Some fs \<Rightarrow> CHR ''.'' # fs)"

definition frac_cents :: "string option \<Rightarrow> nat" where
  "frac_cents f = (case f of None \<Rightarrow> 0 | Some fs \<Rightarrow> nat_of_digits (pad_end 2 CHR ''0'' fs))"

definition decimal_amount :: "bool \<Rightarrow> string \<Rightarrow> string option \<Rightarrow> string" where
  "decimal_amount neg ds f = (if neg then ''-'' else []) @ ds @ frac_text f"

definition decimal_ok :: "string \<Rightarrow> string option \<Rightarrow> bool" where
  "decimal_ok ds f \<longleftrightarrow> ds \<noteq> [] \<and> (\<forall>c \<in> set ds. is_digit c) \<and>
     (case f of None \<Rightarrow> True | Some fs \<Rightarrow> (\<forall>c \<in> set fs. is_digit c) \<and> 1 \<le> length fs \<and> length fs \<le> 2)"

lemma amount_re_iff: "re_test amount_re s \<longleftrightarrow> (\<exists>neg ds f. s = decimal_amount neg ds f \<and> decimal_ok ds f)"
proof -
  let ?D = "\<lambda>w. w \<noteq> [] \<and> (\<forall>c \<in> set w. is_digit c)"
  let ?F = "\<lambda>w. (\<forall>c \<in> set w. is_digit c) \<and> 1 \<le> length w \<and> length w \<le> 2"
  have o: "consumes (opt (chr CHR ''-'')) (\<lambda>m. m = [] \<or> m = ''-'')"
    by (rule consumes_opt [OF consumes_chr]) simp
  have d: "consumes (plus digit) ?D" unfolding digit_def by (rule consumes_plus_Sat)
  have f: "consumes (Rep digit 1 2) ?F" unfolding digit_def by (rule consumes_Rep_Sat) simp
  have "consumes (opt (Seq (chr CHR ''.'') (Rep digit 1 2))) (\<lambda>m. m = [] \<or> (\<exists>u v. m = u @ v \<and> u = ''.'' \<and> ?F v))"
    by (rule consumes_opt [OF consumes_Seq [OF consumes_chr f]]) auto
  from re_test_anchored [OF consumes_Seq [OF o consumes_Seq [OF d this]]]
  have "re_test amount_re s \<longleftrightarrow> (\<exists>u v. s = u @ v \<and> (u = [] \<or> u = ''-'') \<and>
      (\<exists>ds w. v = ds @ w \<and> ?D ds \<and> (w = [] \<or> (\<exists>x y. w = x @ y \<and> x = ''.'' \<and> ?F y))))"
    unfolding amount_re_def .
  also have "\<dots> \<longleftrightarrow> (\<exists>neg ds f. s = decimal_amount neg ds f \<and> decimal_ok ds f)" (is "?l = ?r")
  proof
    assume ?l
    then obtain u ds w where s: "s = u @ ds @ w" "u = [] \<or> u = ''-''" "?D ds" and w: "w = [] \<or> (\<exists>y. w = ''.'' @ y \<and> ?F y)"
      by blast
    from w obtain f where "w = frac_text f" "decimal_ok ds f"
    proof (elim disjE exE conjE)
      assume "w = []"
      then show ?thesis using s by (intro that [of None]) (simp_all add: frac_text_def decimal_ok_def)
    next
      fix y assume "w = ''.'' @ y" "\<forall>c \<in> set y. is_digit c" "1 \<le> length y" "length y \<le> 2"
      then show ?thesis using s by (intro that [of "Some y"]) (simp_all add: frac_text_def decimal_ok_def)
    qed
    with s show ?r
      by (intro exI [of _ "u = ''-''"] exI [of _ ds] exI [of _ f]) (auto simp: decimal_amount_def)
  next
    assume ?r
    then obtain neg ds f where s: "s = decimal_amount neg ds f" and ok: "decimal_ok ds f" by blast
    have "frac_text f = [] \<or> (\<exists>y. frac_text f = ''.'' @ y \<and> ?F y)"
      using ok by (cases f) (simp_all add: frac_text_def decimal_ok_def)
    moreover have "?D ds" using ok by (simp add: decimal_ok_def)
    moreover have "(if neg then ''-'' else []) = [] \<or> (if neg then ''-'' else []) = ''-''" by simp
    ultimately show ?l unfolding s decimal_amount_def by blast
  qed
  finally show ?thesis .
qed

lemma digits_free: "\<forall>c \<in> set ds. is_digit c \<Longrightarrow> CHR ''.'' \<notin> set ds \<and> (ds \<noteq> [] \<longrightarrow> hd ds \<noteq> CHR ''-'')"
proof -
  assume d: "\<forall>c \<in> set ds. is_digit c"
  have "\<not> is_digit CHR ''.''" "\<not> is_digit CHR ''-''" by (simp_all add: is_digit_def digits_def)
  with d show ?thesis by (metis hd_in_set)
qed

lemma toCents_decimal:
  assumes s: "amount_text v = Inr (decimal_amount neg ds f)" and ok: "decimal_ok ds f"
  shows "toCents v = (case cents_of ds (case f of None \<Rightarrow> [] | Some fs \<Rightarrow> fs) of
    None \<Rightarrow> Inr (InfiniteCents neg) | Some c \<Rightarrow> Inr (Cents (if neg then - int c else int c)))"
proof -
  let ?s = "decimal_amount neg ds f"
  have re: "re_test amount_re ?s" unfolding amount_re_iff using ok by blast
  have d: "ds \<noteq> []" "\<forall>c \<in> set ds. is_digit c" using ok by (simp_all add: decimal_ok_def)
  then obtain c cs where ds: "ds = c # cs" "c \<noteq> CHR ''-''" using digits_free [OF d(2)] by (cases ds) auto
  have neg: "starts_with ''-'' ?s = neg" using ds(2) by (auto simp: decimal_amount_def ds(1))
  have t: "(if neg then drop 1 ?s else ?s) = ds @ frac_text f" by (simp add: decimal_amount_def)
  have sp: "split_on CHR ''.'' (ds @ frac_text f) = ds # (case f of None \<Rightarrow> [] | Some fs \<Rightarrow> [fs])"
  proof (cases f)
    case None
    then show ?thesis using digits_free [OF d(2)] by (simp add: frac_text_def split_on_no_sep)
  next
    case (Some fs)
    then have "CHR ''.'' \<notin> set fs" using ok digits_free [of fs] by (simp add: decimal_ok_def)
    with Some show ?thesis using digits_free [OF d(2)] by (simp add: frac_text_def split_on_append_sep split_on_no_sep)
  qed
  show ?thesis
    unfolding toCents_def s sum.case neg t Let_def sp
    using re by (cases f) simp_all
qed

lemma cents_of_exact:
  assumes "nat_of_digits ds * 100 + nat_of_digits (pad_end 2 CHR ''0'' fs) < 2 ^ 53"
  shows "cents_of ds fs = Some (nat_of_digits ds * 100 + nat_of_digits (pad_end 2 CHR ''0'' fs))"
proof -
  have "nat_of_digits ds < 2 ^ 53" "nat_of_digits ds * 100 < 2 ^ 53" using assms by simp_all
  then show ?thesis using assms by (simp add: cents_of_def to_double_exact)
qed

text \<open>
  \<^bold>\<open>C25.\<close> An amount of the accepted form that stays below \<open>2 ^ 53\<close> cents converts to
  exactly its number of cents, whatever currency signs, commas and white space surround it.
\<close>

theorem toCents_exact:
  assumes "strip_amount v = decimal_amount neg ds f" and "decimal_ok ds f"
    and "nat_of_digits ds * 100 + frac_cents f < 2 ^ 53"
  shows "toCents (JStr v) = Inr (Cents ((if neg then -1 else 1) * int (nat_of_digits ds * 100 + frac_cents f)))"
proof -
  let ?fs = "case f of None \<Rightarrow> [] | Some fs \<Rightarrow> fs" and ?c = "nat_of_digits ds * 100 + frac_cents f"
  have pad: "nat_of_digits (pad_end 2 CHR ''0'' ?fs) = frac_cents f"
  proof (cases f)
    case None
    have "nat_of_digits (pad_end 2 CHR ''0'' []) = 0" by code_simp
    with None show ?thesis by (simp add: frac_cents_def)
  qed (simp add: frac_cents_def)
  have "amount_text (JStr v) = Inr (decimal_amount neg ds f)" by (simp add: amount_text_def assms(1))
  note toCents_decimal [OF this assms(2)]
  also have "cents_of ds ?fs = Some ?c"
    using cents_of_exact [of ds ?fs] assms(3) unfolding pad by blast
  finally have "toCents (JStr v) = Inr (Cents (if neg then - int ?c else int ?c))" by (simp only: option.case)
  moreover have "(if neg then - int ?c else int ?c) = (if neg then -1 else 1) * int ?c"
    by (cases neg) (simp_all only: if_True if_False mult_1 mult_minus1)
  ultimately show ?thesis by (simp only:)
qed

theorem toCents_exact_witness: "toCents (JStr ''$3,762.8'') = Inr (Cents 376280)"
proof -
  have n: "nat_of_digits ''3762'' * 100 + frac_cents (Some ''8'') = 376280"
    by (simp add: nat_of_digits_def frac_cents_def digit_val_def pad_end_def)
  have "strip_amount ''$3,762.8'' = decimal_amount False ''3762'' (Some ''8'')" by code_simp
  moreover have "decimal_ok ''3762'' (Some ''8'')" by code_simp
  ultimately show ?thesis
    using toCents_exact [of "''$3,762.8''" False "''3762''" "Some ''8''"] unfolding n by simp
qed

text \<open>
  A string is refused exactly when, stripped, it is not an optional minus sign, digits,
  and one or two decimals.
\<close>

theorem toCents_refuses:
  "(\<exists>e. toCents (JStr v) = Inl e) \<longleftrightarrow> \<not> (\<exists>neg ds f. strip_amount v = decimal_amount neg ds f \<and> decimal_ok ds f)"
proof (cases "re_test amount_re (strip_amount v)")
  case False
  then show ?thesis unfolding amount_re_iff [symmetric] by (simp add: toCents_def amount_text_def)
next
  case True
  then obtain neg ds f where s: "strip_amount v = decimal_amount neg ds f" and ok: "decimal_ok ds f"
    unfolding amount_re_iff by blast
  have "amount_text (JStr v) = Inr (decimal_amount neg ds f)" by (simp add: amount_text_def s)
  from toCents_decimal [OF this ok] s ok show ?thesis by (auto split: option.splits)
qed

end
