(* ===== verification/MapEventFacts.thy ===== *)
theory MapEventFacts imports MapperFacts begin

text \<open>
  \<open>mapEvent\<close> as an allowlist: what each of its steps reads and writes, and from that the
  properties of the whole record and of the report.
\<close>

section \<open>One field\<close>

text \<open>A step of the mapper succeeds from \<open>s\<close> with value \<open>x\<close> and state \<open>s'\<close>.\<close>

abbreviation yields :: "'a mapping \<Rightarrow> map_state \<Rightarrow> 'a \<Rightarrow> map_state \<Rightarrow> bool" where
  "yields m s x s' \<equiv> m s = (Inr x, s')"

lemma yields_bindE: "yields (bindE m f) s x s' \<longleftrightarrow> (\<exists>y s1. yields m s y s1 \<and> yields (f y) s1 x s')"
  by (auto simp: bindE_def split: prod.splits sum.splits)

lemma yields_thenE: "yields (thenE m k) s x s' \<longleftrightarrow> (\<exists>y s1. yields m s y s1 \<and> yields k s1 x s')"
  unfolding thenE_def yields_bindE ..

lemma yields_atomic [simp]:
  "yields (ret y) s x s' \<longleftrightarrow> x = y \<and> s' = s"
  "\<not> yields (throwE e) s x s'"
  "yields (of_sum r) s x s' \<longleftrightarrow> r = Inr x \<and> s' = s"
  "yields (modifyE f) s u s' \<longleftrightarrow> s' = f s"
  "yields (whenE b m) s u s' \<longleftrightarrow> (if b then yields m s u s' else s' = s)"
  by (auto simp: ret_def throwE_def of_sum_def modifyE_def whenE_def)

lemma resolve_cong: "getAtPath p (refSource r) = getAtPath q (refSource r) \<Longrightarrow> resolve C r p k = resolve C r q k"
  by (simp add: resolve_def)

lemma use_field_cong:
  "getAtPath p (refSource r) = getAtPath q (refSource r) \<Longrightarrow> use_field C k p f r = use_field C k q f r"
  unfolding use_field_def by (subst resolve_cong [of p r q]) simp_all

text \<open>Which fields a reference yields, and the source it marks as used.\<close>

definition field_value :: "crypto \<Rightarrow> bytes \<Rightarrow> json \<Rightarrow> field_ref \<Rightarrow> json option" where
  "field_value C k payload r = (case resolve C r payload k of
     Inr (Some v) \<Rightarrow> (if refEnrichment r = None then Some v else None) | _ \<Rightarrow> None)"

definition present :: "json \<Rightarrow> string \<Rightarrow> bool" where
  "present payload p \<longleftrightarrow> getAtPath payload p \<noteq> None"

lemma resolve_present: "resolve C r payload k = Inr w \<Longrightarrow> w \<noteq> None \<longleftrightarrow> present payload (refSource r)"
  by (auto simp: resolve_def present_def split: option.splits sum.splits)
     (auto simp: map_sum_def split: sum.splits)

lemma used_simps [simp]:
  "set (ms_used (add_used p s)) = insert p (set (ms_used s))"
  "ms_used (add_mapped f q s) = ms_used s" "ms_used (add_hashed f s) = ms_used s" "ms_used (add_pending pe s) = ms_used s"
  by (simp_all add: add_used_def add_mapped_def add_hashed_def add_pending_def)

lemma use_field_yields:
  assumes "yields (use_field C k payload f r) s x s'"
  shows "x = field_value C k payload r"
    and "set (ms_used s') = set (ms_used s) \<union> (if present payload (refSource r) then {refSource r} else {})"
proof -
  from assms obtain w where w: "resolve C r payload k = Inr w"
    by (auto simp: use_field_def yields_bindE)
  with resolve_present [OF w] assms
  show "x = field_value C k payload r"
    and "set (ms_used s') = set (ms_used s) \<union> (if present payload (refSource r) then {refSource r} else {})"
    by (auto simp: use_field_def yields_bindE yields_thenE field_value_def split: option.splits if_splits)
qed

section \<open>The metadata\<close>

lemma map_metadata_yields:
  assumes "yields (map_metadata C k payload rs acc) s md s'" and "distinct (map fst rs)"
    and "\<forall>key \<in> set (map fst rs). map_of acc key = None"
  shows "(\<forall>key. map_of md key = (case map_of rs key of
      None \<Rightarrow> map_of acc key | Some r \<Rightarrow> map_option hardDenyDeep (field_value C k payload r))) \<and>
    set (ms_used s') = set (ms_used s) \<union> {p \<in> refSource ` snd ` set rs. present payload p}"
  using assms
proof (induction rs arbitrary: s acc)
  case Nil
  then show ?case by simp
next
  case (Cons kr rs)
  obtain outputKey r where kr: "kr = (outputKey, r)" by (cases kr)
  from Cons.prems(1) obtain x s1 where x: "yields (use_field C k payload (''metadata.'' @ outputKey) r) s x s1"
    and rest: "yields (map_metadata C k payload rs (case x of None \<Rightarrow> acc | Some v \<Rightarrow> AList.update outputKey (hardDenyDeep v) acc)) s1 md s'"
    by (auto simp: yields_bindE kr)
  let ?acc = "case x of None \<Rightarrow> acc | Some v \<Rightarrow> AList.update outputKey (hardDenyDeep v) acc"
  have acc: "map_of ?acc key = (if key = outputKey then map_option hardDenyDeep x else map_of acc key)" for key
    using Cons.prems(3) by (cases x) (simp_all add: map_of_update kr)
  have "\<forall>key \<in> set (map fst rs). map_of ?acc key = None" using acc Cons.prems(2,3) by (auto simp: kr)
  note IH = Cons.IH [OF rest _ this]
  have "map_of rs outputKey = None" using Cons.prems(2) by (simp add: kr map_of_eq_None_iff)
  moreover have "map_of md key = (case map_of rs key of
      None \<Rightarrow> map_of ?acc key | Some r \<Rightarrow> map_option hardDenyDeep (field_value C k payload r))" for key
    using IH Cons.prems(2) by (simp add: kr)
  ultimately have "\<forall>key. map_of md key = (case map_of (kr # rs) key of
      None \<Rightarrow> map_of acc key | Some r \<Rightarrow> map_option hardDenyDeep (field_value C k payload r))"
    unfolding acc using use_field_yields(1) [OF x] by (simp add: kr)
  moreover have "set (ms_used s') = set (ms_used s) \<union> {p \<in> refSource ` snd ` set (kr # rs). present payload p}"
    using IH Cons.prems(2) use_field_yields(2) [OF x] by (auto simp: kr)
  ultimately show ?case by blast
qed

lemma map_metadata_keys:
  "yields (map_metadata C k payload rs acc) s md s' \<Longrightarrow> distinct (map fst acc) \<Longrightarrow> distinct (map fst md)"
proof (induction rs arbitrary: s acc)
  case Nil
  then show ?case by simp
next
  case (Cons kr rs)
  then show ?case
    by (cases kr) (auto simp: yields_bindE distinct_update split: option.splits)
qed

section \<open>The record\<close>

text \<open>Everything the mapper may read of a payload.\<close>

definition configured_sources :: "record_map \<Rightarrow> string set" where
  "configured_sources m = {refSource (m_external_id m), refSource (m_amount m)}
     \<union> (case m_date m of None \<Rightarrow> {} | Some d \<Rightarrow> {fst (dateSource d)})
     \<union> refSource ` snd ` set (m_metadata m)
     \<union> (case m_description m of None \<Rightarrow> {} | Some r \<Rightarrow> {refSource r})"

lemma map_metadata_cong:
  "(\<And>kr. kr \<in> set rs \<Longrightarrow> getAtPath p (refSource (snd kr)) = getAtPath q (refSource (snd kr))) \<Longrightarrow>
   map_metadata C k p rs acc = map_metadata C k q rs acc"
proof (induction rs arbitrary: acc)
  case Nil
  then show ?case by simp
next
  case (Cons kr rs)
  obtain key r where kr: "kr = (key, r)" by (cases kr)
  have "use_field C k p (''metadata.'' @ key) r = use_field C k q (''metadata.'' @ key) r"
    using Cons.prems [of kr] by (intro use_field_cong) (simp add: kr)
  moreover have "map_metadata C k p rs acc' = map_metadata C k q rs acc'" for acc'
    by (rule Cons.IH) (simp add: Cons.prems)
  ultimately show ?case by (simp add: kr)
qed

lemma build_record_cong:
  assumes "\<And>src. src \<in> configured_sources m \<Longrightarrow> getAtPath p src = getAtPath q src"
  shows "build_record C dp m p rcv k = build_record C dp m q rcv k"
proof -
  have "map_external_id C k m p = map_external_id C k m q"
    unfolding map_external_id_def by (subst use_field_cong [of p _ q]) (simp_all add: assms configured_sources_def)
  moreover have "map_amount C k m p = map_amount C k m q"
    unfolding map_amount_def by (subst use_field_cong [of p _ q]) (simp_all add: assms configured_sources_def)
  moreover have "map_date dp m p rcv = map_date dp m q rcv"
  proof (cases "m_date m")
    case (Some d)
    have "getAtPath p (fst (dateSource d)) = getAtPath q (fst (dateSource d))"
      by (rule assms) (simp add: configured_sources_def Some)
    then show ?thesis by (simp add: map_date_def Some split_beta Let_def)
  qed (simp add: map_date_def)
  moreover have "map_metadata C k p (m_metadata m) [] = map_metadata C k q (m_metadata m) []"
    by (rule map_metadata_cong, rule assms) (simp add: configured_sources_def image_image)
  moreover have "map_description C k m p = map_description C k m q"
  proof (cases "m_description m")
    case (Some r)
    have "use_field C k p ''description'' r = use_field C k q ''description'' r"
      by (rule use_field_cong, rule assms) (simp add: configured_sources_def Some)
    then show ?thesis by (simp add: map_description_def Some)
  qed (simp add: map_description_def)
  ultimately show ?thesis by (simp add: build_record_def)
qed

text \<open>The parts of a result that can leave the process: the record, and the enrichment inputs.\<close>

definition outbound :: "exn + mapped_event \<Rightarrow> exn + endclose_record \<times> pending_enrichment list" where
  "outbound r = map_sum id (\<lambda>e. (me_record e, me_pending e)) r"

text \<open>
  \<^bold>\<open>C14.\<close> The map is an allowlist: two payloads that agree at the configured sources
  are mapped to the same record, the same enrichment inputs, or the same error.
\<close>

theorem mapEvent_allowlist:
  assumes "\<forall>src \<in> configured_sources (r_map route). getAtPath p src = getAtPath q src"
  shows "outbound (mapEvent C dp route p rcv k) = outbound (mapEvent C dp route q rcv k)"
  using build_record_cong [of "r_map route" p q] assms
  by (simp add: mapEvent_def outbound_def split: prod.splits sum.splits)

lemma mapEvent_Inr:
  assumes "mapEvent C dp route payload rcv k = Inr e"
  obtains s where "yields (build_record C dp (r_map route) payload rcv k) initial_map_state (me_record e) s"
    and "me_report e = (ms_report s)\<lparr>rp_not_forwarded := not_forwarded (ms_used s) payload\<rparr>"
    and "me_pending e = ms_pending s"
  using assms by (auto simp: mapEvent_def split: prod.splits sum.splits)

lemma build_record_yields:
  assumes "yields (build_record C dp m payload rcv k) s0 r s"
  obtains s1 s2 s3 s4 where
    "yields (map_external_id C k m payload) s0 (ec_external_id r) s1"
    "yields (map_amount C k m payload) s1 (ec_amount r) s2"
    "yields (map_date dp m payload rcv) s2 (ec_date r) s3"
    "yields (map_metadata C k payload (m_metadata m) []) s3 (ec_metadata r) s4"
    "yields (map_description C k m payload) s4 (ec_description r) s"
    "ec_data_stream_key r = m_data_stream_key m" "ec_direction r = m_direction m"
  using assms by (auto simp: build_record_def yields_bindE)

lemma metadata_lookup:
  assumes "mapEvent C dp route payload rcv k = Inr e" and "record_map_ok (r_map route)"
  shows "map_of (ec_metadata (me_record e)) key = (case map_of (m_metadata (r_map route)) key of
    None \<Rightarrow> None | Some r \<Rightarrow> map_option hardDenyDeep (field_value C k payload r))"
proof -
  obtain s3 s4 where y: "yields (map_metadata C k payload (m_metadata (r_map route)) []) s3 (ec_metadata (me_record e)) s4"
    using assms(1) by (elim mapEvent_Inr build_record_yields)
  have "distinct (map fst (m_metadata (r_map route)))" using assms(2) by (simp add: record_map_ok_def)
  from map_metadata_yields [OF y this] show ?thesis by (simp split: option.split)
qed

text \<open>
  The metadata of a record, entry by entry: a configured name has the redacted,
  transformed value of its source, unless the source is absent or the name is left to an
  enrichment; no other name occurs.
\<close>

theorem mapEvent_metadata:
  assumes "mapEvent C dp route payload rcv k = Inr e" and "record_map_ok (r_map route)"
  shows "map_of (ec_metadata (me_record e)) key = (case map_of (m_metadata (r_map route)) key of
    None \<Rightarrow> None | Some r \<Rightarrow> map_option hardDenyDeep (field_value C k payload r))"
  by (rule metadata_lookup [OF assms])

lemma metadata_value:
  assumes "mapEvent C dp route payload rcv k = Inr e" and "record_map_ok (r_map route)"
    and "(key, v) \<in> set (ec_metadata (me_record e))"
  shows "\<exists>r w. (key, r) \<in> set (m_metadata (r_map route)) \<and> field_value C k payload r = Some w \<and> v = hardDenyDeep w"
proof -
  obtain s3 s4 where "yields (map_metadata C k payload (m_metadata (r_map route)) []) s3 (ec_metadata (me_record e)) s4"
    using assms(1) by (elim mapEvent_Inr build_record_yields)
  then have "distinct (map fst (ec_metadata (me_record e)))" by (rule map_metadata_keys) simp
  with assms(3) have "map_of (ec_metadata (me_record e)) key = Some v" by simp
  then show ?thesis unfolding metadata_lookup [OF assms(1,2)]
    by (auto split: option.splits dest: map_of_SomeD)
qed

definition description_value :: "crypto \<Rightarrow> bytes \<Rightarrow> json \<Rightarrow> field_ref \<Rightarrow> string option" where
  "description_value C k payload r = (case field_value C k payload r of Some (JStr t) \<Rightarrow> Some (hardDenyValue t) | _ \<Rightarrow> None)"

lemma map_description_yields:
  assumes "yields (map_description C k m payload) s d s'"
  shows "d = (case m_description m of None \<Rightarrow> None | Some r \<Rightarrow> description_value C k payload r)"
    and "set (ms_used s') = set (ms_used s) \<union> {p \<in> (case m_description m of None \<Rightarrow> {} | Some r \<Rightarrow> {refSource r}). present payload p}"
proof -
  have "d = (case m_description m of None \<Rightarrow> None | Some r \<Rightarrow> description_value C k payload r) \<and>
    set (ms_used s') = set (ms_used s) \<union> {p \<in> (case m_description m of None \<Rightarrow> {} | Some r \<Rightarrow> {refSource r}). present payload p}"
  proof (cases "m_description m")
    case None
    with assms show ?thesis by (simp add: map_description_def)
  next
    case (Some r)
    with assms obtain x where x: "yields (use_field C k payload ''description'' r) s x s'"
      and d: "d = (case x of Some (JStr t) \<Rightarrow> Some (hardDenyValue t) | _ \<Rightarrow> None)"
      by (auto simp: map_description_def yields_bindE)
    from use_field_yields [OF x] d Some show ?thesis
      by (auto simp: description_value_def)
  qed
  then show "d = (case m_description m of None \<Rightarrow> None | Some r \<Rightarrow> description_value C k payload r)"
    and "set (ms_used s') = set (ms_used s) \<union> {p \<in> (case m_description m of None \<Rightarrow> {} | Some r \<Rightarrow> {refSource r}). present payload p}"
    by simp_all
qed

lemma description_value_clean: "description_value C k payload r = Some d \<Longrightarrow> \<not> re_test SSN_RE d"
  by (auto simp: description_value_def hardDenyValue_clean split: option.splits json.splits)

text \<open>The strings of a record that come from the payload through its metadata or description.\<close>

definition forwarded_strings :: "endclose_record \<Rightarrow> string list" where
  "forwarded_strings r = concat (map (\<lambda>kv. string_values (snd kv)) (ec_metadata r)) @
     (case ec_description r of None \<Rightarrow> [] | Some d \<Rightarrow> [d])"

text \<open>Every metadata value has gone through the denylist, whatever the map.\<close>

lemma set_AList_update: "set (AList.update key v al) \<subseteq> insert (key, v) (set al)"
  by (induction al) auto

lemma metadata_denied:
  "yields (map_metadata C k payload rs acc) s md s' \<Longrightarrow> snd ` set acc \<subseteq> range hardDenyDeep \<Longrightarrow> snd ` set md \<subseteq> range hardDenyDeep"
proof (induction rs arbitrary: s acc)
  case (Cons kr rs)
  obtain outputKey r where kr: "kr = (outputKey, r)" by (cases kr)
  from Cons.prems(1) obtain x s1 where
    rest: "yields (map_metadata C k payload rs (case x of None \<Rightarrow> acc | Some v \<Rightarrow> AList.update outputKey (hardDenyDeep v) acc)) s1 md s'"
    by (auto simp: yields_bindE kr)
  have "snd ` set (case x of None \<Rightarrow> acc | Some v \<Rightarrow> AList.update outputKey (hardDenyDeep v) acc) \<subseteq> range hardDenyDeep"
  proof (cases x)
    case (Some v)
    have "snd ` set (AList.update outputKey (hardDenyDeep v) acc) \<subseteq> insert (hardDenyDeep v) (snd ` set acc)"
      using image_mono [OF set_AList_update, of snd outputKey "hardDenyDeep v" acc] by simp
    also have "\<dots> \<subseteq> range hardDenyDeep" using Cons.prems(2) by simp
    finally show ?thesis by (simp add: Some)
  qed (use Cons.prems(2) in simp)
  with rest show ?case by (rule Cons.IH)
qed simp

definition clean_record :: "endclose_record \<Rightarrow> bool" where
  "clean_record r \<longleftrightarrow> (\<forall>t \<in> set (forwarded_strings r). \<not> re_test SSN_RE t)"

lemma clean_recordI:
  assumes "\<And>key v t. (key, v) \<in> set (ec_metadata r) \<Longrightarrow> t \<in> set (string_values v) \<Longrightarrow> \<not> re_test SSN_RE t"
    and "\<And>d. ec_description r = Some d \<Longrightarrow> \<not> re_test SSN_RE d"
  shows "clean_record r"
  using assms by (auto simp: clean_record_def forwarded_strings_def split: option.splits)

lemma mapEvent_clean:
  assumes "mapEvent C dp route payload rcv k = Inr e"
  shows "clean_record (me_record e)"
proof (rule clean_recordI)
  fix key v t assume m: "(key, v) \<in> set (ec_metadata (me_record e))" "t \<in> set (string_values v)"
  obtain s3 s4 where "yields (map_metadata C k payload (m_metadata (r_map route)) []) s3 (ec_metadata (me_record e)) s4"
    using assms by (elim mapEvent_Inr build_record_yields)
  then have "snd ` set (ec_metadata (me_record e)) \<subseteq> range hardDenyDeep" by (rule metadata_denied) simp
  with m(1) obtain w where v: "v = hardDenyDeep w" by force
  show "\<not> re_test SSN_RE t" using m(2) by (auto simp: v string_values_deny hardDenyValue_clean)
next
  fix d assume d: "ec_description (me_record e) = Some d"
  obtain s4 s where "yields (map_description C k (r_map route) payload) s4 (ec_description (me_record e)) s"
    using assms by (elim mapEvent_Inr build_record_yields)
  from map_description_yields(1) [OF this] d show "\<not> re_test SSN_RE d"
    by (auto dest: description_value_clean [OF sym] split: option.splits)
qed

text \<open>
  \<^bold>\<open>C15.\<close> No string of the metadata, at any depth, and no description contains a social
  security number, whatever the route and the payload.
\<close>

theorem mapEvent_no_ssn:
  assumes "mapEvent C dp route payload rcv k = Inr e"
  shows "\<not> (\<exists>t \<in> set (forwarded_strings (me_record e)). re_test SSN_RE t)"
  using mapEvent_clean [OF assms] by (simp add: clean_record_def)

section \<open>Sensitive names leave as keyed hashes\<close>

lemma hex_chars: "c \<in> set (hex bs) \<Longrightarrow> is_digit c \<or> is_lower c"
proof -
  have d: "is_digit (hex_digit n) \<or> is_lower (hex_digit n)" if "n < 16" for n
  proof -
    have "hex_digit n \<in> set hex_digits" using that by (simp add: hex_digit_def length_hex_digits)
    moreover have "\<forall>c \<in> set hex_digits. is_digit c \<or> is_lower c" by code_simp
    ultimately show ?thesis by blast
  qed
  have lt: "unat b div 16 < 16" for b :: "8 word"
    using unsigned_less [of b, where 'a = nat] by (simp add: div_less_iff_less_mult)
  assume "c \<in> set (hex bs)"
  then obtain b :: "8 word" where "c = hex_digit (unat b div 16) \<or> c = hex_digit (unat b mod 16)"
    by (auto simp: hex_def hex_byte_def)
  with d lt show ?thesis by (metis mod_less_divisor zero_less_numeral)
qed

lemma hash_text_chars: "c \<in> set (''hmac256:'' @ hex h) \<Longrightarrow> \<not> is_space c \<and> lower_char c = c"
proof -
  have sp: "\<not> is_space c" if "is_lower c" for c using that by (auto simp: is_lower_def lowers_def is_space_def)
  have pre: "\<forall>c \<in> set ''hmac256''. is_digit c \<or> is_lower c" by code_simp
  have colon: "\<not> is_space CHR '':''" "lower_char CHR '':'' = CHR '':''" by (simp_all add: is_space_def lower_char_fixed)
  assume "c \<in> set (''hmac256:'' @ hex h)"
  then have "c = CHR '':'' \<or> is_digit c \<or> is_lower c" using hex_chars [of c h] pre by auto
  with sp colon show ?thesis using is_digit_not_space lower_char_fixed by blast
qed

text \<open>The digest that stands for a text, and the text of a value: a string itself, else its JSON.\<close>

definition digest_text :: "crypto \<Rightarrow> bytes \<Rightarrow> string \<Rightarrow> string" where
  "digest_text C k t = ''hmac256:'' @ hex (hmac C SHA256 k (utf8 t))"

definition json_text :: "json \<Rightarrow> string" where
  "json_text x = (case x of JStr t \<Rightarrow> t | _ \<Rightarrow> (case stringify x of None \<Rightarrow> [] | Some t \<Rightarrow> t))"

lemma digest_deny:
  assumes "\<And>m. length (hmac C SHA256 k m) = 32"
  shows "hardDenyDeep (JStr (digest_text C k t)) = JStr (digest_text C k t)"
proof -
  let ?h = "hmac C SHA256 k (utf8 t)"
  have "hardDenyValue (''hmac256:'' @ hex ?h) = ''hmac256:'' @ hex ?h"
    by (rule hash_not_redacted) (use assms hex_chars [of _ ?h] in \<open>auto simp: alnum_def\<close>)
  then show ?thesis by (simp only: hardDenyDeep.simps digest_text_def)
qed

lemma text_transform_digest: "text_transform t (JStr (digest_text C k s)) = JStr (digest_text C k s)"
proof -
  have "js_trim (digest_text C k s) = digest_text C k s" unfolding digest_text_def
    by (rule js_trim_fixed) (use hash_text_chars in blast)
  moreover have "to_lower (digest_text C k s) = digest_text C k s" unfolding digest_text_def to_lower_def
    by (rule map_idI) (use hash_text_chars in blast)
  ultimately show ?thesis by simp
qed

lemma hash_digest: "applyTransform C Hash v k = Inr w \<Longrightarrow> w = JStr (digest_text C k (json_text v))"
  by (auto simp: applyTransform_def hashValue_def digest_text_def json_text_def split: option.splits json.splits)

lemma digests:
  "applyTransforms C ts (JStr (digest_text C k s)) k = Inr w \<Longrightarrow> w = JStr ((digest_text C k ^^ Suc (count_list ts Hash)) s)"
proof (induction ts arbitrary: s)
  case (Cons t ts)
  show ?case
  proof (cases "t = Hash")
    case True
    with Cons.prems obtain u where u: "applyTransform C Hash (JStr (digest_text C k s)) k = Inr u" "applyTransforms C ts u k = Inr w"
      by (auto split: sum.splits)
    have "u = JStr (digest_text C k (digest_text C k s))" using hash_digest [OF u(1)] by (simp add: json_text_def)
    with Cons.IH u(2) True show ?thesis by (simp add: funpow_swap1)
  next
    case False
    then have "applyTransform C t (JStr (digest_text C k s)) k = Inr (JStr (digest_text C k s))"
      by (simp add: applyTransform_def text_transform_digest del: text_transform.simps)
    with Cons False show ?thesis by simp
  qed
qed simp

lemma transforms_digest:
  "applyTransforms C ts x k = Inr w \<Longrightarrow> Hash \<in> set ts \<Longrightarrow>
     w = JStr ((digest_text C k ^^ count_list ts Hash) (json_text (fold text_transform (takeWhile (\<lambda>t. t \<noteq> Hash) ts) x)))"
proof (induction ts arbitrary: x)
  case (Cons t ts)
  from Cons.prems(1) obtain u where u: "applyTransform C t x k = Inr u" "applyTransforms C ts u k = Inr w" by (auto split: sum.splits)
  show ?case
  proof (cases "t = Hash")
    case True
    with u have "u = JStr (digest_text C k (json_text x))" using hash_digest by blast
    with digests u(2) True show ?thesis by (simp add: funpow_swap1)
  next
    case False
    with u(1) have "u = text_transform t x" by (simp add: applyTransform_def)
    with Cons.IH [OF u(2)] Cons.prems(2) False show ?thesis by simp
  qed
qed simp

text \<open>
  \<^bold>\<open>C16.\<close> Under a map that passed the schema, a metadata entry whose name or whose source ends in a
  sensitive name is forwarded as the HMAC-SHA256, under the masking key, of the text that the
  payload has at the source, trimmed and lower-cased as far as the map says so before the hash; and
  in no other form.  (A map may hash more than once: then the digest is hashed again.)
\<close>

theorem mapEvent_sensitive_hashed:
  assumes "mapEvent C dp route payload rcv k = Inr e" and "record_map_ok (r_map route)"
    and "\<And>m. length (hmac C SHA256 k m) = 32"
    and "(key, v) \<in> set (ec_metadata (me_record e))" and "map_of (m_metadata (r_map route)) key = Some r"
    and "keyNameIsSensitive key \<or> keyNameIsSensitive (source_leaf r)"
  shows "\<exists>x n. getAtPath payload (refSource r) = Some x \<and> n = count_list (refTransforms r) Hash \<and> 0 < n \<and>
    v = JStr ((digest_text C k ^^ n) (json_text (fold text_transform (takeWhile (\<lambda>t. t \<noteq> Hash) (refTransforms r)) x)))"
proof -
  obtain r' w where r': "(key, r') \<in> set (m_metadata (r_map route))" and w: "field_value C k payload r' = Some w" and v: "v = hardDenyDeep w"
    using metadata_value [OF assms(1,2,4)] by blast
  have "distinct (map fst (m_metadata (r_map route)))" using assms(2) by (simp add: record_map_ok_def)
  with r' assms(5) have "r' = r" by simp
  have "(key, r) \<in> set (m_metadata (r_map route))" using r' \<open>r' = r\<close> by simp
  with assms(2,6) have h: "Hash \<in> set (refTransforms r)" using sensitive_entry_hashed by blast
  from w obtain x where x: "getAtPath payload (refSource r) = Some x" "applyTransforms C (refTransforms r) x k = Inr w"
    unfolding \<open>r' = r\<close> by (auto simp: field_value_def resolve_def map_sum_def split: option.splits sum.splits if_splits)
  let ?n = "count_list (refTransforms r) Hash"
  have n: "?n \<noteq> 0" using h by (simp add: count_list_0_iff)
  then obtain m where "?n = Suc m" using not0_implies_Suc by blast
  then obtain t where "w = JStr (digest_text C k t)" using transforms_digest [OF x(2) h] by simp
  then have "v = w" using v digest_deny [OF assms(3)] by simp
  with n x(1) transforms_digest [OF x(2) h] show ?thesis by auto
qed

end
