(* ===== verification/ReportFacts.thy ===== *)
theory ReportFacts imports MapEventFacts begin

text \<open>
  The report of \<open>mapEvent\<close>: which leaves it lists as not forwarded, dates, and concrete runs
  of the mapper on a small route.
\<close>

section \<open>Wildcard patterns\<close>








section \<open>The report of a run\<close>











section \<open>A route and its runs\<close>

definition demo_map :: record_map where
  "demo_map = \<lparr>m_data_stream_key = ''payments'', m_external_id = PathRef ''id'', m_amount = PathRef ''amt'',
     m_direction = Credit, m_date = Some (DateObj ''when'' MdyHms), m_description = Some (PathRef ''note''),
     m_currency = Some ''usd'',
     m_metadata = [(''ref'', PathRef ''customer''), (''account_number'', ObjRef ''acct'' (Some (OneTransform Hash)) None)]\<rparr>"

definition demo_route :: route_config where
  "demo_route = \<lparr>r_id = ''r1'', r_source = ''payabli'',
     r_auth = StaticHeader \<lparr>pa_header = ''authorization'', pa_secret_env = ''S'', pa_allowed_ips = []\<rparr>,
     r_events = None, r_map = demo_map, r_max_body_bytes = 10\<rparr>"

definition demo_payload :: json where
  "demo_payload = JObj [(''id'', JStr ''t1''), (''amt'', JNum ''1.5''), (''when'', JStr ''1/2/2025''),
     (''note'', JStr ''ssn 123-45-6789''), (''customer'', JObj [(''name'', JStr ''Al'')]), (''acct'', JNum ''12''),
     (''cvv'', JStr ''9'')]"

lemma demo_map_ok: "record_map_ok (r_map demo_route)"
  by code_simp

text \<open>The run of the mapper on this payload, step by step.\<close>

definition demo_state :: "(string \<times> string) list \<Rightarrow> string list \<Rightarrow> string list \<Rightarrow> map_state" where
  "demo_state mapped hashed used = \<lparr>ms_report = \<lparr>rp_mapped = mapped, rp_hashed = hashed, rp_enriched = [], rp_not_forwarded = []\<rparr>,
     ms_pending = [], ms_used = used\<rparr>"

definition demo_fields :: "(string \<times> string) list" where
  "demo_fields = [(''external_id'', ''id''), (''amount'', ''amt''), (''date'', ''when''), (''metadata.ref'', ''customer''),
     (''metadata.account_number'', ''acct''), (''description'', ''note'')]"

definition demo_metadata :: "(string \<times> json) list" where
  "demo_metadata = [(''ref'', JObj [(''name'', JStr ''Al'')]), (''account_number'', JStr (''hmac256:'' @ hex (replicate 32 7)))]"

definition demo_record :: endclose_record where
  "demo_record = \<lparr>ec_date = ''2025-01-02'', ec_data_stream_key = ''payments'', ec_amount = Cents 150,
     ec_currency = Some ''usd'', ec_direction = Credit, ec_description = Some ''ssn [REDACTED]'',
     ec_external_id = ''t1'', ec_metadata = demo_metadata\<rparr>"

definition demo_mapped :: mapped_event where
  "demo_mapped = \<lparr>me_record = demo_record,
     me_report = \<lparr>rp_mapped = demo_fields, rp_hashed = [''metadata.account_number''], rp_enriched = [],
       rp_not_forwarded = [''customer.name'', ''cvv'']\<rparr>, me_pending = []\<rparr>"

lemma demo_steps:
  "map_external_id toy_crypto [] demo_map demo_payload initial_map_state = (Inr ''t1'', demo_state (take 1 demo_fields) [] [''id''])"
  "map_amount toy_crypto [] demo_map demo_payload (demo_state (take 1 demo_fields) [] [''id'']) =
     (Inr (Cents 150), demo_state (take 2 demo_fields) [] [''amt'', ''id''])"
  "map_date (\<lambda>_. None) demo_map demo_payload ''2025-01-03'' (demo_state (take 2 demo_fields) [] [''amt'', ''id'']) =
     (Inr ''2025-01-02'', demo_state (take 3 demo_fields) [] [''when'', ''amt'', ''id''])"
  "map_metadata toy_crypto [] demo_payload (m_metadata demo_map) [] (demo_state (take 3 demo_fields) [] [''when'', ''amt'', ''id'']) =
     (Inr demo_metadata, demo_state (take 5 demo_fields) [''metadata.account_number''] [''acct'', ''customer'', ''when'', ''amt'', ''id''])"
  "map_description toy_crypto [] demo_map demo_payload
     (demo_state (take 5 demo_fields) [''metadata.account_number''] [''acct'', ''customer'', ''when'', ''amt'', ''id'']) =
     (Inr (Some ''ssn [REDACTED]''), demo_state demo_fields [''metadata.account_number''] [''note'', ''acct'', ''customer'', ''when'', ''amt'', ''id''])"
  "not_forwarded [''note'', ''acct'', ''customer'', ''when'', ''amt'', ''id''] demo_payload = [''customer.name'', ''cvv'']"
  by code_simp+

lemma demo_run: "mapEvent toy_crypto (\<lambda>_. None) demo_route demo_payload ''2025-01-03'' [] = Inr demo_mapped"
proof -
  have m: "r_map demo_route = demo_map" by (simp add: demo_route_def)
  have "build_record toy_crypto (\<lambda>_. None) demo_map demo_payload ''2025-01-03'' [] initial_map_state =
      (Inr demo_record, demo_state demo_fields [''metadata.account_number''] [''note'', ''acct'', ''customer'', ''when'', ''amt'', ''id''])"
    by (simp add: build_record_def bindE_def demo_steps ret_def demo_record_def del: One_nat_def) (simp add: demo_map_def)
  then show ?thesis by (simp add: mapEvent_def m demo_state_def demo_steps demo_mapped_def)
qed

section \<open>Witnesses\<close>

theorem mapEvent_metadata_witness:
  "map_of demo_metadata ''ref'' = (case map_of (m_metadata demo_map) ''ref'' of
    None \<Rightarrow> None | Some r \<Rightarrow> map_option hardDenyDeep (field_value toy_crypto [] demo_payload r))"
  using mapEvent_metadata [OF demo_run demo_map_ok, of "''ref''"] by (simp add: demo_mapped_def demo_record_def demo_route_def)

theorem mapEvent_no_ssn_witness: "\<not> (\<exists>t \<in> set (forwarded_strings demo_record). re_test SSN_RE t)"
  using mapEvent_no_ssn [OF demo_run] by (simp add: demo_mapped_def)

theorem mapEvent_sensitive_hashed_witness:
  "JStr (''hmac256:'' @ hex (replicate 32 7)) = JStr (digest_text toy_crypto [] ''12'')"
proof -
  have h: "length (hmac toy_crypto SHA256 [] m) = 32" for m by (simp add: toy_crypto_def)
  have v: "(''account_number'', JStr (''hmac256:'' @ hex (replicate 32 7))) \<in> set (ec_metadata (me_record demo_mapped))"
    by (simp add: demo_mapped_def demo_record_def demo_metadata_def)
  have r: "map_of (m_metadata (r_map demo_route)) ''account_number'' = Some (ObjRef ''acct'' (Some (OneTransform Hash)) None)"
    by (simp add: demo_route_def demo_map_def)
  have n: "keyNameIsSensitive ''account_number'' \<or> keyNameIsSensitive (source_leaf (ObjRef ''acct'' (Some (OneTransform Hash)) None))"
    by code_simp
  have x: "getAtPath demo_payload ''acct'' = Some (JNum ''12'')" "json_text (JNum ''12'') = ''12''" by code_simp+
  show ?thesis using mapEvent_sensitive_hashed [OF demo_run demo_map_ok h v r n] by (simp add: x)
qed


theorem mapEvent_allowlist_witness:
  "outbound (mapEvent toy_crypto (\<lambda>_. None) demo_route (JObj [(''id'', JStr ''t1''), (''cvv'', JStr ''9'')]) ''2025-01-03'' []) =
   outbound (mapEvent toy_crypto (\<lambda>_. None) demo_route (JObj [(''id'', JStr ''t1''), (''pin'', JStr ''7'')]) ''2025-01-03'' [])"
proof (rule mapEvent_allowlist)
  have "configured_sources (r_map demo_route) = {''id'', ''amt'', ''when'', ''customer'', ''acct'', ''note''}"
    by (auto simp: configured_sources_def demo_route_def demo_map_def)
  then show "\<forall>src \<in> configured_sources (r_map demo_route).
      getAtPath (JObj [(''id'', JStr ''t1''), (''cvv'', JStr ''9'')]) src =
      getAtPath (JObj [(''id'', JStr ''t1''), (''pin'', JStr ''7'')]) src"
    by (simp add: getAtPath_def is_object_def object_get_def proto_names_def)
qed

text \<open>
  A mapped source that is an object is forwarded with all its fields, and the report
  still lists those fields as not forwarded.
\<close>

theorem report_lists_forwarded_leaf:
  "\<exists>e. mapEvent toy_crypto (\<lambda>_. None) demo_route demo_payload ''2025-01-03'' [] = Inr e \<and>
    ''customer.name'' \<in> set (rp_not_forwarded (me_report e)) \<and>
    map_of (ec_metadata (me_record e)) ''ref'' = Some (JObj [(''name'', JStr ''Al'')])"
  by (simp add: demo_run demo_mapped_def demo_record_def demo_metadata_def)

text \<open>
  The external id of a record is the mapped value as it is: a social security
  number there is not redacted.
\<close>

theorem external_id_not_redacted:
  "fst (map_external_id toy_crypto [] demo_map (JObj [(''id'', JStr ''123-45-6789'')]) initial_map_state) = Inr ''123-45-6789'' \<and>
   hardDenyValue ''123-45-6789'' = REDACTED"
  by code_simp

text \<open>
  The month-first date format checks digits only: a month 13 and a day 45 pass and
  are written into the record.
\<close>

theorem mdy_date_out_of_range:
  "parseDate (\<lambda>_. None) (JStr ''13/45/2024 1:02:03'') MdyHms = Inr ''2024-13-45''"
  by code_simp

end
