(* ===== verification/Store.thy ===== *)
theory Store imports Codec Exn Schema begin

text \<open>
  The persistence contracts of \<open>packages/core/src/engine/store.ts\<close>: the rows of the event
  buffer, the operations the engine calls on a store, and what those operations promise,
  stated over the list of rows in insertion order.

  Points in time are milliseconds since the epoch.  The stores keep them as ISO strings of
  fixed width and compare the strings, which for the years 0 to 9999 is the same order.
\<close>

section \<open>Rows\<close>

datatype event_status = Pending | Retry | Delivering | Delivered | Parked | DroppedByFilter

record event_record =
  ev_id :: string
  ev_route_id :: string
  ev_source :: string
  ev_event_id :: string
  ev_event_type :: "string option"
  ev_payload :: bytes
  ev_payload_iv :: "bytes option"
  ev_headers_json :: string
  ev_received_at :: int
  ev_status :: event_status
  ev_attempts :: nat
  ev_next_attempt_at :: "int option"
  ev_delivered_at :: "int option"
  ev_bulk_request_id :: "string option"
  ev_last_error :: "string option"
  ev_idempotency_key :: string
  ev_claimed_by :: "string option"
  ev_lease_until :: "int option"

record new_event =
  ne_route_id :: string
  ne_source :: string
  ne_event_id :: string
  ne_event_type :: "string option"
  ne_payload :: bytes
  ne_payload_iv :: "bytes option"
  ne_headers_json :: string
  ne_received_at :: int
  ne_status :: event_status
  ne_idempotency_key :: string

datatype insert_result = Duplicate | Inserted string

record lease =
  lease_owner :: string
  lease_end :: int

datatype killswitch = KillNone | KillPause | KillPanic

section \<open>The operations\<close>

text \<open>The promise-returning methods, over the state \<open>'h\<close> of the host that implements them.\<close>

record 'h event_store_ops =
  st_insert :: "new_event \<Rightarrow> ('h, exn, insert_result) sem"
  st_routesWithDueEvents :: "int \<Rightarrow> ('h, exn, string list) sem"
  st_claimDue :: "string \<Rightarrow> int \<Rightarrow> nat \<Rightarrow> lease \<Rightarrow> ('h, exn, event_record list) sem"
  st_markDelivered :: "string list \<Rightarrow> int \<Rightarrow> string option \<Rightarrow> ('h, exn, unit) sem"
  st_markFailed :: "string list \<Rightarrow> int \<Rightarrow> string \<Rightarrow> ('h, exn, unit) sem"
  st_markParked :: "string list \<Rightarrow> string \<Rightarrow> ('h, exn, unit) sem"
  st_releaseDelivering :: "string list \<Rightarrow> int \<Rightarrow> string \<Rightarrow> ('h, exn, nat) sem"
  st_recoverDelivering :: "int \<Rightarrow> string option \<Rightarrow> ('h, exn, nat) sem"
  st_parkExpired :: "int \<Rightarrow> int \<Rightarrow> ('h, exn, nat) sem"
  st_pruneBatch :: "int \<Rightarrow> int \<Rightarrow> int \<Rightarrow> nat \<Rightarrow> ('h, exn, nat \<times> nat) sem"

record 'h control_ops =
  ct_getKillswitch :: "('h, exn, killswitch) sem"
  ct_setKillswitch :: "killswitch \<Rightarrow> ('h, exn, unit) sem"
  ct_isRoutePaused :: "string \<Rightarrow> ('h, exn, bool) sem"
  ct_setRoutePaused :: "string \<Rightarrow> bool \<Rightarrow> ('h, exn, unit) sem"

section \<open>What the operations do to a row\<close>

definition is_due :: "event_record \<Rightarrow> int \<Rightarrow> bool" where
  "is_due r now \<longleftrightarrow> ev_status r \<in> {Pending, Retry} \<and>
     (case ev_next_attempt_at r of None \<Rightarrow> False | Some t \<Rightarrow> t \<le> now)"

definition is_terminal :: "event_record \<Rightarrow> bool" where
  "is_terminal r \<longleftrightarrow> ev_status r \<in> {Delivered, DroppedByFilter}"

definition new_row :: "new_event \<Rightarrow> string \<Rightarrow> event_record" where
  "new_row e i = \<lparr>ev_id = i, ev_route_id = ne_route_id e, ev_source = ne_source e, ev_event_id = ne_event_id e,
     ev_event_type = ne_event_type e, ev_payload = ne_payload e, ev_payload_iv = ne_payload_iv e,
     ev_headers_json = ne_headers_json e, ev_received_at = ne_received_at e, ev_status = ne_status e,
     ev_attempts = 0, ev_next_attempt_at = Some (ne_received_at e), ev_delivered_at = None,
     ev_bulk_request_id = None, ev_last_error = None, ev_idempotency_key = ne_idempotency_key e,
     ev_claimed_by = None, ev_lease_until = None\<rparr>"

definition clear_lease :: "event_record \<Rightarrow> event_record" where
  "clear_lease r = r\<lparr>ev_claimed_by := None, ev_lease_until := None\<rparr>"

definition claim_row :: "int \<Rightarrow> lease \<Rightarrow> event_record \<Rightarrow> event_record" where
  "claim_row now l r = r\<lparr>ev_status := Delivering, ev_next_attempt_at := Some now,
     ev_claimed_by := Some (lease_owner l), ev_lease_until := Some (lease_end l)\<rparr>"

definition deliver_row :: "int \<Rightarrow> string option \<Rightarrow> event_record \<Rightarrow> event_record" where
  "deliver_row at bulk r = clear_lease (r\<lparr>ev_status := Delivered, ev_delivered_at := Some at,
     ev_bulk_request_id := bulk, ev_last_error := None\<rparr>)"

definition fail_row :: "int \<Rightarrow> string \<Rightarrow> event_record \<Rightarrow> event_record" where
  "fail_row at err r = clear_lease (r\<lparr>ev_status := Retry, ev_attempts := Suc (ev_attempts r),
     ev_next_attempt_at := Some at, ev_last_error := Some (slice_to 500 err)\<rparr>)"

definition park_row :: "string \<Rightarrow> event_record \<Rightarrow> event_record" where
  "park_row err r = clear_lease (r\<lparr>ev_status := Parked, ev_last_error := Some (slice_to 500 err)\<rparr>)"

definition recover_row :: "int \<Rightarrow> event_record \<Rightarrow> event_record" where
  "recover_row now r = clear_lease (r\<lparr>ev_status := Retry, ev_next_attempt_at := Some now\<rparr>)"

definition expire_row :: "event_record \<Rightarrow> event_record" where
  "expire_row r = r\<lparr>ev_status := Parked, ev_last_error := Some ''retry window exhausted''\<rparr>"

definition wipe_row :: "event_record \<Rightarrow> event_record" where
  "wipe_row r = r\<lparr>ev_payload := [], ev_payload_iv := None, ev_headers_json := ''{}''\<rparr>"

definition requeue_row :: "int \<Rightarrow> event_record \<Rightarrow> event_record" where
  "requeue_row now r = r\<lparr>ev_status := Retry, ev_attempts := 0, ev_next_attempt_at := Some now, ev_last_error := None\<rparr>"

definition recoverable :: "int \<Rightarrow> string option \<Rightarrow> event_record \<Rightarrow> bool" where
  "recoverable now owner r \<longleftrightarrow> ev_status r = Delivering \<and>
     ((case ev_lease_until r of None \<Rightarrow> True | Some t \<Rightarrow> t < now) \<or> (owner \<noteq> None \<and> ev_claimed_by r = owner))"

definition expired :: "int \<Rightarrow> event_record \<Rightarrow> bool" where
  "expired cutoff r \<longleftrightarrow> ev_status r = Retry \<and> ev_received_at r < cutoff"

definition with_ids :: "string list \<Rightarrow> event_record \<Rightarrow> bool" where
  "with_ids ids r \<longleftrightarrow> ev_id r \<in> set ids"

definition DAY :: int where "DAY = 86400000"

definition wipeable :: "int \<Rightarrow> int \<Rightarrow> event_record \<Rightarrow> bool" where
  "wipeable now deliveredDays r \<longleftrightarrow> is_terminal r \<and> ev_received_at r < now - deliveredDays * DAY \<and> ev_payload r \<noteq> []"

definition deletable :: "int \<Rightarrow> int \<Rightarrow> event_record \<Rightarrow> bool" where
  "deletable now ledgerDays r \<longleftrightarrow> is_terminal r \<and> ev_received_at r < now - ledgerDays * DAY"

text \<open>
  One step of retention: up to \<open>limit\<close> payloads are wiped; when none is due, up to \<open>limit\<close>
  rows of the ledger are deleted.  Which of the due rows are taken first is not promised.
\<close>

definition chosen :: "(event_record \<Rightarrow> bool) \<Rightarrow> nat \<Rightarrow> event_record list \<Rightarrow> event_record set \<Rightarrow> bool" where
  "chosen P limit rows W \<longleftrightarrow> W \<subseteq> {r \<in> set rows. P r} \<and> card W = min limit (card {r \<in> set rows. P r})"

definition pruned :: "int \<Rightarrow> int \<Rightarrow> int \<Rightarrow> nat \<Rightarrow> event_record list \<Rightarrow> nat \<times> nat \<Rightarrow> event_record list \<Rightarrow> bool" where
  "pruned now deliveredDays ledgerDays limit rows x rows' \<longleftrightarrow>
     (\<exists>W. chosen (wipeable now deliveredDays) limit rows W \<and> W \<noteq> {} \<and> x = (card W, 0) \<and>
        rows' = update_where (\<lambda>r. r \<in> W) wipe_row rows) \<or>
     (chosen (wipeable now deliveredDays) limit rows {} \<and>
      (\<exists>D. chosen (deletable now ledgerDays) limit rows D \<and> x = (0, card D) \<and> rows' = filter (\<lambda>r. r \<notin> D) rows))"

text \<open>Which due rows a claim takes: the oldest of the route, up to the limit.\<close>

definition due_rows :: "event_record list \<Rightarrow> string \<Rightarrow> int \<Rightarrow> nat \<Rightarrow> event_record list" where
  "due_rows rows route now limit = take limit (filter (\<lambda>r. ev_route_id r = route \<and> is_due r now) rows)"

section \<open>The contract\<close>

text \<open>
  A store that works on the rows \<open>rows h\<close> under an invariant \<open>ok h\<close>: every operation keeps
  the invariant; one that throws has changed no row; one that returns has changed exactly
  the rows it should, in the way above.  Ids given to an operation are distinct ids of stored
  rows, as they are in every call of the engine.
\<close>

text \<open>An empty initialisation vector may be given back as none: a database column that is never null.\<close>

definition stored_as :: "new_event \<Rightarrow> string \<Rightarrow> event_record \<Rightarrow> bool" where
  "stored_as e i r \<longleftrightarrow> r = new_row e i \<or> ne_payload_iv e = Some [] \<and> r = (new_row e i)\<lparr>ev_payload_iv := None\<rparr>"

lemma stored_as_new_row [simp]: "stored_as e i (new_row e i)"
  by (simp add: stored_as_def)

definition wf_rows :: "event_record list \<Rightarrow> bool" where
  "wf_rows rows \<longleftrightarrow> distinct (map ev_id rows) \<and> distinct (map ev_idempotency_key rows)"

definition updates ::
  "('h \<Rightarrow> event_record list) \<Rightarrow> ('h \<Rightarrow> bool) \<Rightarrow> ('h, exn, 'a) sem \<Rightarrow> 'h \<Rightarrow>
   (event_record list \<Rightarrow> 'a \<Rightarrow> event_record list \<Rightarrow> bool) \<Rightarrow> bool" where
  "updates rows ok m h Q \<longleftrightarrow> (case m h of (r, h') \<Rightarrow> ok h' \<and>
     (case r of Inl _ \<Rightarrow> rows h' = rows h | Inr x \<Rightarrow> Q (rows h) x (rows h')))"

lemma updatesI:
  "m h = (Inr x, h') \<Longrightarrow> ok h' \<Longrightarrow> Q (rows h) x (rows h') \<Longrightarrow> updates rows ok m h Q"
  by (simp add: updates_def)

lemma updatesD:
  assumes "updates rows ok m h Q" and "m h = (r, h')"
  shows "ok h'" and "r = Inl e \<Longrightarrow> rows h' = rows h" and "r = Inr x \<Longrightarrow> Q (rows h) x (rows h')"
  using assms by (simp_all add: updates_def)

locale event_store =
  fixes S :: "'h event_store_ops" and rows :: "'h \<Rightarrow> event_record list" and ok :: "'h \<Rightarrow> bool"
  assumes wf: "ok h \<Longrightarrow> wf_rows (rows h)"
    and insert: "ok h \<Longrightarrow> updates rows ok (st_insert S e) h (\<lambda>rs x rs'. case x of
        Duplicate \<Rightarrow> rs' = rs \<and> ne_idempotency_key e \<in> set (map ev_idempotency_key rs)
      | Inserted i \<Rightarrow> (\<exists>r. stored_as e i r \<and> rs' = rs @ [r]) \<and> i \<notin> set (map ev_id rs) \<and>
          ne_idempotency_key e \<notin> set (map ev_idempotency_key rs))"
    and routesWithDueEvents: "ok h \<Longrightarrow> updates rows ok (st_routesWithDueEvents S now) h (\<lambda>rs x rs'. rs' = rs \<and>
        distinct x \<and> set x = {ev_route_id r | r. r \<in> set rs \<and> is_due r now})"
    and claimDue: "ok h \<Longrightarrow> updates rows ok (st_claimDue S route now limit l) h (\<lambda>rs x rs'.
        x = map (claim_row now l) (due_rows rs route now limit) \<and>
        rs' = update_where (\<lambda>r. r \<in> set (due_rows rs route now limit)) (claim_row now l) rs)"
    and markDelivered: "ok h \<Longrightarrow> distinct ids \<Longrightarrow> set ids \<subseteq> ev_id ` set (rows h) \<Longrightarrow> updates rows ok (st_markDelivered S ids at bulk) h (\<lambda>rs x rs'.
        rs' = update_where (with_ids ids) (deliver_row at bulk) rs)"
    and markFailed: "ok h \<Longrightarrow> distinct ids \<Longrightarrow> set ids \<subseteq> ev_id ` set (rows h) \<Longrightarrow> updates rows ok (st_markFailed S ids at err) h (\<lambda>rs x rs'.
        rs' = update_where (with_ids ids) (fail_row at err) rs)"
    and markParked: "ok h \<Longrightarrow> distinct ids \<Longrightarrow> set ids \<subseteq> ev_id ` set (rows h) \<Longrightarrow> updates rows ok (st_markParked S ids err) h (\<lambda>rs x rs'.
        rs' = update_where (with_ids ids) (park_row err) rs)"
    and releaseDelivering: "ok h \<Longrightarrow> distinct ids \<Longrightarrow> set ids \<subseteq> ev_id ` set (rows h) \<Longrightarrow> updates rows ok (st_releaseDelivering S ids at err) h (\<lambda>rs x rs'.
        rs' = update_where (\<lambda>r. with_ids ids r \<and> ev_status r = Delivering) (fail_row at err) rs \<and>
        x = length (filter (\<lambda>r. with_ids ids r \<and> ev_status r = Delivering) rs))"
    and recoverDelivering: "ok h \<Longrightarrow> updates rows ok (st_recoverDelivering S now owner) h (\<lambda>rs x rs'.
        rs' = update_where (recoverable now owner) (recover_row now) rs \<and> x = length (filter (recoverable now owner) rs))"
    and parkExpired: "ok h \<Longrightarrow> updates rows ok (st_parkExpired S now age) h (\<lambda>rs x rs'.
        rs' = update_where (expired (now - age)) expire_row rs \<and> x = length (filter (expired (now - age)) rs))"
    and pruneBatch: "ok h \<Longrightarrow> updates rows ok (st_pruneBatch S now dd ld limit) h (\<lambda>rs x rs'.
        pruned now dd ld limit rs x rs')"

end
