(* ===== verification/MemoryStore.thy ===== *)
theory MemoryStore imports Store begin

text \<open>
  The in-process store of \<open>packages/core/src/engine/memory-store.ts\<close>, the reference semantics
  of the contract, and the in-memory control store and static routes of \<open>engine/store.ts\<close>.
  The \<open>Map\<close> of rows is the list of its values in insertion order; every row is kept under
  its own id.  A loop that mutates picked rows one by one is a fold over the ids.
\<close>

section \<open>The state\<close>

record memory_store =
  mem_rows :: "event_record list"
  mem_by_key :: "(string \<times> string) list"
  mem_next_id :: nat

definition empty_memory_store :: memory_store where
  "empty_memory_store = \<lparr>mem_rows = [], mem_by_key = [], mem_next_id = 1\<rparr>"

text \<open>\<open>rows.set(r.id, r)\<close> and \<open>rows.get(id)\<close>.\<close>

definition rows_set :: "event_record \<Rightarrow> event_record list \<Rightarrow> event_record list" where
  "rows_set r rs = (if ev_id r \<in> set (map ev_id rs) then update_where (\<lambda>x. ev_id x = ev_id r) (\<lambda>_. r) rs else rs @ [r])"

definition rows_get :: "event_record list \<Rightarrow> string \<Rightarrow> event_record option" where
  "rows_get rs i = find (\<lambda>r. ev_id r = i) rs"

text \<open>\<open>for (const r of this.pick(ids)) ...\<close>.\<close>

definition for_ids :: "string list \<Rightarrow> (event_record \<Rightarrow> event_record) \<Rightarrow> event_record list \<Rightarrow> event_record list" where
  "for_ids ids f rs = fold (\<lambda>i. update_where (\<lambda>r. ev_id r = i) f) ids rs"

section \<open>The operations of the engine\<close>

definition mem_insert :: "new_event \<Rightarrow> memory_store \<Rightarrow> insert_result \<times> memory_store" where
  "mem_insert e s =
     (if map_of (mem_by_key s) (ne_idempotency_key e) \<noteq> None then (Duplicate, s)
      else (let i = string_of_nat (mem_next_id s) in
        (Inserted i, s\<lparr>mem_next_id := Suc (mem_next_id s), mem_rows := rows_set (new_row e i) (mem_rows s),
           mem_by_key := AList.update (ne_idempotency_key e) i (mem_by_key s)\<rparr>)))"

definition mem_routesWithDueEvents :: "int \<Rightarrow> memory_store \<Rightarrow> string list \<times> memory_store" where
  "mem_routesWithDueEvents now s =
     (rev (fold (\<lambda>r out. if is_due r now then List.insert (ev_route_id r) out else out) (mem_rows s) []), s)"

definition mem_claimDue :: "string \<Rightarrow> int \<Rightarrow> nat \<Rightarrow> lease \<Rightarrow> memory_store \<Rightarrow> event_record list \<times> memory_store" where
  "mem_claimDue routeId now limit l s =
     (let due = due_rows (mem_rows s) routeId now limit in
      (map (claim_row now l) due, s\<lparr>mem_rows := for_ids (map ev_id due) (claim_row now l) (mem_rows s)\<rparr>))"

definition mem_markDelivered :: "string list \<Rightarrow> int \<Rightarrow> string option \<Rightarrow> memory_store \<Rightarrow> unit \<times> memory_store" where
  "mem_markDelivered ids at bulk s = ((), s\<lparr>mem_rows := for_ids ids (deliver_row at bulk) (mem_rows s)\<rparr>)"

definition mem_markFailed :: "string list \<Rightarrow> int \<Rightarrow> string \<Rightarrow> memory_store \<Rightarrow> unit \<times> memory_store" where
  "mem_markFailed ids at err s = ((), s\<lparr>mem_rows := for_ids ids (fail_row at err) (mem_rows s)\<rparr>)"

definition mem_markParked :: "string list \<Rightarrow> string \<Rightarrow> memory_store \<Rightarrow> unit \<times> memory_store" where
  "mem_markParked ids err s = ((), s\<lparr>mem_rows := for_ids ids (park_row err) (mem_rows s)\<rparr>)"

definition release_row :: "int \<Rightarrow> string \<Rightarrow> event_record \<Rightarrow> event_record" where
  "release_row at err r = (if ev_status r = Delivering then fail_row at err r else r)"

definition mem_releaseDelivering :: "string list \<Rightarrow> int \<Rightarrow> string \<Rightarrow> memory_store \<Rightarrow> nat \<times> memory_store" where
  "mem_releaseDelivering ids at err s =
     (case fold (\<lambda>i (n, rs). (n + length (filter (\<lambda>r. ev_id r = i \<and> ev_status r = Delivering) rs),
          update_where (\<lambda>r. ev_id r = i) (release_row at err) rs)) ids (0, mem_rows s) of
        (n, rs) \<Rightarrow> (n, s\<lparr>mem_rows := rs\<rparr>))"

definition mem_recoverDelivering :: "int \<Rightarrow> string option \<Rightarrow> memory_store \<Rightarrow> nat \<times> memory_store" where
  "mem_recoverDelivering now owner s =
     (length (filter (recoverable now owner) (mem_rows s)),
      s\<lparr>mem_rows := update_where (recoverable now owner) (recover_row now) (mem_rows s)\<rparr>)"

definition mem_parkExpired :: "int \<Rightarrow> int \<Rightarrow> memory_store \<Rightarrow> nat \<times> memory_store" where
  "mem_parkExpired now maxAgeMs s =
     (let cutoff = now - maxAgeMs in
      (length (filter (expired cutoff) (mem_rows s)), s\<lparr>mem_rows := update_where (expired cutoff) expire_row (mem_rows s)\<rparr>))"

definition mem_pruneBatch :: "int \<Rightarrow> int \<Rightarrow> int \<Rightarrow> nat \<Rightarrow> memory_store \<Rightarrow> (nat \<times> nat) \<times> memory_store" where
  "mem_pruneBatch now deliveredDays ledgerDays limit s =
     (let toWipe = take limit (filter (wipeable now deliveredDays) (mem_rows s)) in
      if toWipe \<noteq> [] then
        ((length toWipe, 0), s\<lparr>mem_rows := for_ids (map ev_id toWipe) wipe_row (mem_rows s)\<rparr>)
      else (let toDelete = take limit (filter (deletable now ledgerDays) (mem_rows s)) in
        ((0, length toDelete),
         s\<lparr>mem_rows := fold (\<lambda>r. filter (\<lambda>x. ev_id x \<noteq> ev_id r)) toDelete (mem_rows s),
           mem_by_key := fold (\<lambda>r. AList.delete (ev_idempotency_key r)) toDelete (mem_by_key s)\<rparr>)))"

section \<open>The operator surface\<close>

record event_summary =
  es_id :: string
  es_route_id :: string
  es_source :: string
  es_event_id :: string
  es_event_type :: "string option"
  es_received_at :: int
  es_status :: event_status
  es_attempts :: nat
  es_next_attempt_at :: "int option"
  es_delivered_at :: "int option"
  es_bulk_request_id :: "string option"
  es_last_error :: "string option"

definition summary_of :: "event_record \<Rightarrow> event_summary" where
  "summary_of r = \<lparr>es_id = ev_id r, es_route_id = ev_route_id r, es_source = ev_source r, es_event_id = ev_event_id r,
     es_event_type = ev_event_type r, es_received_at = ev_received_at r, es_status = ev_status r,
     es_attempts = ev_attempts r, es_next_attempt_at = ev_next_attempt_at r, es_delivered_at = ev_delivered_at r,
     es_bulk_request_id = ev_bulk_request_id r, es_last_error = ev_last_error r\<rparr>"

record list_filter =
  lf_status :: "event_status option"
  lf_route :: "string option"
  lf_limit :: "nat option"

definition listed :: "list_filter \<Rightarrow> event_record \<Rightarrow> bool" where
  "listed f r \<longleftrightarrow> (case lf_status f of None \<Rightarrow> True | Some st \<Rightarrow> ev_status r = st) \<and>
     (case lf_route f of None \<Rightarrow> True | Some [] \<Rightarrow> True | Some rt \<Rightarrow> ev_route_id r = rt)"

definition mem_getById :: "string \<Rightarrow> memory_store \<Rightarrow> event_record option" where
  "mem_getById i s = rows_get (mem_rows s) i"

definition mem_list :: "list_filter \<Rightarrow> memory_store \<Rightarrow> event_summary list" where
  "mem_list f s = map summary_of (take (case lf_limit f of None \<Rightarrow> 50 | Some n \<Rightarrow> n)
     (sort_key (\<lambda>r. - int (nat_of_digits (ev_id r))) (filter (listed f) (mem_rows s))))"

definition bump :: "event_status \<Rightarrow> (event_status \<times> nat) list \<Rightarrow> (event_status \<times> nat) list" where
  "bump st counts = AList.update st (Suc (case map_of counts st of None \<Rightarrow> 0 | Some n \<Rightarrow> n)) counts"

definition mem_countByStatus :: "memory_store \<Rightarrow> (event_status \<times> nat) list" where
  "mem_countByStatus s = fold (\<lambda>r. bump (ev_status r)) (mem_rows s) []"

record route_stats =
  rs_counts :: "(event_status \<times> nat) list"
  rs_last_delivered_at :: "int option"
  rs_oldest_pending_at :: "int option"

definition no_stats :: route_stats where
  "no_stats = \<lparr>rs_counts = [], rs_last_delivered_at = None, rs_oldest_pending_at = None\<rparr>"

definition add_stats :: "event_record \<Rightarrow> route_stats \<Rightarrow> route_stats" where
  "add_stats r s = \<lparr>rs_counts = bump (ev_status r) (rs_counts s),
     rs_last_delivered_at = (case ev_delivered_at r of None \<Rightarrow> rs_last_delivered_at s
       | Some t \<Rightarrow> (case rs_last_delivered_at s of None \<Rightarrow> Some t | Some u \<Rightarrow> Some (if t > u then t else u))),
     rs_oldest_pending_at = (if ev_status r \<in> {Pending, Retry}
       then (case rs_oldest_pending_at s of None \<Rightarrow> Some (ev_received_at r)
             | Some u \<Rightarrow> Some (if ev_received_at r < u then ev_received_at r else u))
       else rs_oldest_pending_at s)\<rparr>"

definition mem_perRouteStats :: "memory_store \<Rightarrow> (string \<times> route_stats) list" where
  "mem_perRouteStats s = fold (\<lambda>r by_route. AList.update (ev_route_id r)
     (add_stats r (case map_of by_route (ev_route_id r) of None \<Rightarrow> no_stats | Some st \<Rightarrow> st)) by_route) (mem_rows s) []"

definition mem_replay :: "int \<Rightarrow> string \<Rightarrow> memory_store \<Rightarrow> bool \<times> memory_store" where
  "mem_replay now i s = (case rows_get (mem_rows s) i of
     None \<Rightarrow> (False, s)
   | Some r \<Rightarrow> (if ev_status r \<noteq> Parked then (False, s)
       else (True, s\<lparr>mem_rows := update_where (\<lambda>x. ev_id x = i) (requeue_row now) (mem_rows s)\<rparr>)))"

definition mem_replayAllParked :: "int \<Rightarrow> memory_store \<Rightarrow> nat \<times> memory_store" where
  "mem_replayAllParked now s = (length (filter (\<lambda>r. ev_status r = Parked) (mem_rows s)),
     s\<lparr>mem_rows := update_where (\<lambda>r. ev_status r = Parked) (requeue_row now) (mem_rows s)\<rparr>)"

section \<open>As an event store\<close>

text \<open>The methods of this store never reject.\<close>

definition total :: "('s \<Rightarrow> 'a \<times> 's) \<Rightarrow> ('s, exn, 'a) sem" where
  "total f = (\<lambda>s. case f s of (x, s') \<Rightarrow> (Inr x, s'))"

definition memory_ops :: "memory_store event_store_ops" where
  "memory_ops = \<lparr>
     st_insert = (\<lambda>e. total (mem_insert e)),
     st_routesWithDueEvents = (\<lambda>now. total (mem_routesWithDueEvents now)),
     st_claimDue = (\<lambda>route now limit l. total (mem_claimDue route now limit l)),
     st_markDelivered = (\<lambda>ids at bulk. total (mem_markDelivered ids at bulk)),
     st_markFailed = (\<lambda>ids at err. total (mem_markFailed ids at err)),
     st_markParked = (\<lambda>ids err. total (mem_markParked ids err)),
     st_releaseDelivering = (\<lambda>ids at err. total (mem_releaseDelivering ids at err)),
     st_recoverDelivering = (\<lambda>now owner. total (mem_recoverDelivering now owner)),
     st_parkExpired = (\<lambda>now age. total (mem_parkExpired now age)),
     st_pruneBatch = (\<lambda>now dd ld limit. total (mem_pruneBatch now dd ld limit))\<rparr>"

definition mem_ok :: "memory_store \<Rightarrow> bool" where
  "mem_ok s \<longleftrightarrow> wf_rows (mem_rows s) \<and> distinct (map fst (mem_by_key s)) \<and>
     fst ` set (mem_by_key s) = ev_idempotency_key ` set (mem_rows s) \<and>
     (\<forall>r \<in> set (mem_rows s). \<exists>n < mem_next_id s. ev_id r = string_of_nat n)"

section \<open>Rows under updates\<close>

lemma row_fields [simp]:
  "ev_id (clear_lease r) = ev_id r" "ev_idempotency_key (clear_lease r) = ev_idempotency_key r"
  "ev_id (claim_row now l r) = ev_id r" "ev_idempotency_key (claim_row now l r) = ev_idempotency_key r"
  "ev_id (deliver_row at bulk r) = ev_id r" "ev_idempotency_key (deliver_row at bulk r) = ev_idempotency_key r"
  "ev_id (fail_row at err r) = ev_id r" "ev_idempotency_key (fail_row at err r) = ev_idempotency_key r"
  "ev_id (park_row err r) = ev_id r" "ev_idempotency_key (park_row err r) = ev_idempotency_key r"
  "ev_id (recover_row now r) = ev_id r" "ev_idempotency_key (recover_row now r) = ev_idempotency_key r"
  "ev_id (expire_row r) = ev_id r" "ev_idempotency_key (expire_row r) = ev_idempotency_key r"
  "ev_id (wipe_row r) = ev_id r" "ev_idempotency_key (wipe_row r) = ev_idempotency_key r"
  "ev_id (requeue_row now r) = ev_id r" "ev_idempotency_key (requeue_row now r) = ev_idempotency_key r"
  "ev_id (release_row at err r) = ev_id r" "ev_idempotency_key (release_row at err r) = ev_idempotency_key r"
  by (simp_all add: clear_lease_def claim_row_def deliver_row_def fail_row_def park_row_def recover_row_def
      expire_row_def wipe_row_def requeue_row_def release_row_def)

lemma new_row_fields [simp]: "ev_id (new_row e i) = i" "ev_idempotency_key (new_row e i) = ne_idempotency_key e"
  by (simp_all add: new_row_def)

text \<open>An update that keeps ids and keys keeps the well-formedness of the rows.\<close>

lemma wf_rows_update:
  assumes "\<And>r. ev_id (f r) = ev_id r" and "\<And>r. ev_idempotency_key (f r) = ev_idempotency_key r"
  shows "wf_rows (update_where P f rs) = wf_rows rs"
  by (simp add: wf_rows_def assms)

lemma mem_ok_update:
  assumes "\<And>r. ev_id (f r) = ev_id r" and "\<And>r. ev_idempotency_key (f r) = ev_idempotency_key r"
  shows "mem_ok (s\<lparr>mem_rows := update_where P f (mem_rows s)\<rparr>) = mem_ok s"
proof -
  have "ev_idempotency_key ` set (update_where P f rs) = ev_idempotency_key ` set rs" for rs
    by (metis assms(2) map_update_where_same set_map)
  moreover have "(\<forall>r \<in> set (update_where P f rs). Q (ev_id r)) \<longleftrightarrow> (\<forall>r \<in> set rs. Q (ev_id r))" for Q rs
  proof -
    have "(\<forall>r \<in> set xs. Q (ev_id r)) \<longleftrightarrow> (\<forall>i \<in> set (map ev_id xs). Q i)" for xs by simp
    moreover have "map ev_id (update_where P f rs) = map ev_id rs" by (simp add: assms)
    ultimately show ?thesis by metis
  qed
  moreover from this [where Q = "\<lambda>i. \<exists>n < mem_next_id s. i = string_of_nat n"]
  have "(\<forall>r \<in> set (update_where P f (mem_rows s)). \<exists>n < mem_next_id s. ev_id r = string_of_nat n) =
      (\<forall>r \<in> set (mem_rows s). \<exists>n < mem_next_id s. ev_id r = string_of_nat n)" .
  ultimately show ?thesis by (simp add: mem_ok_def wf_rows_update [OF assms])
qed

text \<open>One pass per id is one pass over all ids, when no id repeats.\<close>

lemma for_ids_update:
  assumes "distinct ids" and "\<And>r. ev_id (f r) = ev_id r"
  shows "for_ids ids f rs = update_where (with_ids ids) f rs"
  using assms(1)
proof (induction ids arbitrary: rs)
  case Nil
  then show ?case by (simp add: for_ids_def with_ids_def)
next
  case (Cons i ids)
  have "update_where (with_ids ids) f (update_where (\<lambda>r. ev_id r = i) f rs) = update_where (with_ids (i # ids)) f rs"
    using Cons.prems by (induction rs) (auto simp: with_ids_def assms(2))
  with Cons show ?case by (simp add: for_ids_def)
qed

lemma release_fold:
  assumes "distinct ids"
  shows "fold (\<lambda>i (n, rs). (n + length (filter (\<lambda>r. ev_id r = i \<and> ev_status r = Delivering) rs),
      update_where (\<lambda>r. ev_id r = i) (release_row at err) rs)) ids (n, rs) =
    (n + length (filter (\<lambda>r. with_ids ids r \<and> ev_status r = Delivering) rs),
     update_where (\<lambda>r. with_ids ids r \<and> ev_status r = Delivering) (fail_row at err) rs)"
  using assms
proof (induction ids arbitrary: n rs)
  case Nil
  then show ?case by (simp add: with_ids_def)
next
  case (Cons i ids)
  let ?rs = "update_where (\<lambda>r. ev_id r = i) (release_row at err) rs"
  have "length (filter (\<lambda>r. ev_id r = i \<and> ev_status r = Delivering) rs) +
      length (filter (\<lambda>r. with_ids ids r \<and> ev_status r = Delivering) ?rs) =
    length (filter (\<lambda>r. with_ids (i # ids) r \<and> ev_status r = Delivering) rs)"
    using Cons.prems by (induction rs) (auto simp: with_ids_def)
  moreover have "update_where (\<lambda>r. with_ids ids r \<and> ev_status r = Delivering) (fail_row at err) ?rs =
    update_where (\<lambda>r. with_ids (i # ids) r \<and> ev_status r = Delivering) (fail_row at err) rs"
    using Cons.prems by (induction rs) (auto simp: with_ids_def release_row_def)
  ultimately show ?case using Cons by simp
qed

lemma with_ids_due:
  assumes "wf_rows rs"
  shows "update_where (with_ids (map ev_id (take n (filter P rs)))) f rs = update_where (\<lambda>r. r \<in> set (take n (filter P rs))) f rs"
proof (rule update_where_cong)
  fix r assume r: "r \<in> set rs"
  show "with_ids (map ev_id (take n (filter P rs))) r \<longleftrightarrow> r \<in> set (take n (filter P rs))"
  proof
    assume "with_ids (map ev_id (take n (filter P rs))) r"
    then obtain x where x: "x \<in> set (take n (filter P rs))" "ev_id x = ev_id r" by (auto simp: with_ids_def)
    then have "x \<in> set rs" by (auto dest: mem_take_filterD)
    with x r assms have "x = r" by (auto simp: wf_rows_def dest: distinct_key_eq)
    with x show "r \<in> set (take n (filter P rs))" by simp
  qed (auto simp: with_ids_def)
qed simp

lemma distinct_taken: "wf_rows rs \<Longrightarrow> distinct (map ev_id (take n (filter P rs)))"
  by (simp add: wf_rows_def distinct_map_filter distinct_map_take)

lemma routes_fold:
  "set (fold (\<lambda>r out. if P r then List.insert (g r) out else out) rs out) = set out \<union> {g r | r. r \<in> set rs \<and> P r} \<and>
   (distinct out \<longrightarrow> distinct (fold (\<lambda>r out. if P r then List.insert (g r) out else out) rs out))"
  by (induction rs arbitrary: out) auto

lemma chosen_take:
  assumes "wf_rows rs"
  shows "chosen P n rs (set (take n (filter P rs)))"
proof -
  have d: "distinct rs" using assms by (auto simp: wf_rows_def distinct_map)
  then have "card (set (take n (filter P rs))) = min n (length (filter P rs))"
    by (subst distinct_card) (simp_all add: min.commute)
  moreover have "length (filter P rs) = card {r \<in> set rs. P r}"
    using d distinct_card [of "filter P rs"] by simp
  ultimately show ?thesis by (auto simp: chosen_def dest: mem_take_filterD)
qed

lemma fold_delete_rows:
  "fold (\<lambda>r. filter (\<lambda>x. ev_id x \<noteq> ev_id r)) ds rs = filter (\<lambda>x. \<not> with_ids (map ev_id ds) x) rs"
  by (induction ds arbitrary: rs) (auto simp: with_ids_def intro: filter_cong)

lemma fold_delete_keys:
  "fold (\<lambda>r. AList.delete (k r)) ds al = filter (\<lambda>(x, _). x \<notin> k ` set ds) al"
proof (induction ds arbitrary: al)
  case Nil
  then show ?case by simp
next
  case (Cons d ds)
  then show ?case by (auto simp: AList.delete_eq intro!: filter_cong)
qed

section \<open>The interpretation\<close>

lemma totalI: "f s = (x, s') \<Longrightarrow> ok s' \<Longrightarrow> Q (rows s) x (rows s') \<Longrightarrow> updates rows ok (total f) s Q"
  by (simp add: updates_def total_def)

lemma mem_insert_updates:
  assumes "mem_ok s"
  shows "updates mem_rows mem_ok (total (mem_insert e)) s (\<lambda>rs x rs'. case x of
        Duplicate \<Rightarrow> rs' = rs \<and> ne_idempotency_key e \<in> set (map ev_idempotency_key rs)
      | Inserted i \<Rightarrow> (\<exists>r. stored_as e i r \<and> rs' = rs @ [r]) \<and> i \<notin> set (map ev_id rs) \<and>
          ne_idempotency_key e \<notin> set (map ev_idempotency_key rs))"
proof (cases "map_of (mem_by_key s) (ne_idempotency_key e)")
  case (Some i)
  then have "ne_idempotency_key e \<in> fst ` set (mem_by_key s)" by (auto simp: dest!: map_of_SomeD intro!: rev_image_eqI)
  with assms Some show ?thesis by (intro totalI [where x = Duplicate and s' = s]) (auto simp: mem_insert_def mem_ok_def)
next
  case None
  let ?i = "string_of_nat (mem_next_id s)"
  have key: "ne_idempotency_key e \<notin> set (map ev_idempotency_key (mem_rows s))"
    using None assms by (auto simp: map_of_eq_None_iff mem_ok_def)
  have i: "?i \<notin> set (map ev_id (mem_rows s))" using assms by (fastforce simp: mem_ok_def)
  let ?s = "s\<lparr>mem_next_id := Suc (mem_next_id s), mem_rows := mem_rows s @ [new_row e ?i],
     mem_by_key := AList.update (ne_idempotency_key e) ?i (mem_by_key s)\<rparr>"
  have "mem_insert e s = (Inserted ?i, ?s)" using None i by (simp add: mem_insert_def rows_set_def Let_def)
  moreover have "mem_ok ?s"
    using assms key i less_Suc_eq
    by (auto simp: mem_ok_def wf_rows_def distinct_update dom_update)
  ultimately show ?thesis using i key by (intro totalI) auto
qed

lemma mem_prune_updates:
  assumes "mem_ok s"
  shows "updates mem_rows mem_ok (total (mem_pruneBatch now dd ld limit)) s (\<lambda>rs x rs'. pruned now dd ld limit rs x rs')"
proof -
  let ?w = "take limit (filter (wipeable now dd) (mem_rows s))" and ?d = "take limit (filter (deletable now ld) (mem_rows s))"
  have wf: "wf_rows (mem_rows s)" using assms by (simp add: mem_ok_def)
  then have dist: "distinct (mem_rows s)" by (auto simp: wf_rows_def distinct_map)
  note cw = chosen_take [OF wf, of "wipeable now dd" limit] and cd = chosen_take [OF wf, of "deletable now ld" limit]
  have lw: "length ?w = card (set ?w)" and ld: "length ?d = card (set ?d)"
    by (simp_all add: distinct_card dist)
  show ?thesis
  proof (cases "?w = []")
    case False
    have "for_ids (map ev_id ?w) wipe_row (mem_rows s) = update_where (\<lambda>r. r \<in> set ?w) wipe_row (mem_rows s)"
      using for_ids_update [OF distinct_taken [OF wf], of wipe_row] with_ids_due [OF wf] by simp
    then have "mem_pruneBatch now dd ld limit s = ((card (set ?w), 0),
        s\<lparr>mem_rows := update_where (\<lambda>r. r \<in> set ?w) wipe_row (mem_rows s)\<rparr>)"
      using False lw by (simp add: mem_pruneBatch_def Let_def)
    then show ?thesis
      by (rule totalI) (use assms False cw in \<open>auto simp: mem_ok_update pruned_def intro!: exI [of _ "set ?w"]\<close>)
  next
    case True
    have del: "filter (\<lambda>x. \<not> with_ids (map ev_id ?d) x) (mem_rows s) = filter (\<lambda>x. x \<notin> set ?d) (mem_rows s)"
    proof (rule filter_cong [OF refl])
      fix r assume r: "r \<in> set (mem_rows s)"
      have "with_ids (map ev_id ?d) r \<longleftrightarrow> r \<in> set ?d"
      proof
        assume "with_ids (map ev_id ?d) r"
        then obtain x where "x \<in> set ?d" "ev_id x = ev_id r" by (auto simp: with_ids_def)
        with r wf show "r \<in> set ?d" by (metis distinct_key_eq mem_take_filterD wf_rows_def)
      qed (auto simp: with_ids_def)
      then show "(\<not> with_ids (map ev_id ?d) r) = (r \<notin> set ?d)" by simp
    qed
    let ?s = "s\<lparr>mem_rows := filter (\<lambda>x. x \<notin> set ?d) (mem_rows s),
        mem_by_key := filter (\<lambda>(x, _). x \<notin> ev_idempotency_key ` set ?d) (mem_by_key s)\<rparr>"
    have "mem_pruneBatch now dd ld limit s = ((0, card (set ?d)), ?s)"
      using True ld by (simp add: mem_pruneBatch_def Let_def fold_delete_rows fold_delete_keys del)
    moreover have "mem_ok ?s"
    proof -
      have "distinct (map f (filter P xs))" if "distinct (map f xs)" for f :: "event_record \<Rightarrow> string" and P xs
        using that by (rule distinct_map_filter)
      then have "wf_rows (filter (\<lambda>x. x \<notin> set ?d) (mem_rows s))" using wf by (simp add: wf_rows_def)
      moreover have "distinct (map fst (filter (\<lambda>(x, _). x \<notin> ev_idempotency_key ` set ?d) (mem_by_key s)))"
        using assms by (intro distinct_map_filter) (simp add: mem_ok_def)
      moreover have "fst ` set (filter (\<lambda>(x, _). x \<notin> ev_idempotency_key ` set ?d) (mem_by_key s)) =
          fst ` set (mem_by_key s) - ev_idempotency_key ` set ?d" by force
      moreover have "ev_idempotency_key ` set (filter (\<lambda>x. x \<notin> set ?d) (mem_rows s)) =
          ev_idempotency_key ` set (mem_rows s) - ev_idempotency_key ` set ?d"
      proof -
        have "x \<in> set ?d" if "x \<in> set (mem_rows s)" "y \<in> set ?d" "ev_idempotency_key x = ev_idempotency_key y" for x y
          using that wf by (metis distinct_key_eq mem_take_filterD wf_rows_def)
        then show ?thesis by auto
      qed
      ultimately show ?thesis using assms by (simp add: mem_ok_def)
    qed
    moreover have "chosen (wipeable now dd) limit (mem_rows s) {}" using cw unfolding True by simp
    ultimately show ?thesis using cd by (intro totalI) (auto simp: pruned_def)
  qed
qed

interpretation memory: event_store memory_ops mem_rows mem_ok
proof unfold_locales
  fix s :: memory_store
  assume ok: "mem_ok s"
  show wf: "wf_rows (mem_rows s)" using ok by (simp add: mem_ok_def)
  show "updates mem_rows mem_ok (st_insert memory_ops e) s (\<lambda>rs x rs'. case x of
        Duplicate \<Rightarrow> rs' = rs \<and> ne_idempotency_key e \<in> set (map ev_idempotency_key rs)
      | Inserted i \<Rightarrow> (\<exists>r. stored_as e i r \<and> rs' = rs @ [r]) \<and> i \<notin> set (map ev_id rs) \<and>
          ne_idempotency_key e \<notin> set (map ev_idempotency_key rs))" for e
    using mem_insert_updates [OF ok] by (simp add: memory_ops_def)
  show "updates mem_rows mem_ok (st_routesWithDueEvents memory_ops now) s (\<lambda>rs x rs'. rs' = rs \<and>
        distinct x \<and> set x = {ev_route_id r | r. r \<in> set rs \<and> is_due r now})" for now
    unfolding memory_ops_def event_store_ops.simps
    by (rule totalI [OF mem_routesWithDueEvents_def])
       (use ok routes_fold [of "\<lambda>r. is_due r now" ev_route_id "mem_rows s" "[]"] in auto)
  show "updates mem_rows mem_ok (st_claimDue memory_ops route now limit l) s (\<lambda>rs x rs'.
        x = map (claim_row now l) (due_rows rs route now limit) \<and>
        rs' = update_where (\<lambda>r. r \<in> set (due_rows rs route now limit)) (claim_row now l) rs)" for route now limit l
    unfolding memory_ops_def event_store_ops.simps
    by (rule totalI [OF mem_claimDue_def [unfolded Let_def]])
       (simp_all add: ok due_rows_def for_ids_update [OF distinct_taken [OF wf]] with_ids_due [OF wf] mem_ok_update)
  show "updates mem_rows mem_ok (st_pruneBatch memory_ops now dd ld limit) s (\<lambda>rs x rs'. pruned now dd ld limit rs x rs')" for now dd ld limit
    using mem_prune_updates [OF ok] by (simp add: memory_ops_def)
  show "updates mem_rows mem_ok (st_recoverDelivering memory_ops now owner) s (\<lambda>rs x rs'.
        rs' = update_where (recoverable now owner) (recover_row now) rs \<and> x = length (filter (recoverable now owner) rs))" for now owner
    unfolding memory_ops_def event_store_ops.simps
    by (rule totalI [OF mem_recoverDelivering_def]) (simp_all add: ok mem_ok_update)
  show "updates mem_rows mem_ok (st_parkExpired memory_ops now age) s (\<lambda>rs x rs'.
        rs' = update_where (expired (now - age)) expire_row rs \<and> x = length (filter (expired (now - age)) rs))" for now age
    unfolding memory_ops_def event_store_ops.simps
    by (rule totalI [OF mem_parkExpired_def [unfolded Let_def]]) (simp_all add: ok mem_ok_update)
next
  fix s :: memory_store and ids :: "string list"
  assume ok: "mem_ok s" and ids: "distinct ids" and "set ids \<subseteq> ev_id ` set (mem_rows s)"
  show "updates mem_rows mem_ok (st_markDelivered memory_ops ids at bulk) s (\<lambda>rs x rs'.
        rs' = update_where (with_ids ids) (deliver_row at bulk) rs)" for at bulk
    unfolding memory_ops_def event_store_ops.simps
    by (rule totalI [OF mem_markDelivered_def]) (simp_all add: ok mem_ok_update for_ids_update [OF ids])
  show "updates mem_rows mem_ok (st_markFailed memory_ops ids at err) s (\<lambda>rs x rs'.
        rs' = update_where (with_ids ids) (fail_row at err) rs)" for at err
    unfolding memory_ops_def event_store_ops.simps
    by (rule totalI [OF mem_markFailed_def]) (simp_all add: ok mem_ok_update for_ids_update [OF ids])
  show "updates mem_rows mem_ok (st_markParked memory_ops ids err) s (\<lambda>rs x rs'.
        rs' = update_where (with_ids ids) (park_row err) rs)" for err
    unfolding memory_ops_def event_store_ops.simps
    by (rule totalI [OF mem_markParked_def]) (simp_all add: ok mem_ok_update for_ids_update [OF ids])
  show "updates mem_rows mem_ok (st_releaseDelivering memory_ops ids at err) s (\<lambda>rs x rs'.
        rs' = update_where (\<lambda>r. with_ids ids r \<and> ev_status r = Delivering) (fail_row at err) rs \<and>
        x = length (filter (\<lambda>r. with_ids ids r \<and> ev_status r = Delivering) rs))" for at err
    unfolding memory_ops_def event_store_ops.simps
    by (rule totalI [OF trans [OF mem_releaseDelivering_def]], subst release_fold [OF ids], rule prod.case)
       (simp_all add: ok mem_ok_update)
qed

end
