(* ===== verification/Control.thy ===== *)
theory Control imports Store begin

text \<open>
  Operator state and route definitions as the engine reads them (\<open>engine/store.ts\<close>): the
  contract of a \<open>ControlStore\<close>, the in-memory implementation of it, and \<open>staticRoutes\<close>.
\<close>

section \<open>The contract of a control store\<close>

text \<open>
  \<open>view h\<close> is the killswitch and the set of paused routes.  A method that returns has read
  or written that state; one that throws has changed nothing.
\<close>

definition sets_view ::
  "('h \<Rightarrow> killswitch \<times> string set) \<Rightarrow> ('h, exn, 'a) sem \<Rightarrow> 'h \<Rightarrow>
   (killswitch \<times> string set \<Rightarrow> 'a \<Rightarrow> killswitch \<times> string set \<Rightarrow> bool) \<Rightarrow> bool" where
  "sets_view view m h Q \<longleftrightarrow> (case m h of (r, h') \<Rightarrow>
     (case r of Inl _ \<Rightarrow> view h' = view h | Inr x \<Rightarrow> Q (view h) x (view h')))"

locale control_store =
  fixes C :: "'h control_ops" and view :: "'h \<Rightarrow> killswitch \<times> string set"
  assumes getKillswitch: "sets_view view (ct_getKillswitch C) h (\<lambda>v x v'. x = fst v \<and> v' = v)"
    and setKillswitch: "sets_view view (ct_setKillswitch C k) h (\<lambda>v _ v'. v' = (k, snd v))"
    and isRoutePaused: "sets_view view (ct_isRoutePaused C route) h (\<lambda>v x v'. x = (route \<in> snd v) \<and> v' = v)"
    and setRoutePaused: "sets_view view (ct_setRoutePaused C route paused) h
        (\<lambda>v _ v'. v' = (fst v, if paused then insert route (snd v) else snd v - {route}))"
begin

text \<open>What is written is what is read next.\<close>

lemma paused_after_set:
  assumes "ct_setRoutePaused C route p h = (Inr u, h')" and "ct_isRoutePaused C route h' = (Inr b, h'')"
  shows "b = p"
  using setRoutePaused [of route p h] isRoutePaused [of route h'] assms by (auto simp: sets_view_def split: if_splits)

lemma killswitch_after_set:
  assumes "ct_setKillswitch C k h = (Inr u, h')" and "ct_getKillswitch C h' = (Inr k', h'')"
  shows "k' = k"
  using setKillswitch [of k h] getKillswitch [of h'] assms by (auto simp: sets_view_def)

lemma pause_keeps_killswitch:
  assumes "ct_setRoutePaused C route p h = (Inr u, h')" and "ct_getKillswitch C h' = (Inr k, h'')"
  shows "k = fst (view h)"
  using setRoutePaused [of route p h] getKillswitch [of h'] assms by (auto simp: sets_view_def)

end

section \<open>The in-memory control store\<close>

record memory_control =
  mc_killswitch :: killswitch
  mc_paused :: "string list"

definition empty_control :: memory_control where
  "empty_control = \<lparr>mc_killswitch = KillNone, mc_paused = []\<rparr>"

definition mc_getKillswitch :: "memory_control \<Rightarrow> killswitch" where
  "mc_getKillswitch s = mc_killswitch s"

definition mc_setKillswitch :: "killswitch \<Rightarrow> memory_control \<Rightarrow> memory_control" where
  "mc_setKillswitch k s = s\<lparr>mc_killswitch := k\<rparr>"

definition mc_isRoutePaused :: "string \<Rightarrow> memory_control \<Rightarrow> bool" where
  "mc_isRoutePaused route s \<longleftrightarrow> route \<in> set (mc_paused s)"

definition mc_setRoutePaused :: "string \<Rightarrow> bool \<Rightarrow> memory_control \<Rightarrow> memory_control" where
  "mc_setRoutePaused route paused s =
     (if paused then s\<lparr>mc_paused := if route \<in> set (mc_paused s) then mc_paused s else mc_paused s @ [route]\<rparr>
      else s\<lparr>mc_paused := removeAll route (mc_paused s)\<rparr>)"

definition memory_control_ops :: "memory_control control_ops" where
  "memory_control_ops = \<lparr>ct_getKillswitch = getsE mc_getKillswitch, ct_setKillswitch = (\<lambda>k. modifyE (mc_setKillswitch k)),
     ct_isRoutePaused = (\<lambda>route. getsE (mc_isRoutePaused route)),
     ct_setRoutePaused = (\<lambda>route paused. modifyE (mc_setRoutePaused route paused))\<rparr>"

definition mc_view :: "memory_control \<Rightarrow> killswitch \<times> string set" where
  "mc_view s = (mc_killswitch s, set (mc_paused s))"

interpretation memory_control: control_store memory_control_ops mc_view
  by unfold_locales (auto simp: memory_control_ops_def sets_view_def mc_view_def getsE_def modifyE_def
      mc_getKillswitch_def mc_setKillswitch_def mc_isRoutePaused_def mc_setRoutePaused_def)

section \<open>Route providers\<close>

text \<open>\<open>new Map(routes.map((r) => [r.id, r]))\<close>: a later route of the same id takes the place of an earlier one.\<close>

definition routes_by_id :: "route_config list \<Rightarrow> (string \<times> route_config) list" where
  "routes_by_id routes = fold (\<lambda>r. AList.update (r_id r) r) routes []"

definition staticRoutes_get :: "route_config list \<Rightarrow> string \<Rightarrow> route_config option" where
  "staticRoutes_get routes i = map_of (routes_by_id routes) i"

definition staticRoutes_all :: "route_config list \<Rightarrow> route_config list" where
  "staticRoutes_all routes = map snd (routes_by_id routes)"

lemma update_new_key: "k \<notin> fst ` set al \<Longrightarrow> AList.update k v al = al @ [(k, v)]"
  by (induction al) auto

lemma fold_update_distinct:
  "distinct (map fst al @ map k rs) \<Longrightarrow> fold (\<lambda>r. AList.update (k r) r) rs al = al @ map (\<lambda>r. (k r, r)) rs"
  by (induction rs arbitrary: al) (auto simp: update_new_key)

lemma routes_by_id_distinct: "distinct (map r_id routes) \<Longrightarrow> routes_by_id routes = map (\<lambda>r. (r_id r, r)) routes"
  by (simp add: routes_by_id_def fold_update_distinct)

lemma map_of_keyed:
  assumes "distinct (map k rs)"
  shows "map_of (map (\<lambda>r. (k r, r)) rs) i = Some r \<longleftrightarrow> r \<in> set rs \<and> k r = i"
  using assms by (induction rs) (auto simp: rev_image_eqI)

text \<open>For routes with distinct ids, as \<open>parseRoutes\<close> ensures, the provider is the list itself.\<close>

lemma staticRoutes_lookup:
  assumes "distinct (map r_id routes)"
  shows "staticRoutes_get routes i = Some r \<longleftrightarrow> r \<in> set routes \<and> r_id r = i" and "staticRoutes_all routes = routes"
  by (simp_all add: staticRoutes_get_def staticRoutes_all_def routes_by_id_distinct [OF assms] map_of_keyed [OF assms] comp_def)

end
