(* ===== verification/Hooks.thy ===== *)
theory Hooks imports Prelude Exn begin

text \<open>
  The typed events of the engine and the \<open>RelayHooks\<close> registry
  (\<open>packages/core/src/engine/hooks.ts\<close>).
\<close>

section \<open>Events\<close>

datatype ingest_outcome = IngAccepted | IngDuplicate | IngFiltered | RejectedAuth | RejectedSize | RejectedJson | IngPanic

datatype forward_result = FDelivered | FRetried | FParked

datatype enrich_outcome = Applied | Omitted | Failed | Rejected

datatype engine_error_kind = DispatchCycle | IngestPersist | Prune | RecoverDelivering

datatype hook_event =
    HIngest string ingest_outcome "string option" nat     \<comment> \<open>route, outcome, event type, body bytes\<close>
  | HStored string string bool                            \<comment> \<open>route, id, filtered\<close>
  | HForward string forward_result nat                    \<comment> \<open>route, result, count\<close>
  | HSettled string string forward_result "string option" \<comment> \<open>id, route, result, error\<close>
  | HDelivered string int int                             \<comment> \<open>route, received, delivered\<close>
  | HEnrich string string string string enrich_outcome "string option"
      \<comment> \<open>route, id, field, enrichment, result, error\<close>
  | HBatchForwarded string nat string                     \<comment> \<open>route, events, bulk request\<close>
  | HBatchParked string nat nat                           \<comment> \<open>route, status, events\<close>
  | HPrune nat nat                                        \<comment> \<open>wiped, deleted\<close>
  | HError engine_error_kind exn "string option" "string option"  \<comment> \<open>kind, error, op, route\<close>

fun event_name :: "hook_event \<Rightarrow> string" where
  "event_name (HIngest _ _ _ _) = ''ingest''"
| "event_name (HStored _ _ _) = ''stored''"
| "event_name (HForward _ _ _) = ''forward''"
| "event_name (HSettled _ _ _ _) = ''settled''"
| "event_name (HDelivered _ _ _) = ''delivered''"
| "event_name (HEnrich _ _ _ _ _ _) = ''enrich''"
| "event_name (HBatchForwarded _ _ _) = ''batch.forwarded''"
| "event_name (HBatchParked _ _ _) = ''batch.parked''"
| "event_name (HPrune _ _) = ''prune''"
| "event_name (HError _ _ _ _) = ''error''"

section \<open>The registry\<close>

text \<open>
  A handler is known by its identity, a number; \<open>call\<close> gives its code, over the state of the
  observers.  A registry is the map from event names to the handlers in order of subscription.
\<close>

type_synonym relay_hooks = "(string \<times> nat list) list"

definition hooks_handlers :: "relay_hooks \<Rightarrow> string \<Rightarrow> nat list" where
  "hooks_handlers hs name = (case map_of hs name of None \<Rightarrow> [] | Some known \<Rightarrow> known)"

definition hooks_on :: "string \<Rightarrow> nat \<Rightarrow> relay_hooks \<Rightarrow> relay_hooks" where
  "hooks_on name h hs = (let known = hooks_handlers hs name in
     AList.update name (if h \<in> set known then known else known @ [h]) hs)"

text \<open>The function \<open>on\<close> returns.\<close>

definition hooks_off :: "string \<Rightarrow> nat \<Rightarrow> relay_hooks \<Rightarrow> relay_hooks" where
  "hooks_off name h hs = AList.update name (removeAll h (hooks_handlers hs name)) hs"

text \<open>A handler that throws is passed over.\<close>

fun run_handlers :: "(nat \<Rightarrow> hook_event \<Rightarrow> ('s, exn, unit) sem) \<Rightarrow> hook_event \<Rightarrow> nat list \<Rightarrow> ('s, exn, unit) sem" where
  "run_handlers call e [] = ret ()"
| "run_handlers call e (h # hs) = thenE (catchE (call h e) (\<lambda>_. ret ())) (run_handlers call e hs)"

definition hooks_emit :: "(nat \<Rightarrow> hook_event \<Rightarrow> ('s, exn, unit) sem) \<Rightarrow> relay_hooks \<Rightarrow> hook_event \<Rightarrow> ('s, exn, unit) sem" where
  "hooks_emit call hs e = run_handlers call e (hooks_handlers hs (event_name e))"

lemma handlers_on:
  "hooks_handlers (hooks_on name h hs) n =
     (if n = name then (if h \<in> set (hooks_handlers hs name) then hooks_handlers hs name else hooks_handlers hs name @ [h])
      else hooks_handlers hs n)"
  unfolding hooks_on_def Let_def hooks_handlers_def [of "AList.update _ _ _"] map_of_update by (simp add: hooks_handlers_def)

lemma handlers_off:
  "hooks_handlers (hooks_off name h hs) n = (if n = name then removeAll h (hooks_handlers hs name) else hooks_handlers hs n)"
  unfolding hooks_off_def hooks_handlers_def [of "AList.update _ _ _"] map_of_update by (simp add: hooks_handlers_def)

lemma run_handlers_total: "run_handlers call e hs s = (Inr (), fold (\<lambda>h s. snd (call h e s)) hs s)"
  by (induction hs arbitrary: s) (auto simp: sem_defs split: prod.splits sum.splits)

text \<open>
  Observers cannot break the engine: an emission never throws, whatever its handlers do;
  it runs every handler subscribed to the event and not unsubscribed, each on the state its
  predecessor left, and a handler subscribed again in between runs once.
\<close>

theorem hooks_emit_isolated:
  "fst (hooks_emit call hs e s) = Inr () \<and>
   snd (hooks_emit call hs e s) = fold (\<lambda>h s. snd (call h e s)) (hooks_handlers hs (event_name e)) s \<and>
   hooks_emit call (hooks_on (event_name e) h (hooks_on (event_name e) h hs)) e s =
     hooks_emit call (hooks_on (event_name e) h hs) e s \<and>
   h \<notin> set (hooks_handlers (hooks_off (event_name e) h hs) (event_name e))"
  by (simp add: hooks_emit_def run_handlers_total handlers_on handlers_off)

end
