(* ===== verification/Client.thy ===== *)
theory Client imports MapEventFacts begin

text \<open>
  The End Close API client (\<open>packages/core/src/forward/endclose-client.ts\<close>): its requests,
  the classification of the answers, and the idempotency key of a batch.  The global \<open>fetch\<close>
  and \<open>JSON.parse\<close> are arguments.
\<close>

section \<open>Requests and answers\<close>

record http_request =
  rq_method :: string
  rq_url :: string
  rq_headers :: "(string \<times> string) list"
  rq_body :: "string option"
  rq_timeoutMs :: nat

text \<open>\<open>hr_text\<close> is what \<open>res.text()\<close> settles to, which may reject; \<open>res.ok\<close> is a status 200 to 299.\<close>

record http_response =
  hr_status :: nat
  hr_etag :: "string option"
  hr_text :: "exn + string"

record sent_response =
  sr_status :: nat
  sr_ok :: bool
  sr_etag :: "string option"
  sr_text :: string

record 'h endclose_client =
  cl_baseUrl :: string
  cl_apiKey :: string
  cl_fetch :: "http_request \<Rightarrow> ('h, exn, http_response) sem"

definition TRANSIENT_STATUSES :: "nat list" where
  "TRANSIENT_STATUSES = [408, 429, 500, 502, 503, 504]"

definition status_ok :: "nat \<Rightarrow> bool" where
  "status_ok n \<longleftrightarrow> 200 \<le> n \<and> n \<le> 299"

definition send ::
  "'h endclose_client \<Rightarrow> string \<Rightarrow> string \<Rightarrow> (string \<times> string) list \<Rightarrow> json option \<Rightarrow> nat \<Rightarrow> ('h, exn, sent_response) sem" where
  "send cl verb path headers body timeoutMs =
     bindE (catchE
       (cl_fetch cl \<lparr>rq_method = verb, rq_url = cl_baseUrl cl @ path,
          rq_headers = [(''X-API-KEY'', cl_apiKey cl), (''Content-Type'', ''application/json'')] @ headers,
          rq_body = (case body of None \<Rightarrow> None | Some j \<Rightarrow> stringify j), rq_timeoutMs = timeoutMs\<rparr>)
       (\<lambda>e. throwE (TransientHttpError (''network error: '' @ message e) None)))
     (\<lambda>res. bindE (of_sum (hr_text res)) (\<lambda>t.
        ret \<lparr>sr_status = hr_status res, sr_ok = status_ok (hr_status res), sr_etag = hr_etag res, sr_text = t\<rparr>))"

definition assertOk :: "sent_response \<Rightarrow> exn + unit" where
  "assertOk res =
     (if sr_ok res then Inr ()
      else if sr_status res \<in> set TRANSIENT_STATUSES
        then Inl (TransientHttpError (''HTTP '' @ string_of_nat (sr_status res)) (Some (sr_status res)))
      else Inl (PermanentHttpError (''HTTP '' @ string_of_nat (sr_status res)) (sr_status res) (slice_to 500 (sr_text res))))"

definition request ::
  "(string \<Rightarrow> exn + json) \<Rightarrow> 'h endclose_client \<Rightarrow> string \<Rightarrow> string \<Rightarrow> string option \<Rightarrow> json option \<Rightarrow> nat option \<Rightarrow>
   ('h, exn, json) sem" where
  "request parse cl verb path idemKey body timeoutMs =
     bindE (send cl verb path
       (case idemKey of None \<Rightarrow> [] | Some key \<Rightarrow> if key = [] then [] else [(''Idempotency-Key'', key)])
       body (case timeoutMs of None \<Rightarrow> 30000 | Some ms \<Rightarrow> ms))
     (\<lambda>res. thenE (of_sum (assertOk res))
        (if sr_text res \<noteq> [] then of_sum (parse (sr_text res)) else ret (JObj [])))"

section \<open>The bulk endpoint\<close>

definition show_int :: "int \<Rightarrow> string" where
  "show_int i = (if i < 0 then ''-'' else []) @ string_of_nat (nat \<bar>i\<bar>)"

fun amount_json :: "amount \<Rightarrow> json" where
  "amount_json (Cents c) = JNum (show_int c)"
| "amount_json (InfiniteCents neg) = JNum (if neg then ''-Infinity'' else ''Infinity'')"

fun direction_text :: "direction \<Rightarrow> string" where
  "direction_text Credit = ''credit''"
| "direction_text Debit = ''debit''"

text \<open>A record as the object the mapper builds, its fields in the order they are assigned.\<close>

definition record_json :: "endclose_record \<Rightarrow> json" where
  "record_json r = JObj ([(''date'', JStr (ec_date r)), (''data_stream_key'', JStr (ec_data_stream_key r)),
       (''amount'', amount_json (ec_amount r)), (''direction'', JStr (direction_text (ec_direction r))),
       (''external_id'', JStr (ec_external_id r)), (''metadata'', JObj (ec_metadata r))] @
     (case ec_currency r of None \<Rightarrow> [] | Some c \<Rightarrow> [(''currency'', JStr c)]) @
     (case ec_description r of None \<Rightarrow> [] | Some d \<Rightarrow> [(''description'', JStr d)]))"

definition record_line :: "endclose_record \<Rightarrow> string" where
  "record_line r = ec_data_stream_key r @ '':'' @ ec_external_id r @ [CHR 0x0A]"

text \<open>The updates of one hash are the hash of the concatenation.\<close>

definition batch_text :: "endclose_record list \<Rightarrow> string" where
  "batch_text rs = concat (map record_line rs)"

definition digest_prefix :: "crypto \<Rightarrow> string \<Rightarrow> string" where
  "digest_prefix C t = slice_to 40 (hex (sha256 C (utf8 t)))"

definition idempotencyKey :: "crypto \<Rightarrow> endclose_record list \<Rightarrow> string" where
  "idempotencyKey C rs = ''relay-'' @ digest_prefix C (batch_text rs)"

definition bulkCreateRecords ::
  "crypto \<Rightarrow> (string \<Rightarrow> exn + json) \<Rightarrow> 'h endclose_client \<Rightarrow> endclose_record list \<Rightarrow> ('h, exn, json) sem" where
  "bulkCreateRecords C parse cl rs =
     request parse cl ''POST'' ''/records/bulk'' (Some (idempotencyKey C rs))
       (Some (JObj [(''on_conflict'', JStr ''skip''), (''records'', JArr (map record_json rs))])) None"

definition getBulkRequest :: "(string \<Rightarrow> exn + json) \<Rightarrow> 'h endclose_client \<Rightarrow> string \<Rightarrow> ('h, exn, json) sem" where
  "getBulkRequest parse cl i = request parse cl ''GET'' (''/bulk_requests/'' @ i) None None None"

section \<open>The relay endpoints\<close>

datatype relay_config_answer = Unchanged | Document json "string option"

definition non_empty :: "string option \<Rightarrow> string option" where
  "non_empty s = (if s = Some [] then None else s)"

definition getRelayConfig ::
  "(string \<Rightarrow> exn + json) \<Rightarrow> 'h endclose_client \<Rightarrow> string option \<Rightarrow> nat option \<Rightarrow> ('h, exn, relay_config_answer) sem" where
  "getRelayConfig parse cl etag timeoutMs =
     bindE (send cl ''GET'' ''/relays/config''
       (case non_empty etag of None \<Rightarrow> [] | Some t \<Rightarrow> [(''If-None-Match'', t)])
       None (case timeoutMs of None \<Rightarrow> 10000 | Some ms \<Rightarrow> ms))
     (\<lambda>res. if sr_status res = 304 \<and> non_empty etag \<noteq> None then ret Unchanged
       else thenE (of_sum (assertOk res))
         (bindE (of_sum (if sr_text res = [] then Inr JNull else (case parse (sr_text res) of
              Inr j \<Rightarrow> Inr j
            | Inl _ \<Rightarrow> Inl (PermanentHttpError (''HTTP '' @ string_of_nat (sr_status res) @ '' with a non-JSON body'')
                (sr_status res) (slice_to 500 (sr_text res))))))
           (\<lambda>body. ret (Document body (non_empty (sr_etag res))))))"

text \<open>\<open>encodeURIComponent\<close>: everything but letters, digits and \<open>-_.!~*'()\<close> is percent-encoded.\<close>

definition uri_unreserved :: "char \<Rightarrow> bool" where
  "uri_unreserved c \<longleftrightarrow> is_digit c \<or> is_lower c \<or> is_upper c \<or> c \<in> set ''-_.!~*()'' \<or> c = CHR 0x27"

definition upper_hex :: "8 word \<Rightarrow> string" where
  "upper_hex b = ''%'' @ [''0123456789ABCDEF'' ! (unat b div 16), ''0123456789ABCDEF'' ! (unat b mod 16)]"

definition encodeURIComponent :: "string \<Rightarrow> string" where
  "encodeURIComponent s = concat (map (\<lambda>c. if uri_unreserved c then [c] else concat (map upper_hex (utf8_char c))) s)"

definition putRelayInstance ::
  "(string \<Rightarrow> exn + json) \<Rightarrow> 'h endclose_client \<Rightarrow> string \<Rightarrow> json \<Rightarrow> nat option \<Rightarrow> ('h, exn, unit) sem" where
  "putRelayInstance parse cl instanceId manifest timeoutMs =
     bindE (request parse cl ''PUT'' (''/relays/instances/'' @ encodeURIComponent instanceId) None (Some manifest)
       (Some (case timeoutMs of None \<Rightarrow> 5000 | Some ms \<Rightarrow> ms))) (\<lambda>_. ret ())"

section \<open>The idempotency key\<close>

lemma split_at_first:
  "c \<notin> set xs \<Longrightarrow> c \<notin> set ys \<Longrightarrow> xs @ c # us = ys @ c # vs \<longleftrightarrow> xs = ys \<and> us = vs"
  by (induction xs ys rule: list_induct2') auto

definition plain_ids :: "endclose_record \<Rightarrow> bool" where
  "plain_ids r \<longleftrightarrow> CHR '':'' \<notin> set (ec_data_stream_key r) \<and> CHR 0x0A \<notin> set (ec_external_id r)"

definition record_ids :: "endclose_record \<Rightarrow> string \<times> string" where
  "record_ids r = (ec_data_stream_key r, ec_external_id r)"

lemma batch_text_inj:
  assumes "\<forall>r \<in> set rs. plain_ids r" and "\<forall>r \<in> set rs'. plain_ids r"
  shows "batch_text rs = batch_text rs' \<longleftrightarrow> map record_ids rs = map record_ids rs'"
  using assms
proof (induction rs arbitrary: rs')
  case Nil
  then show ?case by (cases rs') (simp_all add: batch_text_def record_line_def)
next
  case (Cons r rs)
  show ?case
  proof (cases rs')
    case Nil
    then show ?thesis by (simp add: batch_text_def record_line_def)
  next
    case (Cons q qs)
    have "batch_text (r # rs) = batch_text (q # qs) \<longleftrightarrow>
        ec_data_stream_key r @ CHR '':'' # (ec_external_id r @ CHR 0x0A # batch_text rs) =
        ec_data_stream_key q @ CHR '':'' # (ec_external_id q @ CHR 0x0A # batch_text qs)"
      by (simp add: batch_text_def record_line_def)
    also have "\<dots> \<longleftrightarrow> record_ids r = record_ids q \<and> batch_text rs = batch_text qs"
      using Cons.prems Cons by (simp add: split_at_first plain_ids_def record_ids_def)
    also have "\<dots> \<longleftrightarrow> map record_ids (r # rs) = map record_ids (q # qs)"
      using Cons.IH [of qs] Cons.prems Cons by simp
    finally show ?thesis using Cons by simp
  qed
qed

text \<open>
  Two batches get the same idempotency key exactly when they name the same records in
  the same order, by stream key and external id, whatever else the records hold: a retried
  POST of a batch is recognised, and another batch is not taken for it.  (Stream keys have no
  colon, external ids no line break, and the two texts do not collide in the 160 bits kept of
  their digests.)
\<close>

theorem idempotencyKey_eq_iff:
  assumes "\<forall>r \<in> set rs \<union> set rs'. plain_ids r"
    and "inj_on (digest_prefix C) {batch_text rs, batch_text rs'}"
  shows "idempotencyKey C rs = idempotencyKey C rs' \<longleftrightarrow> map record_ids rs = map record_ids rs'"
proof -
  have "idempotencyKey C rs = idempotencyKey C rs' \<longleftrightarrow> batch_text rs = batch_text rs'"
    using inj_on_eq_iff [OF assms(2), of "batch_text rs" "batch_text rs'"] by (simp add: idempotencyKey_def)
  also have "\<dots> \<longleftrightarrow> map record_ids rs = map record_ids rs'"
    using assms(1) by (intro batch_text_inj) auto
  finally show ?thesis .
qed

definition sample_record :: "string \<Rightarrow> endclose_record" where
  "sample_record i = \<lparr>ec_date = ''2024-01-02'', ec_data_stream_key = ''s'', ec_amount = Cents 5, ec_currency = None,
     ec_direction = Credit, ec_description = None, ec_external_id = i, ec_metadata = []\<rparr>"

text \<open>A digest that keeps short texts apart: the text itself.\<close>

definition echo_crypto :: crypto where
  "echo_crypto = \<lparr>sha256 = (\<lambda>m. m), hmac = (\<lambda>_ _ m. m), gcm_seal = (\<lambda>_ _ p. (p, replicate 16 0)),
     gcm_open = (\<lambda>_ _ c _. Some c)\<rparr>"

theorem idempotencyKey_eq_iff_witness:
  "idempotencyKey echo_crypto [sample_record ''a''] \<noteq> idempotencyKey echo_crypto [sample_record ''b'']"
proof -
  have "digest_prefix echo_crypto (batch_text [sample_record ''a'']) \<noteq> digest_prefix echo_crypto (batch_text [sample_record ''b''])"
    by code_simp
  then have "inj_on (digest_prefix echo_crypto) {batch_text [sample_record ''a''], batch_text [sample_record ''b'']}"
    by (auto simp: inj_on_def)
  from idempotencyKey_eq_iff [OF _ this] show ?thesis by (simp add: plain_ids_def sample_record_def record_ids_def)
qed

end
