(* ===== verification/Enrich.thy ===== *)
theory Enrich imports MaskFacts Exn begin

text \<open>
  Values a host enrichment returns (\<open>packages/core/src/forward/enrich.ts\<close>): what may enter a
  record, and the deadline an enrichment runs under.
\<close>

section \<open>Host values\<close>

text \<open>
  An arbitrary JavaScript value, as far as \<open>assertJson\<close> tells values apart.  \<open>HObj\<close> is an
  object whose prototype is \<open>Object.prototype\<close> or null, with its own enumerable entries;
  \<open>HInstance\<close> is any other object that is no array, with the name of its constructor;
  \<open>HOther\<close> is a function, symbol or bigint, with its \<open>typeof\<close>.  Arrays are dense and
  values are finite trees.
\<close>

datatype hval =
    HUndefined
  | HNull
  | HBool bool
  | HNum string
  | HStr string
  | HArr "hval list"
  | HObj "(string \<times> hval) list"
  | HInstance "string option"
  | HOther string

definition finite_number :: "string \<Rightarrow> bool" where
  "finite_number n \<longleftrightarrow> n \<notin> set [''NaN'', ''Infinity'', ''-Infinity'']"

fun describe :: "hval \<Rightarrow> string" where
  "describe HNull = ''null''"
| "describe (HArr _) = ''an array''"
| "describe (HNum n) = ''number '' @ n"
| "describe (HObj _) = ''a Object''"
| "describe (HInstance name) = ''a '' @ (case name of None \<Rightarrow> ''non-plain object'' | Some n \<Rightarrow> n)"
| "describe HUndefined = ''a undefined''"
| "describe (HBool _) = ''a boolean''"
| "describe (HStr _) = ''a string''"
| "describe (HOther t) = ''a '' @ t"

definition not_json :: "hval \<Rightarrow> string \<Rightarrow> exn" where
  "not_json v path = EnrichmentError (''enriched value at \"'' @ path @ ''\" is not JSON ('' @ describe v @ '')'')"

definition denied_key :: "string \<Rightarrow> exn" where
  "denied_key path = EnrichmentError (''enriched value at \"'' @ path @
     ''\" matches the hard denylist (cvv/ssn/account number/...) and cannot be forwarded'')"

text \<open>\<open>assertJson\<close>: \<open>None\<close> when the value passes, the exception it throws otherwise.\<close>

fun assertJson :: "hval \<Rightarrow> string \<Rightarrow> exn option"
  and assert_items :: "hval list \<Rightarrow> nat \<Rightarrow> string \<Rightarrow> exn option"
  and assert_entries :: "(string \<times> hval) list \<Rightarrow> string \<Rightarrow> exn option"
where
  "assertJson HNull path = None"
| "assertJson (HBool b) path = None"
| "assertJson (HStr s) path = None"
| "assertJson (HNum n) path = (if finite_number n then None else Some (not_json (HNum n) path))"
| "assertJson (HArr vs) path = assert_items vs 0 path"
| "assertJson (HObj kvs) path = assert_entries kvs path"
| "assertJson v path = Some (not_json v path)"
| "assert_items [] i path = None"
| "assert_items (v # vs) i path = (case assertJson v (path @ ''['' @ string_of_nat i @ '']'') of
     Some e \<Rightarrow> Some e | None \<Rightarrow> assert_items vs (Suc i) path)"
| "assert_entries [] path = None"
| "assert_entries ((k, v) # kvs) path =
     (if keyNameIsSensitive k then Some (denied_key (path @ ''.'' @ k))
      else (case assertJson v (path @ ''.'' @ k) of Some e \<Rightarrow> Some e | None \<Rightarrow> assert_entries kvs path))"

text \<open>The host value as a document; what is no document does not get here.\<close>

fun json_of :: "hval \<Rightarrow> json" where
  "json_of (HBool b) = JBool b"
| "json_of (HNum n) = JNum n"
| "json_of (HStr s) = JStr s"
| "json_of (HArr vs) = JArr (map json_of vs)"
| "json_of (HObj kvs) = JObj (map (\<lambda>(k, v). (k, json_of v)) kvs)"
| "json_of _ = JNull"

definition validateEnrichedValue :: "hval \<Rightarrow> string \<Rightarrow> exn + json option" where
  "validateEnrichedValue v field =
     (if v = HUndefined then Inr None
      else (case assertJson v field of Some e \<Rightarrow> Inl e | None \<Rightarrow> Inr (Some (hardDenyDeep (json_of v)))))"

section \<open>The deadline\<close>

text \<open>
  What a host callback does: it settles after some milliseconds, or never.  The timer of
  \<open>setTimeout\<close> is set before the callback starts, so it wins a tie; a delay out of the range
  of a timer is one millisecond.
\<close>

datatype 'a callback = Settles nat "exn + 'a" | NeverSettles

definition timer_delay :: "nat \<Rightarrow> nat" where
  "timer_delay ms = (if ms < 1 \<or> ms > 2147483647 then 1 else ms)"

definition timed_out :: "nat \<Rightarrow> exn" where
  "timed_out ms = EnrichTimeoutError (''timed out after '' @ string_of_nat ms @ '' ms'')"

definition withTimeout :: "'a callback \<Rightarrow> nat \<Rightarrow> exn + 'a" where
  "withTimeout c ms = (case c of
     Settles t r \<Rightarrow> (if t < timer_delay ms then r else Inl (timed_out ms))
   | NeverSettles \<Rightarrow> Inl (timed_out ms))"

section \<open>What is accepted\<close>

text \<open>A document: a value of numbers, strings, arrays and plain objects, its numbers finite.\<close>

fun is_document :: "hval \<Rightarrow> bool" where
  "is_document HNull \<longleftrightarrow> True"
| "is_document (HBool b) \<longleftrightarrow> True"
| "is_document (HStr s) \<longleftrightarrow> True"
| "is_document (HNum n) \<longleftrightarrow> finite_number n"
| "is_document (HArr vs) \<longleftrightarrow> (\<forall>v \<in> set vs. is_document v)"
| "is_document (HObj kvs) \<longleftrightarrow> (\<forall>(k, v) \<in> set kvs. is_document v)"
| "is_document _ \<longleftrightarrow> False"

fun key_names :: "json \<Rightarrow> string list" where
  "key_names (JArr vs) = concat (map key_names vs)"
| "key_names (JObj kvs) = concat (map (\<lambda>(k, v). k # key_names v) kvs)"
| "key_names _ = []"

lemma assertJson_None_iff:
  "assertJson v path = None \<longleftrightarrow> is_document v \<and> (\<forall>k \<in> set (key_names (json_of v)). \<not> keyNameIsSensitive k)"
  "assert_items vs i path = None \<longleftrightarrow>
     (\<forall>v \<in> set vs. is_document v \<and> (\<forall>k \<in> set (key_names (json_of v)). \<not> keyNameIsSensitive k))"
  "assert_entries kvs path = None \<longleftrightarrow> (\<forall>(k, v) \<in> set kvs. \<not> keyNameIsSensitive k \<and>
     is_document v \<and> (\<forall>k \<in> set (key_names (json_of v)). \<not> keyNameIsSensitive k))"
  by (induction v path and vs i path and kvs path rule: assertJson_assert_items_assert_entries.induct)
     (auto split: option.splits)

lemma assertJson_error:
  "assertJson v path = Some e \<Longrightarrow> is_enrichment_error e"
  "assert_items vs i path = Some e \<Longrightarrow> is_enrichment_error e"
  "assert_entries kvs path = Some e \<Longrightarrow> is_enrichment_error e"
  by (induction v path and vs i path and kvs path rule: assertJson_assert_items_assert_entries.induct)
     (auto simp: not_json_def denied_key_def split: option.splits if_splits)

lemma validateEnrichedValue_error: "validateEnrichedValue v field = Inl e \<Longrightarrow> is_enrichment_error e"
  by (auto simp: validateEnrichedValue_def assertJson_error split: if_splits option.splits)

lemma key_names_deny: "key_names (hardDenyDeep (json_of v)) = key_names (json_of v)"
proof (induction v)
  case (HArr vs)
  then show ?case by (simp add: comp_def cong: map_cong)
next
  case (HObj kvs)
  then have "key_names (hardDenyDeep (json_of v)) = key_names (json_of v)" if "(k, v) \<in> set kvs" for k v
    using that by (auto intro: HObj.IH)
  then have "map (\<lambda>kv. fst kv # key_names (hardDenyDeep (json_of (snd kv)))) kvs =
      map (\<lambda>kv. fst kv # key_names (json_of (snd kv))) kvs" by (intro map_cong) auto
  then have "concat (map (\<lambda>kv. fst kv # key_names (hardDenyDeep (json_of (snd kv)))) kvs) =
      concat (map (\<lambda>kv. fst kv # key_names (json_of (snd kv))) kvs)" by (rule arg_cong)
  then show ?case by (simp only: json_of.simps hardDenyDeep.simps key_names.simps map_map comp_def split_beta fst_conv snd_conv)
qed auto

text \<open>
  An enriched value enters a record exactly when it is a document without a sensitive
  key name at any depth, and then it is that document with every string redacted.
\<close>

theorem validateEnrichedValue_iff:
  "validateEnrichedValue v field = Inr (Some j) \<longleftrightarrow>
     is_document v \<and> filter keyNameIsSensitive (key_names (json_of v)) = [] \<and> j = hardDenyDeep (json_of v)"
  using assertJson_None_iff(1) [of v field]
  by (auto simp: validateEnrichedValue_def filter_empty_conv split: option.splits)

lemma validateEnrichedValue_safe:
  assumes "validateEnrichedValue v field = Inr (Some j)"
  shows "\<forall>k \<in> set (key_names j). \<not> keyNameIsSensitive k" and "\<forall>t \<in> set (string_values j). \<not> re_test SSN_RE t"
proof -
  have j: "j = hardDenyDeep (json_of v)" and "\<forall>k \<in> set (key_names (json_of v)). \<not> keyNameIsSensitive k"
    using assms assertJson_None_iff(1) [of v field]
    by (auto simp: validateEnrichedValue_def split: option.splits if_splits)
  then show "\<forall>k \<in> set (key_names j). \<not> keyNameIsSensitive k" by (simp add: key_names_deny)
  show "\<forall>t \<in> set (string_values j). \<not> re_test SSN_RE t" unfolding j
    by (auto simp: string_values_deny hardDenyValue_clean)
qed

end
