(* ===== verification/Adapters.thy ===== *)
theory Adapters imports Complex_Main Mapper begin

text \<open>
  The processor adapters of \<open>packages/core/src/ingest/adapters\<close> (types, payabli, generic HMAC,
  registry) and the secret resolvers of \<open>packages/core/src/engine/secrets.ts\<close>.
\<close>

section \<open>Requests\<close>

text \<open>Header values as \<open>node:http\<close> gives them, under lower-case names.\<close>

datatype header_value = OneValue string | ManyValues "string list"

record raw_request =
  rr_rawBody :: bytes
  rr_headers :: "(string \<times> header_value) list"
  rr_remoteIp :: string

datatype verify_result = VerifyOk | VerifyFailed string

definition headerValue :: "(string \<times> header_value) list \<Rightarrow> string \<Rightarrow> string option" where
  "headerValue headers name = (case map_of headers (to_lower name) of
     None \<Rightarrow> None | Some (OneValue v) \<Rightarrow> Some v | Some (ManyValues vs) \<Rightarrow> nth_opt vs 0)"

text \<open>A header that is absent or empty is missing.\<close>

definition presented_header :: "(string \<times> header_value) list \<Rightarrow> string \<Rightarrow> string option" where
  "presented_header headers name = (case headerValue headers name of Some [] \<Rightarrow> None | v \<Rightarrow> v)"

definition body_hash_id :: "crypto \<Rightarrow> bytes \<Rightarrow> string" where
  "body_hash_id C rawBody = ''sha256:'' @ hex (sha256 C rawBody)"

section \<open>Payabli\<close>

definition constantTimeEquals :: "string \<Rightarrow> string \<Rightarrow> bool" where
  "constantTimeEquals a b = (let ab = utf8 a; bb = utf8 b in
     if length ab \<noteq> length bb then False else timing_safe_equal ab bb)"

definition payabli_verify :: "raw_request \<Rightarrow> route_config \<Rightarrow> string \<Rightarrow> verify_result" where
  "payabli_verify req route secret = (case r_auth route of
     HmacAuth _ \<Rightarrow> VerifyFailed ''route auth mode mismatch''
   | StaticHeader auth \<Rightarrow>
       (if pa_allowed_ips auth \<noteq> [] \<and> rr_remoteIp req \<notin> set (pa_allowed_ips auth) then VerifyFailed ''source ip not allowed''
        else (case presented_header (rr_headers req) (pa_header auth) of
            None \<Rightarrow> VerifyFailed (''missing '' @ pa_header auth @ '' header'')
          | Some presented \<Rightarrow> (if constantTimeEquals presented secret then VerifyOk else VerifyFailed ''bad auth header''))))"

definition EVENT_ID_PATHS :: "(string \<times> string) list" where
  "EVENT_ID_PATHS = [(''TransferFunded'', ''transferId''), (''PayOutBatchPaid'', ''BatchId''), (''ApprovedPayment'', ''TransactionId'')]"

text \<open>
  A lookup of a name of \<open>Object.prototype\<close> in the table finds a function or the prototype,
  on which the call of \<open>split\<close> is a \<open>TypeError\<close>.
\<close>

definition payabli_extractEventId :: "crypto \<Rightarrow> json \<Rightarrow> raw_request \<Rightarrow> exn + string" where
  "payabli_extractEventId C body req = (case getAtPath body ''Event'' of
     Some (JStr eventType) \<Rightarrow> (case map_of EVENT_ID_PATHS eventType of
         Some path \<Rightarrow> (case getAtPath body path of
             Some (JStr i) \<Rightarrow> Inr (if i \<noteq> [] then eventType @ '':'' @ i else body_hash_id C (rr_rawBody req))
           | _ \<Rightarrow> Inr (body_hash_id C (rr_rawBody req)))
       | None \<Rightarrow> (if eventType \<in> set proto_names then Inl (OtherError ''path.split is not a function'')
           else Inr (body_hash_id C (rr_rawBody req))))
   | _ \<Rightarrow> Inr (body_hash_id C (rr_rawBody req)))"

definition payabli_extractEventType :: "json \<Rightarrow> string option" where
  "payabli_extractEventType body = (case getAtPath body ''Event'' of Some (JStr t) \<Rightarrow> Some t | _ \<Rightarrow> None)"

section \<open>Generic HMAC\<close>

fun hash_alg_of :: "hmac_algorithm \<Rightarrow> hash_alg" where
  "hash_alg_of Sha256 = SHA256"
| "hash_alg_of Sha512 = SHA512"

definition is_hex_digit :: "char \<Rightarrow> bool" where
  "is_hex_digit c \<longleftrightarrow> is_digit c \<or> c \<in> set ''abcdefABCDEF''"

definition hex_text_re :: re where
  "hex_text_re = seqs [Bol, plus (Sat is_hex_digit), Eol]"

text \<open>\<open>sha256=...\<close> and the like: what follows the first equals sign.\<close>

definition presented_hex :: "string \<Rightarrow> string" where
  "presented_hex presented =
     to_lower (if includes_char presented CHR ''='' \<and> \<not> re_test hex_text_re presented
       then after_first CHR ''='' presented else presented)"

text \<open>\<open>js_number\<close> is \<open>Number\<close> on strings, \<open>None\<close> for NaN and the infinities; \<open>now\<close> is \<open>Date.now()\<close>.\<close>

definition hmac_signed_content ::
  "(string \<Rightarrow> rat option) \<Rightarrow> int \<Rightarrow> generic_hmac_auth \<Rightarrow> raw_request \<Rightarrow> string + bytes" where
  "hmac_signed_content js_number now auth req = (case ga_signed_content auth of
     SignBody \<Rightarrow> Inr (rr_rawBody req)
   | SignTimestampBody \<Rightarrow> (case ga_timestamp_header auth of
       None \<Rightarrow> Inl ''timestamp_header not configured''
     | Some th \<Rightarrow> (if th = [] then Inl ''timestamp_header not configured'' else
         (case presented_header (rr_headers req) th of
           None \<Rightarrow> Inl (''missing '' @ th @ '' header'')
         | Some ts \<Rightarrow> (case js_number ts of
             None \<Rightarrow> Inl ''stale timestamp''
           | Some t \<Rightarrow> (if \<bar>of_int now / 1000 - t\<bar> > of_nat (ga_tolerance_seconds auth) then Inl ''stale timestamp''
               else Inr (utf8 (ts @ ''.'') @ rr_rawBody req)))))))"

definition genericHmac_verify ::
  "crypto \<Rightarrow> (string \<Rightarrow> rat option) \<Rightarrow> int \<Rightarrow> raw_request \<Rightarrow> route_config \<Rightarrow> string \<Rightarrow> verify_result" where
  "genericHmac_verify C js_number now req route secret = (case r_auth route of
     StaticHeader _ \<Rightarrow> VerifyFailed ''route auth mode mismatch''
   | HmacAuth auth \<Rightarrow> (case hmac_signed_content js_number now auth req of
       Inl reason \<Rightarrow> VerifyFailed reason
     | Inr signedContent \<Rightarrow> (case presented_header (rr_headers req) (ga_header auth) of
         None \<Rightarrow> VerifyFailed (''missing '' @ ga_header auth @ '' header'')
       | Some presented \<Rightarrow>
           (let a = utf8 (hex (hmac C (hash_alg_of (ga_algorithm auth)) (utf8 secret) signedContent));
                b = utf8 (presented_hex presented) in
            if length a \<noteq> length b then VerifyFailed ''bad signature''
            else if \<not> timing_safe_equal a b then VerifyFailed ''bad signature'' else VerifyOk))))"

definition genericHmac_extractEventId :: "crypto \<Rightarrow> json \<Rightarrow> raw_request \<Rightarrow> route_config \<Rightarrow> string" where
  "genericHmac_extractEventId C body req route =
     (case (case r_auth route of HmacAuth auth \<Rightarrow> (case ga_event_id auth of None \<Rightarrow> None | Some p \<Rightarrow> getAtPath body p) | _ \<Rightarrow> None) of
        Some (JStr i) \<Rightarrow> (if i \<noteq> [] then i else body_hash_id C (rr_rawBody req))
      | Some (JNum n) \<Rightarrow> n
      | _ \<Rightarrow> body_hash_id C (rr_rawBody req))"

definition genericHmac_extractEventType :: "json \<Rightarrow> route_config \<Rightarrow> string option" where
  "genericHmac_extractEventType body route =
     (case (case r_auth route of HmacAuth auth \<Rightarrow> (case ga_event_type auth of None \<Rightarrow> None | Some p \<Rightarrow> getAtPath body p) | _ \<Rightarrow> None) of
        Some (JStr t) \<Rightarrow> Some t | _ \<Rightarrow> None)"

section \<open>The registry\<close>

text \<open>\<open>ad_verify\<close> gets the time of \<open>Date.now()\<close>; a host's adapter may throw.\<close>

record processor_adapter =
  ad_name :: string
  ad_verify :: "int \<Rightarrow> raw_request \<Rightarrow> route_config \<Rightarrow> string \<Rightarrow> exn + verify_result"
  ad_extractEventId :: "json \<Rightarrow> raw_request \<Rightarrow> route_config \<Rightarrow> exn + string"
  ad_extractEventType :: "json \<Rightarrow> raw_request \<Rightarrow> route_config \<Rightarrow> exn + string option"

definition payabliAdapter :: "crypto \<Rightarrow> processor_adapter" where
  "payabliAdapter C = \<lparr>ad_name = ''payabli'', ad_verify = (\<lambda>now req route secret. Inr (payabli_verify req route secret)),
     ad_extractEventId = (\<lambda>body req route. payabli_extractEventId C body req),
     ad_extractEventType = (\<lambda>body req route. Inr (payabli_extractEventType body))\<rparr>"

definition genericHmacAdapter :: "crypto \<Rightarrow> (string \<Rightarrow> rat option) \<Rightarrow> processor_adapter" where
  "genericHmacAdapter C js_number = \<lparr>ad_name = ''generic_hmac'',
     ad_verify = (\<lambda>now req route secret. Inr (genericHmac_verify C js_number now req route secret)),
     ad_extractEventId = (\<lambda>body req route. Inr (genericHmac_extractEventId C body req route)),
     ad_extractEventType = (\<lambda>body req route. Inr (genericHmac_extractEventType body route))\<rparr>"

text \<open>
  A lookup in the table of built-in adapters may find a property of \<open>Object.prototype\<close>, which
  is truthy and has no method of an adapter.
\<close>

datatype registered = Adapter processor_adapter | PrototypeValue

definition builtin_adapter :: "crypto \<Rightarrow> (string \<Rightarrow> rat option) \<Rightarrow> string \<Rightarrow> registered option" where
  "builtin_adapter C js_number src =
     (if src = ''payabli'' then Some (Adapter (payabliAdapter C))
      else if src = ''generic_hmac'' then Some (Adapter (genericHmacAdapter C js_number))
      else if src \<in> set proto_names then Some PrototypeValue else None)"

text \<open>\<open>extra\<close> is the property access on the host's own table.\<close>

definition lookup_adapter ::
  "crypto \<Rightarrow> (string \<Rightarrow> rat option) \<Rightarrow> (string \<Rightarrow> registered option) \<Rightarrow> string \<Rightarrow> registered option" where
  "lookup_adapter C js_number extra src = (case extra src of Some a \<Rightarrow> Some a | None \<Rightarrow> builtin_adapter C js_number src)"

definition adapterFor ::
  "crypto \<Rightarrow> (string \<Rightarrow> rat option) \<Rightarrow> (string \<Rightarrow> registered option) \<Rightarrow> string \<Rightarrow> exn + registered" where
  "adapterFor C js_number extra src = (case lookup_adapter C js_number extra src of
     None \<Rightarrow> Inl (OtherError (''no adapter for source: '' @ src)) | Some a \<Rightarrow> Inr a)"

definition hasAdapter ::
  "crypto \<Rightarrow> (string \<Rightarrow> rat option) \<Rightarrow> (string \<Rightarrow> registered option) \<Rightarrow> string \<Rightarrow> bool" where
  "hasAdapter C js_number extra src \<longleftrightarrow> lookup_adapter C js_number extra src \<noteq> None"

section \<open>Secrets\<close>

record secret_resolver =
  sec_resolve :: "string \<Rightarrow> string option"
  sec_has :: "(string \<Rightarrow> bool) option"

definition envSecrets :: "(string \<Rightarrow> string option) \<Rightarrow> secret_resolver" where
  "envSecrets env = \<lparr>sec_resolve = (\<lambda>r. case env r of Some v \<Rightarrow> (if v \<noteq> [] then Some v else None) | None \<Rightarrow> None), sec_has = None\<rparr>"

definition staticSecrets :: "(string \<Rightarrow> string option) \<Rightarrow> secret_resolver" where
  "staticSecrets m = \<lparr>sec_resolve = m, sec_has = None\<rparr>"

definition hasSecret :: "secret_resolver \<Rightarrow> string \<Rightarrow> bool" where
  "hasSecret s r = (case sec_has s of Some f \<Rightarrow> f r | None \<Rightarrow> sec_resolve s r \<noteq> None)"

definition requireSecret :: "secret_resolver \<Rightarrow> string \<Rightarrow> exn + string" where
  "requireSecret s r = (case sec_resolve s r of
     None \<Rightarrow> Inl (OtherError (''missing required secret env var: '' @ r)) | Some v \<Rightarrow> Inr v)"

section \<open>What is accepted\<close>

lemma utf8_eq_iff: "utf8 a = utf8 b \<longleftrightarrow> a = b"
  by (metis utf8_decode_utf8)

lemma constantTimeEquals_iff: "constantTimeEquals a b \<longleftrightarrow> a = b"
  by (auto simp: constantTimeEquals_def Let_def timing_safe_equal_def utf8_eq_iff)

text \<open>
  A Payabli webhook is accepted exactly when the route uses a static header, the source
  address is allowed, and the header is present with the value of the secret; an empty secret
  accepts nothing.
\<close>

theorem payabli_verify_iff:
  "payabli_verify req route secret = VerifyOk \<longleftrightarrow>
     (\<exists>auth. r_auth route = StaticHeader auth \<and>
        (pa_allowed_ips auth = [] \<or> rr_remoteIp req \<in> set (pa_allowed_ips auth)) \<and>
        headerValue (rr_headers req) (pa_header auth) = Some secret \<and> secret \<noteq> [])"
  by (auto simp: payabli_verify_def presented_header_def constantTimeEquals_iff split: auth_config.splits option.splits list.splits)

text \<open>What the processor signs: the body, or the timestamp it sends, a dot and the body.\<close>

definition signs :: "(string \<Rightarrow> rat option) \<Rightarrow> int \<Rightarrow> generic_hmac_auth \<Rightarrow> raw_request \<Rightarrow> bytes \<Rightarrow> bool" where
  "signs js_number now auth req m \<longleftrightarrow> (case ga_signed_content auth of
     SignBody \<Rightarrow> m = rr_rawBody req
   | SignTimestampBody \<Rightarrow> (\<exists>th ts t. ga_timestamp_header auth = Some th \<and> th \<noteq> [] \<and>
       headerValue (rr_headers req) th = Some ts \<and> ts \<noteq> [] \<and> js_number ts = Some t \<and>
       \<bar>of_int now / 1000 - t\<bar> \<le> of_nat (ga_tolerance_seconds auth) \<and> m = utf8 (ts @ ''.'') @ rr_rawBody req))"

lemma hmac_signed_content_iff: "hmac_signed_content js_number now auth req = Inr m \<longleftrightarrow> signs js_number now auth req m"
  by (auto simp: hmac_signed_content_def signs_def presented_header_def not_less
      split: signed_content.splits option.splits list.splits if_splits)

text \<open>
  \<^bold>\<open>C30.\<close> A generic webhook is accepted exactly when the presented header, without a prefix such
  as \<open>sha256=\<close> and in lower case, is the hex digest under the route's secret of what the
  processor signs; with a signed timestamp, only inside the tolerance.
\<close>

theorem genericHmac_verify_iff:
  "genericHmac_verify C js_number now req route secret = VerifyOk \<longleftrightarrow>
     (\<exists>auth m presented. r_auth route = HmacAuth auth \<and> signs js_number now auth req m \<and>
        headerValue (rr_headers req) (ga_header auth) = Some presented \<and> presented \<noteq> [] \<and>
        presented_hex presented = hex (hmac C (hash_alg_of (ga_algorithm auth)) (utf8 secret) m))"
proof (cases "r_auth route")
  case (StaticHeader a)
  then show ?thesis by (simp add: genericHmac_verify_def)
next
  case (HmacAuth auth)
  show ?thesis
  proof (cases "hmac_signed_content js_number now auth req")
    case (Inl reason)
    then have "\<not> signs js_number now auth req m" for m by (simp flip: hmac_signed_content_iff)
    with Inl HmacAuth show ?thesis by (simp add: genericHmac_verify_def)
  next
    case (Inr m)
    then have "signs js_number now auth req n \<longleftrightarrow> n = m" for n by (auto simp flip: hmac_signed_content_iff)
    with Inr HmacAuth show ?thesis
      by (auto simp: genericHmac_verify_def presented_header_def Let_def timing_safe_equal_def utf8_eq_iff
          split: option.splits list.splits)
  qed
qed

text \<open>
  A Payabli event whose \<open>Event\<close> field is \<open>constructor\<close> makes the extraction of its id
  throw: the lookup in the table of paths finds a function of \<open>Object.prototype\<close>.
\<close>

theorem payabli_event_constructor_throws:
  "payabli_extractEventId C (JObj [(''Event'', JStr ''constructor'')]) req = Inl (OtherError ''path.split is not a function'')"
  by (simp add: payabli_extractEventId_def getAtPath_def split_on.simps is_object_def object_get_def EVENT_ID_PATHS_def proto_names_def)

end
