(* ===== verification/Host.thy ===== *)
theory Host imports Control MemoryStore Hooks Client Enrich Adapters begin

text \<open>
  What the engine is given by its host: the settings of \<open>packages/core/src/engine/settings.ts\<close>,
  the effects it calls (stores, routes, clock, random numbers, timers, network, enrichments)
  over a host state \<open>'h\<close>, and the trace of what it lets be observed.
\<close>

section \<open>Settings\<close>

record dispatch_settings =
  batchMax :: nat
  pollIntervalMs :: nat
  backoffBaseMs :: nat
  backoffCapMs :: nat
  parkAfterMs :: int
  leaseMs :: int
  recoverIntervalMs :: int
  enrichTimeoutMs :: nat

record retention_settings =
  deliveredDays :: int
  ledgerDays :: int

definition DEFAULT_DISPATCH :: dispatch_settings where
  "DEFAULT_DISPATCH = \<lparr>batchMax = 100, pollIntervalMs = 250, backoffBaseMs = 1000, backoffCapMs = 600000,
     parkAfterMs = 7 * 24 * 3600 * 1000, leaseMs = 600000, recoverIntervalMs = 60000, enrichTimeoutMs = 5000\<rparr>"

definition DEFAULT_RETENTION :: retention_settings where
  "DEFAULT_RETENTION = \<lparr>deliveredDays = 7, ledgerDays = 30\<rparr>"

section \<open>The host\<close>

record enrich_context =
  ctx_routeId :: string
  ctx_source :: string
  ctx_eventId :: string
  ctx_eventType :: "string option"
  ctx_receivedAt :: int
  ctx_field :: string
  ctx_payload :: json

type_synonym 'h enrichment = "json \<Rightarrow> enrich_context \<Rightarrow> 'h \<Rightarrow> hval callback \<times> 'h"

record 'h host_ops =
  ho_store :: "'h event_store_ops"
  ho_control :: "'h control_ops"
  ho_route_get :: "string \<Rightarrow> ('h, exn, route_config option) sem"
  ho_now :: "'h \<Rightarrow> int \<times> 'h"            \<comment> \<open>\<open>Date.now()\<close>\<close>
  ho_random :: "'h \<Rightarrow> rat \<times> 'h"         \<comment> \<open>\<open>Math.random()\<close>\<close>
  ho_iv :: "'h \<Rightarrow> bytes \<times> 'h"           \<comment> \<open>\<open>randomBytes\<close> in the codec\<close>
  ho_sleep :: "nat \<Rightarrow> 'h \<Rightarrow> unit \<times> 'h"
  ho_client :: "'h endclose_client"
  ho_enrichment :: "string \<Rightarrow> 'h enrichment option"

text \<open>The pure part: what a host chooses at start, and the functions of the runtime.\<close>

record engine_config =
  cf_codec :: payload_codec
  cf_crypto :: crypto
  cf_maskingKey :: bytes
  cf_instanceId :: string
  cf_dispatch :: dispatch_settings
  cf_retention :: "retention_settings option"
  cf_secrets :: secret_resolver
  cf_adapters :: "string \<Rightarrow> registered option"
  cf_json_parse :: "string \<Rightarrow> exn + json"
  cf_date_parse :: "string \<Rightarrow> int option"
  cf_number :: "string \<Rightarrow> rat option"

section \<open>The engine's computations\<close>

datatype action =
    Emit hook_event
  | Signal string                        \<comment> \<open>\<open>signal.emit('event', routeId)\<close>\<close>
  | PostBatch "endclose_record list"     \<comment> \<open>a batch handed to \<open>bulkCreateRecords\<close>\<close>

record 'h engine =
  en_host :: 'h
  en_trace :: "action list"

definition host :: "('h, exn, 'a) sem \<Rightarrow> (('h, 'z) engine_scheme, exn, 'a) sem" where
  "host m = zoomE en_host (\<lambda>h s. s\<lparr>en_host := h\<rparr>) m"

definition ask :: "('h \<Rightarrow> 'a \<times> 'h) \<Rightarrow> (('h, 'z) engine_scheme, exn, 'a) sem" where
  "ask f = host (\<lambda>h. case f h of (x, h') \<Rightarrow> (Inr x, h'))"

definition observe :: "action \<Rightarrow> (('h, 'z) engine_scheme, exn, unit) sem" where
  "observe a = modifyE (\<lambda>s. s\<lparr>en_trace := en_trace s @ [a]\<rparr>)"

definition emit :: "hook_event \<Rightarrow> (('h, 'z) engine_scheme, exn, unit) sem" where
  "emit e = observe (Emit e)"

section \<open>The contract of a host\<close>

text \<open>
  Beside the store's contract: nothing else a host is asked for touches the stored events.
\<close>

definition quiet :: "('h \<Rightarrow> event_record list) \<Rightarrow> ('h \<Rightarrow> bool) \<Rightarrow> ('h \<Rightarrow> 'a \<times> 'h) \<Rightarrow> bool" where
  "quiet rows ok f \<longleftrightarrow> (\<forall>h. ok h \<longrightarrow> ok (snd (f h)) \<and> rows (snd (f h)) = rows h)"

locale engine_host = event_store "ho_store D" rows ok
  for D :: "'h host_ops" and rows :: "'h \<Rightarrow> event_record list" and ok :: "'h \<Rightarrow> bool" +
  assumes quiet_killswitch: "quiet rows ok (ct_getKillswitch (ho_control D))"
    and quiet_paused: "quiet rows ok (ct_isRoutePaused (ho_control D) route)"
    and quiet_route: "quiet rows ok (ho_route_get D route)"
    and quiet_now: "quiet rows ok (ho_now D)"
    and quiet_random: "quiet rows ok (ho_random D)"
    and quiet_iv: "quiet rows ok (ho_iv D)"
    and quiet_sleep: "quiet rows ok (ho_sleep D ms)"
    and quiet_fetch: "quiet rows ok (cl_fetch (ho_client D) rq)"
    and quiet_enrichment: "ho_enrichment D name = Some fn \<Longrightarrow> quiet rows ok (fn input ctx)"

section \<open>Hosts put together from their parts\<close>

text \<open>
  A host whose state holds that of its store, of its control store and of the rest of the
  world, each reached by a reader and a writer: the calls act on their part.
\<close>

definition via :: "('h \<Rightarrow> 'w) \<Rightarrow> ('w \<Rightarrow> 'h \<Rightarrow> 'h) \<Rightarrow> ('w \<Rightarrow> 'a \<times> 'w) \<Rightarrow> 'h \<Rightarrow> 'a \<times> 'h" where
  "via get put f h = (case f (get h) of (x, w) \<Rightarrow> (x, put w h))"

definition store_via :: "('h \<Rightarrow> 's) \<Rightarrow> ('s \<Rightarrow> 'h \<Rightarrow> 'h) \<Rightarrow> 's event_store_ops \<Rightarrow> 'h event_store_ops" where
  "store_via get put S = \<lparr>st_insert = (\<lambda>e. zoomE get put (st_insert S e)),
     st_routesWithDueEvents = (\<lambda>now. zoomE get put (st_routesWithDueEvents S now)),
     st_claimDue = (\<lambda>route now limit l. zoomE get put (st_claimDue S route now limit l)),
     st_markDelivered = (\<lambda>ids t0 bulk. zoomE get put (st_markDelivered S ids t0 bulk)),
     st_markFailed = (\<lambda>ids t0 err. zoomE get put (st_markFailed S ids t0 err)),
     st_markParked = (\<lambda>ids err. zoomE get put (st_markParked S ids err)),
     st_releaseDelivering = (\<lambda>ids t0 err. zoomE get put (st_releaseDelivering S ids t0 err)),
     st_recoverDelivering = (\<lambda>now owner. zoomE get put (st_recoverDelivering S now owner)),
     st_parkExpired = (\<lambda>now age. zoomE get put (st_parkExpired S now age)),
     st_pruneBatch = (\<lambda>now dd ld limit. zoomE get put (st_pruneBatch S now dd ld limit))\<rparr>"

definition control_via :: "('h \<Rightarrow> 's) \<Rightarrow> ('s \<Rightarrow> 'h \<Rightarrow> 'h) \<Rightarrow> 's control_ops \<Rightarrow> 'h control_ops" where
  "control_via get put C = \<lparr>ct_getKillswitch = zoomE get put (ct_getKillswitch C),
     ct_setKillswitch = (\<lambda>k. zoomE get put (ct_setKillswitch C k)),
     ct_isRoutePaused = (\<lambda>route. zoomE get put (ct_isRoutePaused C route)),
     ct_setRoutePaused = (\<lambda>route p. zoomE get put (ct_setRoutePaused C route p))\<rparr>"

record 'w world_ops =
  wo_now :: "'w \<Rightarrow> int \<times> 'w"
  wo_random :: "'w \<Rightarrow> rat \<times> 'w"
  wo_iv :: "'w \<Rightarrow> bytes \<times> 'w"
  wo_sleep :: "nat \<Rightarrow> 'w \<Rightarrow> unit \<times> 'w"
  wo_client :: "'w endclose_client"
  wo_enrichment :: "string \<Rightarrow> 'w enrichment option"

definition host_via :: "'h event_store_ops \<Rightarrow> 'h control_ops \<Rightarrow> (string \<Rightarrow> ('h, exn, route_config option) sem) \<Rightarrow>
    ('h \<Rightarrow> 'w) \<Rightarrow> ('w \<Rightarrow> 'h \<Rightarrow> 'h) \<Rightarrow> 'w world_ops \<Rightarrow> 'h host_ops" where
  "host_via S C routes get put W = \<lparr>ho_store = S, ho_control = C, ho_route_get = routes,
     ho_now = via get put (wo_now W), ho_random = via get put (wo_random W), ho_iv = via get put (wo_iv W),
     ho_sleep = (\<lambda>ms. via get put (wo_sleep W ms)),
     ho_client = \<lparr>cl_baseUrl = cl_baseUrl (wo_client W), cl_apiKey = cl_apiKey (wo_client W),
       cl_fetch = (\<lambda>rq. via get put (cl_fetch (wo_client W) rq))\<rparr>,
     ho_enrichment = (\<lambda>name. case wo_enrichment W name of None \<Rightarrow> None
       | Some fn \<Rightarrow> Some (\<lambda>input ctx. via get put (fn input ctx)))\<rparr>"

lemma updates_via:
  assumes "\<And>h s. get (put s h) = s" and "updates rows ok m (get h) Q"
  shows "updates (\<lambda>h. rows (get h)) (\<lambda>h. ok (get h)) (zoomE get put m) h Q"
  using assms(2) by (auto simp: updates_def zoomE_def assms(1) split: prod.splits sum.splits)

text \<open>Calls on one part of the host meet the contract the part meets.\<close>

lemma event_store_via:
  assumes "event_store S rows ok" and "\<And>h s. get (put s h) = s"
  shows "event_store (store_via get put S) (\<lambda>h. rows (get h)) (\<lambda>h. ok (get h))"
proof -
  note S = assms(1) and via = updates_via [where get = get and put = put and rows = rows and ok = ok, OF assms(2)]
  show ?thesis
    by (unfold_locales, unfold store_via_def event_store_ops.select_convs)
      (assumption | rule via | rule event_store.wf [OF S] event_store.insert [OF S] event_store.routesWithDueEvents [OF S]
        event_store.claimDue [OF S] event_store.markDelivered [OF S] event_store.markFailed [OF S] event_store.markParked [OF S]
        event_store.releaseDelivering [OF S] event_store.recoverDelivering [OF S] event_store.parkExpired [OF S]
        event_store.pruneBatch [OF S])+
qed

lemma quiet_via:
  assumes "\<And>h w. rows (put w h) = rows h" and "\<And>h w. ok (put w h) = ok h"
  shows "quiet rows ok (via get put f)"
  using assms by (simp add: quiet_def via_def split_beta)

lemma engine_host_via:
  assumes S: "event_store S rows ok"
    and put: "\<And>h w. rows (put w h) = rows h" "\<And>h w. ok (put w h) = ok h"
    and C: "quiet rows ok (ct_getKillswitch C)" "\<And>route. quiet rows ok (ct_isRoutePaused C route)"
    and routes: "\<And>i. quiet rows ok (routes i)"
  shows "engine_host (host_via S C routes get put W) rows ok"
proof -
  note via = quiet_via [where rows = rows and ok = ok and put = put, OF put]
  show ?thesis
  proof (rule engine_host.intro)
    show "event_store (ho_store (host_via S C routes get put W)) rows ok" using S by (simp add: host_via_def)
    show "engine_host_axioms (host_via S C routes get put W) rows ok"
      by unfold_locales (auto simp: host_via_def via C routes split: option.splits)
  qed
qed

section \<open>The in-memory host\<close>

text \<open>
  The host of a relay that runs on the in-process stores and static routes; \<open>'w\<close> is the rest
  of the world: its clock, network and enrichments are any functions on it.
\<close>

record 'w memory_host =
  mh_store :: memory_store
  mh_control :: memory_control
  mh_world :: 'w

abbreviation on_world :: "('w \<Rightarrow> 'a \<times> 'w) \<Rightarrow> 'w memory_host \<Rightarrow> 'a \<times> 'w memory_host" where
  "on_world \<equiv> via mh_world (\<lambda>w h. h\<lparr>mh_world := w\<rparr>)"

abbreviation on_store :: "(memory_store, exn, 'a) sem \<Rightarrow> ('w memory_host, exn, 'a) sem" where
  "on_store \<equiv> zoomE mh_store (\<lambda>s h. h\<lparr>mh_store := s\<rparr>)"

definition memory_host_store :: "'w memory_host event_store_ops" where
  "memory_host_store = store_via mh_store (\<lambda>s h. h\<lparr>mh_store := s\<rparr>) memory_ops"

definition memory_host_control :: "'w memory_host control_ops" where
  "memory_host_control = control_via mh_control (\<lambda>s h. h\<lparr>mh_control := s\<rparr>) memory_control_ops"

definition memory_host_ops :: "route_config list \<Rightarrow> 'w world_ops \<Rightarrow> 'w memory_host host_ops" where
  "memory_host_ops routes W = host_via memory_host_store memory_host_control (\<lambda>i h. (Inr (staticRoutes_get routes i), h))
     mh_world (\<lambda>w h. h\<lparr>mh_world := w\<rparr>) W"

lemmas memory_host_defs = memory_host_ops_def host_via_def memory_host_store_def store_via_def memory_host_control_def control_via_def

definition mh_rows :: "'w memory_host \<Rightarrow> event_record list" where "mh_rows h = mem_rows (mh_store h)"

definition mh_ok :: "'w memory_host \<Rightarrow> bool" where "mh_ok h \<longleftrightarrow> mem_ok (mh_store h)"

interpretation memory_host: engine_host "memory_host_ops routes W" mh_rows mh_ok for routes and W :: "'w world_ops"
  unfolding memory_host_ops_def
proof (rule engine_host_via)
  have "event_store memory_host_store (\<lambda>h. mem_rows (mh_store h)) (\<lambda>h. mem_ok (mh_store h))"
    unfolding memory_host_store_def by (rule event_store_via) (use memory.event_store_axioms in simp_all)
  then show "event_store memory_host_store mh_rows mh_ok" by (simp add: mh_rows_def [abs_def] mh_ok_def [abs_def])
qed (simp_all add: quiet_def mh_rows_def mh_ok_def memory_host_control_def control_via_def zoomE_def split_beta)

end
