(* ===== verification/Ingest.thy ===== *)
theory Ingest imports Host begin

text \<open>
  The ingest path (\<open>packages/core/src/engine/ingest.ts\<close>): verify, encrypt, persist, acknowledge.
\<close>

section \<open>Event filters and keys\<close>

text \<open>\<open>p.split('*').map(escapeRe).join('.*')\<close> between anchors.\<close>

fun glob_parts_re :: "string list \<Rightarrow> re" where
  "glob_parts_re [] = Eps"
| "glob_parts_re [s] = lit s"
| "glob_parts_re (s # ss) = Seq (lit s) (Seq (Star dot) (glob_parts_re ss))"

definition glob_re :: "string \<Rightarrow> re" where
  "glob_re p = seqs [Bol, glob_parts_re (split_on CHR ''*'' p), Eol]"

definition eventTypeMatches :: "string list \<Rightarrow> string option \<Rightarrow> bool" where
  "eventTypeMatches patterns eventType \<longleftrightarrow>
     (if patterns = [] then True
      else (case eventType of None \<Rightarrow> False
        | Some t \<Rightarrow> (\<exists>p \<in> set patterns. if includes_char p CHR ''*'' then re_test (glob_re p) t else p = t)))"

definition eventIdempotencyKey :: "crypto \<Rightarrow> string \<Rightarrow> string \<Rightarrow> string" where
  "eventIdempotencyKey C src eventId = ''sha256:'' @ hex (sha256 C (utf8 (src @ '':'' @ eventId)))"

section \<open>Results\<close>

datatype ingest_result_outcome =
    Outcome ingest_outcome | UnknownRoute | SecretUnavailable | UnknownSource | PersistFailed | Unavailable

text \<open>The body is \<open>{ status }\<close> or \<open>{ error }\<close>.\<close>

datatype ingest_body = StatusBody string | ErrorBody string

record ingest_result =
  ir_status :: nat
  ir_body :: ingest_body
  ir_outcome :: ingest_result_outcome
  ir_id :: "string option"

definition answer :: "nat \<Rightarrow> ingest_body \<Rightarrow> ingest_result_outcome \<Rightarrow> ingest_result" where
  "answer status body outcome = \<lparr>ir_status = status, ir_body = body, ir_outcome = outcome, ir_id = None\<rparr>"

section \<open>The handler\<close>

text \<open>A request body that is no \<open>Buffer\<close> is treated as an empty one.\<close>

definition ingested :: "string \<Rightarrow> raw_request \<Rightarrow> ingest_outcome \<Rightarrow> string option \<Rightarrow> (('h, 'z) engine_scheme, exn, unit) sem" where
  "ingested routeId raw outcome eventType = emit (HIngest routeId outcome eventType (length (rr_rawBody raw)))"

definition PERSISTED_HEADERS :: "string list" where
  "PERSISTED_HEADERS = [''content-type'', ''user-agent'']"

fun header_json :: "header_value \<Rightarrow> json" where
  "header_json (OneValue v) = JStr v"
| "header_json (ManyValues vs) = JArr (map JStr vs)"

definition persisted_headers :: "raw_request \<Rightarrow> string" where
  "persisted_headers raw = show_json (JObj (List.map_filter
     (\<lambda>h. map_option (\<lambda>v. (h, header_json v)) (map_of (rr_headers raw) h)) PERSISTED_HEADERS))"

text \<open>From the verified request to the row that will be stored.\<close>

definition new_event_of ::
  "'h host_ops \<Rightarrow> engine_config \<Rightarrow> string \<Rightarrow> raw_request \<Rightarrow> route_config \<Rightarrow> processor_adapter \<Rightarrow> json \<Rightarrow>
   (('h, 'z) engine_scheme, exn, new_event) sem" where
  "new_event_of D cf routeId raw route adapter body =
     bindE (of_sum (ad_extractEventId adapter body raw route)) (\<lambda>eventId.
     bindE (of_sum (ad_extractEventType adapter body raw route)) (\<lambda>eventType.
     bindE (ask (ho_iv D)) (\<lambda>iv0.
     bindE (ask (ho_now D)) (\<lambda>now.
       (case encode (cf_codec cf) iv0 (rr_rawBody raw) of (payload, iv) \<Rightarrow>
        ret \<lparr>ne_route_id = routeId, ne_source = r_source route, ne_event_id = eventId, ne_event_type = eventType,
          ne_payload = payload, ne_payload_iv = iv, ne_headers_json = persisted_headers raw, ne_received_at = now,
          ne_status = (case r_events route of None \<Rightarrow> Pending
            | Some patterns \<Rightarrow> if eventTypeMatches patterns eventType then Pending else DroppedByFilter),
          ne_idempotency_key = eventIdempotencyKey (cf_crypto cf) (r_source route) eventId\<rparr>)))))"

text \<open>Everything up to the insert: a refusal, or the event to insert.\<close>

definition verify_request ::
  "'h host_ops \<Rightarrow> engine_config \<Rightarrow> string \<Rightarrow> raw_request \<Rightarrow> route_config \<Rightarrow>
   (('h, 'z) engine_scheme, exn, ingest_result + new_event) sem" where
  "verify_request D cf routeId raw route =
     (if \<not> hasAdapter (cf_crypto cf) (cf_number cf) (cf_adapters cf) (r_source route)
      then ret (Inl (answer 500 (ErrorBody ''internal error'') UnknownSource))
      else bindE (of_sum (adapterFor (cf_crypto cf) (cf_number cf) (cf_adapters cf) (r_source route))) (\<lambda>found.
        case sec_resolve (cf_secrets cf) (secret_env (r_auth route)) of
          None \<Rightarrow> ret (Inl (answer 500 (ErrorBody ''internal error'') SecretUnavailable))
        | Some secret \<Rightarrow> (case found of
            PrototypeValue \<Rightarrow> throwE (OtherError ''adapter.verify is not a function'')
          | Adapter adapter \<Rightarrow>
              bindE (ask (ho_now D)) (\<lambda>now.
              bindE (of_sum (ad_verify adapter now raw route secret)) (\<lambda>verdict. case verdict of
                VerifyFailed reason \<Rightarrow>
                  thenE (ingested routeId raw RejectedAuth None)
                    (ret (Inl (answer 401 (ErrorBody ''verification failed'') (Outcome RejectedAuth))))
              | VerifyOk \<Rightarrow> (case cf_json_parse cf (utf8_decode (rr_rawBody raw)) of
                  Inl _ \<Rightarrow>
                    thenE (ingested routeId raw RejectedJson None)
                      (ret (Inl (answer 400 (ErrorBody ''invalid JSON'') (Outcome RejectedJson))))
                | Inr body \<Rightarrow> bindE (new_event_of D cf routeId raw route adapter body) (\<lambda>e. ret (Inr e))))))))"

definition accept_request ::
  "'h host_ops \<Rightarrow> engine_config \<Rightarrow> string \<Rightarrow> raw_request \<Rightarrow> (('h, 'z) engine_scheme, exn, ingest_result + new_event) sem" where
  "accept_request D cf routeId raw =
     bindE (host (ho_route_get D routeId)) (\<lambda>found. case found of
       None \<Rightarrow> ret (Inl (answer 404 (ErrorBody ''unknown route'') UnknownRoute))
     | Some route \<Rightarrow> bindE (host (ct_getKillswitch (ho_control D))) (\<lambda>k.
         if k = KillPanic then
           thenE (ingested routeId raw IngPanic None)
             (ret (Inl (answer 503 (ErrorBody ''relay is in panic mode'') (Outcome IngPanic))))
         else if rr_rawBody raw = [] then
           thenE (ingested routeId raw RejectedJson None)
             (ret (Inl (answer 400 (ErrorBody ''empty body'') (Outcome RejectedJson))))
         else if r_max_body_bytes route < length (rr_rawBody raw) then
           thenE (ingested routeId raw RejectedSize None)
             (ret (Inl (answer 413 (ErrorBody ''body too large'') (Outcome RejectedSize))))
         else verify_request D cf routeId raw route))"

definition ingestInner ::
  "'h host_ops \<Rightarrow> engine_config \<Rightarrow> string \<Rightarrow> raw_request \<Rightarrow> (('h, 'z) engine_scheme, exn, ingest_result) sem" where
  "ingestInner D cf routeId raw =
     bindE (accept_request D cf routeId raw) (\<lambda>p. case p of
       Inl res \<Rightarrow> ret res
     | Inr e \<Rightarrow> bindE (host (st_insert (ho_store D) e)) (\<lambda>inserted. case inserted of
         Duplicate \<Rightarrow>
           thenE (ingested routeId raw IngDuplicate (ne_event_type e))
             (ret (answer 200 (StatusBody ''duplicate'') (Outcome IngDuplicate)))
       | Inserted i \<Rightarrow>
           (let filtered = (ne_status e = DroppedByFilter) in
            thenE (ingested routeId raw (if filtered then IngFiltered else IngAccepted) (ne_event_type e))
           (thenE (emit (HStored routeId i filtered))
           (thenE (whenE (\<not> filtered) (observe (Signal routeId)))
             (ret \<lparr>ir_status = 200, ir_body = StatusBody (if filtered then ''filtered'' else ''accepted''),
                ir_outcome = Outcome (if filtered then IngFiltered else IngAccepted), ir_id = Some i\<rparr>))))))"

definition ingestWebhook ::
  "'h host_ops \<Rightarrow> engine_config \<Rightarrow> string \<Rightarrow> raw_request \<Rightarrow> (('h, 'z) engine_scheme, exn, ingest_result) sem" where
  "ingestWebhook D cf routeId raw = catchE (ingestInner D cf routeId raw) (\<lambda>err.
     if \<not> is_store_error err then throwE err
     else thenE (emit (HError IngestPersist err (storeOp err) (Some routeId)))
       (if is_store_unavailable err
        then ret (answer 503 (ErrorBody ''temporarily unavailable'') Unavailable)
        else ret (answer 500 (ErrorBody ''internal error'') PersistFailed)))"

section \<open>The event filter is a glob\<close>

text \<open>The reference: \<open>*\<close> stands for any text without a line break, everything else for itself.\<close>

fun glob :: "string \<Rightarrow> string \<Rightarrow> bool" where
  "glob [] t = (t = [])"
| "glob (c # p) [] = (c = CHR ''*'' \<and> glob p [])"
| "glob (c # p) (x # t) =
     (if c = CHR ''*'' then glob p (x # t) \<or> not_newline x \<and> glob (c # p) t else x = c \<and> glob p t)"

lemma glob_star: "glob (CHR ''*'' # p) t \<longleftrightarrow> (\<exists>u v. t = u @ v \<and> (\<forall>x \<in> set u. not_newline x) \<and> glob p v)"
proof (induction t)
  case Nil
  then show ?case by simp
next
  case (Cons x t)
  have "(\<exists>u v. x # t = u @ v \<and> (\<forall>x \<in> set u. not_newline x) \<and> glob p v) \<longleftrightarrow>
      glob p (x # t) \<or> not_newline x \<and> (\<exists>u v. t = u @ v \<and> (\<forall>x \<in> set u. not_newline x) \<and> glob p v)"
    (is "?L \<longleftrightarrow> ?R")
  proof
    assume ?L
    then obtain u v where uv: "x # t = u @ v" "\<forall>x \<in> set u. not_newline x" "glob p v" by blast
    then show ?R by (cases u) auto
  next
    assume ?R
    then show ?L
    proof
      assume "glob p (x # t)"
      then have "x # t = [] @ (x # t) \<and> (\<forall>y \<in> set []. not_newline y) \<and> glob p (x # t)" by simp
      then show ?L by blast
    next
      assume "not_newline x \<and> (\<exists>u v. t = u @ v \<and> (\<forall>x \<in> set u. not_newline x) \<and> glob p v)"
      then obtain u v where "t = u @ v" "\<forall>x \<in> set u. not_newline x" "glob p v" "not_newline x" by blast
      then have "x # t = (x # u) @ v \<and> (\<forall>y \<in> set (x # u). not_newline y) \<and> glob p v" by simp
      then show ?L by blast
    qed
  qed
  with Cons show ?case by simp
qed

fun parts_word :: "string list \<Rightarrow> string \<Rightarrow> bool" where
  "parts_word [] m \<longleftrightarrow> m = []"
| "parts_word [s] m \<longleftrightarrow> m = s"
| "parts_word (s # ss) m \<longleftrightarrow> (\<exists>u v. m = u @ v \<and> u = s \<and> (\<exists>x y. v = x @ y \<and> (\<forall>c \<in> set x. not_newline c) \<and> parts_word ss y))"

lemma consumes_glob_parts: "consumes (glob_parts_re ss) (parts_word ss)"
proof (induction ss rule: glob_parts_re.induct)
  case 1
  show ?case unfolding glob_parts_re.simps by (rule consumes_cong [OF consumes_Eps]) simp
next
  case (2 s)
  show ?case unfolding glob_parts_re.simps by (rule consumes_cong [OF consumes_lit]) simp
next
  case (3 s s' ss)
  have "consumes (Seq (lit s) (Seq (Star dot) (glob_parts_re (s' # ss))))
      (\<lambda>m. \<exists>u v. m = u @ v \<and> u = s \<and> (\<exists>x y. v = x @ y \<and> (\<forall>c \<in> set x. not_newline c) \<and> parts_word (s' # ss) y))"
    using 3 unfolding dot_def by (intro consumes_Seq consumes_lit consumes_Star_Sat)
  then show ?case unfolding glob_parts_re.simps by (rule consumes_cong) simp
qed

lemma parts_word_glob: "parts_word (split_on CHR ''*'' p) t \<longleftrightarrow> glob p t"
proof (induction p arbitrary: t)
  case Nil
  then show ?case by simp
next
  case (Cons c p)
  obtain s ss where sp: "split_on CHR ''*'' p = s # ss" using split_on_not_Nil by (metis neq_Nil_conv)
  show ?case
  proof (cases "c = CHR ''*''")
    case True
    then have "parts_word (split_on CHR ''*'' (c # p)) t \<longleftrightarrow>
        (\<exists>x y. t = x @ y \<and> (\<forall>c \<in> set x. not_newline c) \<and> parts_word (s # ss) y)" by (simp add: sp)
    also have "\<dots> \<longleftrightarrow> glob (c # p) t" unfolding True glob_star Cons.IH [symmetric] sp ..
    finally show ?thesis .
  next
    case False
    then have "parts_word (split_on CHR ''*'' (c # p)) t \<longleftrightarrow> parts_word ((c # s) # ss) t" by (simp add: sp)
    also have "\<dots> \<longleftrightarrow> (case t of [] \<Rightarrow> False | x # t' \<Rightarrow> x = c \<and> parts_word (s # ss) t')"
      by (cases ss; cases t) auto
    also have "\<dots> \<longleftrightarrow> glob (c # p) t" using False by (cases t) (simp_all add: Cons.IH [symmetric] sp)
    finally show ?thesis .
  qed
qed

text \<open>
  \<^bold>\<open>C29.\<close> A route's event filter is a glob over the whole event type: some pattern matches it
  when \<open>*\<close> stands for any text without a line break and every other character, special in a
  regular expression or not, for itself; an event without a type passes no filter.
\<close>

theorem eventTypeMatches_glob:
  "eventTypeMatches patterns eventType \<longleftrightarrow>
     patterns = [] \<or> (\<exists>t. eventType = Some t \<and> (\<exists>p \<in> set patterns. glob p t))"
proof -
  have plain: "CHR ''*'' \<notin> set p \<Longrightarrow> glob p t \<longleftrightarrow> p = t" for p t
  proof (induction p arbitrary: t)
    case (Cons c p)
    then show ?case by (cases t) auto
  qed auto
  have "(if includes_char p CHR ''*'' then re_test (glob_re p) t else p = t) \<longleftrightarrow> glob p t" for p t
  proof (cases "includes_char p CHR ''*''")
    case True
    have "re_test (glob_re p) t \<longleftrightarrow> glob p t"
      unfolding glob_re_def re_test_anchored [OF consumes_glob_parts] by (rule parts_word_glob)
    then show ?thesis using True by simp
  next
    case False
    then show ?thesis using plain [of p t] by (simp add: includes_char_def)
  qed
  then show ?thesis unfolding eventTypeMatches_def by (cases eventType) simp_all
qed

section \<open>What a request leaves behind\<close>

text \<open>The relation "the stored events are the same" is kept by every quiet call.\<close>

definition same_rows :: "('h \<Rightarrow> event_record list) \<Rightarrow> ('h \<Rightarrow> bool) \<Rightarrow> ('h, 'z) engine_scheme \<Rightarrow> ('h, 'z) engine_scheme \<Rightarrow> bool" where
  "same_rows rows ok s s' \<longleftrightarrow> (ok (en_host s) \<longrightarrow> ok (en_host s') \<and> rows (en_host s') = rows (en_host s))"

interpretation same_rows: step_relation "same_rows rows ok" for rows ok
  by unfold_locales (auto simp: same_rows_def)

lemma keeps_observe: "keeps (same_rows rows ok) (observe a)"
  by (auto simp: keeps_def observe_def modifyE_def same_rows_def)

lemma keeps_host: "quiet rows ok m \<Longrightarrow> keeps (same_rows rows ok) (host m)"
  by (auto simp: keeps_def quiet_def host_def zoomE_def same_rows_def split_beta)

lemma keeps_ask: "quiet rows ok f \<Longrightarrow> keeps (same_rows rows ok) (ask f)"
  unfolding ask_def by (rule keeps_host) (simp add: quiet_def split_beta)

text \<open>An event that describes a request: verified, parsed, its key that of the processor's event.\<close>

definition describes :: "engine_config \<Rightarrow> string \<Rightarrow> raw_request \<Rightarrow> route_config \<Rightarrow> new_event \<Rightarrow> bool" where
  "describes cf routeId raw route e \<longleftrightarrow> (\<exists>adapter secret now body iv.
     lookup_adapter (cf_crypto cf) (cf_number cf) (cf_adapters cf) (r_source route) = Some (Adapter adapter) \<and>
     sec_resolve (cf_secrets cf) (secret_env (r_auth route)) = Some secret \<and>
     ad_verify adapter now raw route secret = Inr VerifyOk \<and>
     cf_json_parse cf (utf8_decode (rr_rawBody raw)) = Inr body \<and>
     ad_extractEventId adapter body raw route = Inr (ne_event_id e) \<and>
     ad_extractEventType adapter body raw route = Inr (ne_event_type e) \<and>
     (ne_payload e, ne_payload_iv e) = encode (cf_codec cf) iv (rr_rawBody raw) \<and>
     ne_route_id e = routeId \<and> ne_source e = r_source route \<and>
     ne_idempotency_key e = eventIdempotencyKey (cf_crypto cf) (r_source route) (ne_event_id e) \<and>
     (ne_status e = Pending \<and> (case r_events route of None \<Rightarrow> True | Some ps \<Rightarrow> eventTypeMatches ps (ne_event_type e)) \<or>
      ne_status e = DroppedByFilter \<and> (\<exists>ps. r_events route = Some ps \<and> \<not> eventTypeMatches ps (ne_event_type e))))"

lemma new_event_of_describes:
  assumes "new_event_of D cf routeId raw route adapter body s = (Inr e, s')"
    and "lookup_adapter (cf_crypto cf) (cf_number cf) (cf_adapters cf) (r_source route) = Some (Adapter adapter)"
    and "sec_resolve (cf_secrets cf) (secret_env (r_auth route)) = Some secret"
    and "ad_verify adapter now raw route secret = Inr VerifyOk"
    and "cf_json_parse cf (utf8_decode (rr_rawBody raw)) = Inr body"
  shows "describes cf routeId raw route e"
proof -
  from assms(1) obtain eventId eventType iv now' where
    x: "ad_extractEventId adapter body raw route = Inr eventId" "ad_extractEventType adapter body raw route = Inr eventType"
    and e: "e = \<lparr>ne_route_id = routeId, ne_source = r_source route, ne_event_id = eventId, ne_event_type = eventType,
          ne_payload = fst (encode (cf_codec cf) iv (rr_rawBody raw)), ne_payload_iv = snd (encode (cf_codec cf) iv (rr_rawBody raw)),
          ne_headers_json = persisted_headers raw, ne_received_at = now',
          ne_status = (case r_events route of None \<Rightarrow> Pending
            | Some patterns \<Rightarrow> if eventTypeMatches patterns eventType then Pending else DroppedByFilter),
          ne_idempotency_key = eventIdempotencyKey (cf_crypto cf) (r_source route) eventId\<rparr>"
    by (auto simp: new_event_of_def run_Inr split_beta)
  show ?thesis unfolding describes_def
  proof (intro exI conjI)
    show "(ne_payload e, ne_payload_iv e) = encode (cf_codec cf) iv (rr_rawBody raw)" by (simp add: e)
    show "ne_status e = Pending \<and> (case r_events route of None \<Rightarrow> True | Some ps \<Rightarrow> eventTypeMatches ps (ne_event_type e)) \<or>
      ne_status e = DroppedByFilter \<and> (\<exists>ps. r_events route = Some ps \<and> \<not> eventTypeMatches ps (ne_event_type e))"
      by (auto simp: e split: option.splits)
  qed (use assms(2-5) x in \<open>simp_all add: e\<close>)
qed

text \<open>A refusal names one of the statuses the processor retries or gives up on, and never 200.\<close>

definition refusal :: "ingest_result \<Rightarrow> bool" where
  "refusal res \<longleftrightarrow> ir_id res = None \<and> (ir_outcome res, ir_status res) \<in>
     {(UnknownRoute, 404), (Outcome IngPanic, 503), (Outcome RejectedJson, 400), (Outcome RejectedSize, 413),
      (UnknownSource, 500), (SecretUnavailable, 500), (Outcome RejectedAuth, 401), (Unavailable, 503), (PersistFailed, 500)}"

lemma verify_request_cases:
  assumes "verify_request D cf routeId raw route s = (Inr p, s')"
  shows "case p of Inl res \<Rightarrow> refusal res | Inr e \<Rightarrow> describes cf routeId raw route e"
proof (cases "lookup_adapter (cf_crypto cf) (cf_number cf) (cf_adapters cf) (r_source route)")
  case None
  with assms show ?thesis by (auto simp: verify_request_def hasAdapter_def run_Inr refusal_def answer_def)
next
  case found: (Some found)
  show ?thesis
  proof (cases "sec_resolve (cf_secrets cf) (secret_env (r_auth route))")
    case None
    with assms found show ?thesis
      by (auto simp: verify_request_def hasAdapter_def adapterFor_def run_Inr refusal_def answer_def)
  next
    case secret: (Some secret)
    obtain adapter where a: "found = Adapter adapter"
      using assms found secret by (cases found) (auto simp: verify_request_def hasAdapter_def adapterFor_def run_Inr)
    obtain now verdict s1 where v: "ad_verify adapter now raw route secret = Inr verdict"
      and rest: "(case verdict of
                VerifyFailed reason \<Rightarrow>
                  thenE (ingested routeId raw RejectedAuth None)
                    (ret (Inl (answer 401 (ErrorBody ''verification failed'') (Outcome RejectedAuth))))
              | VerifyOk \<Rightarrow> (case cf_json_parse cf (utf8_decode (rr_rawBody raw)) of
                  Inl _ \<Rightarrow>
                    thenE (ingested routeId raw RejectedJson None)
                      (ret (Inl (answer 400 (ErrorBody ''invalid JSON'') (Outcome RejectedJson))))
                | Inr body \<Rightarrow> bindE (new_event_of D cf routeId raw route adapter body) (\<lambda>e. ret (Inr e)))) s1 = (Inr p, s')"
      using assms found secret a
      by (simp add: verify_request_def hasAdapter_def adapterFor_def run_Inr) blast
    show ?thesis
    proof (cases verdict)
      case (VerifyFailed reason)
      with rest show ?thesis by (auto simp: run_Inr refusal_def answer_def)
    next
      case VerifyOk
      show ?thesis
      proof (cases "cf_json_parse cf (utf8_decode (rr_rawBody raw))")
        case (Inl e)
        with rest VerifyOk show ?thesis by (auto simp: run_Inr refusal_def answer_def)
      next
        case (Inr body)
        with rest VerifyOk obtain e s2 where "new_event_of D cf routeId raw route adapter body s1 = (Inr e, s2)" "p = Inr e"
          by (auto simp: run_Inr)
        with new_event_of_describes [OF this(1)] found a secret v VerifyOk Inr show ?thesis by simp
      qed
    qed
  qed
qed

lemma accept_request_cases:
  assumes "accept_request D cf routeId raw s = (Inr p, s')"
  shows "case p of Inl res \<Rightarrow> refusal res
    | Inr e \<Rightarrow> \<exists>route. describes cf routeId raw route e \<and> rr_rawBody raw \<noteq> [] \<and> length (rr_rawBody raw) \<le> r_max_body_bytes route \<and>
        (\<exists>h h'. ho_route_get D routeId h = (Inr (Some route), h'))"
proof -
  from assms obtain found s1 where found: "host (ho_route_get D routeId) s = (Inr found, s1)"
    unfolding accept_request_def bindE_Inr_iff by blast
  show ?thesis
  proof (cases found)
    case None
    with found assms show ?thesis by (auto simp: accept_request_def run_Inr refusal_def answer_def)
  next
    case (Some route)
    have route: "\<exists>h h'. ho_route_get D routeId h = (Inr (Some route), h')"
      using found by (auto simp: Some host_def zoomE_def split: prod.splits)
    from assms found Some obtain k s2 where
      rest: "(if k = KillPanic then
           thenE (ingested routeId raw IngPanic None)
             (ret (Inl (answer 503 (ErrorBody ''relay is in panic mode'') (Outcome IngPanic))))
         else if rr_rawBody raw = [] then
           thenE (ingested routeId raw RejectedJson None)
             (ret (Inl (answer 400 (ErrorBody ''empty body'') (Outcome RejectedJson))))
         else if r_max_body_bytes route < length (rr_rawBody raw) then
           thenE (ingested routeId raw RejectedSize None)
             (ret (Inl (answer 413 (ErrorBody ''body too large'') (Outcome RejectedSize))))
         else verify_request D cf routeId raw route) s2 = (Inr p, s')"
      by (simp add: accept_request_def bindE_Inr_iff) blast
    show ?thesis
    proof (cases "k = KillPanic \<or> rr_rawBody raw = [] \<or> r_max_body_bytes route < length (rr_rawBody raw)")
      case True
      with rest show ?thesis by (auto simp: run_Inr refusal_def answer_def split: if_splits)
    next
      case False
      with rest have "verify_request D cf routeId raw route s2 = (Inr p, s')" by simp
      from verify_request_cases [OF this] False route show ?thesis by (cases p) (auto simp: not_less intro!: exI [of _ route])
    qed
  qed
qed

section \<open>Persist before acknowledge\<close>

lemma keeps_registered:
  "(\<And>a. x = Adapter a \<Longrightarrow> keeps R (f a)) \<Longrightarrow> (x = PrototypeValue \<Longrightarrow> keeps R m) \<Longrightarrow>
   keeps R (case x of Adapter a \<Rightarrow> f a | PrototypeValue \<Rightarrow> m)"
  by (cases x) simp_all

lemma keeps_verdict:
  "(x = VerifyOk \<Longrightarrow> keeps R m) \<Longrightarrow> (\<And>r. x = VerifyFailed r \<Longrightarrow> keeps R (f r)) \<Longrightarrow>
   keeps R (case x of VerifyOk \<Rightarrow> m | VerifyFailed r \<Rightarrow> f r)"
  by (cases x) simp_all

context engine_host
begin

lemma accept_request_quiet: "keeps (same_rows rows ok) (accept_request D cf routeId raw)"
  unfolding accept_request_def verify_request_def new_event_of_def ingested_def emit_def
  by (intro keeps_rules keeps_registered keeps_verdict keeps_observe keeps_host keeps_ask
      quiet_killswitch quiet_route quiet_now quiet_iv)

end

text \<open>What a request leaves in the store, by its outcome.\<close>

definition ingest_effect ::
  "'h host_ops \<Rightarrow> engine_config \<Rightarrow> string \<Rightarrow> raw_request \<Rightarrow> exn + ingest_result \<Rightarrow> event_record list \<Rightarrow> event_record list \<Rightarrow> bool" where
  "ingest_effect D cf routeId raw r rs rs' \<longleftrightarrow> (case r of
     Inl e \<Rightarrow> rs' = rs
   | Inr res \<Rightarrow> refusal res \<and> rs' = rs \<or>
       (\<exists>route e h h'. describes cf routeId raw route e \<and> ho_route_get D routeId h = (Inr (Some route), h') \<and> ir_status res = 200 \<and>
         (ir_outcome res = Outcome IngDuplicate \<and> ir_id res = None \<and> rs' = rs \<and> ne_idempotency_key e \<in> set (map ev_idempotency_key rs) \<or>
          (\<exists>i. ir_outcome res = Outcome (if ne_status e = DroppedByFilter then IngFiltered else IngAccepted) \<and> ir_id res = Some i \<and>
             (\<exists>r. stored_as e i r \<and> rs' = rs @ [r]) \<and> i \<notin> set (map ev_id rs) \<and> ne_idempotency_key e \<notin> set (map ev_idempotency_key rs)))))"

lemma ingest_effect_inserted:
  assumes "describes cf routeId raw route e" and "ho_route_get D routeId h = (Inr (Some route), h')"
    and "ir_status res = 200" and "ir_outcome res = Outcome (if ne_status e = DroppedByFilter then IngFiltered else IngAccepted)"
    and "ir_id res = Some i" and "\<exists>r. stored_as e i r \<and> rs' = rs @ [r]" and "i \<notin> set (map ev_id rs)"
    and "ne_idempotency_key e \<notin> set (map ev_idempotency_key rs)"
  shows "ingest_effect D cf routeId raw (Inr res) rs rs'"
  unfolding ingest_effect_def sum.case using assms by blast

lemma observed_host [simp]:
  "observe a s = (Inr (), s\<lparr>en_trace := en_trace s @ [a]\<rparr>)"
  by (simp add: observe_def modifyE_def)

lemma ingested_run [simp]:
  "ingested routeId raw out t s = (Inr (), s\<lparr>en_trace := en_trace s @ [Emit (HIngest routeId out t (length (rr_rawBody raw)))]\<rparr>)"
  by (simp add: ingested_def emit_def)

context engine_host
begin

lemma ingestInner_effect:
  assumes "ok (en_host s)" and "ingestInner D cf routeId raw s = (r, s')"
  shows "ok (en_host s') \<and> ingest_effect D cf routeId raw r (rows (en_host s)) (rows (en_host s'))"
proof -
  obtain p s1 where acc: "accept_request D cf routeId raw s = (p, s1)" by fastforce
  have same: "ok (en_host s1)" "rows (en_host s1) = rows (en_host s)"
    using keepsD [OF accept_request_quiet acc] assms(1) by (auto simp: same_rows_def)
  show ?thesis
  proof (cases p)
    case (Inl e)
    with assms acc same show ?thesis by (auto simp: ingestInner_def bindE_def ingest_effect_def)
  next
    case (Inr q)
    note q = accept_request_cases [OF acc [unfolded Inr]]
    show ?thesis
    proof (cases q)
      case (Inl res)
      with assms acc same q Inr show ?thesis by (auto simp: ingestInner_def bindE_def ret_def ingest_effect_def)
    next
      case e: (Inr e)
      with q obtain route h h' where route: "describes cf routeId raw route e" "ho_route_get D routeId h = (Inr (Some route), h')"
        by auto
      obtain ri h2 where ins: "st_insert (ho_store D) e (en_host s1) = (ri, h2)" by fastforce
      note up = updatesD [OF insert [OF same(1), of e] ins]
      have run: "ingestInner D cf routeId raw s = (case ri of
            Inl err \<Rightarrow> (Inl err, s1\<lparr>en_host := h2\<rparr>)
          | Inr inserted \<Rightarrow> (case inserted of
              Duplicate \<Rightarrow> thenE (ingested routeId raw IngDuplicate (ne_event_type e))
                (ret (answer 200 (StatusBody ''duplicate'') (Outcome IngDuplicate)))
            | Inserted i \<Rightarrow> (let filtered = (ne_status e = DroppedByFilter) in
               thenE (ingested routeId raw (if filtered then IngFiltered else IngAccepted) (ne_event_type e))
                 (thenE (emit (HStored routeId i filtered))
                 (thenE (whenE (\<not> filtered) (observe (Signal routeId)))
                   (ret \<lparr>ir_status = 200, ir_body = StatusBody (if filtered then ''filtered'' else ''accepted''),
                      ir_outcome = Outcome (if filtered then IngFiltered else IngAccepted), ir_id = Some i\<rparr>))))) (s1\<lparr>en_host := h2\<rparr>))"
        using acc Inr e ins by (simp add: ingestInner_def bindE_def host_def zoomE_def split: sum.splits)
      show ?thesis
      proof (cases ri)
        case (Inl err)
        with up(1,2) run assms(2) same(2) show ?thesis by (auto simp: ingest_effect_def)
      next
        case ri: (Inr inserted)
        show ?thesis
        proof (cases inserted)
          case Duplicate
          with up(1) up(3) [OF ri] have "ok h2" "rows h2 = rows (en_host s)"
            and key: "ne_idempotency_key e \<in> set (map ev_idempotency_key (rows (en_host s)))" by (simp_all add: same)
          moreover have "r = Inr (answer 200 (StatusBody ''duplicate'') (Outcome IngDuplicate))" "en_host s' = h2"
            using run assms(2) ri Duplicate by (auto simp: thenE_def bindE_def ret_def)
          ultimately show ?thesis using route unfolding ingest_effect_def by (auto simp: answer_def)
        next
          case (Inserted i)
          with up(1) up(3) [OF ri] have "ok h2" "\<exists>r. stored_as e i r \<and> rows h2 = rows (en_host s) @ [r]"
            and key: "i \<notin> set (map ev_id (rows (en_host s)))" "ne_idempotency_key e \<notin> set (map ev_idempotency_key (rows (en_host s)))"
            by (simp_all add: same)
          moreover have "\<exists>b. r = Inr \<lparr>ir_status = 200, ir_body = b,
              ir_outcome = Outcome (if ne_status e = DroppedByFilter then IngFiltered else IngAccepted), ir_id = Some i\<rparr>" "en_host s' = h2"
            using run assms(2) ri Inserted
            by (cases "ne_status e = DroppedByFilter"; auto simp: thenE_def bindE_def ret_def Let_def emit_def whenE_def)+
          ultimately show ?thesis using route by (auto intro!: ingest_effect_inserted)
        qed
      qed
    qed
  qed
qed

lemma ingestWebhook_effect:
  assumes "ok (en_host s)" and "ingestWebhook D cf routeId raw s = (r, s')"
  shows "ok (en_host s') \<and> ingest_effect D cf routeId raw r (rows (en_host s)) (rows (en_host s')) \<and>
    (\<forall>e. r = Inl e \<longrightarrow> \<not> is_store_error e)"
proof -
  obtain r1 s1 where inner: "ingestInner D cf routeId raw s = (r1, s1)" by fastforce
  note eff = ingestInner_effect [OF assms(1) inner]
  show ?thesis
  proof (cases r1)
    case (Inl err)
    with eff have same: "ok (en_host s1)" "rows (en_host s1) = rows (en_host s)" by (auto simp: ingest_effect_def)
    show ?thesis
    proof (cases "is_store_error err")
      case False
      with assms(2) inner Inl eff show ?thesis by (auto simp: ingestWebhook_def catchE_def throwE_def)
    next
      case True
      with assms(2) inner Inl have "en_host s' = en_host s1" "\<exists>res. r = Inr res \<and> refusal res"
        by (auto simp: ingestWebhook_def catchE_def thenE_def bindE_def emit_def ret_def refusal_def answer_def split: if_splits)
      with same show ?thesis by (auto simp: ingest_effect_def)
    qed
  next
    case (Inr res)
    with assms(2) inner eff show ?thesis by (auto simp: ingestWebhook_def catchE_def)
  qed
qed

end

text \<open>
  \<^bold>\<open>C7.\<close> Nothing is acknowledged before it is stored, and nothing else is stored: an answer of
  200 means the event of the verified request is in the store, appended by this request or
  already there under its key; every refusal and every exception leaves the store as it was,
  and a failure of the store is an answer 503 or 500, never an exception.
\<close>

theorem ingest_persists_before_ack:
  assumes "mh_ok (en_host s)" and "ingestWebhook (memory_host_ops routes W) cf routeId raw s = (r, s')"
  shows "mh_ok (en_host s') \<and> ingest_effect (memory_host_ops routes W) cf routeId raw r (mh_rows (en_host s)) (mh_rows (en_host s')) \<and>
    (\<forall>e. r = Inl e \<longrightarrow> \<not> is_store_error e)"
  using assms by (rule memory_host.ingestWebhook_effect)

end
