(* ===== verification/IngestFacts.thy ===== *)
theory IngestFacts imports Ingest ReportFacts begin

text \<open>
  A relay on the in-memory host that receives one Payabli event, and what an event that is
  already stored means for the other routes of its processor.
\<close>

section \<open>One request on the in-memory host\<close>

definition idle_world :: "unit world_ops" where
  "idle_world = \<lparr>wo_now = (\<lambda>w. (5000, w)), wo_random = (\<lambda>w. (1 / 2, w)), wo_iv = (\<lambda>w. ([], w)),
     wo_sleep = (\<lambda>ms w. ((), w)),
     wo_client = \<lparr>cl_baseUrl = ''https://api'', cl_apiKey = ''key'', cl_fetch = (\<lambda>rq w. (Inl (OtherError ''offline''), w))\<rparr>,
     wo_enrichment = (\<lambda>_. None)\<rparr>"

definition payment_body :: json where
  "payment_body = JObj [(''Event'', JStr ''ApprovedPayment''), (''TransactionId'', JStr ''7'')]"

definition demo_config :: engine_config where
  "demo_config = \<lparr>cf_codec = plainCodec, cf_crypto = echo_crypto, cf_maskingKey = [], cf_instanceId = ''i1'',
     cf_dispatch = DEFAULT_DISPATCH, cf_retention = None, cf_secrets = staticSecrets (\<lambda>r. if r = ''S'' then Some ''k'' else None),
     cf_adapters = (\<lambda>_. None), cf_json_parse = (\<lambda>s. if s = ''{}'' then Inr payment_body else Inl (OtherError ''json'')),
     cf_date_parse = (\<lambda>_. None), cf_number = (\<lambda>_. None)\<rparr>"

definition demo_request :: raw_request where
  "demo_request = \<lparr>rr_rawBody = utf8 ''{}'', rr_headers = [(''authorization'', OneValue ''k'')], rr_remoteIp = ''::1''\<rparr>"

definition other_route :: route_config where
  "other_route = demo_route\<lparr>r_id := ''r2''\<rparr>"

abbreviation demo_host :: "unit memory_host host_ops" where
  "demo_host \<equiv> memory_host_ops [demo_route, other_route] idle_world"

definition start_engine :: "unit memory_host engine" where
  "start_engine = \<lparr>en_host = \<lparr>mh_store = empty_memory_store, mh_control = empty_control, mh_world = ()\<rparr>, en_trace = []\<rparr>"

definition payment_event :: "string \<Rightarrow> new_event" where
  "payment_event route = \<lparr>ne_route_id = route, ne_source = ''payabli'', ne_event_id = ''ApprovedPayment:7'',
     ne_event_type = Some ''ApprovedPayment'', ne_payload = utf8 ''{}'', ne_payload_iv = None, ne_headers_json = ''{}'',
     ne_received_at = 5000, ne_status = Pending,
     ne_idempotency_key = eventIdempotencyKey echo_crypto ''payabli'' ''ApprovedPayment:7''\<rparr>"

lemma demo_lookup:
  "staticRoutes_get [demo_route, other_route] ''r1'' = Some demo_route"
  "staticRoutes_get [demo_route, other_route] ''r2'' = Some other_route"
  by (simp_all add: staticRoutes_get_def routes_by_id_def other_route_def demo_route_def)

lemma demo_ids:
  "payabli_extractEventId C payment_body req = Inr ''ApprovedPayment:7''"
  "payabli_extractEventType payment_body = Some ''ApprovedPayment''"
  by (simp_all add: payabli_extractEventId_def payabli_extractEventType_def payment_body_def getAtPath_def is_object_def
      object_get_def EVENT_ID_PATHS_def)

lemma demo_verified: "payabli_verify demo_request demo_route ''k'' = VerifyOk" "payabli_verify demo_request other_route ''k'' = VerifyOk"
proof -
  have "to_lower ''authorization'' = ''authorization''" by code_simp
  then show "payabli_verify demo_request demo_route ''k'' = VerifyOk" "payabli_verify demo_request other_route ''k'' = VerifyOk"
    by (simp_all add: payabli_verify_def demo_request_def demo_route_def other_route_def presented_header_def headerValue_def
        constantTimeEquals_iff)
qed

lemma demo_config_simps:
  "cf_crypto demo_config = echo_crypto" "cf_number demo_config = (\<lambda>_. None)" "cf_adapters demo_config = (\<lambda>_. None)"
  "cf_codec demo_config = plainCodec" "cf_json_parse demo_config ''{}'' = Inr payment_body"
  "sec_resolve (cf_secrets demo_config) ''S'' = Some ''k''"
  by (simp_all add: demo_config_def staticSecrets_def)

lemma demo_effects:
  "ask (ho_now demo_host) s = (Inr 5000, s)" "ask (ho_iv demo_host) s = (Inr [], s)"
  "host (ho_route_get demo_host i) s = (Inr (staticRoutes_get [demo_route, other_route] i), s)"
  "host (ct_getKillswitch (ho_control demo_host)) s = (Inr (mc_killswitch (mh_control (en_host s))), s)"
  by (simp_all add: ask_def host_def zoomE_def memory_host_defs via_def idle_world_def
      memory_control_ops_def getsE_def mc_getKillswitch_def)

lemma demo_request_simps:
  "rr_rawBody demo_request = utf8 ''{}''" "length (utf8 ''{}'') = 2" "utf8 ''{}'' \<noteq> []"
  "persisted_headers demo_request = ''{}''"
proof -
  show "length (utf8 ''{}'') = 2" "utf8 ''{}'' \<noteq> []" by code_simp+
qed (simp_all add: demo_request_def persisted_headers_def PERSISTED_HEADERS_def map_filter_simps show_json_def)

lemmas run_simps = bindE_def thenE_def of_sum_def ret_def

lemma demo_event:
  assumes "r_source route = ''payabli''" and "r_events route = None"
  shows "new_event_of demo_host demo_config i demo_request route (payabliAdapter echo_crypto) payment_body s = (Inr (payment_event i), s)"
  using assms
  by (simp add: new_event_of_def run_simps demo_effects demo_config_simps demo_request_simps payabliAdapter_def demo_ids
      plainCodec_def payment_event_def)

lemma demo_verify:
  assumes "r_source route = ''payabli''" and "r_auth route = r_auth demo_route" and "r_events route = None"
    and "payabli_verify demo_request route ''k'' = VerifyOk"
  shows "verify_request demo_host demo_config i demo_request route s = (Inr (Inr (payment_event i)), s)"
proof -
  have "secret_env (r_auth demo_route) = ''S''" by (simp add: demo_route_def)
  moreover have "ad_verify (payabliAdapter echo_crypto) 5000 demo_request route ''k'' = Inr VerifyOk"
    using assms by (simp add: payabliAdapter_def)
  moreover have "lookup_adapter echo_crypto (\<lambda>_. None) (\<lambda>_. None) ''payabli'' = Some (Adapter (payabliAdapter echo_crypto))"
    by (simp add: lookup_adapter_def builtin_adapter_def)
  ultimately show ?thesis
    using assms
    by (simp add: demo_event [OF assms(1,3)] verify_request_def hasAdapter_def adapterFor_def demo_config_simps demo_effects demo_request_simps run_simps)
qed

lemma demo_accept:
  assumes "staticRoutes_get [demo_route, other_route] i = Some route" and "r_source route = ''payabli''"
    and "r_auth route = r_auth demo_route" and "r_events route = None" and "r_max_body_bytes route = 10"
    and "payabli_verify demo_request route ''k'' = VerifyOk" and "mc_killswitch (mh_control (en_host s)) = KillNone"
  shows "accept_request demo_host demo_config i demo_request s = (Inr (Inr (payment_event i)), s)"
  using assms
  by (simp add: demo_verify [OF assms(2-4,6)] accept_request_def run_simps demo_effects demo_request_simps)

text \<open>The first request is stored and acknowledged.\<close>

definition after_first_request :: "unit memory_host engine" where
  "after_first_request = \<lparr>en_host = \<lparr>
       mh_store = \<lparr>mem_rows = [new_row (payment_event ''r1'') ''1''],
         mem_by_key = [(ne_idempotency_key (payment_event ''r1''), ''1'')], mem_next_id = 2\<rparr>,
       mh_control = empty_control, mh_world = ()\<rparr>,
     en_trace = [Emit (HIngest ''r1'' IngAccepted (Some ''ApprovedPayment'') 2), Emit (HStored ''r1'' ''1'' False), Signal ''r1'']\<rparr>"

definition accepted_answer :: "string \<Rightarrow> ingest_result" where
  "accepted_answer i = \<lparr>ir_status = 200, ir_body = StatusBody ''accepted'', ir_outcome = Outcome IngAccepted, ir_id = Some i\<rparr>"

lemma demo_insert:
  "mem_insert (payment_event ''r1'') empty_memory_store = (Inserted ''1'', mh_store (en_host after_first_request))"
proof -
  have "string_of_nat (Suc 0) = ''1''" by code_simp
  then show ?thesis
    by (simp add: mem_insert_def empty_memory_store_def rows_set_def after_first_request_def Let_def numeral_2_eq_2)
qed

lemma demo_first:
  "ingestWebhook demo_host demo_config ''r1'' demo_request start_engine = (Inr (accepted_answer ''1''), after_first_request)"
proof -
  have "accept_request demo_host demo_config ''r1'' demo_request start_engine = (Inr (Inr (payment_event ''r1'')), start_engine)"
    by (rule demo_accept [OF demo_lookup(1) _ _ _ _ demo_verified(1)])
       (simp_all add: start_engine_def empty_control_def demo_route_def)
  moreover have "host (st_insert (ho_store demo_host) (payment_event ''r1'')) start_engine =
      (Inr (Inserted ''1''), start_engine\<lparr>en_host := en_host after_first_request\<rparr>)"
    using demo_insert
    by (simp add: host_def zoomE_def memory_host_defs memory_ops_def total_def
        start_engine_def after_first_request_def)
  moreover have "ne_status (payment_event ''r1'') = Pending" "ne_event_type (payment_event ''r1'') = Some ''ApprovedPayment''"
    by (simp_all add: payment_event_def)
  ultimately show ?thesis
    by (simp add: ingestWebhook_def ingestInner_def catchE_def run_simps emit_def whenE_def accepted_answer_def
        demo_request_simps start_engine_def after_first_request_def)
qed

lemma demo_start_ok: "mh_ok (en_host start_engine)"
  by (simp add: mh_ok_def mem_ok_def start_engine_def empty_memory_store_def wf_rows_def)

theorem ingest_persists_before_ack_witness:
  "mh_ok (en_host after_first_request) \<and>
   ingest_effect demo_host demo_config ''r1'' demo_request (Inr (accepted_answer ''1'')) [] [new_row (payment_event ''r1'') ''1'']"
  using ingest_persists_before_ack [OF demo_start_ok demo_first]
  by (simp add: mh_rows_def start_engine_def empty_memory_store_def after_first_request_def)

section \<open>One processor, several routes\<close>

text \<open>
  The key of an event is made of the processor's name and the event's id, not of the
  route: while a row with that key is stored, whatever its route and status, every route of
  the same processor acknowledges the event as a duplicate and stores nothing.
\<close>

theorem duplicate_across_routes:
  assumes "mh_ok (en_host s)" and "old \<in> set (mh_rows (en_host s))"
    and "ev_idempotency_key old = eventIdempotencyKey (cf_crypto cf) src eventId"
    and "staticRoutes_get routes routeId = Some route" and "r_source route = src"
    and "\<And>e. describes cf routeId raw route e \<Longrightarrow> ne_event_id e = eventId"
    and "ingestWebhook (memory_host_ops routes W) cf routeId raw s = (Inr res, s')" and "ir_status res = 200"
  shows "ir_outcome res = Outcome IngDuplicate \<and> mh_rows (en_host s') = mh_rows (en_host s)"
proof -
  have eff: "ingest_effect (memory_host_ops routes W) cf routeId raw (Inr res) (mh_rows (en_host s)) (mh_rows (en_host s'))"
    using memory_host.ingestWebhook_effect [OF assms(1,7)] by blast
  have "\<not> refusal res" using assms(8) by (auto simp: refusal_def)
  with eff obtain route' e h h' where e: "describes cf routeId raw route' e"
    and get: "ho_route_get (memory_host_ops routes W) routeId h = (Inr (Some route'), h')"
    and res: "ir_outcome res = Outcome IngDuplicate \<and> mh_rows (en_host s') = mh_rows (en_host s) \<or>
      ne_idempotency_key e \<notin> set (map ev_idempotency_key (mh_rows (en_host s)))"
    unfolding ingest_effect_def sum.case by blast
  have "route' = route" using get assms(4) by (simp add: memory_host_defs)
  with e assms(6) have "ne_event_id e = eventId" by blast
  moreover have "ne_idempotency_key e = eventIdempotencyKey (cf_crypto cf) (r_source route') (ne_event_id e)"
    using e unfolding describes_def by blast
  ultimately have "ne_idempotency_key e = ev_idempotency_key old" using \<open>route' = route\<close> assms(3,5) by simp
  with assms(2) have "ne_idempotency_key e \<in> set (map ev_idempotency_key (mh_rows (en_host s)))" by simp
  with res show ?thesis by blast
qed

text \<open>The event stored for the first route is lost for the second.\<close>

theorem duplicate_across_routes_witness:
  "\<exists>s'. ingestWebhook demo_host demo_config ''r2'' demo_request after_first_request =
      (Inr (answer 200 (StatusBody ''duplicate'') (Outcome IngDuplicate)), s') \<and>
    mh_rows (en_host s') = [new_row (payment_event ''r1'') ''1'']"
proof -
  let ?s = "after_first_request"
  have key: "ne_idempotency_key (payment_event i) = eventIdempotencyKey echo_crypto ''payabli'' ''ApprovedPayment:7''" for i
    by (simp add: payment_event_def)
  have "accept_request demo_host demo_config ''r2'' demo_request ?s = (Inr (Inr (payment_event ''r2'')), ?s)"
    by (rule demo_accept [OF demo_lookup(2) _ _ _ _ demo_verified(2)])
       (simp_all add: other_route_def demo_route_def after_first_request_def empty_control_def)
  moreover have "host (st_insert (ho_store demo_host) (payment_event ''r2'')) ?s = (Inr Duplicate, ?s)"
    by (simp add: host_def zoomE_def memory_host_defs memory_ops_def total_def
        after_first_request_def mem_insert_def key)
  ultimately have run: "ingestWebhook demo_host demo_config ''r2'' demo_request ?s =
      (Inr (answer 200 (StatusBody ''duplicate'') (Outcome IngDuplicate)),
       ?s\<lparr>en_trace := en_trace ?s @ [Emit (HIngest ''r2'' IngDuplicate (ne_event_type (payment_event ''r2'')) 2)]\<rparr>)"
    by (simp add: ingestWebhook_def ingestInner_def catchE_def run_simps demo_request_simps)
  have rows: "mh_rows (en_host ?s) = [new_row (payment_event ''r1'') ''1'']"
    by (simp add: mh_rows_def after_first_request_def)
  have described: "ne_event_id e = ''ApprovedPayment:7''" if "describes demo_config ''r2'' demo_request other_route e" for e
    using that
    by (auto simp: describes_def demo_config_simps demo_request_simps other_route_def demo_route_def lookup_adapter_def
        builtin_adapter_def payabliAdapter_def demo_ids)
  have "mh_ok (en_host ?s)" using memory_host.ingestWebhook_effect [OF demo_start_ok demo_first] by blast
  from duplicate_across_routes [OF this _ _ demo_lookup(2) _ described run, of "new_row (payment_event ''r1'') ''1''"]
  show ?thesis using run rows by (auto simp: key demo_config_simps answer_def other_route_def demo_route_def)
qed

section \<open>Panic\<close>

text \<open>
  A relay in panic takes nothing in: every request for a configured route, whatever its
  body, is answered 503, nothing is stored, and the only thing announced is the refusal.
\<close>

theorem panic_refuses_ingest:
  assumes "mc_killswitch (mh_control (en_host s)) = KillPanic" and "staticRoutes_get routes routeId = Some route"
  shows "\<exists>s'. ingestWebhook (memory_host_ops routes W) cf routeId raw s =
      (Inr (answer 503 (ErrorBody ''relay is in panic mode'') (Outcome IngPanic)), s') \<and> en_host s' = en_host s \<and>
      en_trace s' = en_trace s @ [Emit (HIngest routeId IngPanic None (length (rr_rawBody raw)))]"
  using assms
  by (simp add: ingestWebhook_def ingestInner_def accept_request_def run_simps catchE_def host_def zoomE_def memory_host_defs
      memory_control_ops_def getsE_def mc_getKillswitch_def)

theorem panic_refuses_ingest_witness:
  "\<exists>s'. ingestWebhook demo_host demo_config ''r1'' demo_request
       (start_engine\<lparr>en_host := (en_host start_engine)\<lparr>mh_control := empty_control\<lparr>mc_killswitch := KillPanic\<rparr>\<rparr>\<rparr>) =
     (Inr (answer 503 (ErrorBody ''relay is in panic mode'') (Outcome IngPanic)), s') \<and> mh_rows (en_host s') = []"
  using panic_refuses_ingest [OF _ demo_lookup(1),
      of "start_engine\<lparr>en_host := (en_host start_engine)\<lparr>mh_control := empty_control\<lparr>mc_killswitch := KillPanic\<rparr>\<rparr>\<rparr>"
         idle_world demo_config demo_request]
  by (auto simp: mh_rows_def start_engine_def empty_memory_store_def)

end
