(* ===== verification/Backoff.thy ===== *)
theory Backoff imports Complex_Main begin

text \<open>
  The retry delay of \<open>packages/core/src/forward/backoff.ts\<close>: exponential, capped, with a
  jitter of a fifth.  \<open>rand\<close> is the result of \<open>Math.random()\<close>.  The product is computed
  exactly here; the doubles of the source are within 1 ms of it below \<open>2 ^ 50\<close>.
\<close>

definition raw_backoff :: "nat \<Rightarrow> nat \<Rightarrow> nat \<Rightarrow> nat" where
  "raw_backoff attempts baseMs capMs = min (baseMs * 2 ^ min attempts 30) capMs"

text \<open>\<open>Math.round\<close>: to the nearest integer, halves upwards.\<close>

definition js_round :: "rat \<Rightarrow> int" where
  "js_round x = \<lfloor>x + 1 / 2\<rfloor>"

definition backoffMs :: "nat \<Rightarrow> nat \<Rightarrow> nat \<Rightarrow> rat \<Rightarrow> int" where
  "backoffMs attempts baseMs capMs rand =
     js_round (of_nat (raw_backoff attempts baseMs capMs) * (4 / 5 + rand * (2 / 5)))"

text \<open>\<open>nextAttemptAt\<close>, in milliseconds since the epoch, from \<open>Date.now()\<close>.\<close>

definition nextAttemptAt :: "int \<Rightarrow> rat \<Rightarrow> nat \<Rightarrow> nat \<Rightarrow> nat \<Rightarrow> int" where
  "nextAttemptAt now rand attempts baseMs capMs = now + backoffMs attempts baseMs capMs rand"

lemma raw_backoff_mono: "a \<le> b \<Longrightarrow> raw_backoff a baseMs capMs \<le> raw_backoff b baseMs capMs"
  unfolding raw_backoff_def by (intro min.mono mult_le_mono power_increasing) auto

lemma js_round_bounds: "x - 1 / 2 < of_int (js_round x)" "of_int (js_round x) \<le> x + 1 / 2"
  unfolding js_round_def by linarith+

text \<open>
  \<^bold>\<open>C31.\<close> The retry delay is within a fifth of \<open>baseMs\<close> times two to the attempts (at most thirty),
  capped at \<open>capMs\<close>, to the millisecond; and a later attempt of the same row waits at least two
  thirds of the delay of an earlier one, less a millisecond for the rounding.
\<close>

theorem backoffMs_bounds:
  assumes "0 \<le> rand" and "rand < 1" and "0 \<le> rand'" and "rand' < 1" and "a \<le> b"
  shows "5 * backoffMs a baseMs capMs rand \<le> 6 * min (int baseMs * 2 ^ min a 30) (int capMs) + 2
    \<and> 4 * min (int baseMs * 2 ^ min a 30) (int capMs) \<le> 5 * backoffMs a baseMs capMs rand + 2
    \<and> 2 * backoffMs a baseMs capMs rand \<le> 3 * backoffMs b baseMs capMs rand' + 2"
proof -
  have raw: "int (raw_backoff n baseMs capMs) = min (int baseMs * 2 ^ min n 30) (int capMs)" for n
    by (simp add: raw_backoff_def of_nat_min)
  define ra rb where "ra = (of_int (min (int baseMs * 2 ^ min a 30) (int capMs)) :: rat)"
    and "rb = (of_int (min (int baseMs * 2 ^ min b 30) (int capMs)) :: rat)"
  have of_raw: "(of_nat (raw_backoff a baseMs capMs) :: rat) = ra" "(of_nat (raw_backoff b baseMs capMs) :: rat) = rb"
    unfolding ra_def rb_def raw [symmetric] by simp_all
  have "raw_backoff a baseMs capMs \<le> raw_backoff b baseMs capMs" by (rule raw_backoff_mono [OF assms(5)])
  then have r: "0 \<le> ra" "ra \<le> rb" unfolding of_raw [symmetric] by simp_all
  have up: "ra * (4 / 5 + rand * (2 / 5)) \<le> ra * (6 / 5)" using assms r by (intro mult_left_mono) auto
  have low: "ra * (4 / 5) \<le> ra * (4 / 5 + rand * (2 / 5))" using assms r by (intro mult_left_mono) auto
  have low': "rb * (4 / 5) \<le> rb * (4 / 5 + rand' * (2 / 5))" using assms r by (intro mult_left_mono) auto
  note ba = js_round_bounds [of "ra * (4 / 5 + rand * (2 / 5))"] and bb = js_round_bounds [of "rb * (4 / 5 + rand' * (2 / 5))"]
  define x y where "x = backoffMs a baseMs capMs rand" and "y = backoffMs b baseMs capMs rand'"
  have xy: "ra * (4 / 5) - 1 / 2 \<le> of_int x" "of_int x \<le> ra * (6 / 5) + 1 / 2" "rb * (4 / 5) - 1 / 2 \<le> of_int y"
    using ba bb up low low' unfolding x_def y_def backoffMs_def of_raw by linarith+
  define R where "R = min (int baseMs * 2 ^ min a 30) (int capMs)"
  have R: "ra = of_int R" by (simp add: ra_def R_def)
  have "(of_int (5 * x) :: rat) \<le> of_int (6 * R) + 5 / 2" using xy by (simp add: R)
  then have up5: "5 * x \<le> 6 * R + 2" by linarith
  have "(of_int (4 * R) :: rat) \<le> of_int (5 * x) + 5 / 2" using xy by (simp add: R)
  then have low5: "4 * R \<le> 5 * x + 2" by linarith
  have "(of_int (2 * x) :: rat) \<le> of_int (3 * y) + 5 / 2" using xy r by simp
  then have mono: "2 * x \<le> 3 * y + 2" by linarith
  show ?thesis using up5 low5 mono unfolding x_def y_def R_def by blast
qed
theorem backoffMs_bounds_witness:
  "4 * 8000 \<le> 5 * backoffMs 3 1000 600000 (1 / 2) + 2 \<and> 5 * backoffMs 3 1000 600000 (1 / 2) \<le> 6 * 8000 + 2"
  using backoffMs_bounds [of "1 / 2" 0 3 4 1000 600000] by simp

end
