(* ===== verification/Dispatcher.thy ===== *)
theory Dispatcher imports Ingest Backoff Dates begin

text \<open>
  The dispatcher (\<open>packages/core/src/forward/dispatcher.ts\<close>): one dispatch cycle from the sweep
  of expired leases to the settlement of each batch, and retention pruning.  Logging is left
  out; hook events, and the batches handed to the bulk endpoint, go to the trace.
\<close>

section \<open>State\<close>

datatype skip_reason = Paused | RouteUnknown

record cycle_summary =
  cs_delivered :: nat
  cs_retried :: nat
  cs_parked :: nat
  cs_due :: "string list"
  cs_skipped :: "(string \<times> skip_reason) list"
  cs_halted :: bool

definition new_summary :: cycle_summary where
  "new_summary = \<lparr>cs_delivered = 0, cs_retried = 0, cs_parked = 0, cs_due = [], cs_skipped = [], cs_halted = False\<rparr>"

record 'h dispatcher = "'h engine" +
  d_reclaimOwner :: "string option"
  d_lastSweepAt :: int
  d_summary :: cycle_summary

type_synonym ('h, 'a) dispatch = "('h dispatcher, exn, 'a) sem"

definition in_summary :: "(cycle_summary \<Rightarrow> cycle_summary) \<Rightarrow> ('h, unit) dispatch" where
  "in_summary f = modifyE (\<lambda>s. s\<lparr>d_summary := f (d_summary s)\<rparr>)"

definition set_reclaim :: "string option \<Rightarrow> ('h, unit) dispatch" where
  "set_reclaim owner = modifyE (\<lambda>s. s\<lparr>d_reclaimOwner := owner\<rparr>)"

definition IN_REQUEST_RETRIES :: nat where "IN_REQUEST_RETRIES = 2"
definition RESULT_POLL_ATTEMPTS :: nat where "RESULT_POLL_ATTEMPTS = 5"
definition RESULT_POLL_DELAY_MS :: nat where "RESULT_POLL_DELAY_MS = 1000"
definition PRUNE_BATCH :: nat where "PRUNE_BATCH = 50"
definition PRUNE_YIELD_MS :: nat where "PRUNE_YIELD_MS = 25"

section \<open>Counting what happened to an event\<close>

definition recordDelivered :: "event_record list \<Rightarrow> int \<Rightarrow> ('h, unit) dispatch" where
  "recordDelivered events deliveredAt = (case events of [] \<Rightarrow> ret () | e0 # _ \<Rightarrow>
     thenE (in_summary (\<lambda>c. c\<lparr>cs_delivered := cs_delivered c + length events\<rparr>))
    (thenE (emit (HForward (ev_route_id e0) FDelivered (length events)))
      (forE (\<lambda>e. thenE (emit (HDelivered (ev_route_id e) (ev_received_at e) deliveredAt))
         (emit (HSettled (ev_id e) (ev_route_id e) FDelivered None))) events)))"

definition recordParked :: "event_record list \<Rightarrow> string \<Rightarrow> ('h, unit) dispatch" where
  "recordParked events reason = (case events of [] \<Rightarrow> ret () | e0 # _ \<Rightarrow>
     thenE (in_summary (\<lambda>c. c\<lparr>cs_parked := cs_parked c + length events\<rparr>))
    (thenE (emit (HForward (ev_route_id e0) FParked (length events)))
      (forE (\<lambda>e. emit (HSettled (ev_id e) (ev_route_id e) FParked (Some reason))) events)))"

definition next_attempt :: "'h host_ops \<Rightarrow> engine_config \<Rightarrow> nat \<Rightarrow> ('h, int) dispatch" where
  "next_attempt D cf attempts =
     bindE (ask (ho_now D)) (\<lambda>now. bindE (ask (ho_random D)) (\<lambda>rand.
       ret (nextAttemptAt now rand attempts (backoffBaseMs (cf_dispatch cf)) (backoffCapMs (cf_dispatch cf)))))"

definition retryOne :: "'h host_ops \<Rightarrow> engine_config \<Rightarrow> event_record \<Rightarrow> string \<Rightarrow> ('h, unit) dispatch" where
  "retryOne D cf event msg =
     bindE (next_attempt D cf (ev_attempts event)) (\<lambda>nxt.
     thenE (host (st_markFailed (ho_store D) [ev_id event] nxt msg))
    (thenE (in_summary (\<lambda>c. c\<lparr>cs_retried := cs_retried c + 1\<rparr>))
    (thenE (emit (HForward (ev_route_id event) FRetried 1))
      (emit (HSettled (ev_id event) (ev_route_id event) FRetried (Some msg))))))"

section \<open>Enrichment\<close>

definition enriched_value :: "nat \<Rightarrow> hval callback \<Rightarrow> string \<Rightarrow> exn + json option" where
  "enriched_value ms called field = (case withTimeout called ms of
     Inl e \<Rightarrow> Inl e
   | Inr returned \<Rightarrow> (case validateEnrichedValue returned field of
       Inl e \<Rightarrow> Inl e
     | Inr None \<Rightarrow> Inr None
     | Inr (Some v) \<Rightarrow> (if field = ''description'' \<and> typeof v \<noteq> ''string''
         then Inl (EnrichmentError ''enriched description must be a string'') else Inr (Some v))))"

definition fill_field :: "string \<Rightarrow> json \<Rightarrow> endclose_record \<Rightarrow> endclose_record" where
  "fill_field field v r =
     (if field = ''description'' then (case v of JStr d \<Rightarrow> r\<lparr>ec_description := Some d\<rparr> | _ \<Rightarrow> r)
      else r\<lparr>ec_metadata := AList.update (drop (length ''metadata.'') field) v (ec_metadata r)\<rparr>)"

fun resolve_pending ::
  "'h host_ops \<Rightarrow> engine_config \<Rightarrow> event_record \<Rightarrow> json \<Rightarrow> pending_enrichment list \<Rightarrow> endclose_record \<Rightarrow> ('h, endclose_record) dispatch"
where
  "resolve_pending D cf event payload [] r = ret r"
| "resolve_pending D cf event payload (pe # pes) r =
     (let field = pe_field pe; name = pe_enrichment pe;
          emit_outcome = (\<lambda>result err. emit (HEnrich (ev_route_id event) (ev_id event) field name result err)) in
      case ho_enrichment D name of
        None \<Rightarrow>
          (let msg = field @ '' references unknown enrichment \"'' @ name @ ''\"'' in
           thenE (emit_outcome Rejected (Some msg)) (throwE (EnrichmentError msg)))
      | Some fn \<Rightarrow>
          bindE (ask (fn (pe_input pe) \<lparr>ctx_routeId = ev_route_id event, ctx_source = ev_source event,
              ctx_eventId = ev_event_id event, ctx_eventType = ev_event_type event,
              ctx_receivedAt = ev_received_at event, ctx_field = field, ctx_payload = payload\<rparr>)) (\<lambda>called.
          case enriched_value (enrichTimeoutMs (cf_dispatch cf)) called field of
            Inl err \<Rightarrow>
              thenE (emit_outcome (if is_enrichment_error err then Rejected else Failed) (Some (name @ '': '' @ message err)))
                (let wrapped = field @ '' ('' @ name @ ''): '' @ message err in
                 throwE (if is_enrichment_error err then EnrichmentError wrapped else OtherError wrapped))
          | Inr None \<Rightarrow> thenE (emit_outcome Omitted None) (resolve_pending D cf event payload pes r)
          | Inr (Some v) \<Rightarrow> thenE (emit_outcome Applied None) (resolve_pending D cf event payload pes (fill_field field v r))))"

definition resolveEnrichments ::
  "'h host_ops \<Rightarrow> engine_config \<Rightarrow> event_record \<Rightarrow> json \<Rightarrow> mapped_event \<Rightarrow> ('h, endclose_record) dispatch" where
  "resolveEnrichments D cf event payload mapped =
     resolve_pending D cf event payload (me_pending mapped) (me_record mapped)"

section \<open>Mapping a batch\<close>

definition read_event :: "engine_config \<Rightarrow> route_config \<Rightarrow> event_record \<Rightarrow> exn + json \<times> mapped_event" where
  "read_event cf route event = (case decode (cf_codec cf) (ev_payload event) (ev_payload_iv event) of
     Inl e \<Rightarrow> Inl e
   | Inr plaintext \<Rightarrow> (case cf_json_parse cf (utf8_decode plaintext) of
       Inl e \<Rightarrow> Inl e
     | Inr payload \<Rightarrow> (case mapEvent (cf_crypto cf) (cf_date_parse cf) route payload (iso_string (ev_received_at event)) (cf_maskingKey cf) of
         Inl e \<Rightarrow> Inl e
       | Inr result \<Rightarrow> Inr (payload, result))))"

definition park_event :: "'h host_ops \<Rightarrow> event_record \<Rightarrow> string \<Rightarrow> ('h, unit) dispatch" where
  "park_event D event reason =
     thenE (host (st_markParked (ho_store D) [ev_id event] reason)) (recordParked [event] reason)"

text \<open>One turn of the mapping loop: the record, or nothing when the event was parked or set back.\<close>

definition map_one :: "'h host_ops \<Rightarrow> engine_config \<Rightarrow> route_config \<Rightarrow> event_record \<Rightarrow> ('h, endclose_record option) dispatch" where
  "map_one D cf route event = (case read_event cf route event of
     Inl err \<Rightarrow>
       (if is_parking_error err
        then thenE (park_event D event (''mapping failed: '' @ message err)) (ret None)
        else throwE err)
   | Inr (payload, result) \<Rightarrow>
       (if me_pending result = [] then ret (Some (me_record result))
        else catchE (bindE (resolveEnrichments D cf event payload result) (\<lambda>r. ret (Some r))) (\<lambda>err.
          if is_parking_error err
          then thenE (park_event D event (''enrichment failed: '' @ message err)) (ret None)
          else thenE (retryOne D cf event (''enrichment failed: '' @ message err)) (ret None))))"

fun map_batch :: "'h host_ops \<Rightarrow> engine_config \<Rightarrow> route_config \<Rightarrow> event_record list \<Rightarrow> ('h, (endclose_record \<times> event_record) list) dispatch" where
  "map_batch D cf route [] = ret []"
| "map_batch D cf route (event # events) =
     bindE (map_one D cf route event) (\<lambda>r.
     bindE (map_batch D cf route events) (\<lambda>rest.
       ret (case r of None \<Rightarrow> rest | Some r \<Rightarrow> (r, event) # rest)))"

section \<open>Posting\<close>

fun post_attempts :: "'h host_ops \<Rightarrow> engine_config \<Rightarrow> endclose_record list \<Rightarrow> nat \<Rightarrow> nat \<Rightarrow> exn \<Rightarrow> ('h, json) dispatch" where
  "post_attempts D cf records attempt 0 lastErr = throwE lastErr"
| "post_attempts D cf records attempt (Suc left) lastErr =
     catchE (thenE (observe (PostBatch records)) (host (bulkCreateRecords (cf_crypto cf) (cf_json_parse cf) (ho_client D) records)))
       (\<lambda>err. if \<not> is_transient err then throwE err
         else thenE (ask (ho_sleep D (500 * (attempt + 1)))) (post_attempts D cf records (Suc attempt) left err))"

definition postWithRetries :: "'h host_ops \<Rightarrow> engine_config \<Rightarrow> endclose_record list \<Rightarrow> ('h, json) dispatch" where
  "postWithRetries D cf records = post_attempts D cf records 0 (Suc IN_REQUEST_RETRIES) (OtherError ''undefined'')"

section \<open>Settling a batch\<close>

text \<open>Property access on a parsed answer, and \<open>String\<close> of a value.\<close>

definition prop_of :: "json \<Rightarrow> string \<Rightarrow> exn + json option" where
  "prop_of v k = (case v of
     JNull \<Rightarrow> Inl (OtherError (''Cannot read properties of null (reading '' @ [CHR 0x27] @ k @ [CHR 0x27] @ '')''))
   | JObj kvs \<Rightarrow> Inr (object_get kvs k)
   | _ \<Rightarrow> Inr None)"

fun js_text :: "json \<Rightarrow> string" where
  "js_text JNull = ''null''"
| "js_text (JBool b) = (if b then ''true'' else ''false'')"
| "js_text (JNum n) = n"
| "js_text (JStr s) = s"
| "js_text (JArr vs) = join '','' (map (\<lambda>v. if v = JNull then [] else js_text v) vs)"
| "js_text _ = ''[object Object]''"

definition text_of :: "json option \<Rightarrow> string" where
  "text_of v = (case v of None \<Rightarrow> ''undefined'' | Some j \<Rightarrow> js_text j)"

text \<open>\<open>r.external_id ?? String(r.index)\<close> of every failed or rejected result row.\<close>

fun failed_keys :: "json list \<Rightarrow> exn + json list" where
  "failed_keys [] = Inr []"
| "failed_keys (r # rs) = (case prop_of r ''status'' of
     Inl e \<Rightarrow> Inl e
   | Inr status \<Rightarrow> (case failed_keys rs of
       Inl e \<Rightarrow> Inl e
     | Inr keys \<Rightarrow>
         (if status = Some (JStr ''failed'') \<or> status = Some (JStr ''rejected'')
          then (case prop_of r ''external_id'' of
              Inr (Some v) \<Rightarrow> (if v \<noteq> JNull then Inr (v # keys)
                else map_sum id (\<lambda>i. JStr (text_of i) # keys) (prop_of r ''index''))
            | _ \<Rightarrow> map_sum id (\<lambda>i. JStr (text_of i) # keys) (prop_of r ''index''))
          else Inr keys)))"

definition failed_results :: "json \<Rightarrow> exn + json list" where
  "failed_results status = (case prop_of status ''results'' of
     Inl e \<Rightarrow> Inl e
   | Inr None \<Rightarrow> Inr []
   | Inr (Some JNull) \<Rightarrow> Inr []
   | Inr (Some (JArr rs)) \<Rightarrow> failed_keys rs
   | Inr _ \<Rightarrow> Inl (OtherError ''(status.results ?? []).filter is not a function''))"

definition extResultKey :: "event_record \<Rightarrow> nat \<Rightarrow> string \<times> string" where
  "extResultKey event index = (after_first CHR '':'' (ev_event_id event), string_of_nat index)"

definition is_rejected :: "json list \<Rightarrow> event_record \<Rightarrow> nat \<Rightarrow> bool" where
  "is_rejected failed event index \<longleftrightarrow> (case extResultKey event index of (e, i) \<Rightarrow> JStr e \<in> set failed \<or> JStr i \<in> set failed)"

definition rejected_of :: "json list \<Rightarrow> event_record list \<Rightarrow> event_record list" where
  "rejected_of failed mapped = map fst (filter (\<lambda>(e, i). is_rejected failed e i) (zip mapped [0..<length mapped]))"

definition accepted_of :: "json list \<Rightarrow> event_record list \<Rightarrow> event_record list" where
  "accepted_of failed mapped = map fst (filter (\<lambda>(e, i). \<not> is_rejected failed e i) (zip mapped [0..<length mapped]))"

definition deliver_all :: "'h host_ops \<Rightarrow> string \<Rightarrow> event_record list \<Rightarrow> int \<Rightarrow> ('h, unit) dispatch" where
  "deliver_all D bulkRequestId mapped deliveredAt =
     thenE (host (st_markDelivered (ho_store D) (map ev_id mapped) deliveredAt (Some bulkRequestId)))
       (recordDelivered mapped deliveredAt)"

definition settle_split :: "'h host_ops \<Rightarrow> string \<Rightarrow> event_record list \<Rightarrow> json list \<Rightarrow> int \<Rightarrow> ('h, unit) dispatch" where
  "settle_split D bulkRequestId mapped failed deliveredAt =
     (let parked = rejected_of failed mapped; accepted = accepted_of failed mapped;
          reason = ''rejected by End Close bulk processing'' in
      thenE (host (st_markParked (ho_store D) (map ev_id parked) reason))
     (thenE (host (st_markDelivered (ho_store D) (map ev_id accepted) deliveredAt (Some bulkRequestId)))
     (thenE (recordDelivered accepted deliveredAt) (recordParked parked reason))))"

fun poll_results :: "'h host_ops \<Rightarrow> engine_config \<Rightarrow> string \<Rightarrow> event_record list \<Rightarrow> int \<Rightarrow> nat \<Rightarrow> ('h, unit) dispatch" where
  "poll_results D cf bulkRequestId mapped deliveredAt 0 = deliver_all D bulkRequestId mapped deliveredAt"
| "poll_results D cf bulkRequestId mapped deliveredAt (Suc left) =
     bindE (catchE (bindE (host (getBulkRequest (cf_json_parse cf) (ho_client D) bulkRequestId)) (\<lambda>j. ret (Some j)))
       (\<lambda>_. ret None)) (\<lambda>polled. case polled of
       None \<Rightarrow> deliver_all D bulkRequestId mapped deliveredAt
     | Some status \<Rightarrow> bindE (of_sum (prop_of status ''status'')) (\<lambda>st.
         if st = Some (JStr ''pending'') \<or> st = Some (JStr ''processing'')
         then thenE (ask (ho_sleep D RESULT_POLL_DELAY_MS)) (poll_results D cf bulkRequestId mapped deliveredAt left)
         else bindE (of_sum (failed_results status)) (\<lambda>failed.
           if failed = [] then deliver_all D bulkRequestId mapped deliveredAt
           else settle_split D bulkRequestId mapped failed deliveredAt)))"

definition settleResults :: "'h host_ops \<Rightarrow> engine_config \<Rightarrow> string \<Rightarrow> event_record list \<Rightarrow> ('h, unit) dispatch" where
  "settleResults D cf bulkRequestId mapped =
     bindE (ask (ho_now D)) (\<lambda>deliveredAt. poll_results D cf bulkRequestId mapped deliveredAt RESULT_POLL_ATTEMPTS)"

section \<open>A batch\<close>

definition park_batch :: "'h host_ops \<Rightarrow> string \<Rightarrow> event_record list \<Rightarrow> nat \<Rightarrow> string \<Rightarrow> ('h, unit) dispatch" where
  "park_batch D routeId mapped status reason =
     thenE (host (st_markParked (ho_store D) (map ev_id mapped) reason))
    (thenE (recordParked mapped reason) (emit (HBatchParked routeId status (length mapped))))"

definition retry_batch :: "'h host_ops \<Rightarrow> engine_config \<Rightarrow> string \<Rightarrow> event_record list \<Rightarrow> string \<Rightarrow> ('h, unit) dispatch" where
  "retry_batch D cf routeId mapped msg =
     bindE (next_attempt D cf (fold max (map ev_attempts mapped) 0)) (\<lambda>nxt.
     thenE (host (st_markFailed (ho_store D) (map ev_id mapped) nxt msg))
    (thenE (in_summary (\<lambda>c. c\<lparr>cs_retried := cs_retried c + length mapped\<rparr>))
    (thenE (emit (HForward routeId FRetried (length mapped)))
      (forE (\<lambda>e. emit (HSettled (ev_id e) routeId FRetried (Some msg))) mapped))))"

fun permanent_rejection :: "exn \<Rightarrow> (nat \<times> string) option" where
  "permanent_rejection (PermanentHttpError msg status body) =
     (if status = 400 \<or> status = 422 then Some (status, msg @ '': '' @ body) else None)"
| "permanent_rejection _ = None"

definition post_batch :: "'h host_ops \<Rightarrow> engine_config \<Rightarrow> string \<Rightarrow> (endclose_record \<times> event_record) list \<Rightarrow> ('h, unit) dispatch" where
  "post_batch D cf routeId pairs =
     (let records = map fst pairs; mapped = map snd pairs in
      catchE
        (bindE (postWithRetries D cf records) (\<lambda>accepted.
         bindE (of_sum (prop_of accepted ''id'')) (\<lambda>bulk.
         thenE (settleResults D cf (text_of bulk) mapped)
           (emit (HBatchForwarded routeId (length mapped) (text_of bulk))))))
        (\<lambda>err. case permanent_rejection err of
            Some (status, reason) \<Rightarrow> park_batch D routeId mapped status reason
          | None \<Rightarrow> retry_batch D cf routeId mapped (message err)))"

definition deliverBatch :: "'h host_ops \<Rightarrow> engine_config \<Rightarrow> route_config \<Rightarrow> event_record list \<Rightarrow> ('h, unit) dispatch" where
  "deliverBatch D cf route claimed =
     bindE (map_batch D cf route claimed) (\<lambda>pairs.
       if pairs = [] then ret () else post_batch D cf (r_id route) pairs)"

definition releaseLeftover :: "'h host_ops \<Rightarrow> engine_config \<Rightarrow> event_record list \<Rightarrow> string \<Rightarrow> ('h, unit) dispatch" where
  "releaseLeftover D cf claimed err =
     catchE (bindE (ask (ho_now D)) (\<lambda>now.
         bindE (host (st_releaseDelivering (ho_store D) (map ev_id claimed) now err)) (\<lambda>_. ret ())))
       (\<lambda>e. thenE (set_reclaim (Some (cf_instanceId cf))) (emit (HError RecoverDelivering e None None)))"

section \<open>The cycle\<close>

definition claim_and_deliver :: "'h host_ops \<Rightarrow> engine_config \<Rightarrow> int \<Rightarrow> route_config \<Rightarrow> string \<Rightarrow> ('h, unit) dispatch" where
  "claim_and_deliver D cf now route routeId =
     bindE (ask (ho_now D)) (\<lambda>t.
     bindE (host (st_claimDue (ho_store D) routeId now (batchMax (cf_dispatch cf))
         \<lparr>lease_owner = cf_instanceId cf, lease_end = t + leaseMs (cf_dispatch cf)\<rparr>)) (\<lambda>claimed.
       if claimed = [] then ret ()
       else finallyE (deliverBatch D cf route claimed) (releaseLeftover D cf claimed ''left delivering after batch'')))"

definition skip_route :: "string \<Rightarrow> skip_reason \<Rightarrow> ('h, unit) dispatch" where
  "skip_route routeId reason = in_summary (\<lambda>c. c\<lparr>cs_skipped := cs_skipped c @ [(routeId, reason)]\<rparr>)"

definition visit_route :: "'h host_ops \<Rightarrow> engine_config \<Rightarrow> int \<Rightarrow> string \<Rightarrow> ('h, unit) dispatch" where
  "visit_route D cf now routeId =
     bindE (bothE (host (ho_route_get D routeId)) (host (ct_isRoutePaused (ho_control D) routeId))) (\<lambda>(route, paused).
       case route of
         None \<Rightarrow> skip_route routeId RouteUnknown
       | Some route \<Rightarrow>
           if paused then skip_route routeId Paused
           else claim_and_deliver D cf now route routeId)"

text \<open>\<open>abort\<close> reads whether the loop was stopped meanwhile.\<close>

fun visit_routes :: "'h host_ops \<Rightarrow> engine_config \<Rightarrow> ('h \<Rightarrow> bool) \<Rightarrow> int \<Rightarrow> string list \<Rightarrow> ('h, unit) dispatch" where
  "visit_routes D cf abort now [] = ret ()"
| "visit_routes D cf abort now (routeId # rest) =
     bindE (getsE (\<lambda>s. abort (en_host s))) (\<lambda>stopped.
       if stopped then ret ()
       else thenE (visit_route D cf now routeId) (visit_routes D cf abort now rest))"

definition sweep :: "'h host_ops \<Rightarrow> engine_config \<Rightarrow> int \<Rightarrow> ('h, unit) dispatch" where
  "sweep D cf now =
     bindE (ask (ho_now D)) (\<lambda>t.
     bindE (getsE d_lastSweepAt) (\<lambda>lastSweepAt.
     bindE (getsE d_reclaimOwner) (\<lambda>owner.
       (let sweepDue = recoverIntervalMs (cf_dispatch cf) \<le> t - lastSweepAt in
        whenE (owner \<noteq> None \<or> sweepDue)
          (catchE
            (bindE (host (st_recoverDelivering (ho_store D) now owner)) (\<lambda>recovered.
             thenE (set_reclaim None)
               (whenE sweepDue
                 (bindE (host (st_parkExpired (ho_store D) now (parkAfterMs (cf_dispatch cf)))) (\<lambda>_.
                  bindE (ask (ho_now D)) (\<lambda>t'. modifyE (\<lambda>s. s\<lparr>d_lastSweepAt := t'\<rparr>)))))))
            (\<lambda>err. emit (HError RecoverDelivering err None None)))))))"

definition cycle :: "'h host_ops \<Rightarrow> engine_config \<Rightarrow> ('h \<Rightarrow> bool) \<Rightarrow> ('h, cycle_summary) dispatch" where
  "cycle D cf abort =
     bindE (ask (ho_now D)) (\<lambda>now.
     thenE (in_summary (\<lambda>_. new_summary))
    (thenE (sweep D cf now)
    (bindE (host (ct_getKillswitch (ho_control D))) (\<lambda>k.
      if k \<noteq> KillNone then thenE (in_summary (\<lambda>c. c\<lparr>cs_halted := True\<rparr>)) (getsE d_summary)
      else
        bindE (host (st_routesWithDueEvents (ho_store D) now)) (\<lambda>due.
        thenE (in_summary (\<lambda>c. c\<lparr>cs_due := due\<rparr>))
       (thenE (visit_routes D cf abort now due)
         (getsE d_summary)))))))"

definition runOnce :: "'h host_ops \<Rightarrow> engine_config \<Rightarrow> ('h, cycle_summary) dispatch" where
  "runOnce D cf = catchE (cycle D cf (\<lambda>_. False))
     (\<lambda>err. thenE (emit (HError DispatchCycle err (storeOp err) None)) (throwE err))"

section \<open>Pruning\<close>

text \<open>The loop runs until a batch does nothing; \<open>None\<close> is a loop that has not ended within the fuel.\<close>

fun prune_loop ::
  "'h host_ops \<Rightarrow> ('h \<Rightarrow> bool) \<Rightarrow> int \<Rightarrow> retention_settings \<Rightarrow> nat \<Rightarrow> nat \<times> nat \<Rightarrow> ('h, (nat \<times> nat) option) dispatch" where
  "prune_loop D abort now r 0 acc = ret None"
| "prune_loop D abort now r (Suc fuel) acc =
     bindE (getsE (\<lambda>s. abort (en_host s))) (\<lambda>stopped.
       if stopped then ret (Some acc)
       else bindE (host (st_pruneBatch (ho_store D) now (deliveredDays r) (ledgerDays r) PRUNE_BATCH)) (\<lambda>(wiped, deleted).
         thenE (emit (HPrune wiped deleted))
           (let acc' = (fst acc + wiped, snd acc + deleted) in
            if wiped = 0 \<and> deleted = 0 then ret (Some acc')
            else thenE (ask (ho_sleep D PRUNE_YIELD_MS)) (prune_loop D abort now r fuel acc'))))"

definition runPrune :: "'h host_ops \<Rightarrow> engine_config \<Rightarrow> ('h \<Rightarrow> bool) \<Rightarrow> nat \<Rightarrow> ('h, (nat \<times> nat) option) dispatch" where
  "runPrune D cf abort fuel = (case cf_retention cf of
     None \<Rightarrow> ret (Some (0, 0))
   | Some r \<Rightarrow> bindE (ask (ho_now D)) (\<lambda>now.
       catchE (prune_loop D abort now r fuel (0, 0))
         (\<lambda>err. thenE (emit (HError Prune err None None)) (throwE err))))"

end
