(* ===== verification/DispatcherFacts.thy ===== *)
theory DispatcherFacts imports Dispatcher begin

text \<open>
  What a dispatch cycle keeps: one relation for a batch, proved from the primitive calls up, and
  from it the relation of a whole cycle.
\<close>

section \<open>Sublists of a batch\<close>

definition part_of :: "event_record list \<Rightarrow> event_record list \<Rightarrow> bool" where
  "part_of xs ys \<longleftrightarrow> set xs \<subseteq> set ys \<and> length xs \<le> length ys \<and> (distinct (map ev_id ys) \<longrightarrow> distinct (map ev_id xs))"

lemma part_of_refl: "part_of xs xs" and part_of_trans: "part_of xs ys \<Longrightarrow> part_of ys zs \<Longrightarrow> part_of xs zs"
  by (auto simp: part_of_def)

lemma part_of_Nil: "part_of [] ys" and part_of_Cons: "part_of xs ys \<Longrightarrow> part_of xs (y # ys)"
  by (auto simp: part_of_def)

lemma part_of_Cons2: "part_of xs ys \<Longrightarrow> part_of (y # xs) (y # ys)"
  by (auto simp: part_of_def)

lemma part_of_filter_zip: "part_of (map fst (filter P (zip xs [n..<n + length xs]))) xs"
proof (induction xs arbitrary: n)
  case (Cons x xs)
  have "[n..<n + length (x # xs)] = n # [Suc n..<Suc n + length xs]" 
    using upt_conv_Cons [of n "n + length (x # xs)"] by (simp del: upt_Suc)
  with Cons [of "Suc n"] show ?case
    by (cases "P (x, n)") (simp_all del: upt_Suc add: part_of_Cons part_of_Cons2)
qed (simp add: part_of_Nil)

lemma part_of_rejected: "part_of (rejected_of failed mapped) mapped"
  and part_of_accepted: "part_of (accepted_of failed mapped) mapped"
  using part_of_filter_zip [of _ mapped 0] by (simp_all add: rejected_of_def accepted_of_def)

section \<open>Records that leave are clean\<close>

lemma fill_field_clean:
  assumes "clean_record r" and "\<forall>t \<in> set (string_values v). \<not> re_test SSN_RE t"
  shows "clean_record (fill_field field v r)"
proof -
  have md: "\<not> re_test SSN_RE t" if "(key, w) \<in> set (ec_metadata r)" "t \<in> set (string_values w)" for key w t
    using assms(1) that unfolding clean_record_def forwarded_strings_def by fastforce
  have ds: "\<not> re_test SSN_RE d" if "ec_description r = Some d" for d
    using assms(1) that by (auto simp: clean_record_def forwarded_strings_def)
  show ?thesis
  proof (cases "field = ''description''")
    case True
    show ?thesis
    proof (cases "\<exists>d. v = JStr d")
      case d: True
      then obtain d where "v = JStr d" ..
      with True assms(2) md show ?thesis by (intro clean_recordI) (auto simp: fill_field_def)
    next
      case False
      with True assms(1) show ?thesis by (auto simp: fill_field_def split: json.splits)
    qed
  next
    case False
    show ?thesis
    proof (rule clean_recordI)
      fix key w t assume "(key, w) \<in> set (ec_metadata (fill_field field v r))" and t: "t \<in> set (string_values w)"
      then have "(key, w) \<in> set (AList.update (drop (length ''metadata.'') field) v (ec_metadata r))"
        using False by (simp add: fill_field_def)
      then have "w = v \<or> (key, w) \<in> set (ec_metadata r)" using set_AList_update by fastforce
      then show "\<not> re_test SSN_RE t" using t md assms(2) by blast
    next
      fix d assume "ec_description (fill_field field v r) = Some d"
      with False ds show "\<not> re_test SSN_RE d" by (simp add: fill_field_def)
    qed
  qed
qed

lemma enriched_value_clean:
  assumes "enriched_value ms called field = Inr (Some v)"
  shows "\<forall>t \<in> set (string_values v). \<not> re_test SSN_RE t"
  using assms validateEnrichedValue_safe(2)
  by (auto simp: enriched_value_def split: sum.splits option.splits if_splits)

lemma resolve_pending_Inr:
  assumes "resolve_pending D cf event payload (pe # pes) r s = (Inr r', s')"
  shows "(\<exists>s2. resolve_pending D cf event payload pes r s2 = (Inr r', s')) \<or>
    (\<exists>called v s2. enriched_value (enrichTimeoutMs (cf_dispatch cf)) called (pe_field pe) = Inr (Some v) \<and>
      resolve_pending D cf event payload pes (fill_field (pe_field pe) v r) s2 = (Inr r', s'))"
proof (cases "ho_enrichment D (pe_enrichment pe)")
  case None
  with assms show ?thesis by (simp add: Let_def run_Inr)
next
  case (Some fn)
  from assms [unfolded resolve_pending.simps Let_def Some option.case bindE_Inr_iff] show ?thesis
  proof (elim exE conjE, goal_cases)
    case (1 called s1)
    then show ?case
    proof (cases "enriched_value (enrichTimeoutMs (cf_dispatch cf)) called (pe_field pe)")
      case (Inr w)
      with 1 show ?thesis by (cases w) (auto simp: run_Inr)
    qed (simp add: run_Inr)
  qed
qed

lemma resolve_pending_clean:
  "resolve_pending D cf event payload pes r s = (Inr r', s') \<Longrightarrow> clean_record r \<Longrightarrow> clean_record r'"
proof (induction pes arbitrary: r s)
  case Nil
  then show ?case by (simp add: atomic_Inr_iff)
next
  case (Cons pe pes)
  from resolve_pending_Inr [OF Cons.prems(1)] show ?case
    using Cons.IH Cons.prems(2) fill_field_clean enriched_value_clean by blast
qed

lemma catchE_Inr_iff: "catchE m h s = (Inr y, s') \<longleftrightarrow> m s = (Inr y, s') \<or> (\<exists>e s1. m s = (Inl e, s1) \<and> h e s1 = (Inr y, s'))"
  by (auto simp: catchE_def split: prod.splits sum.splits)

lemma map_one_clean:
  assumes "map_one D cf route event s = (Inr (Some r), s')"
  shows "clean_record r"
proof (cases "read_event cf route event")
  case (Inl e)
  with assms show ?thesis by (auto simp: map_one_def run_Inr split: if_splits)
next
  case (Inr pr)
  obtain payload result where pr: "pr = (payload, result)" by (cases pr)
  have clean: "clean_record (me_record result)"
    using Inr mapEvent_clean by (fastforce simp: pr read_event_def split: sum.splits)
  show ?thesis
  proof (cases "me_pending result = []")
    case True
    with assms Inr pr clean show ?thesis by (simp add: map_one_def atomic_Inr_iff)
  next
    case False
    with assms Inr pr have "\<exists>s1. resolveEnrichments D cf event payload result s = (Inr r, s1)"
      by (auto simp: map_one_def catchE_Inr_iff run_Inr split: if_splits)
    with clean show ?thesis unfolding resolveEnrichments_def by (blast intro: resolve_pending_clean)
  qed
qed

lemma map_batch_result:
  "map_batch D cf route events s = (Inr pairs, s') \<Longrightarrow>
   part_of (map snd pairs) events \<and> (\<forall>r \<in> set (map fst pairs). clean_record r)"
proof (induction events arbitrary: s s' pairs)
  case Nil
  then show ?case by (simp add: atomic_Inr_iff part_of_Nil)
next
  case (Cons event events)
  then obtain r rest s1 s2 where one: "map_one D cf route event s = (Inr r, s1)"
    and rest: "map_batch D cf route events s1 = (Inr rest, s2)"
    and pairs: "pairs = (case r of None \<Rightarrow> rest | Some r \<Rightarrow> (r, event) # rest)"
    by (auto simp: run_Inr)
  from Cons.IH [OF rest] one map_one_clean [of D cf route event s] show ?case
    by (cases r) (auto simp: pairs intro: part_of_Cons part_of_Cons2)
qed

section \<open>The relation of a batch\<close>

text \<open>The part of a row that no delivery changes.\<close>

definition core :: "event_record \<Rightarrow> event_record" where
  "core r = r\<lparr>ev_status := Pending, ev_attempts := 0, ev_next_attempt_at := None, ev_delivered_at := None,
     ev_bulk_request_id := None, ev_last_error := None, ev_claimed_by := None, ev_lease_until := None\<rparr>"

lemma core_row_ops [simp]:
  "core (clear_lease r) = core r" "core (claim_row now l r) = core r" "core (deliver_row t0 bulk r) = core r"
  "core (fail_row t0 err r) = core r" "core (park_row err r) = core r" "core (recover_row now r) = core r"
  "core (expire_row r) = core r"
  by (simp_all add: core_def clear_lease_def claim_row_def deliver_row_def fail_row_def park_row_def recover_row_def expire_row_def)

lemma core_fields: "core r = core q \<Longrightarrow> ev_id r = ev_id q \<and> ev_route_id r = ev_route_id q \<and> ev_payload r = ev_payload q \<and>
    ev_idempotency_key r = ev_idempotency_key q \<and> ev_received_at r = ev_received_at q"
  by (auto simp: core_def dest: arg_cong [of _ _ ev_id] arg_cong [of _ _ ev_route_id] arg_cong [of _ _ ev_payload]
      arg_cong [of _ _ ev_idempotency_key] arg_cong [of _ _ ev_received_at])

text \<open>What the trace says: the counters are the settlements announced, and every batch posted is good.\<close>

definition settled_as :: "forward_result \<Rightarrow> action \<Rightarrow> bool" where
  "settled_as f a \<longleftrightarrow> (case a of Emit (HSettled _ _ g _) \<Rightarrow> g = f | _ \<Rightarrow> False)"

definition settled_count :: "forward_result \<Rightarrow> action list \<Rightarrow> nat" where
  "settled_count f tr = length (filter (settled_as f) tr)"

definition good_batch :: "nat \<Rightarrow> endclose_record list \<Rightarrow> bool" where
  "good_batch n recs \<longleftrightarrow> recs \<noteq> [] \<and> length recs \<le> n \<and> (\<forall>r \<in> set recs. clean_record r)"

definition accounted :: "nat \<Rightarrow> cycle_summary \<Rightarrow> action list \<Rightarrow> cycle_summary \<Rightarrow> bool" where
  "accounted n c tr c' \<longleftrightarrow>
     cs_delivered c' = cs_delivered c + settled_count FDelivered tr \<and>
     cs_retried c' = cs_retried c + settled_count FRetried tr \<and>
     cs_parked c' = cs_parked c + settled_count FParked tr \<and>
     (\<forall>recs. PostBatch recs \<in> set tr \<longrightarrow> good_batch n recs)"

lemma accounted_Nil [simp]: "accounted n c [] c"
  by (simp add: accounted_def settled_count_def)

lemma accounted_append: "accounted n c tr c' \<Longrightarrow> accounted n c' tr' c'' \<Longrightarrow> accounted n c (tr @ tr') c''"
  by (auto simp: accounted_def settled_count_def)

definition traced :: "nat \<Rightarrow> 'h dispatcher \<Rightarrow> 'h dispatcher \<Rightarrow> bool" where
  "traced n s s' \<longleftrightarrow> (\<exists>tr. en_trace s' = en_trace s @ tr \<and> accounted n (d_summary s) tr (d_summary s'))"

text \<open>A batch works on ids of stored rows.\<close>

definition holding :: "('h \<Rightarrow> event_record list) \<Rightarrow> ('h \<Rightarrow> bool) \<Rightarrow> string set \<Rightarrow> 'h \<Rightarrow> bool" where
  "holding rows ok B h \<longleftrightarrow> ok h \<and> B \<subseteq> ev_id ` set (rows h)"

lemma holding_same: "holding rows ok B h \<Longrightarrow> ok h' \<Longrightarrow> rows h' = rows h \<Longrightarrow> holding rows ok B h'"
  by (simp add: holding_def)

definition batch_rel ::
  "('h \<Rightarrow> event_record list) \<Rightarrow> ('h \<Rightarrow> bool) \<Rightarrow> string \<Rightarrow> nat \<Rightarrow> string set \<Rightarrow> 'h dispatcher \<Rightarrow> 'h dispatcher \<Rightarrow> bool" where
  "batch_rel rows ok me n B s s' \<longleftrightarrow> (holding rows ok B (en_host s) \<longrightarrow> holding rows ok B (en_host s') \<and>
     list_all2 (\<lambda>r r'. core r' = core r \<and> (ev_id r \<notin> B \<longrightarrow> r' = r)) (rows (en_host s)) (rows (en_host s')) \<and>
     (d_reclaimOwner s' = d_reclaimOwner s \<or> d_reclaimOwner s' = Some me) \<and> traced n s s')"

lemma traced_refl [simp]: "traced n s s"
  by (auto simp: traced_def intro!: exI [of _ "[]"])

lemma traced_trans: "traced n s t \<Longrightarrow> traced n t u \<Longrightarrow> traced n s u"
  by (auto simp: traced_def) (metis accounted_append append.assoc)

interpretation batch: step_relation "batch_rel rows ok me n B" for rows ok me n B
proof
  show "batch_rel rows ok me n B s s" for s
    by (simp add: batch_rel_def list_all2_refl)
next
  fix s t u assume st: "batch_rel rows ok me n B s t" and tu: "batch_rel rows ok me n B t u"
  show "batch_rel rows ok me n B s u" unfolding batch_rel_def
  proof (intro impI)
    assume ok: "holding rows ok B (en_host s)"
    with st have 1: "holding rows ok B (en_host t)" "d_reclaimOwner t = d_reclaimOwner s \<or> d_reclaimOwner t = Some me" "traced n s t"
      and rows1: "list_all2 (\<lambda>r r'. core r' = core r \<and> (ev_id r \<notin> B \<longrightarrow> r' = r)) (rows (en_host s)) (rows (en_host t))"
      by (simp_all add: batch_rel_def)
    with tu have 2: "holding rows ok B (en_host u)" "d_reclaimOwner u = d_reclaimOwner t \<or> d_reclaimOwner u = Some me" "traced n t u"
      and rows2: "list_all2 (\<lambda>r r'. core r' = core r \<and> (ev_id r \<notin> B \<longrightarrow> r' = r)) (rows (en_host t)) (rows (en_host u))"
      by (simp_all add: batch_rel_def)
    have "list_all2 (\<lambda>r r'. core r' = core r \<and> (ev_id r \<notin> B \<longrightarrow> r' = r)) (rows (en_host s)) (rows (en_host u))"
      using rows1 rows2 by (rule list_all2_trans [rotated]) auto
    with 1 2 traced_trans show "holding rows ok B (en_host u) \<and>
      list_all2 (\<lambda>r r'. core r' = core r \<and> (ev_id r \<notin> B \<longrightarrow> r' = r)) (rows (en_host s)) (rows (en_host u)) \<and>
      (d_reclaimOwner u = d_reclaimOwner s \<or> d_reclaimOwner u = Some me) \<and> traced n s u"
      by auto
  qed
qed

section \<open>The primitive calls keep it\<close>

text \<open>A step that leaves host and lease owner alone and accounts for what it adds to the trace.\<close>

lemma batch_local:
  "en_host s' = en_host s \<Longrightarrow> d_reclaimOwner s' = d_reclaimOwner s \<Longrightarrow> en_trace s' = en_trace s @ tr \<Longrightarrow>
   accounted n (d_summary s) tr (d_summary s') \<Longrightarrow> batch_rel rows ok me n B s s'"
  by (auto simp: batch_rel_def traced_def list_all2_refl)

lemma accounted_plain:
  "(\<forall>f. \<not> settled_as f a) \<Longrightarrow> (\<forall>recs. a = PostBatch recs \<longrightarrow> good_batch n recs) \<Longrightarrow> accounted n c [a] c"
  by (auto simp: accounted_def settled_count_def)

lemma batch_observe:
  "(\<forall>f. \<not> settled_as f a) \<Longrightarrow> (\<forall>recs. a = PostBatch recs \<longrightarrow> good_batch n recs) \<Longrightarrow> keeps (batch_rel rows ok me n B) (observe a)"
  by (rule keepsI) (auto intro!: batch_local [where tr = "[a]"] simp: accounted_plain)

lemma batch_emit: "(\<forall>f. \<not> settled_as f (Emit e)) \<Longrightarrow> keeps (batch_rel rows ok me n B) (emit e)"
  unfolding emit_def by (rule batch_observe) auto

lemma traced_same: "en_trace s' = en_trace s \<Longrightarrow> d_summary s' = d_summary s \<Longrightarrow> traced n s s'"
  by (auto simp: traced_def)

lemma batch_quiet: "quiet rows ok f \<Longrightarrow> keeps (batch_rel rows ok me n B) (host f)"
  by (auto simp: keeps_def host_def zoomE_def quiet_def batch_rel_def holding_def list_all2_refl split_beta traced_same)

lemma batch_ask: "quiet rows ok g \<Longrightarrow> keeps (batch_rel rows ok me n B) (ask g)"
  by (auto simp: keeps_def host_def ask_def zoomE_def quiet_def batch_rel_def holding_def list_all2_refl split_beta traced_same)

lemma framed_ids:
  "list_all2 (\<lambda>r r'. core r' = core r \<and> (ev_id r \<notin> B \<longrightarrow> r' = r)) rs rs' \<Longrightarrow> ev_id ` set rs' = ev_id ` set rs"
  by (induction rule: list_all2_induct) (auto dest: core_fields)

lemma batch_updates:
  assumes "\<And>h. ok h \<Longrightarrow> B \<subseteq> ev_id ` set (rows h) \<Longrightarrow> updates rows ok m h Q"
    and "\<And>rs x rs'. Q rs x rs' \<Longrightarrow> list_all2 (\<lambda>r r'. core r' = core r \<and> (ev_id r \<notin> B \<longrightarrow> r' = r)) rs rs'"
  shows "keeps (batch_rel rows ok me n B) (host m)"
proof (rule keepsI)
  fix s :: "'a dispatcher"
  obtain x h' where m: "m (en_host s) = (x, h')" by fastforce
  have run: "host m s = (x, s\<lparr>en_host := h'\<rparr>)" by (simp add: host_def zoomE_def m)
  show "batch_rel rows ok me n B s (snd (host m s))" unfolding batch_rel_def run snd_conv
  proof (intro impI conjI)
    assume hold: "holding rows ok B (en_host s)"
    then have ok: "ok (en_host s)" "B \<subseteq> ev_id ` set (rows (en_host s))" by (simp_all add: holding_def)
    note up = updatesD [OF assms(1) [OF ok] m]
    show frame: "list_all2 (\<lambda>r r'. core r' = core r \<and> (ev_id r \<notin> B \<longrightarrow> r' = r)) (rows (en_host s)) (rows (en_host (s\<lparr>en_host := h'\<rparr>)))"
      using up(2,3) assms(2) by (cases x) (auto simp: list_all2_refl)
    show "holding rows ok B (en_host (s\<lparr>en_host := h'\<rparr>))"
      using up(1) ok(2) framed_ids [OF frame] by (simp add: holding_def)
    show "traced n s (s\<lparr>en_host := h'\<rparr>)" by (simp add: traced_same)
  qed simp
qed

lemma batch_set_reclaim: "keeps (batch_rel rows ok me n B) (set_reclaim (Some me))"
  by (auto simp: keeps_def set_reclaim_def modifyE_def batch_rel_def list_all2_refl traced_same)

section \<open>Settling keeps it\<close>

lemma thenE_run: "m s = (Inr x, s1) \<Longrightarrow> thenE m k s = k s1"
  by (simp add: thenE_def bindE_def)

lemma emit_run: "emit e s = (Inr (), s\<lparr>en_trace := en_trace s @ [Emit e]\<rparr>)"
  by (simp add: emit_def)

lemma in_summary_run: "in_summary f s = (Inr (), s\<lparr>d_summary := f (d_summary s)\<rparr>)"
  by (simp add: in_summary_def modifyE_def)

lemma forE_emit: "forE (\<lambda>x. emit (g x)) xs s = (Inr (), s\<lparr>en_trace := en_trace s @ map (\<lambda>x. Emit (g x)) xs\<rparr>)"
  by (induction xs arbitrary: s) (auto simp: thenE_run emit_run ret_def)

lemma forE_emit2:
  "forE (\<lambda>x. thenE (emit (g x)) (emit (k x))) xs s =
     (Inr (), s\<lparr>en_trace := en_trace s @ concat (map (\<lambda>x. [Emit (g x), Emit (k x)]) xs)\<rparr>)"
  by (induction xs arbitrary: s) (auto simp: thenE_run emit_run ret_def)

lemmas settle_runs = thenE_run emit_run in_summary_run forE_emit forE_emit2

lemma settled_counts [simp]:
  "settled_count f [] = 0"
  "settled_count f (a # tr) = (if settled_as f a then Suc (settled_count f tr) else settled_count f tr)"
  "settled_count f (tr @ tr') = settled_count f tr + settled_count f tr'"
  by (simp_all add: settled_count_def)

lemma settled_as_simps [simp]:
  "settled_as f (Emit (HSettled i r g e)) \<longleftrightarrow> g = f" "\<not> settled_as f (Emit (HForward r g m))"
  "\<not> settled_as f (Emit (HDelivered r t u))" "\<not> settled_as f (Emit (HError k x op r'))"
  "\<not> settled_as f (Emit (HEnrich a b c d res err))" "\<not> settled_as f (Emit (HBatchForwarded r m b'))"
  "\<not> settled_as f (Emit (HBatchParked r m q))" "\<not> settled_as f (PostBatch recs)"
  by (auto simp: settled_as_def)

lemma settled_count_map [simp]:
  "settled_count f (map (\<lambda>e. Emit (HSettled (i e) (r e) g (err e))) es) = (if g = f then length es else 0)"
  by (induction es) auto

lemma settled_count_delivered [simp]:
  "settled_count f (concat (map (\<lambda>e. [Emit (HDelivered (r e) (t e) u), Emit (HSettled (i e) (r e) g None)]) es)) =
     (if g = f then length es else 0)"
  by (induction es) auto

lemma batch_recordDelivered: "keeps (batch_rel rows ok me n B) (recordDelivered events t0)"
proof (cases events)
  case Nil
  then show ?thesis by (simp add: recordDelivered_def batch.keeps_ret)
next
  case (Cons e0 es)
  have "recordDelivered events t0 s = (Inr (), s\<lparr>d_summary := (d_summary s)\<lparr>cs_delivered := cs_delivered (d_summary s) + length events\<rparr>,
      en_trace := en_trace s @ Emit (HForward (ev_route_id e0) FDelivered (length events)) #
        concat (map (\<lambda>e. [Emit (HDelivered (ev_route_id e) (ev_received_at e) t0), Emit (HSettled (ev_id e) (ev_route_id e) FDelivered None)]) events)\<rparr>)"
    for s :: "'a dispatcher"
    using Cons unfolding recordDelivered_def
    by (simp add: settle_runs del: forE.simps)
  then show ?thesis
    by (intro keepsI) (auto intro!: batch_local simp: accounted_def)
qed

lemma batch_recordParked: "keeps (batch_rel rows ok me n B) (recordParked events reason)"
proof (cases events)
  case Nil
  then show ?thesis by (simp add: recordParked_def batch.keeps_ret)
next
  case (Cons e0 es)
  have "recordParked events reason s = (Inr (), s\<lparr>d_summary := (d_summary s)\<lparr>cs_parked := cs_parked (d_summary s) + length events\<rparr>,
      en_trace := en_trace s @ Emit (HForward (ev_route_id e0) FParked (length events)) #
        map (\<lambda>e. Emit (HSettled (ev_id e) (ev_route_id e) FParked (Some reason))) events\<rparr>)"
    for s :: "'a dispatcher"
    using Cons unfolding recordParked_def
    by (simp add: settle_runs del: forE.simps)
  then show ?thesis
    by (intro keepsI) (auto intro!: batch_local simp: accounted_def)
qed

lemma batch_record_retried:
  "keeps (batch_rel rows ok me n B) (thenE (in_summary (\<lambda>c. c\<lparr>cs_retried := cs_retried c + length events\<rparr>))
    (thenE (emit (HForward routeId FRetried (length events)))
      (forE (\<lambda>e. emit (HSettled (ev_id e) routeId FRetried (Some msg))) events)))" (is "keeps _ ?m")
proof -
  have "?m s = (Inr (), s\<lparr>d_summary := (d_summary s)\<lparr>cs_retried := cs_retried (d_summary s) + length events\<rparr>,
      en_trace := en_trace s @ Emit (HForward routeId FRetried (length events)) #
        map (\<lambda>e. Emit (HSettled (ev_id e) routeId FRetried (Some msg))) events\<rparr>)" for s
    by (simp add: settle_runs del: forE.simps)
  then show ?thesis
    by (intro keepsI) (auto intro!: batch_local simp: accounted_def)
qed

lemma batch_record_retried_one:
  "keeps (batch_rel rows ok me n B) (thenE (in_summary (\<lambda>c. c\<lparr>cs_retried := cs_retried c + 1\<rparr>))
    (thenE (emit (HForward (ev_route_id e) FRetried 1)) (emit (HSettled (ev_id e) (ev_route_id e) FRetried (Some msg)))))" (is "keeps _ ?m")
proof -
  have "?m s = (Inr (), s\<lparr>d_summary := (d_summary s)\<lparr>cs_retried := cs_retried (d_summary s) + 1\<rparr>,
      en_trace := en_trace s @ [Emit (HForward (ev_route_id e) FRetried 1), Emit (HSettled (ev_id e) (ev_route_id e) FRetried (Some msg))]\<rparr>)" for s
    by (simp add: settle_runs)
  then show ?thesis
    by (intro keepsI) (auto intro!: batch_local simp: accounted_def)
qed

section \<open>A batch keeps it\<close>

lemma framed_update:
  assumes "\<And>r. core (f r) = core r" and "\<And>r. r \<in> set rs \<Longrightarrow> P r \<Longrightarrow> ev_id r \<in> B"
  shows "list_all2 (\<lambda>r r'. core r' = core r \<and> (ev_id r \<notin> B \<longrightarrow> r' = r)) rs (update_where P f rs)"
  by (rule list_all2_update_where) (use assms in auto)

definition batch_part :: "string set \<Rightarrow> event_record list \<Rightarrow> bool" where
  "batch_part B mapped \<longleftrightarrow> ev_id ` set mapped \<subseteq> B \<and> distinct (map ev_id mapped)"

lemma batch_part_of: "part_of xs ys \<Longrightarrow> batch_part B ys \<Longrightarrow> batch_part B xs"
  by (auto simp: part_of_def batch_part_def)

text \<open>Quiet calls compose: they keep the relation "same events" of the host.\<close>

definition quiet_rel :: "('h \<Rightarrow> event_record list) \<Rightarrow> ('h \<Rightarrow> bool) \<Rightarrow> 'h \<Rightarrow> 'h \<Rightarrow> bool" where
  "quiet_rel rows ok h h' \<longleftrightarrow> (ok h \<longrightarrow> ok h' \<and> rows h' = rows h)"

interpretation quiet: step_relation "quiet_rel rows ok" for rows ok
  by unfold_locales (auto simp: quiet_rel_def)

lemma quiet_keeps: "quiet rows ok f \<longleftrightarrow> keeps (quiet_rel rows ok) f"
  by (auto simp: quiet_def keeps_def quiet_rel_def)

context engine_host
begin

lemma quiet_request: "quiet rows ok (request parse (ho_client D) verb path k body t)"
  using quiet_fetch unfolding request_def send_def quiet_keeps by (intro keeps_rules)

lemma batch_markParked:
  "distinct ids \<Longrightarrow> set ids \<subseteq> B \<Longrightarrow> keeps (batch_rel rows ok me n B) (host (st_markParked (ho_store D) ids err))"
  by (rule batch_updates [OF markParked]) (auto intro!: framed_update simp: with_ids_def)

lemma batch_markFailed:
  "distinct ids \<Longrightarrow> set ids \<subseteq> B \<Longrightarrow> keeps (batch_rel rows ok me n B) (host (st_markFailed (ho_store D) ids t0 err))"
  by (rule batch_updates [OF markFailed]) (auto intro!: framed_update simp: with_ids_def)

lemma batch_markDelivered:
  "distinct ids \<Longrightarrow> set ids \<subseteq> B \<Longrightarrow> keeps (batch_rel rows ok me n B) (host (st_markDelivered (ho_store D) ids t0 bulk))"
  by (rule batch_updates [OF markDelivered]) (auto intro!: framed_update simp: with_ids_def)

lemma batch_releaseDelivering:
  "distinct ids \<Longrightarrow> set ids \<subseteq> B \<Longrightarrow> keeps (batch_rel rows ok me n B) (host (st_releaseDelivering (ho_store D) ids t0 err))"
  by (rule batch_updates [OF releaseDelivering]) (auto intro!: framed_update simp: with_ids_def)

lemmas batch_calls = batch_quiet [OF quiet_request] batch_ask [OF quiet_now] batch_ask [OF quiet_random] batch_ask [OF quiet_sleep]
  batch_emit batch_observe batch_recordDelivered batch_recordParked

lemma batch_next_attempt: "keeps (batch_rel rows ok me n B) (next_attempt D cf attempts)"
  unfolding next_attempt_def by (intro keeps_rules batch_calls)

lemma batch_resolve: "keeps (batch_rel rows ok me n B) (resolve_pending D cf event payload pes r)"
proof (induction pes arbitrary: r)
  case Nil
  then show ?case by (simp add: batch.keeps_ret)
next
  case (Cons pe pes)
  then show ?case unfolding resolve_pending.simps Let_def
    by (intro keeps_rules batch_calls batch_ask [OF quiet_enrichment]) simp_all
qed

lemma batch_map_one:
  assumes "ev_id event \<in> B"
  shows "keeps (batch_rel rows ok me n B) (map_one D cf route event)"
  using assms unfolding map_one_def park_event_def retryOne_def resolveEnrichments_def
  by (intro keeps_rules batch_calls batch_markParked batch_markFailed batch_next_attempt batch_resolve batch_record_retried_one) simp_all

lemma batch_map_batch:
  "ev_id ` set events \<subseteq> B \<Longrightarrow> keeps (batch_rel rows ok me n B) (map_batch D cf route events)"
  by (induction events) (auto intro!: keeps_rules batch_map_one)

lemma batch_post:
  assumes "good_batch n records"
  shows "keeps (batch_rel rows ok me n B) (post_attempts D cf records attempt left lastErr)"
proof (induction left arbitrary: attempt lastErr)
  case 0
  then show ?case by (simp add: batch.keeps_throwE)
next
  case (Suc left)
  then show ?case unfolding post_attempts.simps bulkCreateRecords_def
    using assms by (intro keeps_rules batch_calls) auto
qed

lemma batch_marks:
  assumes "batch_part B mapped"
  shows "keeps (batch_rel rows ok me n B) (host (st_markParked (ho_store D) (map ev_id mapped) err))"
    and "keeps (batch_rel rows ok me n B) (host (st_markFailed (ho_store D) (map ev_id mapped) t0 err))"
    and "keeps (batch_rel rows ok me n B) (host (st_markDelivered (ho_store D) (map ev_id mapped) t0 bulk))"
    and "keeps (batch_rel rows ok me n B) (host (st_releaseDelivering (ho_store D) (map ev_id mapped) t0 err))"
  using assms
  by (auto simp: batch_part_def intro!: batch_markParked batch_markFailed batch_markDelivered batch_releaseDelivering)

lemma batch_deliver_all: "batch_part B mapped \<Longrightarrow> keeps (batch_rel rows ok me n B) (deliver_all D i mapped t0)"
  unfolding deliver_all_def by (intro keeps_rules batch_marks batch_calls)

lemma batch_settle_split: "batch_part B mapped \<Longrightarrow> keeps (batch_rel rows ok me n B) (settle_split D i mapped failed t0)"
  unfolding settle_split_def Let_def
  by (intro keeps_rules batch_marks batch_calls batch_part_of [OF part_of_rejected] batch_part_of [OF part_of_accepted])

lemma batch_poll: "batch_part B mapped \<Longrightarrow> keeps (batch_rel rows ok me n B) (poll_results D cf i mapped t0 left)"
proof (induction left)
  case 0
  then show ?case by (simp add: batch_deliver_all)
next
  case (Suc left)
  then show ?case unfolding poll_results.simps getBulkRequest_def
    by (intro keeps_rules batch_calls batch_deliver_all batch_settle_split)
qed

lemma batch_post_batch:
  assumes "batch_part B (map snd pairs)" and "good_batch n (map fst pairs)"
  shows "keeps (batch_rel rows ok me n B) (post_batch D cf routeId pairs)"
  using assms unfolding post_batch_def Let_def postWithRetries_def settleResults_def park_batch_def retry_batch_def
  by (intro keeps_rules batch_calls batch_post batch_poll batch_marks batch_next_attempt batch_record_retried) simp_all

lemma batch_deliverBatch:
  assumes "batch_part B claimed" and "length claimed \<le> n"
  shows "keeps (batch_rel rows ok me n B) (deliverBatch D cf route claimed)"
  unfolding deliverBatch_def
proof (rule batch.keeps_bindE_val)
  show "keeps (batch_rel rows ok me n B) (map_batch D cf route claimed)"
    using assms by (intro batch_map_batch) (simp add: batch_part_def)
next
  fix s pairs s' assume "map_batch D cf route claimed s = (Inr pairs, s')"
  from map_batch_result [OF this] have part: "part_of (map snd pairs) claimed" and clean: "\<forall>r \<in> set (map fst pairs). clean_record r"
    by blast+
  show "keeps (batch_rel rows ok me n B) (if pairs = [] then ret () else post_batch D cf (r_id route) pairs)"
  proof (cases "pairs = []")
    case False
    with part clean assms(2) have "good_batch n (map fst pairs)" by (auto simp: good_batch_def part_of_def)
    with False batch_part_of [OF part assms(1)] show ?thesis by (simp add: batch_post_batch)
  qed (simp add: batch.keeps_ret)
qed

lemma batch_releaseLeftover:
  "batch_part B claimed \<Longrightarrow> keeps (batch_rel rows ok (cf_instanceId cf) n B) (releaseLeftover D cf claimed err)"
  unfolding releaseLeftover_def by (intro keeps_rules batch_calls batch_marks batch_set_reclaim) simp_all

end

section \<open>The relation of a cycle\<close>

text \<open>
  A row keeps its identity and its payload; a row that was settled, filtered or parked before
  stays as it is.  A row found \<open>delivering\<close> afterwards was so before, unless the dispatcher
  remembers to reclaim its own rows.
\<close>

definition row_step :: "event_record \<Rightarrow> event_record \<Rightarrow> bool" where
  "row_step r r' \<longleftrightarrow> core r' = core r \<and> (ev_status r \<in> {Delivered, DroppedByFilter, Parked} \<longrightarrow> r' = r)"

definition cycle_rel ::
  "('h \<Rightarrow> event_record list) \<Rightarrow> ('h \<Rightarrow> bool) \<Rightarrow> string \<Rightarrow> nat \<Rightarrow> 'h dispatcher \<Rightarrow> 'h dispatcher \<Rightarrow> bool" where
  "cycle_rel rows ok me n s s' \<longleftrightarrow> (ok (en_host s) \<longrightarrow> ok (en_host s') \<and>
     list_all2 row_step (rows (en_host s)) (rows (en_host s')) \<and>
     (d_reclaimOwner s' = d_reclaimOwner s \<or> d_reclaimOwner s' = Some me) \<and>
     (d_reclaimOwner s' = Some me \<or>
        (\<forall>r \<in> set (rows (en_host s')). ev_status r = Delivering \<longrightarrow> r \<in> set (rows (en_host s)))) \<and>
     traced n s s')"

lemma row_step_refl: "row_step r r" and row_step_trans: "row_step p q \<Longrightarrow> row_step q r \<Longrightarrow> row_step p r"
  by (auto simp: row_step_def)

interpretation cycle: step_relation "cycle_rel rows ok me n" for rows ok me n
proof
  show "cycle_rel rows ok me n s s" for s
    by (simp add: cycle_rel_def list_all2_refl row_step_refl)
next
  fix s t u assume st: "cycle_rel rows ok me n s t" and tu: "cycle_rel rows ok me n t u"
  show "cycle_rel rows ok me n s u" unfolding cycle_rel_def
  proof (intro impI)
    assume "ok (en_host s)"
    with st have 1: "ok (en_host t)" "list_all2 row_step (rows (en_host s)) (rows (en_host t))" "traced n s t"
      "d_reclaimOwner t = d_reclaimOwner s \<or> d_reclaimOwner t = Some me"
      "d_reclaimOwner t = Some me \<or> (\<forall>r \<in> set (rows (en_host t)). ev_status r = Delivering \<longrightarrow> r \<in> set (rows (en_host s)))"
      by (simp_all add: cycle_rel_def)
    with tu have 2: "ok (en_host u)" "list_all2 row_step (rows (en_host t)) (rows (en_host u))" "traced n t u"
      "d_reclaimOwner u = d_reclaimOwner t \<or> d_reclaimOwner u = Some me"
      "d_reclaimOwner u = Some me \<or> (\<forall>r \<in> set (rows (en_host u)). ev_status r = Delivering \<longrightarrow> r \<in> set (rows (en_host t)))"
      by (simp_all add: cycle_rel_def)
    have "list_all2 row_step (rows (en_host s)) (rows (en_host u))"
      using list_all2_trans [OF row_step_trans 1(2) 2(2)] .
    moreover have "d_reclaimOwner u = d_reclaimOwner s \<or> d_reclaimOwner u = Some me"
      using 1(4) 2(4) by auto
    moreover have "d_reclaimOwner u = Some me \<or>
      (\<forall>r \<in> set (rows (en_host u)). ev_status r = Delivering \<longrightarrow> r \<in> set (rows (en_host s)))"
    proof (cases "d_reclaimOwner u = Some me")
      case False
      with 2(4) have "d_reclaimOwner t \<noteq> Some me" by auto
      with False 1(5) 2(5) show ?thesis by auto
    qed simp
    moreover have "traced n s u" using 1(3) 2(3) by (rule traced_trans)
    ultimately show "ok (en_host u) \<and> list_all2 row_step (rows (en_host s)) (rows (en_host u)) \<and>
      (d_reclaimOwner u = d_reclaimOwner s \<or> d_reclaimOwner u = Some me) \<and>
      (d_reclaimOwner u = Some me \<or> (\<forall>r \<in> set (rows (en_host u)). ev_status r = Delivering \<longrightarrow> r \<in> set (rows (en_host s)))) \<and>
      traced n s u" using 2(1) by blast
  qed
qed

lemma cycle_same:
  "same_rows rows ok s s' \<Longrightarrow> d_reclaimOwner s' = d_reclaimOwner s \<Longrightarrow> traced n s s' \<Longrightarrow> cycle_rel rows ok me n s s'"
  by (auto simp: cycle_rel_def same_rows_def list_all2_refl row_step_refl)

lemma cycle_quiet: "quiet rows ok f \<Longrightarrow> keeps (cycle_rel rows ok me n) (host f)"
  by (auto simp: keeps_def host_def zoomE_def quiet_def cycle_rel_def list_all2_refl row_step_refl split_beta traced_same)

lemma cycle_ask: "quiet rows ok g \<Longrightarrow> keeps (cycle_rel rows ok me n) (ask g)"
  by (auto simp: keeps_def host_def ask_def zoomE_def quiet_def cycle_rel_def list_all2_refl row_step_refl split_beta traced_same)

text \<open>A change of the summary that leaves the counters alone.\<close>

lemma cycle_in_summary:
  assumes "\<And>c. cs_delivered (f c) = cs_delivered c \<and> cs_retried (f c) = cs_retried c \<and> cs_parked (f c) = cs_parked c"
  shows "keeps (cycle_rel rows ok me n) (in_summary f)"
  by (rule keepsI) (auto simp: in_summary_run cycle_rel_def list_all2_refl row_step_refl traced_def accounted_def assms
      intro!: exI [of _ "[]"])

context engine_host
begin

text \<open>A batch, from the claim to the release of what is left.\<close>

lemma due_claimed:
  assumes "r \<in> set rs" and "wf_rows rs" and "ev_id r \<in> set (map ev_id (due_rows rs route now limit))"
  shows "r \<in> set (due_rows rs route now limit)"
proof -
  from assms(3) obtain q where q: "q \<in> set (due_rows rs route now limit)" "ev_id q = ev_id r" by auto
  then have "q \<in> set rs" by (auto simp: due_rows_def dest: in_set_takeD)
  with q assms(1,2) show ?thesis by (metis distinct_key_eq wf_rows_def)
qed

lemma releaseLeftover_settles:
  assumes "releaseLeftover D cf claimed err s = (r, s')" and "ok (en_host s)" and "distinct (map ev_id claimed)"
    and "ev_id ` set claimed \<subseteq> ev_id ` set (rows (en_host s))"
  shows "d_reclaimOwner s' = Some (cf_instanceId cf) \<or>
    (\<forall>r \<in> set (rows (en_host s')). ev_id r \<in> ev_id ` set claimed \<longrightarrow> ev_status r \<noteq> Delivering)"
proof -
  obtain t h1 where now: "ho_now D (en_host s) = (t, h1)" by fastforce
  have "ok (snd (ho_now D (en_host s))) \<and> rows (snd (ho_now D (en_host s))) = rows (en_host s)"
    using quiet_now assms(2) by (simp add: quiet_def)
  then have h1: "ok h1" and rows1: "rows h1 = rows (en_host s)" by (simp_all add: now)
  have known: "set (map ev_id claimed) \<subseteq> ev_id ` set (rows h1)" using assms(4) rows1 by simp
  obtain x h2 where rel: "st_releaseDelivering (ho_store D) (map ev_id claimed) t err h1 = (x, h2)" by fastforce
  note up = updatesD [OF releaseDelivering [OF h1 assms(3) known] rel]
  show ?thesis
  proof (cases x)
    case (Inl e)
    with assms(1) now rel have "d_reclaimOwner s' = Some (cf_instanceId cf)"
      by (auto simp: releaseLeftover_def catchE_def bindE_def ask_def host_def zoomE_def thenE_def set_reclaim_def
          modifyE_def emit_run)
    then show ?thesis ..
  next
    case (Inr k)
    with assms(1) now rel have s': "en_host s' = h2"
      by (auto simp: releaseLeftover_def catchE_def bindE_def ask_def host_def zoomE_def ret_def)
    have "rows h2 = update_where (\<lambda>r. with_ids (map ev_id claimed) r \<and> ev_status r = Delivering) (fail_row t err) (rows h1)"
      using up(3) [OF Inr] by simp
    then have "\<forall>r \<in> set (rows h2). ev_id r \<in> ev_id ` set claimed \<longrightarrow> ev_status r \<noteq> Delivering"
      by (auto simp: set_update_where with_ids_def fail_row_def clear_lease_def split: if_splits)
    then show ?thesis by (simp add: s')
  qed
qed

lemma batch_step_row:
  assumes "wf_rows rs" and "B = ev_id ` set (due_rows rs route now limit)"
    and "list_all2 (\<lambda>r r'. core r' = core r \<and> (ev_id r \<notin> B \<longrightarrow> r' = r))
      (update_where (\<lambda>r. r \<in> set (due_rows rs route now limit)) (claim_row now l) rs) rs'"
  shows "list_all2 row_step rs rs'"
    and "r' \<in> set rs' \<Longrightarrow> ev_id r' \<notin> B \<Longrightarrow> r' \<in> set rs"
proof -
  let ?due = "due_rows rs route now limit"
  have due: "r \<in> set ?due \<longleftrightarrow> ev_id r \<in> B" if "r \<in> set rs" for r
    using due_claimed [OF that assms(1)] assms(2) by auto
  have pending: "ev_status r \<in> {Pending, Retry}" if "r \<in> set ?due" for r
    using that by (auto simp: due_rows_def is_due_def dest: in_set_takeD)
  have len: "length rs = length rs'" using list_all2_lengthD [OF assms(3)] by simp
  have each: "core (rs' ! i) = core (rs ! i) \<and> (ev_id (rs ! i) \<notin> B \<longrightarrow> rs' ! i = rs ! i) \<and>
      (ev_id (rs ! i) \<in> B \<longrightarrow> ev_status (rs ! i) \<in> {Pending, Retry})" if i: "i < length rs" for i
  proof -
    have "core (rs' ! i) = core (update_where (\<lambda>r. r \<in> set ?due) (claim_row now l) rs ! i) \<and>
        (ev_id (update_where (\<lambda>r. r \<in> set ?due) (claim_row now l) rs ! i) \<notin> B \<longrightarrow>
          rs' ! i = update_where (\<lambda>r. r \<in> set ?due) (claim_row now l) rs ! i)"
      using list_all2_nthD [OF assms(3), of i] i by simp
    moreover have "update_where (\<lambda>r. r \<in> set ?due) (claim_row now l) rs ! i = (if rs ! i \<in> set ?due then claim_row now l (rs ! i) else rs ! i)"
      using i by (simp add: update_where_def)
    ultimately show ?thesis using due [OF nth_mem [OF i]] pending [of "rs ! i"] by (auto split: if_splits)
  qed
  show "list_all2 row_step rs rs'"
    unfolding list_all2_conv_all_nth row_step_def using each len by fastforce
  show "r' \<in> set rs" if r': "r' \<in> set rs'" "ev_id r' \<notin> B"
  proof -
    obtain i where i: "i < length rs" "rs' ! i = r'" using r'(1) len by (metis in_set_conv_nth)
    with each [OF i(1)] core_fields [of "rs' ! i" "rs ! i"] r'(2) have "r' = rs ! i" by auto
    with i show ?thesis by simp
  qed
qed

lemma cycle_claim:
  "keeps (cycle_rel rows ok (cf_instanceId cf) (batchMax (cf_dispatch cf))) (claim_and_deliver D cf now route routeId)"
  unfolding claim_and_deliver_def
proof (rule cycle.keeps_bindE [OF cycle_ask [OF quiet_now]], rule keepsI)
  fix t :: int and s :: "'h dispatcher"
  let ?n = "batchMax (cf_dispatch cf)" and ?me = "cf_instanceId cf"
  let ?l = "\<lparr>lease_owner = ?me, lease_end = t + leaseMs (cf_dispatch cf)\<rparr>"
  let ?rest = "\<lambda>claimed. if claimed = [] then ret ()
       else finallyE (deliverBatch D cf route claimed) (releaseLeftover D cf claimed ''left delivering after batch'')"
  let ?rs = "rows (en_host s)" and ?due = "due_rows (rows (en_host s)) routeId now ?n"
  obtain x h2 where cl: "st_claimDue (ho_store D) routeId now ?n ?l (en_host s) = (x, h2)" by fastforce
  then have claim: "host (st_claimDue (ho_store D) routeId now ?n ?l) s = (x, s\<lparr>en_host := h2\<rparr>)"
    by (simp add: host_def zoomE_def)
  show "cycle_rel rows ok ?me ?n s (snd (bindE (host (st_claimDue (ho_store D) routeId now ?n ?l)) ?rest s))"
    unfolding cycle_rel_def
  proof (intro impI)
    assume ok: "ok (en_host s)"
    note up = updatesD [OF claimDue [OF ok] cl] and wf = wf [OF ok]
    let ?goal = "\<lambda>s'. ok (en_host s') \<and> list_all2 row_step ?rs (rows (en_host s')) \<and>
        (d_reclaimOwner s' = d_reclaimOwner s \<or> d_reclaimOwner s' = Some ?me) \<and>
        (d_reclaimOwner s' = Some ?me \<or> (\<forall>r \<in> set (rows (en_host s')). ev_status r = Delivering \<longrightarrow> r \<in> set ?rs)) \<and> traced ?n s s'"
    have unchanged: "?goal (s\<lparr>en_host := h2\<rparr>)" if "rows h2 = ?rs"
      using that up(1) by (simp add: list_all2_refl row_step_refl traced_same)
    show "?goal (snd (bindE (host (st_claimDue (ho_store D) routeId now ?n ?l)) ?rest s))"
    proof (cases x)
      case (Inl e)
      with unchanged up(2) claim show ?thesis by (simp add: bindE_def)
    next
      case (Inr claimed)
      with up(3) have c: "claimed = map (claim_row now ?l) ?due"
        and rs2: "rows h2 = update_where (\<lambda>r. r \<in> set ?due) (claim_row now ?l) ?rs" by blast+
      show ?thesis
      proof (cases "claimed = []")
        case True
        with c rs2 have "rows h2 = ?rs" by simp
        with unchanged claim Inr True show ?thesis by (simp add: bindE_def ret_def)
      next
        case False
        let ?s2 = "s\<lparr>en_host := h2\<rparr>" and ?B = "ev_id ` set ?due"
        obtain r3 s3 where del: "deliverBatch D cf route claimed ?s2 = (r3, s3)" by fastforce
        obtain r4 s4 where rel: "releaseLeftover D cf claimed ''left delivering after batch'' s3 = (r4, s4)" by fastforce
        have final: "snd (bindE (host (st_claimDue (ho_store D) routeId now ?n ?l)) ?rest s) = s4"
          using claim Inr False del rel by (simp add: bindE_def finallyE_def split: sum.splits)
        have ids: "ev_id ` set claimed = ?B" by (simp add: c image_image)
        have "distinct (map ev_id ?due)" using wf by (simp add: due_rows_def wf_rows_def distinct_map_take distinct_map_filter)
        then have part: "batch_part ?B claimed" by (simp add: batch_part_def c image_image comp_def)
        have len: "length claimed \<le> ?n" by (simp add: c due_rows_def)
        have "?B \<subseteq> ev_id ` set (rows h2)"
        proof -
          have "map ev_id (rows h2) = map ev_id ?rs" by (simp add: rs2)
          then have "ev_id ` set (rows h2) = ev_id ` set ?rs" by (metis list.set_map)
          moreover have "set ?due \<subseteq> set ?rs" by (auto simp: due_rows_def dest: in_set_takeD)
          ultimately show ?thesis by blast
        qed
        with up(1) have hold2: "holding rows ok ?B (en_host ?s2)" by (simp add: holding_def)
        have b23: "batch_rel rows ok ?me ?n ?B ?s2 s3" by (rule keepsD [OF batch_deliverBatch [OF part len] del])
        then have hold3: "holding rows ok ?B (en_host s3)" using hold2 by (simp add: batch_rel_def)
        have b34: "batch_rel rows ok ?me ?n ?B s3 s4" by (rule keepsD [OF batch_releaseLeftover [OF part] rel])
        from batch.R_trans [OF b23 b34] have b: "batch_rel rows ok ?me ?n ?B ?s2 s4" .
        then have s4: "ok (en_host s4)" "d_reclaimOwner s4 = d_reclaimOwner s \<or> d_reclaimOwner s4 = Some ?me" "traced ?n ?s2 s4"
          and rs4: "list_all2 (\<lambda>r r'. core r' = core r \<and> (ev_id r \<notin> ?B \<longrightarrow> r' = r)) (rows h2) (rows (en_host s4))"
          using hold2 by (simp_all add: batch_rel_def holding_def)
        note step = batch_step_row [OF wf refl rs4 [unfolded rs2]]
        have "d_reclaimOwner s4 = Some ?me \<or> (\<forall>r \<in> set (rows (en_host s4)). ev_status r = Delivering \<longrightarrow> r \<in> set ?rs)"
          using releaseLeftover_settles [OF rel] hold3 part step(2) by (auto simp: batch_part_def ids holding_def)
        moreover have "traced ?n s s4" using s4(3) by (simp add: traced_def)
        ultimately show ?thesis unfolding final using s4 step(1) by auto
      qed
    qed
  qed
qed

lemma cycle_visit_routes:
  "keeps (cycle_rel rows ok (cf_instanceId cf) (batchMax (cf_dispatch cf))) (visit_routes D cf abort now due)"
proof (induction due)
  case Nil
  then show ?case by (simp add: cycle.keeps_ret)
next
  case (Cons routeId due)
  then show ?case unfolding visit_routes.simps visit_route_def skip_route_def
    by (intro keeps_rules cycle_quiet quiet_route quiet_paused cycle_claim cycle_in_summary) simp_all
qed

end

end
