(* ===== verification/CycleFacts.thy ===== *)
theory CycleFacts imports DispatcherFacts begin

text \<open>
  The whole dispatch cycle: the sweep of expired leases, the killswitch, the routes, and what
  holds of the stored events, of the counters and of the batches posted when it ends, whether
  it returns or throws.
\<close>

section \<open>The sweep\<close>

text \<open>The rows this instance may have left \<open>delivering\<close> are known to be reclaimed.\<close>

definition reclaims :: "('h \<Rightarrow> event_record list) \<Rightarrow> string \<Rightarrow> 'h dispatcher \<Rightarrow> bool" where
  "reclaims rows me s \<longleftrightarrow> d_reclaimOwner s = Some me \<or> d_reclaimOwner s = None \<and>
     (\<forall>r \<in> set (rows (en_host s)). ev_status r = Delivering \<longrightarrow> ev_claimed_by r \<noteq> Some me)"

definition sweep_rel ::
  "('h \<Rightarrow> event_record list) \<Rightarrow> ('h \<Rightarrow> bool) \<Rightarrow> string \<Rightarrow> nat \<Rightarrow> 'h dispatcher \<Rightarrow> 'h dispatcher \<Rightarrow> bool" where
  "sweep_rel rows ok me n s s' \<longleftrightarrow> (ok (en_host s) \<longrightarrow> ok (en_host s') \<and>
     list_all2 row_step (rows (en_host s)) (rows (en_host s')) \<and>
     (\<forall>r \<in> set (rows (en_host s')). ev_status r = Delivering \<longrightarrow> r \<in> set (rows (en_host s))) \<and>
     (reclaims rows me s \<longrightarrow> reclaims rows me s') \<and> traced n s s')"

interpretation sweep: step_relation "sweep_rel rows ok me n" for rows ok me n
proof
  show "sweep_rel rows ok me n s s" for s
    by (simp add: sweep_rel_def list_all2_refl row_step_refl)
next
  fix s t u assume st: "sweep_rel rows ok me n s t" and tu: "sweep_rel rows ok me n t u"
  show "sweep_rel rows ok me n s u" unfolding sweep_rel_def
  proof (intro impI)
    assume "ok (en_host s)"
    with st have 1: "ok (en_host t)" "list_all2 row_step (rows (en_host s)) (rows (en_host t))" "traced n s t"
      "reclaims rows me s \<longrightarrow> reclaims rows me t"
      "\<forall>r \<in> set (rows (en_host t)). ev_status r = Delivering \<longrightarrow> r \<in> set (rows (en_host s))"
      by (simp_all add: sweep_rel_def)
    with tu have 2: "ok (en_host u)" "list_all2 row_step (rows (en_host t)) (rows (en_host u))" "traced n t u"
      "reclaims rows me t \<longrightarrow> reclaims rows me u"
      "\<forall>r \<in> set (rows (en_host u)). ev_status r = Delivering \<longrightarrow> r \<in> set (rows (en_host t))"
      by (simp_all add: sweep_rel_def)
    have "list_all2 row_step (rows (en_host s)) (rows (en_host u))"
      using list_all2_trans [OF row_step_trans 1(2) 2(2)] .
    with 1 2 traced_trans show "ok (en_host u) \<and> list_all2 row_step (rows (en_host s)) (rows (en_host u)) \<and>
      (\<forall>r \<in> set (rows (en_host u)). ev_status r = Delivering \<longrightarrow> r \<in> set (rows (en_host s))) \<and>
      (reclaims rows me s \<longrightarrow> reclaims rows me u) \<and> traced n s u" by blast
  qed
qed

lemma sweep_ask: "quiet rows ok g \<Longrightarrow> keeps (sweep_rel rows ok me n) (ask g)"
  by (auto simp: keeps_def host_def ask_def zoomE_def quiet_def sweep_rel_def list_all2_refl row_step_refl split_beta
      traced_same reclaims_def)

lemma sweep_emit: "(\<forall>f. \<not> settled_as f (Emit e)) \<Longrightarrow> keeps (sweep_rel rows ok me n) (emit e)"
  by (auto simp: keeps_def emit_run sweep_rel_def list_all2_refl row_step_refl traced_def reclaims_def
      intro!: exI [of _ "[Emit e]"] accounted_plain)

lemma sweep_swept: "keeps (sweep_rel rows ok me n) (modifyE (\<lambda>s. s\<lparr>d_lastSweepAt := t\<rparr>))"
  by (auto simp: keeps_def modifyE_def sweep_rel_def list_all2_refl row_step_refl traced_same reclaims_def)

lemma swept_rows:
  assumes "\<And>r. core (f r) = core r" and "\<And>r. P r \<Longrightarrow> ev_status r \<in> {Delivering, Retry}" and "\<And>r. ev_status (f r) \<noteq> Delivering"
  shows "list_all2 row_step rs (update_where P f rs)"
    and "r \<in> set (update_where P f rs) \<Longrightarrow> ev_status r = Delivering \<Longrightarrow> r \<in> set rs \<and> \<not> P r"
  using assms by (auto intro!: list_all2_update_where simp: row_step_def set_update_where split: if_splits; fastforce)+

text \<open>Single steps of a run, for rewriting.\<close>

lemma bindE_run: "m s = (Inr x, s1) \<Longrightarrow> bindE m k s = k x s1"
  by (simp add: bindE_def)

lemma bindE_gets [simp]: "bindE (getsE f) k s = k (f s) s"
  by (simp add: bindE_def getsE_def)

lemma bindE_ask: "g (en_host s) = (x, h) \<Longrightarrow> bindE (ask g) k s = k x (s\<lparr>en_host := h\<rparr>)"
  by (simp add: bindE_def ask_def host_def zoomE_def)

context engine_host
begin

lemma sweep_parkExpired: "keeps (sweep_rel rows ok me n) (host (st_parkExpired (ho_store D) now age))"
proof (rule keepsI)
  fix s :: "'h dispatcher"
  obtain x h' where m: "st_parkExpired (ho_store D) now age (en_host s) = (x, h')" by fastforce
  show "sweep_rel rows ok me n s (snd (host (st_parkExpired (ho_store D) now age) s))"
    unfolding sweep_rel_def
  proof (intro impI)
    assume ok: "ok (en_host s)"
    note up = updatesD [OF parkExpired [OF ok] m]
    have "list_all2 row_step (rows (en_host s)) (rows h') \<and>
        (\<forall>r \<in> set (rows h'). ev_status r = Delivering \<longrightarrow> r \<in> set (rows (en_host s)))"
    proof (cases x)
      case (Inl e)
      with up(2) show ?thesis by (simp add: list_all2_refl row_step_refl)
    next
      case (Inr k)
      with up(3) have "rows h' = update_where (expired (now - age)) expire_row (rows (en_host s))" by simp
      then show ?thesis
        using swept_rows [where f = expire_row and P = "expired (now - age)" and rs = "rows (en_host s)"] by (simp add: expire_row_def expired_def core_def)
    qed
    then show "ok (en_host (snd (host (st_parkExpired (ho_store D) now age) s))) \<and>
      list_all2 row_step (rows (en_host s)) (rows (en_host (snd (host (st_parkExpired (ho_store D) now age) s)))) \<and>
      (\<forall>r \<in> set (rows (en_host (snd (host (st_parkExpired (ho_store D) now age) s)))). ev_status r = Delivering \<longrightarrow> r \<in> set (rows (en_host s))) \<and>
      (reclaims rows me s \<longrightarrow> reclaims rows me (snd (host (st_parkExpired (ho_store D) now age) s))) \<and>
      traced n s (snd (host (st_parkExpired (ho_store D) now age) s))"
      using up(1) m by (auto simp: host_def zoomE_def traced_same reclaims_def)
  qed
qed

text \<open>Recovering by owner and forgetting the owner are one step.\<close>

lemma sweep_recover:
  assumes "d_reclaimOwner s = owner" and "owner = None \<or> owner = Some me"
    and "keeps (sweep_rel rows ok me n) m"
  shows "sweep_rel rows ok me n s (snd (bindE (host (st_recoverDelivering (ho_store D) now owner)) (\<lambda>_. thenE (set_reclaim None) m) s))"
proof -
  obtain x h' where rec: "st_recoverDelivering (ho_store D) now owner (en_host s) = (x, h')" by fastforce
  let ?t = "s\<lparr>en_host := h', d_reclaimOwner := None\<rparr>"
  have mid: "sweep_rel rows ok me n s ?t" if x: "x = Inr k" for k
    unfolding sweep_rel_def
  proof (intro impI)
    assume ok: "ok (en_host s)"
    note up = updatesD [OF recoverDelivering [OF ok] rec]
    have rs: "rows h' = update_where (recoverable now owner) (recover_row now) (rows (en_host s))" using up(3) [OF x] by simp
    note sw = swept_rows [where f = "recover_row now" and P = "recoverable now owner" and rs = "rows (en_host s)", folded rs]
    have rec_row: "core (recover_row now r) = core r" "ev_status (recover_row now r) \<noteq> Delivering"
      "recoverable now owner r \<Longrightarrow> ev_status r \<in> {Delivering, Retry}" for r
      by (simp_all add: recover_row_def clear_lease_def recoverable_def core_def)
    have mine: "\<not> recoverable now owner r \<Longrightarrow> ev_status r = Delivering \<Longrightarrow> owner = Some me \<Longrightarrow> ev_claimed_by r \<noteq> Some me" for r
      by (simp add: recoverable_def)
    have "reclaims rows me s \<longrightarrow> reclaims rows me ?t"
      using sw(2) [OF rec_row(1) rec_row(3) rec_row(2)] mine assms(1,2) by (auto simp: reclaims_def)
    then show "ok (en_host ?t) \<and> list_all2 row_step (rows (en_host s)) (rows (en_host ?t)) \<and>
      (\<forall>r \<in> set (rows (en_host ?t)). ev_status r = Delivering \<longrightarrow> r \<in> set (rows (en_host s))) \<and>
      (reclaims rows me s \<longrightarrow> reclaims rows me ?t) \<and> traced n s ?t"
      using up(1) sw(1) [OF rec_row(1) rec_row(3) rec_row(2)] sw(2) [OF rec_row(1) rec_row(3) rec_row(2)] by (auto simp: traced_same)
  qed
  show ?thesis
  proof (cases x)
    case (Inl e)
    have "sweep_rel rows ok me n s (s\<lparr>en_host := h'\<rparr>)"
      using updatesD [OF recoverDelivering rec] Inl
      by (auto simp: sweep_rel_def list_all2_refl row_step_refl traced_same reclaims_def)
    with rec Inl show ?thesis by (simp add: bindE_def host_def zoomE_def)
  next
    case (Inr k)
    have "snd (bindE (host (st_recoverDelivering (ho_store D) now owner)) (\<lambda>_. thenE (set_reclaim None) m) s) = snd (m ?t)"
      using rec Inr by (simp add: bindE_def thenE_def host_def zoomE_def set_reclaim_def modifyE_def)
    moreover have "sweep_rel rows ok me n ?t (snd (m ?t))" using assms(3) by (simp add: keeps_def)
    ultimately show ?thesis using sweep.R_trans [OF mid [OF Inr]] by simp
  qed
qed

lemma sweep_sweeps:
  assumes "d_reclaimOwner s = None \<or> d_reclaimOwner s = Some me"
  shows "sweep_rel rows ok me n s (snd (sweep D cf now s))"
proof -
  obtain t h1 where t: "ho_now D (en_host s) = (t, h1)" by fastforce
  let ?s1 = "s\<lparr>en_host := h1\<rparr>" and ?due = "recoverIntervalMs (cf_dispatch cf) \<le> t - d_lastSweepAt s"
  let ?after = "whenE ?due (bindE (host (st_parkExpired (ho_store D) now (parkAfterMs (cf_dispatch cf)))) (\<lambda>_.
                  bindE (ask (ho_now D)) (\<lambda>t'. modifyE (\<lambda>s. s\<lparr>d_lastSweepAt := t'\<rparr>))))"
  let ?m = "bindE (host (st_recoverDelivering (ho_store D) now (d_reclaimOwner s))) (\<lambda>_. thenE (set_reclaim None) ?after)"
  have run: "sweep D cf now s = whenE (d_reclaimOwner s \<noteq> None \<or> ?due) (catchE ?m (\<lambda>err. emit (HError RecoverDelivering err None None))) ?s1"
    by (simp add: sweep_def bindE_ask [where g = "ho_now D", OF t] Let_def)
  have first: "sweep_rel rows ok me n s ?s1"
    using keepsD [OF sweep_ask [OF quiet_now], of s "Inr t" ?s1 me n] t by (simp add: ask_def host_def zoomE_def)
  have "keeps (sweep_rel rows ok me n) ?after"
    by (intro keeps_rules sweep_parkExpired sweep_ask quiet_now sweep_swept)
  then have m: "sweep_rel rows ok me n ?s1 (snd (?m ?s1))"
    using assms by (intro sweep_recover) auto
  have "sweep_rel rows ok me n ?s1 (snd (catchE ?m (\<lambda>err. emit (HError RecoverDelivering err None None)) ?s1))"
  proof (cases "?m ?s1")
    case (Pair x s2)
    show ?thesis
    proof (cases x)
      case (Inl e)
      have "sweep_rel rows ok me n s2 (snd (emit (HError RecoverDelivering e None None) s2))"
        by (rule sweep_emit [unfolded keeps_def, THEN spec]) simp
      with m Pair Inl show ?thesis by (simp add: catchE_def) (erule (1) sweep.R_trans)
    next
      case (Inr u)
      with m Pair show ?thesis by (simp add: catchE_def)
    qed
  qed
  from sweep.R_trans [OF first this] first show ?thesis unfolding run whenE_def by (simp add: ret_def)
qed

section \<open>The cycle\<close>

lemma cycle_tail:
  "keeps (cycle_rel rows ok (cf_instanceId cf) (batchMax (cf_dispatch cf)))
    (bindE (host (ct_getKillswitch (ho_control D))) (\<lambda>k.
      if k \<noteq> KillNone then thenE (in_summary (\<lambda>c. c\<lparr>cs_halted := True\<rparr>)) (getsE d_summary)
      else
        bindE (host (st_routesWithDueEvents (ho_store D) now)) (\<lambda>due.
        thenE (in_summary (\<lambda>c. c\<lparr>cs_due := due\<rparr>))
       (thenE (visit_routes D cf abort now due)
         (getsE d_summary)))))"
proof -
  have "quiet rows ok (st_routesWithDueEvents (ho_store D) now)"
    unfolding quiet_def
  proof (intro allI impI)
    fix h assume ok: "ok h"
    obtain x h' where m: "st_routesWithDueEvents (ho_store D) now h = (x, h')" by fastforce
    show "ok (snd (st_routesWithDueEvents (ho_store D) now h)) \<and> rows (snd (st_routesWithDueEvents (ho_store D) now h)) = rows h"
      using updatesD [OF routesWithDueEvents [OF ok] m] m by (cases x) auto
  qed
  then show ?thesis by (intro keeps_rules cycle_quiet quiet_killswitch cycle_in_summary cycle_visit_routes) simp_all
qed

lemma cycle_effect:
  assumes "ok (en_host s)" and "reclaims rows (cf_instanceId cf) s" and "cycle D cf abort s = (r, s')"
  shows "ok (en_host s') \<and> list_all2 row_step (rows (en_host s)) (rows (en_host s')) \<and> reclaims rows (cf_instanceId cf) s' \<and>
    (\<exists>tr. en_trace s' = en_trace s @ tr \<and> accounted (batchMax (cf_dispatch cf)) new_summary tr (d_summary s'))"
proof -
  let ?me = "cf_instanceId cf" and ?n = "batchMax (cf_dispatch cf)"
  obtain now h1 where t: "ho_now D (en_host s) = (now, h1)" by fastforce
  let ?s2 = "s\<lparr>en_host := h1, d_summary := new_summary\<rparr>"
  have h1: "ok h1" "rows h1 = rows (en_host s)" using quiet_now assms(1) t by (metis quiet_def snd_conv)+
  obtain r3 s3 where sw: "sweep D cf now ?s2 = (r3, s3)" by fastforce
  have "d_reclaimOwner ?s2 = None \<or> d_reclaimOwner ?s2 = Some ?me" using assms(2) by (auto simp: reclaims_def)
  from sweep_sweeps [OF this, of ?n] sw have swept: "sweep_rel rows ok ?me ?n ?s2 s3" by (metis snd_conv)
  have "reclaims rows ?me ?s2" using assms(2) h1 by (simp add: reclaims_def)
  with swept h1 have 3: "ok (en_host s3)" "list_all2 row_step (rows (en_host s)) (rows (en_host s3))" "reclaims rows ?me s3" "traced ?n ?s2 s3"
    by (auto simp: sweep_rel_def)
  let ?tail = "bindE (host (ct_getKillswitch (ho_control D))) (\<lambda>k.
      if k \<noteq> KillNone then thenE (in_summary (\<lambda>c. c\<lparr>cs_halted := True\<rparr>)) (getsE d_summary)
      else
        bindE (host (st_routesWithDueEvents (ho_store D) now)) (\<lambda>due.
        thenE (in_summary (\<lambda>c. c\<lparr>cs_due := due\<rparr>))
       (thenE (visit_routes D cf abort now due)
         (getsE d_summary))))"
  have run: "cycle D cf abort s = thenE (sweep D cf now) ?tail ?s2"
    by (simp add: cycle_def bindE_ask [where g = "ho_now D", OF t] thenE_run [OF in_summary_run])
  have "cycle_rel rows ok ?me ?n s3 s'"
  proof (cases r3)
    case (Inl e)
    with run sw assms(3) have "s' = s3" by (simp add: thenE_def bindE_def)
    then show ?thesis by (simp add: cycle.R_refl)
  next
    case (Inr u)
    with run sw assms(3) have "?tail s3 = (r, s')" by (simp add: thenE_run)
    then show ?thesis by (rule keepsD [OF cycle_tail])
  qed
  with 3(1) have 4: "ok (en_host s')" "list_all2 row_step (rows (en_host s3)) (rows (en_host s'))" "traced ?n s3 s'"
    "d_reclaimOwner s' = d_reclaimOwner s3 \<or> d_reclaimOwner s' = Some ?me"
    "d_reclaimOwner s' = Some ?me \<or> (\<forall>r \<in> set (rows (en_host s')). ev_status r = Delivering \<longrightarrow> r \<in> set (rows (en_host s3)))"
    by (simp_all add: cycle_rel_def)
  have "reclaims rows ?me s'" using 3(3) 4(4,5) by (auto simp: reclaims_def)
  moreover have "list_all2 row_step (rows (en_host s)) (rows (en_host s'))"
    using list_all2_trans [OF row_step_trans 3(2) 4(2)] .
  moreover have "\<exists>tr. en_trace s' = en_trace s @ tr \<and> accounted ?n new_summary tr (d_summary s')"
    using traced_trans [OF 3(4) 4(3)] by (auto simp: traced_def)
  ultimately show ?thesis using 4(1) by blast
qed

end

end
