(* ===== verification/CycleDemo.thy ===== *)
theory CycleDemo imports CycleFacts IngestFacts begin

text \<open>
  One cycle of a relay on the in-memory host, evaluated: the event stored by the first request
  is claimed, mapped, posted, confirmed by the bulk endpoint and settled.
\<close>

section \<open>A world whose bulk endpoint accepts\<close>

definition online_fetch :: "http_request \<Rightarrow> (unit, exn, http_response) sem" where
  "online_fetch rq w = (Inr \<lparr>hr_status = 200, hr_etag = None, hr_text = Inr (if rq_method rq = ''POST'' then ''bulk'' else ''poll'')\<rparr>, w)"

definition online_world :: "unit world_ops" where
  "online_world = \<lparr>wo_now = (\<lambda>w. (6000, w)), wo_random = (\<lambda>w. (1 / 2, w)), wo_iv = (\<lambda>w. ([], w)),
     wo_sleep = (\<lambda>ms w. ((), w)),
     wo_client = \<lparr>cl_baseUrl = ''https://api'', cl_apiKey = ''key'', cl_fetch = online_fetch\<rparr>,
     wo_enrichment = (\<lambda>_. None)\<rparr>"

definition online_parse :: "string \<Rightarrow> exn + json" where
  "online_parse s = (if s = ''{}'' then Inr demo_payload
     else if s = ''bulk'' then Inr (JObj [(''id'', JStr ''b1'')])
     else if s = ''poll'' then Inr (JObj [(''status'', JStr ''completed''), (''results'', JArr [])])
     else Inl (OtherError ''json''))"

definition online_config :: engine_config where
  "online_config = demo_config\<lparr>cf_crypto := toy_crypto, cf_json_parse := online_parse\<rparr>"

definition online_dispatcher :: "unit memory_host dispatcher" where
  "online_dispatcher = \<lparr>en_host = en_host after_first_request, en_trace = [], d_reclaimOwner = None, d_lastSweepAt = 0,
     d_summary = new_summary\<rparr>"

abbreviation online_host :: "unit memory_host host_ops" where
  "online_host \<equiv> memory_host_ops [demo_route, other_route] online_world"
lemma braces_text: "utf8_decode (utf8 ''{}'') = ''{}''" by code_simp
lemma braces_decoded: "decode plainCodec (utf8 ''{}'') None = Inr (utf8 ''{}'')" by (simp add: plainCodec_def)
lemma online_simps:
  "cf_crypto online_config = toy_crypto" "cf_json_parse online_config = online_parse" "cf_codec online_config = plainCodec"
  "cf_date_parse online_config = (\<lambda>_. None)" "cf_maskingKey online_config = []" "cf_dispatch online_config = DEFAULT_DISPATCH"
  "cf_instanceId online_config = ''i1''"
  by (simp_all add: online_config_def demo_config_def)
lemma demo_date: "map_date (\<lambda>_. None) demo_map demo_payload R (demo_state (take 2 demo_fields) [] [''amt'', ''id'']) =
     (Inr ''2025-01-02'', demo_state (take 3 demo_fields) [] [''when'', ''amt'', ''id''])" by code_simp
lemma online_mapped: "mapEvent toy_crypto (\<lambda>_. None) demo_route demo_payload R [] = Inr demo_mapped"
proof -
  have m: "r_map demo_route = demo_map" by (simp add: demo_route_def)
  have "build_record toy_crypto (\<lambda>_. None) demo_map demo_payload R [] initial_map_state =
      (Inr demo_record, demo_state demo_fields [''metadata.account_number''] [''note'', ''acct'', ''customer'', ''when'', ''amt'', ''id''])"
    by (simp add: build_record_def bindE_def demo_steps demo_date ret_def demo_record_def del: One_nat_def) (simp add: demo_map_def)
  then show ?thesis by (simp add: mapEvent_def m demo_state_def demo_steps demo_mapped_def)
qed
lemma online_read: "ev_payload e = utf8 ''{}'' \<Longrightarrow> ev_payload_iv e = None \<Longrightarrow> read_event online_config demo_route e = Inr (demo_payload, demo_mapped)"
  by (simp add: read_event_def online_simps braces_text braces_decoded online_parse_def online_mapped)
definition online_row where "online_row = new_row (payment_event ''r1'') ''1''"
definition leased_row where "leased_row = claim_row 6000 \<lparr>lease_owner = ''i1'', lease_end = 6000 + leaseMs DEFAULT_DISPATCH\<rparr> online_row"
lemma online_map: "map_batch online_host online_config demo_route [leased_row] s = (Inr [(demo_record, leased_row)], s)"
  by (simp add: leased_row_def claim_row_def online_row_def map_one_def run_simps online_read new_row_def payment_event_def)
(simp add: demo_mapped_def)

lemma online_effects:
  "ask (ho_now online_host) s = (Inr 6000, s)" "ask (ho_random online_host) s = (Inr (1/2), s)" "ask (ho_sleep online_host ms) s = (Inr (), s)"
  "host (ho_route_get online_host i) s = (Inr (staticRoutes_get [demo_route, other_route] i), s)"
  "host (ct_getKillswitch (ho_control online_host)) s = (Inr (mc_killswitch (mh_control (en_host s))), s)"
  "host (ct_isRoutePaused (ho_control online_host) i) s = (Inr (i \<in> set (mc_paused (mh_control (en_host s)))), s)"
  by (simp_all add: ask_def host_def zoomE_def memory_host_defs via_def online_world_def
      memory_control_ops_def getsE_def mc_getKillswitch_def mc_isRoutePaused_def)
lemma online_post:
  "host (bulkCreateRecords toy_crypto online_parse (ho_client online_host) recs) s = (Inr (JObj [(''id'', JStr ''b1'')]), s)"
  by (simp add: bulkCreateRecords_def request_def send_def host_def zoomE_def memory_host_defs via_def online_world_def run_simps catchE_def
    online_fetch_def assertOk_def status_ok_def online_parse_def)
lemma online_poll:
  "host (getBulkRequest online_parse (ho_client online_host) b) s = (Inr (JObj [(''status'', JStr ''completed''), (''results'', JArr [])]), s)"
  by (simp add: getBulkRequest_def request_def send_def host_def zoomE_def memory_host_defs via_def online_world_def run_simps catchE_def
    online_fetch_def assertOk_def status_ok_def online_parse_def)

definition online_state :: "event_record list \<Rightarrow> action list \<Rightarrow> cycle_summary \<Rightarrow> unit memory_host dispatcher" where
  "online_state rs tr c = \<lparr>en_host = \<lparr>mh_store = \<lparr>mem_rows = rs, mem_by_key = [(ne_idempotency_key (payment_event ''r1''), ''1'')], mem_next_id = 2\<rparr>,
       mh_control = empty_control, mh_world = ()\<rparr>, en_trace = tr, d_reclaimOwner = None, d_lastSweepAt = 0, d_summary = c\<rparr>"

definition paid_row where "paid_row = deliver_row 6000 (Some ''b1'') leased_row"

lemmas online_rows = online_row_def leased_row_def paid_row_def new_row_def payment_event_def claim_row_def deliver_row_def clear_lease_def

lemma online_store:
  "host (st_routesWithDueEvents (ho_store online_host) 6000) (online_state [online_row] tr c) = (Inr [''r1''], online_state [online_row] tr c)"
  "host (st_claimDue (ho_store online_host) ''r1'' 6000 100 \<lparr>lease_owner = ''i1'', lease_end = 6000 + leaseMs DEFAULT_DISPATCH\<rparr>) (online_state [online_row] tr c) =
     (Inr [leased_row], online_state [leased_row] tr c)"
  "host (st_markDelivered (ho_store online_host) [''1''] 6000 (Some ''b1'')) (online_state [leased_row] tr c) = (Inr (), online_state [paid_row] tr c)"
  "host (st_releaseDelivering (ho_store online_host) [''1''] t0 err) (online_state [paid_row] tr c) = (Inr 0, online_state [paid_row] tr c)"
  by (simp_all add: host_def zoomE_def memory_host_defs memory_ops_def total_def online_state_def
    mem_routesWithDueEvents_def mem_claimDue_def mem_markDelivered_def mem_releaseDelivering_def for_ids_def update_where_def due_rows_def is_due_def
    online_rows release_row_def)

lemma online_settings: "batchMax DEFAULT_DISPATCH = 100" "recoverIntervalMs DEFAULT_DISPATCH = 60000"
  by (simp_all add: DEFAULT_DISPATCH_def)

lemma leased_fields: "ev_id leased_row = ''1''" "ev_route_id leased_row = ''r1''" "ev_received_at leased_row = 5000"
  by (simp_all add: online_rows)

definition paid_trace where "paid_trace = [PostBatch [demo_record], Emit (HForward ''r1'' FDelivered 1), Emit (HDelivered ''r1'' 5000 6000),
  Emit (HSettled ''1'' ''r1'' FDelivered None), Emit (HBatchForwarded ''r1'' 1 ''b1'')]"

lemma online_state_simps:
  "online_state rs tr c\<lparr>en_trace := tr'\<rparr> = online_state rs tr' c" "en_trace (online_state rs tr c) = tr"
  "online_state rs tr c\<lparr>d_summary := c'\<rparr> = online_state rs tr c'" "d_summary (online_state rs tr c) = c"
  "mh_control (en_host (online_state rs tr c)) = empty_control" "d_reclaimOwner (online_state rs tr c) = None"
  "d_lastSweepAt (online_state rs tr c) = 0"
  by (simp_all add: online_state_def)

lemma online_deliver:
  "deliverBatch online_host online_config demo_route [leased_row] (online_state [leased_row] [] c) =
     (Inr (), online_state [paid_row] paid_trace (c\<lparr>cs_delivered := cs_delivered c + 1\<rparr>))"
proof -
  have r: "r_id demo_route = ''r1''" by (simp add: demo_route_def)
  have poll: "poll_results online_host online_config ''b1'' [leased_row] 6000 RESULT_POLL_ATTEMPTS (online_state [leased_row] tr c) =
     deliver_all online_host ''b1'' [leased_row] 6000 (online_state [leased_row] tr c)" for tr
    by (simp add: RESULT_POLL_ATTEMPTS_def numeral_eq_Suc online_simps online_poll catchE_def run_simps prop_of_def object_get_def failed_results_def)
  have post: "postWithRetries online_host online_config [demo_record] (online_state [leased_row] [] c) =
     (Inr (JObj [(''id'', JStr ''b1'')]), online_state [leased_row] [PostBatch [demo_record]] c)"
    by (simp add: postWithRetries_def IN_REQUEST_RETRIES_def numeral_eq_Suc online_simps catchE_def thenE_def bindE_def observe_def modifyE_def online_state_simps online_post)
  show ?thesis
    by (simp add: deliverBatch_def bindE_def online_map post_batch_def Let_def post catchE_def prop_of_def object_get_def of_sum_def r text_of_def settleResults_def poll online_effects thenE_run online_store leased_fields deliver_all_def recordDelivered_def settle_runs online_state_simps ret_def thenE_def paid_trace_def del: map_batch.simps)
qed

lemma online_cycle:
  "cycle online_host online_config (\<lambda>_. False) (online_state [online_row] [] c) =
     (Inr (new_summary\<lparr>cs_delivered := 1, cs_due := [''r1'']\<rparr>),
      online_state [paid_row] paid_trace (new_summary\<lparr>cs_delivered := 1, cs_due := [''r1'']\<rparr>))"
proof -
  have sw: "sweep online_host online_config 6000 (online_state [online_row] [] c) = (Inr (), online_state [online_row] [] c)" for c
    by (simp add: sweep_def bindE_def online_effects online_state_simps whenE_def ret_def online_simps online_settings getsE_def)
  have claim: "claim_and_deliver online_host online_config 6000 demo_route ''r1'' (online_state [online_row] [] c) =
    (Inr (), online_state [paid_row] paid_trace (c\<lparr>cs_delivered := cs_delivered c + 1\<rparr>))" for c
    by (simp add: claim_and_deliver_def bindE_def online_effects online_store online_simps online_settings finallyE_def online_deliver
      releaseLeftover_def catchE_def leased_fields ret_def)
  have "visit_routes online_host online_config (\<lambda>_. False) 6000 [''r1''] (online_state [online_row] [] c) =
    (Inr (), online_state [paid_row] paid_trace (c\<lparr>cs_delivered := cs_delivered c + 1\<rparr>))" for c
    by (simp add: bindE_def getsE_def thenE_def visit_route_def bothE_def online_effects demo_lookup online_state_simps empty_control_def claim ret_def)
  then show ?thesis
    by (simp add: cycle_def bindE_def online_effects thenE_run in_summary_run online_state_simps sw empty_control_def online_store getsE_def new_summary_def ret_def)
qed
end
