(* ===== verification/CycleProps.thy ===== *)
theory CycleProps imports CycleDemo "HOL-Library.Multiset" begin

text \<open>
  What the dispatcher promises on the in-memory host: nothing stored is lost, the counters tell
  what happened, a halted relay sends nothing, and pruning ends.
\<close>

section \<open>Events and counters\<close>

abbreviation (input) cycles ::
  "route_config list \<Rightarrow> 'w world_ops \<Rightarrow> engine_config \<Rightarrow> ('w memory_host \<Rightarrow> bool) \<Rightarrow> 'w memory_host dispatcher \<Rightarrow>
   exn + cycle_summary \<Rightarrow> 'w memory_host dispatcher \<Rightarrow> bool" where
  "cycles routes W cf abort s r s' \<equiv> cycle (memory_host_ops routes W) cf abort s = (r, s')"

text \<open>
  \<^bold>\<open>C1.\<close> A dispatch cycle, whether it returns or throws, loses and invents no event: the rows
  after it are the rows before it, one for one, each with its identity, route, payload and key;
  and a row that was delivered, filtered or parked before is exactly as it was.
\<close>

theorem cycle_conserves_events:
  assumes "mh_ok (en_host s)" and "reclaims mh_rows (cf_instanceId cf) s" and "cycles routes W cf abort s r s'"
  shows "mh_ok (en_host s') \<and> list_all2 row_step (mh_rows (en_host s)) (mh_rows (en_host s'))"
  using memory_host.cycle_effect [OF assms] by blast

text \<open>
  \<^bold>\<open>C3.\<close> The summary of a cycle is what it announced: as many delivered, retried and parked
  events as \<open>settled\<close> hooks it emitted; and every batch it handed to the bulk endpoint holds
  at least one and at most \<open>batchMax\<close> records, none of which carries a social security number
  in its description or its metadata.
\<close>

theorem cycle_accounts:
  assumes "mh_ok (en_host s)" and "reclaims mh_rows (cf_instanceId cf) s" and "cycles routes W cf abort s r s'"
  shows "\<exists>tr. en_trace s' = en_trace s @ tr \<and> accounted (batchMax (cf_dispatch cf)) new_summary tr (d_summary s')"
  using memory_host.cycle_effect [OF assms] by blast

text \<open>
  \<^bold>\<open>C2.\<close> No event is stranded: after a cycle, whatever failed in it, either no row is still
  claimed by this instance, or the dispatcher remembers to take its own rows back in the next
  sweep, before their leases run out.
\<close>

theorem cycle_strands_nothing:
  assumes "mh_ok (en_host s)" and "reclaims mh_rows (cf_instanceId cf) s" and "cycles routes W cf abort s r s'"
  shows "reclaims mh_rows (cf_instanceId cf) s'"
  using memory_host.cycle_effect [OF assms] by blast

section \<open>Witnesses\<close>

lemma online_ok: "mh_ok (en_host (online_state [online_row] [] c))" "reclaims mh_rows ''i1'' (online_state [online_row] [] c)"
proof -
  have "mh_ok (en_host after_first_request)" using memory_host.ingestWebhook_effect [OF demo_start_ok demo_first] by blast
  then show "mh_ok (en_host (online_state [online_row] [] c))"
    by (simp add: online_state_def after_first_request_def online_row_def)
  show "reclaims mh_rows ''i1'' (online_state [online_row] [] c)"
    by (simp add: reclaims_def online_state_simps mh_rows_def online_state_def online_row_def new_row_def payment_event_def)
qed

lemma online_instance: "cf_instanceId online_config = ''i1''"
  by (rule online_simps)

theorem cycle_conserves_events_witness:
  "mh_ok (en_host (online_state [paid_row] paid_trace (new_summary\<lparr>cs_delivered := 1, cs_due := [''r1'']\<rparr>))) \<and>
   row_step online_row paid_row \<and> ev_status paid_row = Delivered"
  using cycle_conserves_events [OF online_ok(1) _ online_cycle] online_ok(2)
  by (simp add: online_instance mh_rows_def) (simp add: online_state_def online_rows)

theorem cycle_accounts_witness:
  "\<exists>tr. paid_trace = [] @ tr \<and> accounted 100 new_summary tr (new_summary\<lparr>cs_delivered := 1, cs_due := [''r1'']\<rparr>)"
  using cycle_accounts [OF online_ok(1) _ online_cycle] online_ok(2)
  by (simp add: online_instance online_simps online_settings online_state_simps)

theorem cycle_strands_nothing_witness:
  "reclaims mh_rows ''i1'' (online_state [paid_row] paid_trace (new_summary\<lparr>cs_delivered := 1, cs_due := [''r1'']\<rparr>))"
  using cycle_strands_nothing [OF online_ok(1) _ online_cycle] online_ok(2) by (simp add: online_instance)

section \<open>Runs that post nothing\<close>

definition posts_nothing :: "('h, 'z) engine_scheme \<Rightarrow> ('h, 'z) engine_scheme \<Rightarrow> bool" where
  "posts_nothing s s' \<longleftrightarrow> (\<exists>tr. en_trace s' = en_trace s @ tr \<and> (\<forall>recs. PostBatch recs \<notin> set tr))"

interpretation silent: step_relation posts_nothing
proof
  show "posts_nothing s s" for s :: "('h, 'z) engine_scheme"
    by (auto simp: posts_nothing_def intro!: exI [of _ "[]"])
next
  fix s t u :: "('h, 'z) engine_scheme"
  assume "posts_nothing s t" and "posts_nothing t u"
  then obtain tr tr' where "en_trace t = en_trace s @ tr" "en_trace u = en_trace t @ tr'"
    "\<forall>recs. PostBatch recs \<notin> set tr" "\<forall>recs. PostBatch recs \<notin> set tr'"
    unfolding posts_nothing_def by blast
  then show "posts_nothing s u" unfolding posts_nothing_def by (intro exI [of _ "tr @ tr'"]) simp
qed

lemma silent_same: "en_trace s' = en_trace s \<Longrightarrow> posts_nothing s s'"
  by (auto simp: posts_nothing_def)

lemma silent_calls [keeps_rules]:
  "keeps posts_nothing (host m)" "keeps posts_nothing (ask g)" "keeps posts_nothing (emit e)"
  "keeps posts_nothing (in_summary f)" "keeps posts_nothing (set_reclaim w)"
  "keeps posts_nothing (modifyE (\<lambda>s. s\<lparr>d_lastSweepAt := t0\<rparr>))"
  by (auto simp: keeps_def ask_def host_def zoomE_def emit_def observe_def in_summary_def set_reclaim_def modifyE_def posts_nothing_def
      split: prod.splits)

lemma silent_recordParked: "keeps posts_nothing (recordParked events reason)"
  unfolding recordParked_def by (intro keeps_rules)

lemma silent_next_attempt: "keeps posts_nothing (next_attempt D cf n)"
  unfolding next_attempt_def by (intro keeps_rules)

lemma silent_resolve: "keeps posts_nothing (resolve_pending D cf event payload pes r)"
proof (induction pes arbitrary: r)
  case (Cons pe pes)
  then show ?case unfolding resolve_pending.simps Let_def by (intro keeps_rules)
qed (simp add: silent.keeps_ret)

lemma silent_map_one: "keeps posts_nothing (map_one D cf route event)"
  unfolding map_one_def park_event_def retryOne_def resolveEnrichments_def
  by (intro keeps_rules silent_recordParked silent_next_attempt silent_resolve)

lemma silent_map_batch: "keeps posts_nothing (map_batch D cf route events)"
  by (induction events) (auto intro!: keeps_rules silent_map_one)

lemma silent_sweep: "keeps posts_nothing (sweep D cf now)"
  unfolding sweep_def Let_def by (intro keeps_rules)

section \<open>A row that cannot be read\<close>

lemma unreadable_blocks_map:
  assumes "event \<in> set events" and "read_event cf route event = Inl err" and "\<not> is_parking_error err"
  shows "\<exists>e s'. map_batch D cf route events s = (Inl e, s')"
  using assms(1)
proof (induction events arbitrary: s)
  case (Cons e events)
  obtain x s1 where one: "map_one D cf route e s = (x, s1)" by fastforce
  show ?case
  proof (cases x)
    case (Inr o')
    with one assms(2,3) have "e \<noteq> event" by (auto simp: map_one_def throwE_def)
    with Cons.prems have "event \<in> set events" by simp
    from Cons.IH [OF this] obtain e' s2 where "map_batch D cf route events s1 = (Inl e', s2)" by blast
    with one Inr show ?thesis by (simp add: bindE_def)
  qed (use one in \<open>simp add: bindE_def\<close>)
qed simp

text \<open>
  One row whose payload cannot be decoded or parsed (a failure that is no mapping error)
  holds up every row claimed with it: the batch throws before anything is posted.
\<close>

theorem unreadable_row_blocks_batch:
  assumes "event \<in> set claimed" and "read_event cf route event = Inl err" and "\<not> is_parking_error err"
  shows "\<exists>e s'. deliverBatch D cf route claimed s = (Inl e, s') \<and> posts_nothing s s'"
proof -
  obtain e s' where m: "map_batch D cf route claimed s = (Inl e, s')" using unreadable_blocks_map [OF assms] by blast
  then have "deliverBatch D cf route claimed s = (Inl e, s')" by (simp add: deliverBatch_def bindE_def)
  with keepsD [OF silent_map_batch m] show ?thesis by blast
qed

theorem unreadable_row_blocks_batch_witness:
  "\<exists>e s'. deliverBatch online_host online_config demo_route [leased_row, leased_row\<lparr>ev_payload := utf8 ''x''\<rparr>] (online_state [] [] new_summary) = (Inl e, s') \<and>
     posts_nothing (online_state [] [] new_summary) s'"
proof -
  have "utf8_decode (utf8 ''x'') = ''x''" by code_simp
  then have "read_event online_config demo_route (leased_row\<lparr>ev_payload := utf8 ''x''\<rparr>) = Inl (OtherError ''json'')"
    by (simp add: read_event_def online_simps online_parse_def online_rows plainCodec_def)
  then show ?thesis
    by (rule unreadable_row_blocks_batch [rotated]) simp_all
qed

section \<open>The killswitch\<close>

text \<open>What a sweep leaves alone: the operator's controls and the summary.\<close>

definition spares :: "'w memory_host dispatcher \<Rightarrow> 'w memory_host dispatcher \<Rightarrow> bool" where
  "spares s s' \<longleftrightarrow> mh_control (en_host s') = mh_control (en_host s) \<and> d_summary s' = d_summary s"

interpretation sparing: step_relation spares
  by unfold_locales (auto simp: spares_def)

lemma sparing_calls [keeps_rules]:
  "keeps spares (ask (on_world f))" "keeps spares (host (on_store m))" "keeps spares (emit e)" "keeps spares (set_reclaim w)"
  "keeps spares (modifyE (\<lambda>s. s\<lparr>d_lastSweepAt := t0\<rparr>))"
  by (auto simp: keeps_def spares_def ask_def host_def zoomE_def via_def emit_def observe_def set_reclaim_def
      modifyE_def split: prod.splits)

lemma memory_host_calls:
  "ho_now (memory_host_ops routes W) = on_world (wo_now W)"
  "st_recoverDelivering (ho_store (memory_host_ops routes W)) now owner = on_store (st_recoverDelivering memory_ops now owner)"
  "st_parkExpired (ho_store (memory_host_ops routes W)) now age = on_store (st_parkExpired memory_ops now age)"
  "st_pruneBatch (ho_store (memory_host_ops routes W)) now dd ld limit = on_store (st_pruneBatch memory_ops now dd ld limit)"
  by (simp_all add: memory_host_defs)

lemma sparing_sweep: "keeps spares (sweep (memory_host_ops routes W) cf now)"
  unfolding sweep_def Let_def memory_host_calls by (intro keeps_rules)

lemma sweep_returns: "\<exists>s1. sweep D cf now s = (Inr (), s1)"
proof -
  obtain t h1 where t: "ho_now D (en_host s) = (t, h1)" by fastforce
  have caught: "\<exists>s1. catchE m (\<lambda>err. emit (HError RecoverDelivering err None None)) s0 = (Inr (), s1)" for m :: "('a, unit) dispatch" and s0
    by (auto simp: catchE_def emit_run split: prod.splits sum.splits)
  show ?thesis
    by (auto simp: sweep_def bindE_ask [where g = "ho_now D", OF t] Let_def whenE_def ret_def caught)
qed

text \<open>
  \<^bold>\<open>C27.\<close> While the killswitch is set to pause or to panic, a cycle only sweeps: it returns the
  summary of a halted cycle, with nothing delivered, retried or parked, hands no batch to the
  bulk endpoint, and claims no event.
\<close>

theorem killswitch_halts:
  assumes "mh_ok (en_host s)" and "reclaims mh_rows (cf_instanceId cf) s"
    and "mc_killswitch (mh_control (en_host s)) \<noteq> KillNone" and "cycles routes W cf abort s r s'"
  shows "r = Inr (new_summary\<lparr>cs_halted := True\<rparr>) \<and> posts_nothing s s' \<and>
    (\<forall>e \<in> set (mh_rows (en_host s')). ev_status e = Delivering \<longrightarrow> e \<in> set (mh_rows (en_host s)))"
proof -
  let ?D = "memory_host_ops routes W"
  obtain now h1 where t: "ho_now ?D (en_host s) = (now, h1)" by fastforce
  let ?s2 = "s\<lparr>en_host := h1, d_summary := new_summary\<rparr>"
  have h1: "mh_control h1 = mh_control (en_host s)" "mh_rows h1 = mh_rows (en_host s)" "mh_ok h1"
    using t assms(1) by (auto simp: memory_host_calls via_def mh_rows_def mh_ok_def split: prod.splits)
  obtain s3 where sw: "sweep ?D cf now ?s2 = (Inr (), s3)" using sweep_returns by blast
  have kept: "mh_control (en_host s3) = mh_control (en_host s)" "d_summary s3 = new_summary"
    using keepsD [OF sparing_sweep sw] h1 by (simp_all add: spares_def)
  have "d_reclaimOwner ?s2 = None \<or> d_reclaimOwner ?s2 = Some (cf_instanceId cf)" using assms(2) by (auto simp: reclaims_def)
  from memory_host.sweep_sweeps [OF this] sw
  have swept: "sweep_rel mh_rows mh_ok (cf_instanceId cf) n ?s2 s3" for n by (metis snd_conv)
  have run: "cycle ?D cf abort s = (Inr (new_summary\<lparr>cs_halted := True\<rparr>), s3\<lparr>d_summary := new_summary\<lparr>cs_halted := True\<rparr>\<rparr>)"
    using kept assms(3)
    by (simp add: cycle_def bindE_ask [where g = "ho_now ?D", OF t] thenE_run [OF in_summary_run] thenE_run [where m = "sweep ?D cf now", OF sw])
       (simp add: bindE_def host_def zoomE_def memory_host_defs memory_control_ops_def getsE_def mc_getKillswitch_def
          thenE_run [OF in_summary_run])
  with assms(4) have rs: "r = Inr (new_summary\<lparr>cs_halted := True\<rparr>)" "s' = s3\<lparr>d_summary := new_summary\<lparr>cs_halted := True\<rparr>\<rparr>" by auto
  moreover have "posts_nothing s s'"
    using keepsD [OF silent_sweep sw] by (simp add: rs(2) posts_nothing_def)
  ultimately show ?thesis using swept h1 by (simp add: sweep_rel_def)
qed

definition halted_state :: "unit memory_host dispatcher" where
  "halted_state = (online_state [online_row] [] new_summary)
     \<lparr>en_host := (en_host (online_state [online_row] [] new_summary))\<lparr>mh_control := empty_control\<lparr>mc_killswitch := KillPause\<rparr>\<rparr>\<rparr>"

theorem killswitch_halts_witness:
  "fst (cycle online_host online_config (\<lambda>_. False) halted_state) = Inr (new_summary\<lparr>cs_halted := True\<rparr>)"
proof -
  have "mh_ok (en_host halted_state)" "reclaims mh_rows ''i1'' halted_state"
    using online_ok [of new_summary] by (simp_all add: halted_state_def mh_ok_def reclaims_def mh_rows_def)
  moreover have "mc_killswitch (mh_control (en_host halted_state)) \<noteq> KillNone" by (simp add: halted_state_def)
  ultimately show ?thesis
    using killswitch_halts [of halted_state online_config "[demo_route, other_route]" online_world "\<lambda>_. False"]
    by (metis online_instance prod.collapse)
qed

section \<open>Per-row results\<close>

text \<open>
  When the bulk endpoint reports rejected rows, the batch is split and nothing is settled
  twice or left out: the parked and the delivered events together are the batch, each once.
\<close>

theorem settle_partition: "mset (rejected_of failed mapped) + mset (accepted_of failed mapped) = mset mapped"
proof -
  let ?z = "zip mapped [0..<length mapped]" and ?P = "\<lambda>(e, i). is_rejected failed e i"
  have "mset (rejected_of failed mapped) + mset (accepted_of failed mapped) =
      image_mset fst (filter_mset ?P (mset ?z) + filter_mset (\<lambda>x. \<not> ?P x) (mset ?z))"
    unfolding rejected_of_def accepted_of_def mset_map mset_filter image_mset_union by (simp add: case_prod_unfold)
  also have "\<dots> = image_mset fst (mset ?z)" by (metis multiset_partition)
  also have "\<dots> = mset mapped" by (metis length_map map_fst_zip map_nth mset_map)
  finally show ?thesis .
qed

definition rejecting_answer :: json where
  "rejecting_answer = JObj [(''status'', JStr ''completed''),
     (''results'', JArr [JObj [(''external_id'', JStr (ec_external_id demo_record)), (''status'', JStr ''rejected'')]])]"

text \<open>
  A rejection reported under the record's own \<open>external_id\<close> is missed when the route maps
  that field from anything but the tail of the event id: the stored event is sent as a record
  with external id \<open>t1\<close>, the endpoint rejects \<open>t1\<close>, and the event counts as delivered.
\<close>

theorem rejected_external_id_is_delivered:
  "read_event online_config demo_route leased_row = Inr (demo_payload, demo_mapped) \<and> me_record demo_mapped = demo_record \<and>
   (\<exists>failed. failed_results rejecting_answer = Inr failed \<and> JStr (ec_external_id demo_record) \<in> set failed \<and>
     accepted_of failed [leased_row] = [leased_row])"
proof -
  have "read_event online_config demo_route leased_row = Inr (demo_payload, demo_mapped)"
    by (rule online_read) (simp_all add: online_rows)
  moreover have "failed_results rejecting_answer = Inr [JStr (ec_external_id demo_record)]"
    by (simp add: failed_results_def rejecting_answer_def prop_of_def object_get_def)
  moreover have "accepted_of [JStr (ec_external_id demo_record)] [leased_row] = [leased_row]"
  proof -
    have "ev_event_id leased_row = ''ApprovedPayment:7''" by (simp add: online_rows)
    moreover have "after_first CHR '':'' ''ApprovedPayment:7'' = ''7''" "string_of_nat 0 = ''0''" by code_simp+
    ultimately show ?thesis by (simp add: accepted_of_def is_rejected_def extResultKey_def demo_record_def)
  qed
  ultimately show ?thesis by (auto simp: demo_mapped_def)
qed

end
