(* ===== verification/PruneFacts.thy ===== *)
theory PruneFacts imports CycleProps begin

text \<open>
  Retention: the pruning loop of the dispatcher ends, wipes and deletes only settled events that
  are old enough, and leaves none of them behind.
\<close>

section \<open>Each batch makes progress\<close>

lemma wiped_not_wipeable: "\<not> wipeable now dd (wipe_row r)"
  by (simp add: wipeable_def wipe_row_def)

lemma terminal_wipe_row [simp]: "is_terminal (wipe_row r) = is_terminal r"
  by (simp add: is_terminal_def wipe_row_def)

lemma filter_wiped:
  "length (filter (wipeable now dd) (update_where (\<lambda>r. r \<in> W) wipe_row rs)) =
     length (filter (\<lambda>r. wipeable now dd r \<and> r \<notin> W) rs)"
  by (induction rs) (auto simp: wiped_not_wipeable)

text \<open>What retention leaves of a list of rows, in one pass.\<close>

definition retained :: "int \<Rightarrow> int \<Rightarrow> int \<Rightarrow> event_record list \<Rightarrow> event_record list" where
  "retained now dd ld rs = map (\<lambda>e. if wipeable now dd e then wipe_row e else e) (filter (\<lambda>e. \<not> deletable now ld e) rs)"

lemma deletable_wiped [simp]: "deletable now ld (wipe_row e) = deletable now ld e"
  by (simp add: deletable_def is_terminal_def wipe_row_def)

lemma retained_wiped:
  "W \<subseteq> {e. wipeable now dd e} \<Longrightarrow> retained now dd ld (update_where (\<lambda>e. e \<in> W) wipe_row rs) = retained now dd ld rs"
  by (induction rs) (auto simp: retained_def wiped_not_wipeable)

lemma retained_deleted: "D \<subseteq> {e. deletable now ld e} \<Longrightarrow> retained now dd ld (filter (\<lambda>e. e \<notin> D) rs) = retained now dd ld rs"
  by (induction rs) (auto simp: retained_def)

lemma retained_done: "(\<forall>e \<in> set rs. \<not> wipeable now dd e \<and> \<not> deletable now ld e) \<Longrightarrow> retained now dd ld rs = rs"
  by (induction rs) (auto simp: retained_def)

text \<open>How many rows are still to be wiped, and to be deleted.\<close>

definition to_wipe :: "int \<Rightarrow> int \<Rightarrow> event_record list \<Rightarrow> nat" where
  "to_wipe now dd rs = length (filter (wipeable now dd) rs)"

definition to_delete :: "int \<Rightarrow> int \<Rightarrow> event_record list \<Rightarrow> nat" where
  "to_delete now ld rs = length (filter (deletable now ld) rs)"

lemma length_split: "length (filter P xs) = length (filter (\<lambda>x. P x \<and> Q x) xs) + length (filter (\<lambda>x. P x \<and> \<not> Q x) xs)"
  by (induction xs) auto

lemma pruned_step:
  assumes "pruned now (deliveredDays r) ld limit rs (w, d) rs'" and "wf_rows rs" and "0 < limit"
  shows "retained now (deliveredDays r) ld rs' = retained now (deliveredDays r) ld rs"
    and "to_wipe now (deliveredDays r) rs' + w = to_wipe now (deliveredDays r) rs"
    and "to_delete now ld rs' + d = to_delete now ld rs"
    and "(w, d) = (0, 0) \<Longrightarrow> (\<forall>e \<in> set rs'. \<not> wipeable now (deliveredDays r) e \<and> \<not> deletable now ld e)"
proof -
  let ?P = "wipeable now (deliveredDays r)"
  have count: "length (filter P rs) = card {e \<in> set rs. P e}" for P
  proof -
    have "distinct rs" using assms(2) by (auto simp: wf_rows_def distinct_map)
    then show ?thesis by (metis distinct_card distinct_filter set_filter)
  qed
  have taken: "length (filter (\<lambda>e. P e \<and> e \<in> A) rs) = card A" if "A \<subseteq> {e \<in> set rs. P e}" for P A
  proof -
    have "{e \<in> set rs. P e \<and> e \<in> A} = A" using that by auto
    then show ?thesis by (simp add: count)
  qed
  consider (wipe) W where "chosen ?P limit rs W" "W \<noteq> {}" "w = card W" "d = 0" "rs' = update_where (\<lambda>r. r \<in> W) wipe_row rs"
    | (delete) D where "chosen ?P limit rs {}" "chosen (deletable now ld) limit rs D" "w = 0" "d = card D" "rs' = filter (\<lambda>r. r \<notin> D) rs"
    using assms(1) unfolding pruned_def by blast
  then have "retained now (deliveredDays r) ld rs' = retained now (deliveredDays r) ld rs \<and>
    to_wipe now (deliveredDays r) rs' + w = to_wipe now (deliveredDays r) rs \<and> to_delete now ld rs' + d = to_delete now ld rs \<and>
    ((w, d) = (0, 0) \<longrightarrow> (\<forall>e \<in> set rs'. \<not> ?P e \<and> \<not> deletable now ld e))"
  proof cases
    case wipe
    then have W: "W \<subseteq> {e \<in> set rs. ?P e}" by (auto simp: chosen_def)
    then have "finite W" by (rule finite_subset) simp
    with wipe have "w \<noteq> 0" by auto
    moreover have "retained now (deliveredDays r) ld rs' = retained now (deliveredDays r) ld rs"
      unfolding wipe(5) by (rule retained_wiped) (use W in blast)
    moreover have "to_wipe now (deliveredDays r) rs' + w = to_wipe now (deliveredDays r) rs"
      unfolding wipe(3,5) to_wipe_def filter_wiped using length_split [of ?P rs "\<lambda>e. e \<in> W"] taken [OF W] by simp
    moreover have "length (filter (deletable now ld) (update_where (\<lambda>r. r \<in> W) wipe_row xs)) = length (filter (deletable now ld) xs)" for xs
      by (induction xs) auto
    ultimately show ?thesis by (simp add: wipe(4,5) to_delete_def)
  next
    case delete
    then have D: "D \<subseteq> {e \<in> set rs. deletable now ld e}" by (auto simp: chosen_def)
    then have "finite D" by (rule finite_subset) simp
    have none: "\<not> ?P e" if "e \<in> set rs" for e
      using delete(1) that assms(3) by (auto simp: chosen_def min_def card_eq_0_iff split: if_splits)
    moreover have "retained now (deliveredDays r) ld rs' = retained now (deliveredDays r) ld rs"
      unfolding delete(5) by (rule retained_deleted) (use D in blast)
    moreover have "to_delete now ld rs' + d = to_delete now ld rs"
      unfolding delete(4,5) to_delete_def using length_split [of "deletable now ld" rs "\<lambda>e. e \<in> D"] taken [OF D] by (simp add: conj_commute)
    moreover have "\<not> deletable now ld e" if "d = 0" "e \<in> set rs'" for e
    proof -
      from that(1) \<open>finite D\<close> have "D = {}" by (simp add: delete(4))
      with delete(2) assms(3) have "card {e \<in> set rs. deletable now ld e} = 0" by (auto simp: chosen_def min_def split: if_splits)
      then show ?thesis using that(2) by (auto simp: delete(5))
    qed
    ultimately show ?thesis by (auto simp: delete(3,5) to_wipe_def filter_empty_conv)
  qed
  then show "retained now (deliveredDays r) ld rs' = retained now (deliveredDays r) ld rs"
    and "to_wipe now (deliveredDays r) rs' + w = to_wipe now (deliveredDays r) rs"
    and "to_delete now ld rs' + d = to_delete now ld rs"
    and "(w, d) = (0, 0) \<Longrightarrow> (\<forall>e \<in> set rs'. \<not> wipeable now (deliveredDays r) e \<and> \<not> deletable now ld e)"
    by blast+
qed

section \<open>The loop\<close>

lemma host_run: "m (en_host s) = (x, h) \<Longrightarrow> host m s = (x, s\<lparr>en_host := h\<rparr>)"
  by (simp add: host_def zoomE_def)

context engine_host
begin

lemma prune_loop_effect:
  assumes "ok (en_host s)"
    and "to_wipe now (deliveredDays r) (rows (en_host s)) + to_delete now (ledgerDays r) (rows (en_host s)) < fuel"
    and "prune_loop D (\<lambda>_. False) now r fuel acc s = (x, s')"
  shows "case x of Inl e \<Rightarrow> True | Inr None \<Rightarrow> False
     | Inr (Some (w, d)) \<Rightarrow> rows (en_host s') = retained now (deliveredDays r) (ledgerDays r) (rows (en_host s)) \<and>
         w = fst acc + to_wipe now (deliveredDays r) (rows (en_host s)) \<and> d = snd acc + to_delete now (ledgerDays r) (rows (en_host s))"
  using assms
proof (induction fuel arbitrary: s acc)
  case (Suc fuel)
  obtain y h' where m: "st_pruneBatch (ho_store D) now (deliveredDays r) (ledgerDays r) PRUNE_BATCH (en_host s) = (y, h')" by fastforce
  note up = updatesD [OF pruneBatch [OF Suc.prems(1)] m]
  note host_m = host_run [where m = "st_pruneBatch (ho_store D) now (deliveredDays r) (ledgerDays r) PRUNE_BATCH", OF m]
  note run = Suc.prems(3) [unfolded prune_loop.simps bindE_gets if_False]
  show ?case
  proof (cases y)
    case (Inl e)
    with run have "x = Inl e" by (simp add: bindE_def host_m)
    then show ?thesis by simp
  next
    case (Inr wd)
    obtain w d where wd: "wd = (w, d)" by (cases wd)
    have limit: "0 < PRUNE_BATCH" by (simp add: PRUNE_BATCH_def)
    note step = pruned_step [OF up(3) [OF Inr [unfolded wd]] wf [OF Suc.prems(1)] limit]
    let ?s1 = "s\<lparr>en_host := h', en_trace := en_trace s @ [Emit (HPrune w d)]\<rparr>"
    have run1: "(if w = 0 \<and> d = 0 then ret (Some (fst acc + w, snd acc + d))
        else thenE (ask (ho_sleep D PRUNE_YIELD_MS)) (prune_loop D (\<lambda>_. False) now r fuel (fst acc + w, snd acc + d))) ?s1 = (x, s')"
      using run Inr by (simp add: bindE_def host_m wd thenE_run [OF emit_run] Let_def)
    show ?thesis
    proof (cases "w = 0 \<and> d = 0")
      case True
      with run1 have x: "x = Inr (Some acc)" "s' = ?s1" by (auto simp: ret_def)
      have "retained now (deliveredDays r) (ledgerDays r) (rows h') = rows h'" by (rule retained_done) (use step(4) True in blast)
      moreover have "to_wipe now (deliveredDays r) (rows h') = 0" "to_delete now (ledgerDays r) (rows h') = 0"
        using step(4) True by (simp_all add: to_wipe_def to_delete_def filter_empty_conv)
      ultimately show ?thesis using x step(1,2,3) True by (simp add: split_beta)
    next
      case False
      obtain u h2 where sl: "ho_sleep D PRUNE_YIELD_MS h' = (u, h2)" by (meson surj_pair)
      have h2: "ok h2" "rows h2 = rows h'" using quiet_sleep up(1) sl by (metis quiet_def snd_conv)+
      have run2: "prune_loop D (\<lambda>_. False) now r fuel (fst acc + w, snd acc + d) (?s1\<lparr>en_host := h2\<rparr>) = (x, s')"
        using run1 False sl by (simp add: thenE_def bindE_ask [where g = "ho_sleep D PRUNE_YIELD_MS"])
      have "to_wipe now (deliveredDays r) (rows h') + to_delete now (ledgerDays r) (rows h') < fuel"
        using step(2,3) False Suc.prems(2) by linarith
      then have fuel: "to_wipe now (deliveredDays r) (rows (en_host (?s1\<lparr>en_host := h2\<rparr>))) +
          to_delete now (ledgerDays r) (rows (en_host (?s1\<lparr>en_host := h2\<rparr>))) < fuel" using h2 by simp
      have "ok (en_host (?s1\<lparr>en_host := h2\<rparr>))" using h2 by simp
      from Suc.IH [OF this fuel run2] h2 step(1,2,3) show ?thesis by (auto split: sum.splits option.splits)
    qed
  qed
qed simp

end

section \<open>On the in-memory host\<close>

lemma memory_prune_returns:
  "\<exists>acc' s'. prune_loop (memory_host_ops routes W) abort now r fuel acc s = (Inr acc', s')"
proof (induction fuel arbitrary: acc s)
  case 0
  show ?case by (simp add: ret_def)
next
  case (Suc fuel)
  have returns: "\<exists>y s1. host (st_pruneBatch (ho_store (memory_host_ops routes W)) now dd ld limit) s = (Inr y, s1)" for dd ld limit
    by (simp add: memory_host_calls host_def zoomE_def memory_ops_def total_def split_beta)
  then obtain w d s1 where "host (st_pruneBatch (ho_store (memory_host_ops routes W)) now (deliveredDays r) (ledgerDays r) PRUNE_BATCH) s = (Inr (w, d), s1)"
    by (metis surj_pair)
  moreover obtain u s2 where "ask (ho_sleep (memory_host_ops routes W) PRUNE_YIELD_MS) (s1\<lparr>en_trace := en_trace s1 @ [Emit (HPrune w d)]\<rparr>) = (Inr u, s2)"
    by (simp add: ask_def host_def zoomE_def split_beta)
  ultimately show ?case using Suc.IH
    by (simp add: bindE_run thenE_run [OF emit_run] Let_def ret_def thenE_run)
qed

lemma to_do_le: "to_wipe now dd rs + to_delete now ld rs \<le> 2 * length rs"
  unfolding to_wipe_def to_delete_def mult_2 by (intro add_mono length_filter_le)

text \<open>
  \<^bold>\<open>C28.\<close> A retention run that is not stopped returns, within twice as many batches as there are
  rows, plus one, and does in batches what one pass over the rows does at the time \<open>now\<close> it read
  at its start: a settled event (delivered or dropped by the filter) received more than
  \<open>ledgerDays\<close> before \<open>now\<close> is deleted; of one received more than \<open>deliveredDays\<close> before, payload and
  headers are wiped; every other event stays as it is, in its place.  The numbers it reports are
  those of the rows wiped and deleted.
\<close>

theorem runPrune_completes:
  assumes "mh_ok (en_host s)" and "cf_retention cf = Some rt" and "2 * length (mh_rows (en_host s)) < fuel"
  shows "\<exists>s'. let now = fst (ho_now (memory_host_ops routes W) (en_host s));
      settled = (\<lambda>days e. ev_status e \<in> {Delivered, DroppedByFilter} \<and> ev_received_at e < now - days * 86400000);
      wipes = (\<lambda>e. settled (deliveredDays rt) e \<and> ev_payload e \<noteq> []);
      deletes = settled (ledgerDays rt) in
    runPrune (memory_host_ops routes W) cf (\<lambda>_. False) fuel s =
      (Inr (Some (length (filter wipes (mh_rows (en_host s))), length (filter deletes (mh_rows (en_host s))))), s') \<and>
    mh_rows (en_host s') = map (\<lambda>e. if wipes e then e\<lparr>ev_payload := [], ev_payload_iv := None, ev_headers_json := ''{}''\<rparr> else e)
      (filter (\<lambda>e. \<not> deletes e) (mh_rows (en_host s)))"
proof -
  let ?D = "memory_host_ops routes W"
  obtain now h1 where t: "ho_now ?D (en_host s) = (now, h1)" by fastforce
  have h1: "mh_rows h1 = mh_rows (en_host s)" "mh_ok h1"
    using t assms(1) by (auto simp: memory_host_calls via_def mh_rows_def mh_ok_def split: prod.splits)
  obtain acc' s' where run: "prune_loop ?D (\<lambda>_. False) now rt fuel (0, 0) (s\<lparr>en_host := h1\<rparr>) = (Inr acc', s')"
    using memory_prune_returns by blast
  have fuel: "to_wipe now (deliveredDays rt) (mh_rows (en_host (s\<lparr>en_host := h1\<rparr>))) +
      to_delete now (ledgerDays rt) (mh_rows (en_host (s\<lparr>en_host := h1\<rparr>))) < fuel"
    using to_do_le [of now "deliveredDays rt" "mh_rows h1" "ledgerDays rt"] assms(3) h1 by simp
  have "mh_ok (en_host (s\<lparr>en_host := h1\<rparr>))" using h1 by simp
  from memory_host.prune_loop_effect [OF this fuel run] h1
  have done_: "acc' = Some (to_wipe now (deliveredDays rt) (mh_rows (en_host s)), to_delete now (ledgerDays rt) (mh_rows (en_host s)))"
    "mh_rows (en_host s') = retained now (deliveredDays rt) (ledgerDays rt) (mh_rows (en_host s))"
    by (auto split: option.splits)
  have "runPrune ?D cf (\<lambda>_. False) fuel s = (Inr acc', s')"
    using run by (simp add: runPrune_def assms(2) bindE_ask [where g = "ho_now ?D", OF t] catchE_def)
  moreover have wipes: "wipeable now dd = (\<lambda>e. (ev_status e \<in> {Delivered, DroppedByFilter} \<and> ev_received_at e < now - dd * 86400000) \<and> ev_payload e \<noteq> [])"
    and deletes: "deletable now ld = (\<lambda>e. ev_status e \<in> {Delivered, DroppedByFilter} \<and> ev_received_at e < now - ld * 86400000)" for dd ld
    by (auto simp: wipeable_def deletable_def is_terminal_def DAY_def fun_eq_iff)
  ultimately show ?thesis using done_
    unfolding to_wipe_def to_delete_def retained_def wipes deletes wipe_row_def Let_def t fst_conv by blast
qed

definition retained_config :: engine_config where
  "retained_config = online_config\<lparr>cf_retention := Some \<lparr>deliveredDays = 0, ledgerDays = 1\<rparr>\<rparr>"

text \<open>At time 6000: a pending event, one delivered a second ago, and one delivered more than a day ago.\<close>

definition waiting_row :: event_record where
  "waiting_row = new_row \<lparr>ne_route_id = ''r1'', ne_source = ''payabli'', ne_event_id = ''e1'', ne_event_type = None, ne_payload = [1],
     ne_payload_iv = None, ne_headers_json = ''{}'', ne_received_at = 5000, ne_status = Pending, ne_idempotency_key = ''k1''\<rparr> ''1''"

definition settled_row :: event_record where
  "settled_row = waiting_row\<lparr>ev_id := ''2'', ev_idempotency_key := ''k2'', ev_status := Delivered\<rparr>"

definition ancient_row :: event_record where
  "ancient_row = settled_row\<lparr>ev_id := ''3'', ev_idempotency_key := ''k3'', ev_received_at := - 86400000\<rparr>"

definition retention_state :: "unit memory_host dispatcher" where
  "retention_state = \<lparr>en_host = \<lparr>mh_store = \<lparr>mem_rows = [waiting_row, settled_row, ancient_row],
       mem_by_key = [(''k1'', ''1''), (''k2'', ''2''), (''k3'', ''3'')], mem_next_id = 4\<rparr>, mh_control = empty_control, mh_world = ()\<rparr>,
     en_trace = [], d_reclaimOwner = None, d_lastSweepAt = 0, d_summary = new_summary\<rparr>"

lemmas retention_rows = waiting_row_def settled_row_def ancient_row_def new_row_def

lemma retention_ok: "mh_ok (en_host retention_state)" "mh_rows (en_host retention_state) = [waiting_row, settled_row, ancient_row]"
proof -
  have ids: "\<exists>n < 4. ''1'' = string_of_nat n" "\<exists>n < 4. ''2'' = string_of_nat n" "\<exists>n < 4. ''3'' = string_of_nat n"
    by (rule exI [of _ 1], code_simp, rule exI [of _ 2], code_simp, rule exI [of _ 3], code_simp)
  then show "mh_ok (en_host retention_state)"
    by (simp add: mh_ok_def retention_state_def mem_ok_def wf_rows_def retention_rows)
  show "mh_rows (en_host retention_state) = [waiting_row, settled_row, ancient_row]"
    by (simp add: mh_rows_def retention_state_def)
qed

theorem runPrune_completes_witness:
  "\<exists>s'. runPrune online_host retained_config (\<lambda>_. False) 7 retention_state = (Inr (Some (2, 1)), s') \<and>
     mh_rows (en_host s') = [waiting_row, settled_row\<lparr>ev_payload := [], ev_payload_iv := None, ev_headers_json := ''{}''\<rparr>]"
proof -
  have now: "fst (ho_now online_host (en_host retention_state)) = 6000"
    by (simp add: memory_host_calls via_def online_world_def retention_state_def)
  have "cf_retention retained_config = Some \<lparr>deliveredDays = 0, ledgerDays = 1\<rparr>" by (simp add: retained_config_def)
  from runPrune_completes [OF retention_ok(1) this, of 7 "[demo_route, other_route]" online_world]
  show ?thesis by (simp add: now retention_ok(2) Let_def retention_rows numeral_2_eq_2)
qed

end
