(* ===== verification/Busy.thy ===== *)
theory Busy imports Exn begin

text \<open>
  Lock contention of the SQLite driver (\<open>packages/store-sqlite/src/busy.ts\<close>) and the wrapper
  every store call goes through (\<open>runSqlite\<close> in \<open>store-sqlite/src/store.ts\<close>): retry while the
  database is busy, and turn whatever is thrown in the end into an error of the store.
  Logging is left out.
\<close>

section \<open>Retrying\<close>

definition BUSY_RETRY_ATTEMPTS :: nat where "BUSY_RETRY_ATTEMPTS = 3"
definition INGEST_BUSY_RETRY_ATTEMPTS :: nat where "INGEST_BUSY_RETRY_ATTEMPTS = 2"
definition DEFAULT_DELAY_MS :: nat where "DEFAULT_DELAY_MS = 200"

fun isSqliteBusy :: "exn \<Rightarrow> bool" where
  "isSqliteBusy (CodedError m code) = (code = ''SQLITE_BUSY'' \<or> starts_with ''SQLITE_BUSY_'' code)"
| "isSqliteBusy _ = False"

text \<open>
  \<open>busy_loop fn pause attempts delayMs i left\<close> is the loop at counter \<open>i\<close> with \<open>left\<close> rounds to
  go.  A loop of no rounds throws \<open>undefined\<close>.
\<close>

fun busy_loop ::
  "('s, exn, 'a) sem \<Rightarrow> (nat \<Rightarrow> ('s, exn, unit) sem) \<Rightarrow> nat \<Rightarrow> nat \<Rightarrow> nat \<Rightarrow> nat \<Rightarrow> ('s, exn, 'a) sem" where
  "busy_loop fn pause attempts delayMs i 0 = throwE (OtherError ''undefined'')"
| "busy_loop fn pause attempts delayMs i (Suc left) = catchE fn (\<lambda>err.
     if \<not> isSqliteBusy err \<or> i = attempts - 1 then throwE err
     else thenE (pause (delayMs * (i + 1))) (busy_loop fn pause attempts delayMs (Suc i) left))"

definition withBusyRetry :: "nat \<Rightarrow> (nat \<Rightarrow> ('s, exn, unit) sem) \<Rightarrow> ('s, exn, 'a) sem \<Rightarrow> ('s, exn, 'a) sem" where
  "withBusyRetry attempts pause fn = busy_loop fn pause attempts DEFAULT_DELAY_MS 0 attempts"

definition as_store_error :: "string \<Rightarrow> exn \<Rightarrow> exn" where
  "as_store_error op err =
     (if isSqliteBusy err then StoreUnavailableError (message err) op
      else if is_store_error err then err
      else StoreError (message err) op)"

definition runSqlite :: "string \<Rightarrow> nat \<Rightarrow> (nat \<Rightarrow> ('s, exn, unit) sem) \<Rightarrow> ('s, exn, 'a) sem \<Rightarrow> ('s, exn, 'a) sem" where
  "runSqlite op attempts pause fn = catchE (withBusyRetry attempts pause fn) (\<lambda>err. throwE (as_store_error op err))"

section \<open>What the caller sees\<close>

lemma busy_loop_runs:
  assumes "\<And>ms s. pause ms s = (Inr (), s)" and "attempts = i + left" and "0 < left"
  shows "busy_loop fn pause attempts delayMs i left s =
     (case fn s of (Inr x, s') \<Rightarrow> (Inr x, s')
      | (Inl e, s') \<Rightarrow> if \<not> isSqliteBusy e \<or> left = 1 then (Inl e, s') else busy_loop fn pause attempts delayMs (Suc i) (left - 1) s')"
  using assms by (cases left) (auto simp: catchE_def thenE_def bindE_def throwE_def split: prod.splits sum.splits)

text \<open>The states a retried call goes through: each failed try leaves one, in which the next starts.\<close>

fun busy_tries :: "('s, exn, 'a) sem \<Rightarrow> nat \<Rightarrow> 's \<Rightarrow> (exn + 'a) \<times> 's" where
  "busy_tries fn 0 s = fn s"
| "busy_tries fn (Suc n) s = (case fn s of
     (Inr x, s') \<Rightarrow> (Inr x, s')
   | (Inl e, s') \<Rightarrow> if isSqliteBusy e then busy_tries fn n s' else (Inl e, s'))"

lemma busy_loop_tries:
  assumes "\<And>ms s. pause ms s = (Inr (), s)"
  shows "busy_loop fn pause (i + Suc n) delayMs i (Suc n) s = busy_tries fn n s"
proof (induction n arbitrary: i s)
  case 0
  show ?case using busy_loop_runs [where pause = pause and attempts = "i + 1" and i = i and left = 1 and fn = fn and delayMs = delayMs and s = s, OF assms] by (auto split: prod.splits sum.splits)
next
  case (Suc n)
  have "busy_loop fn pause (i + Suc (Suc n)) delayMs (Suc i) (Suc n) s' = busy_tries fn n s'" for s'
    using Suc.IH [of "Suc i" s'] by simp
  then show ?case
    by (subst busy_loop_runs [where pause = pause, OF assms]) (auto split: prod.splits sum.splits)
qed

lemma runSqlite_tries:
  assumes "\<And>ms s. pause ms s = (Inr (), s)" and "0 < attempts"
  shows "runSqlite op attempts pause fn s = (case busy_tries fn (attempts - 1) s of
      (Inr x, s') \<Rightarrow> (Inr x, s')
    | (Inl e, s') \<Rightarrow> (Inl (as_store_error op e), s'))"
proof -
  have "withBusyRetry attempts pause fn s = busy_tries fn (attempts - 1) s"
    using busy_loop_tries [where pause = pause and i = 0 and n = "attempts - 1" and fn = fn and delayMs = DEFAULT_DELAY_MS and s = s, OF assms(1)] assms(2)
    by (simp add: withBusyRetry_def)
  then show ?thesis
    by (auto simp: runSqlite_def catchE_def throwE_def split: prod.splits sum.splits)
qed

text \<open>
  What a failure keeps, every try starts from: a relation that each failing call preserves and
  each returning call ends in another is the same for the whole of the retries.
\<close>

definition either :: "('s \<Rightarrow> bool) \<Rightarrow> ('a \<Rightarrow> 's \<Rightarrow> bool) \<Rightarrow> (exn + 'a) \<times> 's \<Rightarrow> bool" where
  "either K Q x \<longleftrightarrow> (case x of (Inl e, s) \<Rightarrow> K s | (Inr a, s) \<Rightarrow> Q a s)"

lemma either_simps [simp]: "either K Q (Inl e, s) = K s" "either K Q (Inr a, s) = Q a s"
  by (simp_all add: either_def)

lemma busy_tries_keeps:
  assumes "\<And>s. K s \<Longrightarrow> either K Q (m s)" and "K s"
  shows "either K Q (busy_tries m n s)"
  using assms(2)
proof (induction n arbitrary: s)
  case 0
  with assms(1) show ?case by simp
next
  case (Suc n)
  obtain r s' where m: "m s = (r, s')" by fastforce
  with assms(1) [OF Suc.prems] have "either K Q (r, s')" by simp
  with m Suc.IH [of s'] show ?case by (cases r) simp_all
qed

lemma runSqlite_keeps:
  assumes "\<And>ms s. pause ms s = (Inr (), s)" and "0 < attempts" and "\<And>s. K s \<Longrightarrow> either K Q (m s)" and "K s"
  shows "either K Q (runSqlite op attempts pause m s)"
proof -
  have "either K Q (busy_tries m (attempts - 1) s)" by (rule busy_tries_keeps) (use assms(3,4) in blast)+
  then show ?thesis
    unfolding runSqlite_tries [where pause = pause, OF assms(1,2)] by (auto simp: either_def split: prod.splits sum.splits)
qed

text \<open>
  \<^bold>\<open>C32.\<close> A store call reaches the driver at most as often as it has attempts, once more after
  each busy failure (a code \<open>SQLITE_BUSY\<close> or one that extends it by an underscore) and never after
  another outcome.  A value comes back as it is; a database still busy at the end as
  \<open>StoreUnavailableError\<close> and any other failure as \<open>StoreError\<close>, with the driver's message and the
  name of the operation; an error that is a store's already keeps its own.
\<close>

theorem runSqlite_outcome:
  assumes "\<And>ms s. pause ms s = (Inr (), s)" and "0 < attempts"
  shows "runSqlite op attempts pause fn s = (case busy_tries fn (attempts - 1) s of
      (Inr x, s') \<Rightarrow> (Inr x, s')
    | (Inl e, s') \<Rightarrow> (Inl (case e of
         CodedError m code \<Rightarrow> if code = ''SQLITE_BUSY'' \<or> (\<exists>rest. code = ''SQLITE_BUSY_'' @ rest) then StoreUnavailableError m op else StoreError m op
       | StoreError m op' \<Rightarrow> StoreError m op' | StoreUnavailableError m op' \<Rightarrow> StoreUnavailableError m op'
       | _ \<Rightarrow> StoreError (message e) op), s')) \<and>
    (isSqliteBusy e0 \<longleftrightarrow> (\<exists>m code. e0 = CodedError m code \<and> (code = ''SQLITE_BUSY'' \<or> (\<exists>rest. code = ''SQLITE_BUSY_'' @ rest))))"
proof -
  have err: "as_store_error op e = (case e of
         CodedError m code \<Rightarrow> if code = ''SQLITE_BUSY'' \<or> (\<exists>rest. code = ''SQLITE_BUSY_'' @ rest) then StoreUnavailableError m op else StoreError m op
       | StoreError m op' \<Rightarrow> StoreError m op' | StoreUnavailableError m op' \<Rightarrow> StoreUnavailableError m op'
       | _ \<Rightarrow> StoreError (message e) op)" for e
    by (cases e) (simp_all add: as_store_error_def starts_with_iff)
  show ?thesis unfolding runSqlite_tries [where pause = pause, OF assms] err by (cases e0) (simp_all add: starts_with_iff)
qed

text \<open>A call that is busy twice and then answers, within three attempts.\<close>

definition busy_twice :: "(nat, exn, string) sem" where
  "busy_twice n = (if n < 2 then (Inl (CodedError ''locked'' ''SQLITE_BUSY''), Suc n) else (Inr ''row'', n))"

theorem runSqlite_outcome_witness:
  "runSqlite ''insert'' BUSY_RETRY_ATTEMPTS (\<lambda>ms. ret ()) busy_twice 0 = (Inr ''row'', 2) \<and>
   runSqlite ''insert'' INGEST_BUSY_RETRY_ATTEMPTS (\<lambda>ms. ret ()) busy_twice 0 = (Inl (StoreUnavailableError ''locked'' ''insert''), 2)"
  using runSqlite_outcome [of "\<lambda>ms. ret ()" BUSY_RETRY_ATTEMPTS "''insert''" busy_twice 0]
    runSqlite_outcome [of "\<lambda>ms. ret ()" INGEST_BUSY_RETRY_ATTEMPTS "''insert''" busy_twice 0]
  by (simp add: ret_def BUSY_RETRY_ATTEMPTS_def INGEST_BUSY_RETRY_ATTEMPTS_def numeral_eq_Suc busy_twice_def as_store_error_def)

end
