(* ===== verification/Sqlite.thy ===== *)
theory Sqlite imports Busy MemoryStore begin

text \<open>
  The SQLite event store (\<open>packages/store-sqlite/src/repo/events.ts\<close> and \<open>store.ts\<close>).  The table
  is the list of its rows in the order of the primary key; a statement is a function on it, or
  the failure the driver throws instead, in which case it has changed nothing.  Conditions of a
  \<open>WHERE\<close> clause are three-valued, as \<open>NULL\<close> makes them.  Points in time are stored as text; see
  the theory \<open>Store\<close>.
\<close>

section \<open>The database\<close>

record event_row =
  er_id :: nat
  er_route_id :: string
  er_source :: string
  er_event_id :: string
  er_event_type :: "string option"
  er_payload_enc :: bytes
  er_payload_iv :: bytes
  er_headers_json :: string
  er_received_at :: int
  er_status :: event_status
  er_attempts :: nat
  er_next_attempt_at :: "int option"
  er_delivered_at :: "int option"
  er_bulk_request_id :: "string option"
  er_last_error :: "string option"
  er_idempotency_key :: string
  er_claimed_by :: "string option"
  er_lease_until :: "int option"

text \<open>
  \<open>db_faults\<close> is what the driver will throw at the next statements (nothing, once the list is
  used up); \<open>db_scan\<close> is the order in which a query without \<open>ORDER BY\<close> visits the rows.
\<close>

record sqlite_db =
  db_events :: "event_row list"
  db_kv :: "(string \<times> string) list"
  db_scan :: "event_row list \<Rightarrow> event_row list"
  db_faults :: "exn option list"

type_synonym 'a sql = "(sqlite_db, exn, 'a) sem"

definition statement :: "(sqlite_db \<Rightarrow> 'a \<times> sqlite_db) \<Rightarrow> 'a sql" where
  "statement f d = (case db_faults d of
     [] \<Rightarrow> (case f d of (x, d') \<Rightarrow> (Inr x, d'))
   | None # fs \<Rightarrow> (case f (d\<lparr>db_faults := fs\<rparr>) of (x, d') \<Rightarrow> (Inr x, d'))
   | Some e # fs \<Rightarrow> (Inl e, d\<lparr>db_faults := fs\<rparr>))"

text \<open>\<open>db.transaction(fn)\<close>: begin, the body, commit; whatever throws, the tables are as before.\<close>

definition transaction :: "'a sql \<Rightarrow> 'a sql" where
  "transaction m d = (case thenE (statement (\<lambda>d. ((), d))) (bindE m (\<lambda>x. thenE (statement (\<lambda>d. ((), d))) (ret x))) d of
     (Inr x, d') \<Rightarrow> (Inr x, d')
   | (Inl e, d') \<Rightarrow> (Inl e, d'\<lparr>db_events := db_events d, db_kv := db_kv d\<rparr>))"

section \<open>Conditions\<close>

definition sql_eq :: "'a option \<Rightarrow> 'a option \<Rightarrow> bool option" where
  "sql_eq x y = (case (x, y) of (Some a, Some b) \<Rightarrow> Some (a = b) | _ \<Rightarrow> None)"

definition sql_lt :: "int option \<Rightarrow> int option \<Rightarrow> bool option" where
  "sql_lt x y = (case (x, y) of (Some a, Some b) \<Rightarrow> Some (a < b) | _ \<Rightarrow> None)"

definition sql_le :: "int option \<Rightarrow> int option \<Rightarrow> bool option" where
  "sql_le x y = (case (x, y) of (Some a, Some b) \<Rightarrow> Some (a \<le> b) | _ \<Rightarrow> None)"

definition sql_or :: "bool option \<Rightarrow> bool option \<Rightarrow> bool option" where
  "sql_or x y = (if x = Some True \<or> y = Some True then Some True else if x = None \<or> y = None then None else Some False)"

definition sql_and :: "bool option \<Rightarrow> bool option \<Rightarrow> bool option" where
  "sql_and x y = (if x = Some False \<or> y = Some False then Some False else if x = None \<or> y = None then None else Some True)"

definition where_holds :: "(event_row \<Rightarrow> bool option) \<Rightarrow> event_row \<Rightarrow> bool" where
  "where_holds c r \<longleftrightarrow> c r = Some True"

lemmas sql_defs = sql_eq_def sql_lt_def sql_le_def sql_or_def sql_and_def where_holds_def

text \<open>\<open>UPDATE events SET ... WHERE ...\<close>, which answers how many rows it changed.\<close>

definition update_events :: "(event_row \<Rightarrow> bool option) \<Rightarrow> (event_row \<Rightarrow> event_row) \<Rightarrow> nat sql" where
  "update_events c f = statement (\<lambda>d. (length (filter (where_holds c) (db_events d)),
     d\<lparr>db_events := update_where (where_holds c) f (db_events d)\<rparr>))"

section \<open>The repository\<close>

record insert_event =
  ie_route_id :: string
  ie_source :: string
  ie_event_id :: string
  ie_event_type :: "string option"
  ie_payload_enc :: bytes
  ie_payload_iv :: bytes
  ie_headers_json :: string
  ie_received_at :: int
  ie_status :: event_status
  ie_idempotency_key :: string

text \<open>A primary key without \<open>AUTOINCREMENT\<close>: one more than the largest in the table.\<close>

definition next_rowid :: "event_row list \<Rightarrow> nat" where
  "next_rowid rs = (if rs = [] then 1 else Suc (Max (er_id ` set rs)))"

definition inserted_row :: "insert_event \<Rightarrow> nat \<Rightarrow> event_row" where
  "inserted_row e i = \<lparr>er_id = i, er_route_id = ie_route_id e, er_source = ie_source e, er_event_id = ie_event_id e,
     er_event_type = ie_event_type e, er_payload_enc = ie_payload_enc e, er_payload_iv = ie_payload_iv e,
     er_headers_json = ie_headers_json e, er_received_at = ie_received_at e, er_status = ie_status e, er_attempts = 0,
     er_next_attempt_at = Some (ie_received_at e), er_delivered_at = None, er_bulk_request_id = None, er_last_error = None,
     er_idempotency_key = ie_idempotency_key e, er_claimed_by = None, er_lease_until = None\<rparr>"

definition repo_insert :: "insert_event \<Rightarrow> nat option sql" where
  "repo_insert e = statement (\<lambda>d.
     if ie_idempotency_key e \<in> er_idempotency_key ` set (db_events d) then (None, d)
     else (Some (next_rowid (db_events d)), d\<lparr>db_events := db_events d @ [inserted_row e (next_rowid (db_events d))]\<rparr>))"

definition due_where :: "int \<Rightarrow> event_row \<Rightarrow> bool option" where
  "due_where now r = sql_and (Some (er_status r \<in> {Pending, Retry})) (sql_le (er_next_attempt_at r) (Some now))"

text \<open>\<open>id IN (?, ...)\<close>; a parameter that is no number is bound as \<open>NULL\<close>.\<close>

definition id_in :: "nat option list \<Rightarrow> event_row \<Rightarrow> bool option" where
  "id_in ids r = (if Some (er_id r) \<in> set ids then Some True else if None \<in> set ids then None else Some False)"

definition lease_row :: "int \<Rightarrow> string \<Rightarrow> int \<Rightarrow> event_row \<Rightarrow> event_row" where
  "lease_row now owner leaseUntil r = r\<lparr>er_status := Delivering, er_next_attempt_at := Some now,
     er_claimed_by := Some owner, er_lease_until := Some leaseUntil\<rparr>"

definition repo_claimDue :: "string \<Rightarrow> int \<Rightarrow> nat \<Rightarrow> string \<Rightarrow> int \<Rightarrow> event_row list sql" where
  "repo_claimDue routeId now limit owner leaseUntil = transaction
     (bindE (statement (\<lambda>d. (take limit (filter (where_holds (\<lambda>r. sql_and (Some (er_route_id r = routeId)) (due_where now r)))
        (db_events d)), d))) (\<lambda>found.
      if found = [] then ret found
      else bindE (update_events (id_in (map (\<lambda>r. Some (er_id r)) found)) (lease_row now owner leaseUntil)) (\<lambda>_.
        ret (map (lease_row now owner leaseUntil) found))))"

definition settled_lease :: "event_row \<Rightarrow> event_row" where
  "settled_lease r = r\<lparr>er_claimed_by := None, er_lease_until := None\<rparr>"

definition repo_markDelivered :: "nat option list \<Rightarrow> int \<Rightarrow> string option \<Rightarrow> unit sql" where
  "repo_markDelivered ids deliveredAt bulkRequestId = (if ids = [] then ret () else
     bindE (update_events (id_in ids) (\<lambda>r. settled_lease (r\<lparr>er_status := Delivered, er_delivered_at := Some deliveredAt,
       er_bulk_request_id := bulkRequestId, er_last_error := None\<rparr>))) (\<lambda>_. ret ()))"

definition retried_row :: "int \<Rightarrow> string \<Rightarrow> event_row \<Rightarrow> event_row" where
  "retried_row nextAttemptAt err r = settled_lease (r\<lparr>er_status := Retry, er_attempts := er_attempts r + 1,
     er_next_attempt_at := Some nextAttemptAt, er_last_error := Some (slice_to 500 err)\<rparr>)"

definition repo_markFailed :: "nat option list \<Rightarrow> int \<Rightarrow> string \<Rightarrow> unit sql" where
  "repo_markFailed ids nextAttemptAt err = (if ids = [] then ret () else
     bindE (update_events (id_in ids) (retried_row nextAttemptAt err)) (\<lambda>_. ret ()))"

definition repo_markParked :: "nat option list \<Rightarrow> string \<Rightarrow> unit sql" where
  "repo_markParked ids err = (if ids = [] then ret () else
     bindE (update_events (id_in ids) (\<lambda>r. settled_lease (r\<lparr>er_status := Parked, er_last_error := Some (slice_to 500 err)\<rparr>)))
       (\<lambda>_. ret ()))"

definition repo_recoverDelivering :: "int \<Rightarrow> string option \<Rightarrow> nat sql" where
  "repo_recoverDelivering now owner = update_events
     (\<lambda>r. sql_and (Some (er_status r = Delivering))
        (sql_or (Some (er_lease_until r = None)) (sql_or (sql_lt (er_lease_until r) (Some now)) (sql_eq (er_claimed_by r) owner))))
     (\<lambda>r. settled_lease (r\<lparr>er_status := Retry, er_next_attempt_at := Some now\<rparr>))"

definition repo_releaseDelivering :: "nat option list \<Rightarrow> int \<Rightarrow> string \<Rightarrow> nat sql" where
  "repo_releaseDelivering ids nextAttemptAt err = (if ids = [] then ret 0 else
     update_events (\<lambda>r. sql_and (Some (er_status r = Delivering)) (id_in ids r)) (retried_row nextAttemptAt err))"

definition repo_routesWithDueEvents :: "int \<Rightarrow> string list sql" where
  "repo_routesWithDueEvents now = statement (\<lambda>d.
     (remdups (map er_route_id (filter (where_holds (due_where now)) (db_scan d (db_events d)))), d))"

definition repo_parkExpired :: "int \<Rightarrow> int \<Rightarrow> nat sql" where
  "repo_parkExpired now maxAgeMs = update_events
     (\<lambda>r. sql_and (Some (er_status r = Retry)) (Some (er_received_at r < now - maxAgeMs)))
     (\<lambda>r. r\<lparr>er_status := Parked, er_last_error := Some ''retry window exhausted''\<rparr>)"

definition terminal_before :: "int \<Rightarrow> event_row \<Rightarrow> bool option" where
  "terminal_before cutoff r = sql_and (Some (er_status r \<in> {Delivered, DroppedByFilter})) (Some (er_received_at r < cutoff))"

definition repo_pruneBatch :: "int \<Rightarrow> int \<Rightarrow> int \<Rightarrow> nat \<Rightarrow> (nat \<times> nat) sql" where
  "repo_pruneBatch now deliveredDays ledgerDays limit =
     (let wipeCutoff = now - deliveredDays * DAY; deleteCutoff = now - ledgerDays * DAY in
      bindE (statement (\<lambda>d. (map (\<lambda>r. Some (er_id r)) (take limit (filter
        (where_holds (\<lambda>r. sql_and (terminal_before wipeCutoff r) (Some (0 < length (er_payload_enc r)))))
        (db_scan d (db_events d)))), d))) (\<lambda>wipeIds.
      if wipeIds \<noteq> [] then
        bindE (update_events (id_in wipeIds) (\<lambda>r. r\<lparr>er_payload_enc := [], er_payload_iv := [], er_headers_json := ''{}''\<rparr>))
          (\<lambda>wiped. ret (wiped, 0))
      else
        bindE (statement (\<lambda>d. (map (\<lambda>r. Some (er_id r)) (take limit (filter (where_holds (terminal_before deleteCutoff)) (db_scan d (db_events d)))), d))) (\<lambda>deleteIds.
        if deleteIds = [] then ret (0, 0)
        else bindE (statement (\<lambda>d. (length (filter (where_holds (id_in deleteIds)) (db_events d)),
            d\<lparr>db_events := filter (\<lambda>r. \<not> where_holds (id_in deleteIds) r) (db_events d)\<rparr>))) (\<lambda>deleted.
          ret (0, deleted)))))"


section \<open>The operator's part of the repository\<close>

definition repo_getById :: "nat option \<Rightarrow> event_row option sql" where
  "repo_getById i = statement (\<lambda>d. (find (where_holds (id_in [i])) (db_events d), d))"

text \<open>\<open>ORDER BY id DESC LIMIT ?\<close>; an empty filter text counts as none.\<close>

definition listed_where :: "list_filter \<Rightarrow> event_row \<Rightarrow> bool option" where
  "listed_where f r = sql_and
     (case lf_status f of None \<Rightarrow> Some True | Some st \<Rightarrow> Some (er_status r = st))
     (case lf_route f of None \<Rightarrow> Some True | Some [] \<Rightarrow> Some True | Some rt \<Rightarrow> Some (er_route_id r = rt))"

definition repo_list :: "list_filter \<Rightarrow> event_row list sql" where
  "repo_list f = statement (\<lambda>d. (take (case lf_limit f of None \<Rightarrow> 50 | Some n \<Rightarrow> n)
     (sort_key (\<lambda>r. - int (er_id r)) (filter (where_holds (listed_where f)) (db_events d))), d))"

definition repo_replay :: "int \<Rightarrow> nat option \<Rightarrow> bool sql" where
  "repo_replay now i = bindE (update_events (\<lambda>r. sql_and (id_in [i] r) (Some (er_status r = Parked)))
     (\<lambda>r. r\<lparr>er_status := Retry, er_attempts := 0, er_next_attempt_at := Some now, er_last_error := None\<rparr>)) (\<lambda>changes. ret (changes = 1))"

definition repo_replayAllParked :: "int \<Rightarrow> nat sql" where
  "repo_replayAllParked now = update_events (\<lambda>r. Some (er_status r = Parked))
     (\<lambda>r. r\<lparr>er_status := Retry, er_attempts := 0, er_next_attempt_at := Some now, er_last_error := None\<rparr>)"

definition repo_countByStatus :: "(event_status \<times> nat) list sql" where
  "repo_countByStatus = statement (\<lambda>d. (map (\<lambda>st. (st, length (filter (\<lambda>r. er_status r = st) (db_events d))))
     (remdups (map er_status (db_scan d (db_events d)))), d))"

text \<open>\<open>MAX\<close> and \<open>MIN\<close> of a group skip \<open>NULL\<close>.\<close>

definition max_opt :: "int option list \<Rightarrow> int option" where
  "max_opt xs = (case List.map_filter id xs of [] \<Rightarrow> None | y # ys \<Rightarrow> Some (fold max ys y))"

definition min_opt :: "int option list \<Rightarrow> int option" where
  "min_opt xs = (case List.map_filter id xs of [] \<Rightarrow> None | y # ys \<Rightarrow> Some (fold min ys y))"

definition route_extremes :: "event_row list \<Rightarrow> (string \<times> int option \<times> int option) list" where
  "route_extremes rs = map (\<lambda>rt. (rt,
     max_opt (map er_delivered_at (filter (\<lambda>r. er_route_id r = rt) rs)),
     min_opt (map (\<lambda>r. if er_status r \<in> {Pending, Retry} then Some (er_received_at r) else None) (filter (\<lambda>r. er_route_id r = rt) rs))))
     (remdups (map er_route_id rs))"

definition route_counts :: "event_row list \<Rightarrow> (string \<times> event_status \<times> nat) list" where
  "route_counts rs = map (\<lambda>(rt, st). (rt, st, length (filter (\<lambda>r. er_route_id r = rt \<and> er_status r = st) rs)))
     (remdups (map (\<lambda>r. (er_route_id r, er_status r)) rs))"

text \<open>The two queries run one after the other; their answers meet in the \<open>Map\<close>.\<close>

definition repo_perRouteStats :: "(string \<times> route_stats) list sql" where
  "repo_perRouteStats =
     bindE (statement (\<lambda>d. (route_counts (db_scan d (db_events d)), d))) (\<lambda>counts.
     bindE (statement (\<lambda>d. (route_extremes (db_scan d (db_events d)), d))) (\<lambda>extremes.
       (let byRoute = fold (\<lambda>(rt, st, n) m. AList.update rt
              (let stats = (case map_of m rt of None \<Rightarrow> no_stats | Some s \<Rightarrow> s)
               in stats\<lparr>rs_counts := AList.update st n (rs_counts stats)\<rparr>) m) counts [] in
        ret (fold (\<lambda>(rt, lastDelivered, oldest) m. case map_of m rt of
            None \<Rightarrow> m
          | Some stats \<Rightarrow> AList.update rt (stats\<lparr>rs_last_delivered_at := lastDelivered, rs_oldest_pending_at := oldest\<rparr>) m) extremes byRoute))))"

section \<open>The store\<close>

text \<open>
  \<open>Number\<close> on the id of an event: an integer in decimal, white space around it and the empty
  text (zero) as JavaScript reads them; no other text is read as an id.  Exact below 2^53.
\<close>

definition number_of_id :: "string \<Rightarrow> nat option" where
  "number_of_id s = (let t = js_trim s in if t = [] then Some 0 else if list_all is_digit t then Some (nat_of_digits t) else None)"

definition numericIds :: "string list \<Rightarrow> nat option list" where
  "numericIds ids = map number_of_id ids"

definition toRecord :: "event_row \<Rightarrow> event_record" where
  "toRecord r = \<lparr>ev_id = string_of_nat (er_id r), ev_route_id = er_route_id r, ev_source = er_source r, ev_event_id = er_event_id r,
     ev_event_type = er_event_type r, ev_payload = er_payload_enc r,
     ev_payload_iv = (if er_payload_iv r = [] then None else Some (er_payload_iv r)), ev_headers_json = er_headers_json r,
     ev_received_at = er_received_at r, ev_status = er_status r, ev_attempts = er_attempts r,
     ev_next_attempt_at = er_next_attempt_at r, ev_delivered_at = er_delivered_at r, ev_bulk_request_id = er_bulk_request_id r,
     ev_last_error = er_last_error r, ev_idempotency_key = er_idempotency_key r, ev_claimed_by = er_claimed_by r,
     ev_lease_until = er_lease_until r\<rparr>"

text \<open>Waiting between two tries does not touch the database.\<close>

definition pause_db :: "nat \<Rightarrow> unit sql" where
  "pause_db ms = ret ()"

definition run_db :: "string \<Rightarrow> 'a sql \<Rightarrow> 'a sql" where
  "run_db op m = runSqlite op BUSY_RETRY_ATTEMPTS pause_db m"

definition to_insert :: "new_event \<Rightarrow> insert_event" where
  "to_insert e = \<lparr>ie_route_id = ne_route_id e, ie_source = ne_source e, ie_event_id = ne_event_id e,
     ie_event_type = ne_event_type e, ie_payload_enc = ne_payload e,
     ie_payload_iv = (case ne_payload_iv e of None \<Rightarrow> [] | Some iv \<Rightarrow> iv), ie_headers_json = ne_headers_json e,
     ie_received_at = ne_received_at e, ie_status = ne_status e, ie_idempotency_key = ne_idempotency_key e\<rparr>"

definition sqlite_insert :: "new_event \<Rightarrow> insert_result sql" where
  "sqlite_insert e = bindE (runSqlite ''insert'' INGEST_BUSY_RETRY_ATTEMPTS pause_db (repo_insert (to_insert e))) (\<lambda>i.
     ret (case i of None \<Rightarrow> Duplicate | Some i \<Rightarrow> Inserted (string_of_nat i)))"

definition sqlite_ops :: "sqlite_db event_store_ops" where
  "sqlite_ops = \<lparr>st_insert = sqlite_insert,
     st_routesWithDueEvents = (\<lambda>now. run_db ''routesWithDueEvents'' (repo_routesWithDueEvents now)),
     st_claimDue = (\<lambda>routeId now limit l. bindE (run_db ''claimDue'' (repo_claimDue routeId now limit (lease_owner l) (lease_end l)))
       (\<lambda>found. ret (map toRecord found))),
     st_markDelivered = (\<lambda>ids t0 bulk. run_db ''markDelivered'' (repo_markDelivered (numericIds ids) t0 bulk)),
     st_markFailed = (\<lambda>ids t0 err. run_db ''markFailed'' (repo_markFailed (numericIds ids) t0 err)),
     st_markParked = (\<lambda>ids err. run_db ''markParked'' (repo_markParked (numericIds ids) err)),
     st_releaseDelivering = (\<lambda>ids t0 err. run_db ''releaseDelivering'' (repo_releaseDelivering (numericIds ids) t0 err)),
     st_recoverDelivering = (\<lambda>now owner. run_db ''recoverDelivering'' (repo_recoverDelivering now owner)),
     st_parkExpired = (\<lambda>now age. run_db ''parkExpired'' (repo_parkExpired now age)),
     st_pruneBatch = (\<lambda>now dd ld limit. run_db ''prune'' (repo_pruneBatch now dd ld limit))\<rparr>"

definition sqlite_getById :: "string \<Rightarrow> event_record option sql" where
  "sqlite_getById i = bindE (run_db ''getById'' (repo_getById (number_of_id i))) (\<lambda>r. ret (map_option toRecord r))"

definition sqlite_list :: "list_filter \<Rightarrow> event_summary list sql" where
  "sqlite_list f = bindE (run_db ''list'' (repo_list f)) (\<lambda>rs. ret (map (summary_of \<circ> toRecord) rs))"

definition sqlite_replay :: "int \<Rightarrow> string \<Rightarrow> bool sql" where
  "sqlite_replay now i = run_db ''replay'' (repo_replay now (number_of_id i))"

definition sqlite_replayAllParked :: "int \<Rightarrow> nat sql" where
  "sqlite_replayAllParked now = run_db ''replayAllParked'' (repo_replayAllParked now)"

definition sqlite_countByStatus :: "(event_status \<times> nat) list sql" where
  "sqlite_countByStatus = run_db ''countByStatus'' repo_countByStatus"

definition sqlite_perRouteStats :: "(string \<times> route_stats) list sql" where
  "sqlite_perRouteStats = run_db ''perRouteStats'' repo_perRouteStats"

end
