(* ===== verification/SqliteFacts.thy ===== *)
theory SqliteFacts imports Sqlite "HOL-Library.Multiset" begin

text \<open>
  The SQLite store meets the contract of an event store: seen as the records it hands out, its
  table changes exactly as the contract says, and not at all when a call throws, however often
  the driver fails.
\<close>

section \<open>The table as records\<close>

definition sqlite_rows :: "sqlite_db \<Rightarrow> event_record list" where
  "sqlite_rows d = map toRecord (db_events d)"

definition sqlite_ok :: "sqlite_db \<Rightarrow> bool" where
  "sqlite_ok d \<longleftrightarrow> distinct (map er_id (db_events d)) \<and> distinct (map er_idempotency_key (db_events d)) \<and>
     (\<forall>rs. mset (db_scan d rs) = mset rs)"

lemma toRecord_fields [simp]:
  "ev_id (toRecord r) = string_of_nat (er_id r)" "ev_route_id (toRecord r) = er_route_id r" "ev_status (toRecord r) = er_status r"
  "ev_idempotency_key (toRecord r) = er_idempotency_key r" "ev_received_at (toRecord r) = er_received_at r"
  "ev_next_attempt_at (toRecord r) = er_next_attempt_at r" "ev_payload (toRecord r) = er_payload_enc r"
  "ev_lease_until (toRecord r) = er_lease_until r" "ev_claimed_by (toRecord r) = er_claimed_by r"
  by (simp_all add: toRecord_def)

lemma sqlite_faults [simp]: "sqlite_ok (d\<lparr>db_faults := fs\<rparr>) = sqlite_ok d" "sqlite_rows (d\<lparr>db_faults := fs\<rparr>) = sqlite_rows d"
  by (simp_all add: sqlite_ok_def sqlite_rows_def)

lemma sqlite_kv [simp]: "sqlite_ok (d\<lparr>db_kv := kv\<rparr>) = sqlite_ok d" "sqlite_rows (d\<lparr>db_kv := kv\<rparr>) = sqlite_rows d"
  by (simp_all add: sqlite_ok_def sqlite_rows_def)

lemma sqlite_wf: "sqlite_ok d \<Longrightarrow> wf_rows (sqlite_rows d)"
  by (auto simp: sqlite_ok_def sqlite_rows_def wf_rows_def distinct_map inj_on_def)

lemma toRecord_inj: "sqlite_ok d \<Longrightarrow> r \<in> set (db_events d) \<Longrightarrow> q \<in> set (db_events d) \<Longrightarrow> toRecord r = toRecord q \<longleftrightarrow> er_id r = er_id q"
  by (metis distinct_key_eq sqlite_ok_def string_of_nat_eq_iff toRecord_fields(1))

text \<open>The operations on rows are the ones of the contract.\<close>

lemma toRecord_updates:
  "toRecord (lease_row now owner leaseUntil r) = claim_row now \<lparr>lease_owner = owner, lease_end = leaseUntil\<rparr> (toRecord r)"
  "toRecord (settled_lease (r\<lparr>er_status := Delivered, er_delivered_at := Some t0, er_bulk_request_id := bulk, er_last_error := None\<rparr>)) =
     deliver_row t0 bulk (toRecord r)"
  "toRecord (retried_row t0 err r) = fail_row t0 err (toRecord r)"
  "toRecord (settled_lease (r\<lparr>er_status := Parked, er_last_error := Some (slice_to 500 err)\<rparr>)) = park_row err (toRecord r)"
  "toRecord (settled_lease (r\<lparr>er_status := Retry, er_next_attempt_at := Some now\<rparr>)) = recover_row now (toRecord r)"
  "toRecord (r\<lparr>er_status := Parked, er_last_error := Some ''retry window exhausted''\<rparr>) = expire_row (toRecord r)"
  "toRecord (r\<lparr>er_payload_enc := [], er_payload_iv := [], er_headers_json := ''{}''\<rparr>) = wipe_row (toRecord r)"
  "toRecord (r\<lparr>er_status := Retry, er_attempts := 0, er_next_attempt_at := Some now, er_last_error := None\<rparr>) = requeue_row now (toRecord r)"
  by (simp_all add: toRecord_def lease_row_def settled_lease_def retried_row_def claim_row_def deliver_row_def fail_row_def
      park_row_def recover_row_def expire_row_def wipe_row_def requeue_row_def clear_lease_def)

lemma toRecord_conditions:
  "where_holds (due_where now) r \<longleftrightarrow> is_due (toRecord r) now"
  "where_holds (\<lambda>r. sql_and (Some (er_route_id r = route)) (due_where now r)) r \<longleftrightarrow> ev_route_id (toRecord r) = route \<and> is_due (toRecord r) now"
  "where_holds (\<lambda>r. sql_and (Some (er_status r = Delivering))
     (sql_or (Some (er_lease_until r = None)) (sql_or (sql_lt (er_lease_until r) (Some now)) (sql_eq (er_claimed_by r) owner)))) r \<longleftrightarrow>
     recoverable now owner (toRecord r)"
  "where_holds (\<lambda>r. sql_and (Some (er_status r = Retry)) (Some (er_received_at r < cutoff))) r \<longleftrightarrow> expired cutoff (toRecord r)"
  "where_holds (\<lambda>r. sql_and (terminal_before (now - dd * DAY) r) (Some (0 < length (er_payload_enc r)))) r \<longleftrightarrow> wipeable now dd (toRecord r)"
  "where_holds (terminal_before (now - ld * DAY)) r \<longleftrightarrow> deletable now ld (toRecord r)"
  by (auto simp: sql_defs due_where_def is_due_def recoverable_def expired_def terminal_before_def wipeable_def deletable_def
      is_terminal_def split: option.splits if_splits)

lemma number_of_stored_id: "number_of_id (string_of_nat n) = Some n"
proof -
  have "js_trim (string_of_nat n) = string_of_nat n"
    using string_of_nat_digits [of n] is_digit_not_space by (intro js_trim_fixed) blast
  then show ?thesis
    using string_of_nat_digits [of n] string_of_nat_not_Nil [of n]
    by (simp add: number_of_id_def nat_of_digits_string_of_nat list_all_iff)
qed

lemma id_in_stored:
  assumes "set ids \<subseteq> ev_id ` set (sqlite_rows d)"
  shows "where_holds (id_in (numericIds ids)) r \<longleftrightarrow> with_ids ids (toRecord r)"
proof -
  have "number_of_id i = Some (er_id r) \<longleftrightarrow> i = string_of_nat (er_id r)" if "i \<in> set ids" for i
    using that assms by (auto simp: sqlite_rows_def number_of_stored_id)
  then have "Some (er_id r) \<in> number_of_id ` set ids \<longleftrightarrow> string_of_nat (er_id r) \<in> set ids"
    by (metis image_iff number_of_stored_id)
  then show ?thesis by (auto simp: where_holds_def id_in_def numericIds_def with_ids_def)
qed

section \<open>Calls that change the table as they should\<close>

text \<open>
  \<open>db_does P m Q\<close>: on a sound database whose records satisfy \<open>P\<close>, the call keeps it sound;
  when it throws the records are as before, when it returns they are as \<open>Q\<close> says.
\<close>

definition db_does :: "(event_record list \<Rightarrow> bool) \<Rightarrow> 'a sql \<Rightarrow> (event_record list \<Rightarrow> 'a \<Rightarrow> event_record list \<Rightarrow> bool) \<Rightarrow> bool" where
  "db_does P m Q \<longleftrightarrow> (\<forall>d. sqlite_ok d \<longrightarrow> P (sqlite_rows d) \<longrightarrow> updates sqlite_rows sqlite_ok m d Q)"

lemma db_doesD: "db_does P m Q \<Longrightarrow> sqlite_ok d \<Longrightarrow> P (sqlite_rows d) \<Longrightarrow> updates sqlite_rows sqlite_ok m d Q"
  by (simp add: db_does_def)

lemma db_statement:
  assumes "\<And>d. sqlite_ok d \<Longrightarrow> P (sqlite_rows d) \<Longrightarrow> sqlite_ok (snd (f d)) \<and> Q (sqlite_rows d) (fst (f d)) (sqlite_rows (snd (f d)))"
  shows "db_does P (statement f) Q"
  unfolding db_does_def
proof (intro allI impI)
  fix d assume d: "sqlite_ok d" "P (sqlite_rows d)"
  show "updates sqlite_rows sqlite_ok (statement f) d Q"
  proof (cases "db_faults d")
    case Nil
    with assms [OF d] show ?thesis by (simp add: updates_def statement_def split_beta)
  next
    case (Cons x fs)
    with assms [of "d\<lparr>db_faults := fs\<rparr>"] d show ?thesis by (cases x) (simp_all add: updates_def statement_def split_beta)
  qed
qed

lemma db_ret: "(\<And>rs. P rs \<Longrightarrow> Q rs x rs) \<Longrightarrow> db_does P (ret x) Q"
  by (simp add: db_does_def updates_def ret_def)

lemma db_if: "(b \<Longrightarrow> db_does P m Q) \<Longrightarrow> (\<not> b \<Longrightarrow> db_does P k Q) \<Longrightarrow> db_does P (if b then m else k) Q"
  by simp

lemma db_map:
  assumes "db_does P m Q" and "\<And>rs x rs'. Q rs x rs' \<Longrightarrow> Q' rs (g x) rs'"
  shows "db_does P (bindE m (\<lambda>x. ret (g x))) Q'"
  using assms unfolding db_does_def updates_def bindE_def ret_def
  by (fastforce split: prod.splits sum.splits)

lemma db_any: "db_does (\<lambda>_. True) m Q \<Longrightarrow> db_does P m Q"
  by (simp add: db_does_def)

lemma db_pre: "db_does P m Q \<Longrightarrow> db_does P m (\<lambda>rs x rs'. wf_rows rs \<and> P rs \<and> Q rs x rs')"
  unfolding db_does_def updates_def using sqlite_wf by (fastforce split: prod.splits sum.splits)

text \<open>A query first, then what follows from its answer.\<close>

lemma db_query:
  assumes "db_does P m (\<lambda>rs x rs'. rs' = rs \<and> R rs x)" and "\<And>x rs. P rs \<Longrightarrow> R rs x \<Longrightarrow> db_does (\<lambda>rs'. rs' = rs) (k x) Q"
  shows "db_does P (bindE m k) Q"
  unfolding db_does_def
proof (intro allI impI)
  fix d assume d: "sqlite_ok d" "P (sqlite_rows d)"
  obtain r d1 where m: "m d = (r, d1)" by fastforce
  note up = updatesD [OF db_doesD [OF assms(1) d] m]
  show "updates sqlite_rows sqlite_ok (bindE m k) d Q"
  proof (cases r)
    case (Inl e)
    with up(1) up(2) [OF Inl] m show ?thesis by (simp add: updates_def bindE_def)
  next
    case (Inr x)
    from up(3) [OF Inr] have "sqlite_rows d1 = sqlite_rows d" "R (sqlite_rows d) x" by simp_all
    with db_doesD [OF assms(2) [OF d(2)] up(1)] have "updates sqlite_rows sqlite_ok (k x) d1 Q" by blast
    with m Inr \<open>sqlite_rows d1 = _\<close> show ?thesis by (auto simp: updates_def bindE_def split: prod.splits sum.splits)
  qed
qed

lemma restored:
  "sqlite_ok d \<Longrightarrow> sqlite_ok d' \<Longrightarrow> sqlite_ok (d'\<lparr>db_events := db_events d\<rparr>)"
  "sqlite_rows (d'\<lparr>db_events := db_events d\<rparr>) = sqlite_rows d"
  by (simp_all add: sqlite_ok_def sqlite_rows_def)

lemma db_transaction:
  assumes "db_does P m Q"
  shows "db_does P (transaction m) Q"
  unfolding db_does_def
proof (intro allI impI)
  fix d assume d: "sqlite_ok d" "P (sqlite_rows d)"
  let ?nop = "statement (\<lambda>d. ((), d))"
  have nop: "sqlite_ok d2 \<and> sqlite_rows d2 = sqlite_rows d1" if "?nop d1 = (r, d2)" "sqlite_ok d1" for d1 r d2
    using that by (auto simp: statement_def split: list.splits option.splits)
  obtain r0 d0 where b: "?nop d = (r0, d0)" by fastforce
  from nop [OF b d(1)] have d0: "sqlite_ok d0" "sqlite_rows d0 = sqlite_rows d" by simp_all
  show "updates sqlite_rows sqlite_ok (transaction m) d Q"
  proof (cases r0)
    case (Inl e)
    with b d0 d(1) show ?thesis by (simp add: updates_def transaction_def thenE_def bindE_def restored)
  next
    case (Inr u)
    obtain r1 d1 where m: "m d0 = (r1, d1)" by fastforce
    have "P (sqlite_rows d0)" using d(2) d0(2) by simp
    note up = updatesD [OF db_doesD [OF assms d0(1) this] m]
    show ?thesis
    proof (cases r1)
      case (Inl e)
      with b Inr m up(1) d(1) show ?thesis by (simp add: updates_def transaction_def thenE_def bindE_def restored)
    next
      case r1: (Inr x)
      obtain r2 d2 where c: "?nop d1 = (r2, d2)" by fastforce
      from nop [OF c up(1)] have "sqlite_ok d2" "sqlite_rows d2 = sqlite_rows d1" by simp_all
      with b Inr m r1 c d d0(2) up(3) [OF r1] show ?thesis
        by (cases r2) (simp_all add: updates_def transaction_def thenE_def bindE_def ret_def restored)
    qed
  qed
qed

text \<open>Trying again after a busy failure starts from the same records.\<close>

lemma db_runSqlite:
  assumes "db_does P m Q" and "0 < attempts"
  shows "db_does P (runSqlite op attempts pause_db m) Q"
  unfolding db_does_def
proof (intro allI impI)
  fix d assume d: "sqlite_ok d" "P (sqlite_rows d)"
  let ?K = "\<lambda>d'. sqlite_ok d' \<and> sqlite_rows d' = sqlite_rows d" and ?Q = "\<lambda>x d'. sqlite_ok d' \<and> Q (sqlite_rows d) x (sqlite_rows d')"
  have "either ?K ?Q (runSqlite op attempts pause_db m d)"
  proof (rule runSqlite_keeps [where pause = pause_db])
    fix d' assume K: "?K d'"
    with d(2) have "updates sqlite_rows sqlite_ok m d' Q" by (intro db_doesD [OF assms(1)]) simp_all
    with K show "either ?K ?Q (m d')" by (auto simp: updates_def either_def split: prod.splits sum.splits)
  qed (use d(1) assms(2) in \<open>simp_all add: pause_db_def ret_def\<close>)
  then show "updates sqlite_rows sqlite_ok (runSqlite op attempts pause_db m) d Q"
    by (auto simp: updates_def either_def split: prod.splits sum.splits)
qed

lemma db_run: "db_does P m Q \<Longrightarrow> db_does P (run_db op m) Q"
  unfolding run_db_def by (rule db_runSqlite) (simp_all add: BUSY_RETRY_ATTEMPTS_def)

section \<open>The statements\<close>

lemma update_map: "(\<And>r. r \<in> set rs \<Longrightarrow> c r = p (h r)) \<Longrightarrow> (\<And>r. h (f r) = g (h r)) \<Longrightarrow>
    map h (update_where c f rs) = update_where p g (map h rs)"
  by (induction rs) auto

lemma count_map: "(\<And>r. r \<in> set rs \<Longrightarrow> c r = p (h r)) \<Longrightarrow> length (filter c rs) = length (filter p (map h rs))"
  by (induction rs) auto

lemma db_update:
  assumes "\<And>d r. sqlite_ok d \<Longrightarrow> P (sqlite_rows d) \<Longrightarrow> r \<in> set (db_events d) \<Longrightarrow> where_holds c r = p (sqlite_rows d) (toRecord r)"
    and "\<And>r. toRecord (f r) = g (toRecord r)" and "\<And>r. er_id (f r) = er_id r" and "\<And>r. er_idempotency_key (f r) = er_idempotency_key r"
  shows "db_does P (update_events c f) (\<lambda>rs n rs'. rs' = update_where (p rs) g rs \<and> n = length (filter (p rs) rs))"
  unfolding update_events_def
proof (rule db_statement)
  fix d assume d: "sqlite_ok d" "P (sqlite_rows d)"
  let ?es = "update_where (where_holds c) f (db_events d)"
  have "sqlite_ok (d\<lparr>db_events := ?es\<rparr>)" using d(1) assms(3,4) by (simp add: sqlite_ok_def)
  moreover have "sqlite_rows (d\<lparr>db_events := ?es\<rparr>) = update_where (p (sqlite_rows d)) g (sqlite_rows d)"
  proof -
    have "map toRecord ?es = update_where (p (sqlite_rows d)) g (map toRecord (db_events d))"
      by (rule update_map) (use assms(1) [OF d] assms(2) in simp_all)
    then show ?thesis by (simp add: sqlite_rows_def)
  qed
  moreover have "length (filter (where_holds c) (db_events d)) = length (filter (p (sqlite_rows d)) (sqlite_rows d))"
    unfolding sqlite_rows_def
    by (rule count_map) (use assms(1) [OF d] in \<open>simp add: sqlite_rows_def\<close>)
  ultimately show "sqlite_ok (snd (length (filter (where_holds c) (db_events d)), d\<lparr>db_events := ?es\<rparr>)) \<and>
      sqlite_rows (snd (length (filter (where_holds c) (db_events d)), d\<lparr>db_events := ?es\<rparr>)) = update_where (p (sqlite_rows d)) g (sqlite_rows d) \<and>
      fst (length (filter (where_holds c) (db_events d)), d\<lparr>db_events := ?es\<rparr>) = length (filter (p (sqlite_rows d)) (sqlite_rows d))"
    by simp
qed

text \<open>A condition that a row meets or not whatever the other rows are.\<close>

lemmas db_update_plain = db_update [where P = "\<lambda>_. True" and p = "\<lambda>_. p" for p]

lemma kept_columns [simp]:
  "er_id (settled_lease r) = er_id r" "er_idempotency_key (settled_lease r) = er_idempotency_key r"
  "er_id (retried_row t0 err r) = er_id r" "er_idempotency_key (retried_row t0 err r) = er_idempotency_key r"
  "er_id (lease_row now owner l r) = er_id r" "er_idempotency_key (lease_row now owner l r) = er_idempotency_key r"
  by (simp_all add: settled_lease_def retried_row_def lease_row_def)

abbreviation (input) known :: "string list \<Rightarrow> event_record list \<Rightarrow> bool" where
  "known ids rs \<equiv> set ids \<subseteq> ev_id ` set rs"

lemma none_named: "update_where (with_ids []) g rs = rs"
  by (rule update_where_false) (simp add: with_ids_def)

lemma numericIds_Nil [simp]: "numericIds ids = [] \<longleftrightarrow> ids = []"
  by (simp add: numericIds_def)

text \<open>Marking rows by id.\<close>

lemma db_mark:
  assumes "\<And>r. toRecord (f r) = g (toRecord r)" and "\<And>r. er_id (f r) = er_id r" and "\<And>r. er_idempotency_key (f r) = er_idempotency_key r"
  shows "db_does (known ids) (if numericIds ids = [] then ret () else bindE (update_events (id_in (numericIds ids)) f) (\<lambda>_. ret ()))
    (\<lambda>rs x rs'. rs' = update_where (with_ids ids) g rs)"
proof (rule db_if)
  assume "numericIds ids = []"
  then show "db_does (known ids) (ret ()) (\<lambda>rs x rs'. rs' = update_where (with_ids ids) g rs)"
    by (intro db_ret) (simp add: none_named)
next
  have "db_does (known ids) (update_events (id_in (numericIds ids)) f)
      (\<lambda>rs n rs'. rs' = update_where (with_ids ids) g rs \<and> n = length (filter (with_ids ids) rs))"
    by (rule db_update [where p = "\<lambda>_. with_ids ids"]) (use assms id_in_stored in auto)
  then show "db_does (known ids) (bindE (update_events (id_in (numericIds ids)) f) (\<lambda>_. ret ())) (\<lambda>rs x rs'. rs' = update_where (with_ids ids) g rs)"
    by (rule db_map) simp
qed

lemma db_markDelivered: "db_does (known ids) (repo_markDelivered (numericIds ids) t0 bulk) (\<lambda>rs x rs'. rs' = update_where (with_ids ids) (deliver_row t0 bulk) rs)"
  unfolding repo_markDelivered_def by (rule db_mark) (simp_all add: toRecord_updates)

lemma db_markFailed: "db_does (known ids) (repo_markFailed (numericIds ids) t0 err) (\<lambda>rs x rs'. rs' = update_where (with_ids ids) (fail_row t0 err) rs)"
  unfolding repo_markFailed_def by (rule db_mark) (simp_all add: toRecord_updates)

lemma db_markParked: "db_does (known ids) (repo_markParked (numericIds ids) err) (\<lambda>rs x rs'. rs' = update_where (with_ids ids) (park_row err) rs)"
  unfolding repo_markParked_def by (rule db_mark) (simp_all add: toRecord_updates)

lemma db_releaseDelivering:
  "db_does (known ids) (repo_releaseDelivering (numericIds ids) t0 err) (\<lambda>rs x rs'.
     rs' = update_where (\<lambda>r. with_ids ids r \<and> ev_status r = Delivering) (fail_row t0 err) rs \<and>
     x = length (filter (\<lambda>r. with_ids ids r \<and> ev_status r = Delivering) rs))"
  unfolding repo_releaseDelivering_def
proof (rule db_if)
  assume "numericIds ids = []"
  then show "db_does (known ids) (ret 0) (\<lambda>rs x rs'. rs' = update_where (\<lambda>r. with_ids ids r \<and> ev_status r = Delivering) (fail_row t0 err) rs \<and>
     x = length (filter (\<lambda>r. with_ids ids r \<and> ev_status r = Delivering) rs))"
    by (intro db_ret) (simp add: with_ids_def)
next
  have cond: "where_holds (\<lambda>r. sql_and (Some (er_status r = Delivering)) (id_in (numericIds ids) r)) r \<longleftrightarrow>
      with_ids ids (toRecord r) \<and> ev_status (toRecord r) = Delivering" if "known ids (sqlite_rows d)" for d r
    using id_in_stored [OF that, of r] by (auto simp: where_holds_def sql_and_def)
  show "db_does (known ids) (update_events (\<lambda>r. sql_and (Some (er_status r = Delivering)) (id_in (numericIds ids) r)) (retried_row t0 err))
     (\<lambda>rs x rs'. rs' = update_where (\<lambda>r. with_ids ids r \<and> ev_status r = Delivering) (fail_row t0 err) rs \<and>
       x = length (filter (\<lambda>r. with_ids ids r \<and> ev_status r = Delivering) rs))"
    by (rule db_update [where p = "\<lambda>_ r. with_ids ids r \<and> ev_status r = Delivering"]) (use cond in \<open>simp_all add: toRecord_updates\<close>)
qed

lemma db_recoverDelivering:
  "db_does (\<lambda>_. True) (repo_recoverDelivering now owner) (\<lambda>rs x rs'.
     rs' = update_where (recoverable now owner) (recover_row now) rs \<and> x = length (filter (recoverable now owner) rs))"
  unfolding repo_recoverDelivering_def
  by (rule db_update_plain) (simp_all add: toRecord_conditions toRecord_updates)

lemma db_parkExpired:
  "db_does (\<lambda>_. True) (repo_parkExpired now age) (\<lambda>rs x rs'.
     rs' = update_where (expired (now - age)) expire_row rs \<and> x = length (filter (expired (now - age)) rs))"
  unfolding repo_parkExpired_def
  by (rule db_update_plain) (simp_all add: toRecord_conditions toRecord_updates)

lemma db_routes:
  "db_does (\<lambda>_. True) (repo_routesWithDueEvents now) (\<lambda>rs x rs'. rs' = rs \<and> distinct x \<and>
     set x = {ev_route_id r | r. r \<in> set rs \<and> is_due r now})"
  unfolding repo_routesWithDueEvents_def
proof (rule db_statement)
  fix d assume "sqlite_ok d"
  then have "set (db_scan d (db_events d)) = set (db_events d)" unfolding sqlite_ok_def by (metis set_mset_mset)
  moreover have "where_holds (due_where now) = (\<lambda>r. is_due (toRecord r) now)" by (rule ext) (rule toRecord_conditions)
  ultimately show "sqlite_ok (snd (remdups (map er_route_id (filter (where_holds (due_where now)) (db_scan d (db_events d)))), d)) \<and>
    sqlite_rows (snd (remdups (map er_route_id (filter (where_holds (due_where now)) (db_scan d (db_events d)))), d)) = sqlite_rows d \<and>
    distinct (fst (remdups (map er_route_id (filter (where_holds (due_where now)) (db_scan d (db_events d)))), d)) \<and>
    set (fst (remdups (map er_route_id (filter (where_holds (due_where now)) (db_scan d (db_events d)))), d)) =
      {ev_route_id r |r. r \<in> set (sqlite_rows d) \<and> is_due r now}"
    using \<open>sqlite_ok d\<close> by (auto simp: sqlite_rows_def) (metis image_eqI toRecord_fields(2))
qed

lemma next_rowid_fresh: "next_rowid es \<notin> er_id ` set es"
proof
  assume *: "next_rowid es \<in> er_id ` set es"
  then have "es \<noteq> []" by auto
  then have "next_rowid es = Suc (Max (er_id ` set es))" by (simp add: next_rowid_def)
  moreover have "next_rowid es \<le> Max (er_id ` set es)" using * by (intro Max_ge) simp_all
  ultimately show False by simp
qed

lemma toRecord_inserted: "stored_as e (string_of_nat i) (toRecord (inserted_row (to_insert e) i))"
  by (cases "ne_payload_iv e") (auto simp: stored_as_def toRecord_def inserted_row_def to_insert_def new_row_def)

lemma db_insert:
  "db_does (\<lambda>_. True) (sqlite_insert e) (\<lambda>rs x rs'. case x of
        Duplicate \<Rightarrow> rs' = rs \<and> ne_idempotency_key e \<in> set (map ev_idempotency_key rs)
      | Inserted i \<Rightarrow> (\<exists>r. stored_as e i r \<and> rs' = rs @ [r]) \<and> i \<notin> set (map ev_id rs) \<and>
          ne_idempotency_key e \<notin> set (map ev_idempotency_key rs))"
  unfolding sqlite_insert_def
proof (rule db_map)
  let ?Q = "\<lambda>rs x rs'. case x of
        None \<Rightarrow> rs' = rs \<and> ne_idempotency_key e \<in> set (map ev_idempotency_key rs)
      | Some i \<Rightarrow> (\<exists>r. stored_as e (string_of_nat i) r \<and> rs' = rs @ [r]) \<and> string_of_nat i \<notin> set (map ev_id rs) \<and>
          ne_idempotency_key e \<notin> set (map ev_idempotency_key rs)"
  show "db_does (\<lambda>_. True) (runSqlite ''insert'' INGEST_BUSY_RETRY_ATTEMPTS pause_db (repo_insert (to_insert e))) ?Q"
  proof (rule db_runSqlite)
    show "db_does (\<lambda>_. True) (repo_insert (to_insert e)) ?Q" unfolding repo_insert_def
    proof (rule db_statement)
      fix d assume ok: "sqlite_ok d"
      let ?k = "ie_idempotency_key (to_insert e)" and ?i = "next_rowid (db_events d)"
      let ?f = "if ?k \<in> er_idempotency_key ` set (db_events d) then (None, d)
        else (Some ?i, d\<lparr>db_events := db_events d @ [inserted_row (to_insert e) ?i]\<rparr>)"
      have key: "?k = ne_idempotency_key e" "er_idempotency_key (inserted_row (to_insert e) i) = ne_idempotency_key e"
        "er_id (inserted_row (to_insert e) i) = i" for i by (simp_all add: to_insert_def inserted_row_def)
      have fresh: "?i \<notin> er_id ` set (db_events d)" by (rule next_rowid_fresh)
      show "sqlite_ok (snd ?f) \<and> ?Q (sqlite_rows d) (fst ?f) (sqlite_rows (snd ?f))"
      proof (cases "ne_idempotency_key e \<in> er_idempotency_key ` set (db_events d)")
        case True
        with ok show ?thesis by (auto simp: key(1) sqlite_rows_def)
      next
        case False
        with ok fresh show ?thesis
          using toRecord_inserted [of e ?i] by (auto simp: key sqlite_rows_def sqlite_ok_def image_iff)
      qed
    qed
  qed (simp add: INGEST_BUSY_RETRY_ATTEMPTS_def)
next
  fix rs x rs' assume "case x of None \<Rightarrow> rs' = rs \<and> ne_idempotency_key e \<in> set (map ev_idempotency_key rs)
      | Some i \<Rightarrow> (\<exists>r. stored_as e (string_of_nat i) r \<and> rs' = rs @ [r]) \<and> string_of_nat i \<notin> set (map ev_id rs) \<and>
          ne_idempotency_key e \<notin> set (map ev_idempotency_key rs)"
  then show "case (case x of None \<Rightarrow> Duplicate | Some i \<Rightarrow> Inserted (string_of_nat i)) of
        Duplicate \<Rightarrow> rs' = rs \<and> ne_idempotency_key e \<in> set (map ev_idempotency_key rs)
      | Inserted i \<Rightarrow> (\<exists>r. stored_as e i r \<and> rs' = rs @ [r]) \<and> i \<notin> set (map ev_id rs) \<and>
          ne_idempotency_key e \<notin> set (map ev_idempotency_key rs)"
    by (cases x) auto
qed

text \<open>Finding rows by their ids depends on the records alone.\<close>

lemma picked_by_record:
  assumes "sqlite_ok d" and "set (map toRecord found) \<subseteq> set (sqlite_rows d)" and "r \<in> set (db_events d)"
  shows "where_holds (id_in (map (\<lambda>r. Some (er_id r)) found)) r \<longleftrightarrow> toRecord r \<in> set (map toRecord found)"
proof -
  have "er_id q = er_id r \<Longrightarrow> toRecord q = toRecord r" if "q \<in> set found" for q
  proof -
    from that assms(2) obtain q' where q': "q' \<in> set (db_events d)" "toRecord q' = toRecord q" by (auto simp: sqlite_rows_def)
    then have "er_id q' = er_id q" by (metis string_of_nat_eq_iff toRecord_fields(1))
    then show "er_id q = er_id r \<Longrightarrow> toRecord q = toRecord r"
      using q' toRecord_inj [OF assms(1) q'(1) assms(3)] by simp
  qed
  moreover have "toRecord q = toRecord r \<Longrightarrow> er_id q = er_id r" for q by (metis string_of_nat_eq_iff toRecord_fields(1))
  ultimately have "er_id r \<in> er_id ` set found \<longleftrightarrow> toRecord r \<in> toRecord ` set found"
    by (metis (no_types, lifting) image_iff)
  moreover have "Some (er_id r) \<in> set (map (\<lambda>r. Some (er_id r)) found) \<longleftrightarrow> er_id r \<in> er_id ` set found" by auto
  moreover have "None \<notin> set (map (\<lambda>r. Some (er_id r)) found)" by auto
  ultimately show ?thesis by (simp add: where_holds_def id_in_def)
qed

lemma db_claimDue:
  "db_does (\<lambda>_. True) (repo_claimDue route now limit owner t0) (\<lambda>rs x rs'.
     map toRecord x = map (claim_row now \<lparr>lease_owner = owner, lease_end = t0\<rparr>) (due_rows rs route now limit) \<and>
     rs' = update_where (\<lambda>r. r \<in> set (due_rows rs route now limit)) (claim_row now \<lparr>lease_owner = owner, lease_end = t0\<rparr>) rs)"
  (is "db_does _ _ (\<lambda>rs x rs'. map toRecord x = map ?g (?due rs) \<and> rs' = update_where (\<lambda>r. r \<in> set (?due rs)) ?g rs)")
  unfolding repo_claimDue_def
proof (rule db_transaction, rule db_query)
  let ?c = "\<lambda>r. sql_and (Some (er_route_id r = route)) (due_where now r)"
  show "db_does (\<lambda>_. True) (statement (\<lambda>d. (take limit (filter (where_holds ?c) (db_events d)), d)))
      (\<lambda>rs x rs'. rs' = rs \<and> map toRecord x = ?due rs)"
  proof (rule db_statement)
    fix d :: sqlite_db assume "sqlite_ok d"
    have "where_holds ?c = (\<lambda>r. ev_route_id (toRecord r) = route \<and> is_due (toRecord r) now)" by (rule ext) (rule toRecord_conditions)
    then have "map toRecord (take limit (filter (where_holds ?c) (db_events d))) = ?due (sqlite_rows d)"
      by (simp add: due_rows_def sqlite_rows_def filter_map comp_def take_map)
    with \<open>sqlite_ok d\<close> show "sqlite_ok (snd (take limit (filter (where_holds ?c) (db_events d)), d)) \<and>
      sqlite_rows (snd (take limit (filter (where_holds ?c) (db_events d)), d)) = sqlite_rows d \<and>
      map toRecord (fst (take limit (filter (where_holds ?c) (db_events d)), d)) = ?due (sqlite_rows d)" by simp
  qed
next
  fix found rs assume found: "map toRecord found = ?due rs"
  let ?ids = "map (\<lambda>r. Some (er_id r)) found"
  show "db_does (\<lambda>rs'. rs' = rs) (if found = [] then ret found else bindE (update_events (id_in ?ids) (lease_row now owner t0))
      (\<lambda>_. ret (map (lease_row now owner t0) found)))
    (\<lambda>rs x rs'. map toRecord x = map ?g (?due rs) \<and> rs' = update_where (\<lambda>r. r \<in> set (?due rs)) ?g rs)"
  proof (rule db_if)
    assume "found = []"
    with found have "?due rs = []" by simp
    with \<open>found = []\<close> show "db_does (\<lambda>rs'. rs' = rs) (ret found) (\<lambda>rs x rs'. map toRecord x = map ?g (?due rs) \<and> rs' = update_where (\<lambda>r. r \<in> set (?due rs)) ?g rs)"
      by (intro db_ret) simp
  next
    have "db_does (\<lambda>rs'. rs' = rs) (update_events (id_in ?ids) (lease_row now owner t0))
      (\<lambda>rs1 n rs'. rs' = update_where (\<lambda>r. r \<in> set (?due rs)) ?g rs1 \<and> n = length (filter (\<lambda>r. r \<in> set (?due rs)) rs1))"
    proof (rule db_update [where p = "\<lambda>_ r. r \<in> set (?due rs)"])
      fix d r assume d: "sqlite_ok d" "sqlite_rows d = rs" "r \<in> set (db_events d)"
      have "set (?due rs) \<subseteq> set rs" by (auto simp: due_rows_def dest: in_set_takeD)
      then show "where_holds (id_in ?ids) r = (toRecord r \<in> set (?due rs))"
        using picked_by_record [OF d(1) _ d(3), of found] unfolding found d(2) by blast
    qed (simp_all add: toRecord_updates)
    then show "db_does (\<lambda>rs'. rs' = rs) (bindE (update_events (id_in ?ids) (lease_row now owner t0)) (\<lambda>_. ret (map (lease_row now owner t0) found)))
      (\<lambda>rs x rs'. map toRecord x = map ?g (?due rs) \<and> rs' = update_where (\<lambda>r. r \<in> set (?due rs)) ?g rs)"
    proof (rule db_map [OF db_pre])
      fix rs1 n rs' assume *: "wf_rows rs1 \<and> rs1 = rs \<and> rs' = update_where (\<lambda>r. r \<in> set (?due rs)) ?g rs1 \<and> n = length (filter (\<lambda>r. r \<in> set (?due rs)) rs1)"
      have "map toRecord (map (lease_row now owner t0) found) = map ?g (map toRecord found)" by (simp add: toRecord_updates comp_def)
      with * found show "map toRecord (map (lease_row now owner t0) found) = map ?g (?due rs1) \<and>
        rs' = update_where (\<lambda>r. r \<in> set (?due rs1)) ?g rs1" by simp
    qed
  qed
qed

lemma count_chosen: "distinct rs \<Longrightarrow> W \<subseteq> set rs \<Longrightarrow> length (filter (\<lambda>r. r \<in> W) rs) = card W"
proof -
  assume "distinct rs" "W \<subseteq> set rs"
  then have "card (set (filter (\<lambda>r. r \<in> W) rs)) = length (filter (\<lambda>r. r \<in> W) rs)" by (intro distinct_card) simp
  moreover have "set (filter (\<lambda>r. r \<in> W) rs) = W" using \<open>W \<subseteq> set rs\<close> by auto
  ultimately show ?thesis by simp
qed

text \<open>What a query without an order picks, in records: some rows that meet the condition.\<close>

lemma db_pick:
  assumes "\<And>r. where_holds c r \<longleftrightarrow> P (toRecord r)"
  shows "db_does (\<lambda>_. True) (statement (\<lambda>d. (map (\<lambda>r. Some (er_id r)) (take limit (filter (where_holds c) (db_scan d (db_events d)))), d)))
    (\<lambda>rs x rs'. rs' = rs \<and> (\<exists>found. x = map (\<lambda>r. Some (er_id r)) found \<and> chosen P limit rs (set (map toRecord found))))"
proof (rule db_statement)
  fix d assume ok: "sqlite_ok d"
  let ?found = "take limit (filter (where_holds c) (db_scan d (db_events d)))"
  have perm: "mset (db_scan d (db_events d)) = mset (db_events d)" using ok by (simp add: sqlite_ok_def)
  then have perm_rows: "mset (map toRecord (db_scan d (db_events d))) = mset (sqlite_rows d)" by (simp add: sqlite_rows_def)
  have "distinct (sqlite_rows d)" using sqlite_wf [OF ok] by (auto simp: wf_rows_def distinct_map)
  then have dist: "distinct (map toRecord (db_scan d (db_events d)))" by (metis perm_rows mset_eq_imp_distinct_iff)
  have sets: "set (map toRecord (db_scan d (db_events d))) = set (sqlite_rows d)" by (metis perm_rows set_mset_mset)
  have "where_holds c = P \<circ> toRecord" by (rule ext) (simp add: assms)
  then have found: "map toRecord ?found = take limit (filter P (map toRecord (db_scan d (db_events d))))"
    by (simp add: filter_map take_map)
  have "card (set (map toRecord ?found)) = min limit (card {r \<in> set (sqlite_rows d). P r})"
  proof -
    let ?fs = "filter P (map toRecord (db_scan d (db_events d)))"
    have "card (set (take limit ?fs)) = min limit (length ?fs)" using dist by (subst distinct_card) (simp_all add: min.commute)
    moreover have "length ?fs = card {r \<in> set (sqlite_rows d). P r}"
      using dist distinct_card [of ?fs] unfolding set_filter sets by simp
    ultimately show ?thesis unfolding found by simp
  qed
  moreover have "set (map toRecord ?found) \<subseteq> {r \<in> set (sqlite_rows d). P r}"
    unfolding found using sets by (auto dest: mem_take_filterD)
  ultimately have "chosen P limit (sqlite_rows d) (set (map toRecord ?found))" by (simp add: chosen_def)
  with ok show "sqlite_ok (snd (map (\<lambda>r. Some (er_id r)) ?found, d)) \<and> sqlite_rows (snd (map (\<lambda>r. Some (er_id r)) ?found, d)) = sqlite_rows d \<and>
    (\<exists>found. fst (map (\<lambda>r. Some (er_id r)) ?found, d) = map (\<lambda>r. Some (er_id r)) found \<and> chosen P limit (sqlite_rows d) (set (map toRecord found)))"
    by auto
qed

lemma db_delete:
  assumes "set (map toRecord found) \<subseteq> set rs"
  shows "db_does (\<lambda>rs'. rs' = rs) (statement (\<lambda>d. (length (filter (where_holds (id_in (map (\<lambda>r. Some (er_id r)) found))) (db_events d)),
      d\<lparr>db_events := filter (\<lambda>r. \<not> where_holds (id_in (map (\<lambda>r. Some (er_id r)) found)) r) (db_events d)\<rparr>)))
    (\<lambda>rs n rs'. rs' = filter (\<lambda>r. r \<notin> set (map toRecord found)) rs \<and> n = card (set (map toRecord found)))"
proof (rule db_statement)
  fix d assume ok: "sqlite_ok d" and rs: "sqlite_rows d = rs"
  let ?c = "where_holds (id_in (map (\<lambda>r. Some (er_id r)) found))" and ?W = "set (map toRecord found)"
  have c: "?c r = (toRecord r \<in> ?W)" if "r \<in> set (db_events d)" for r
    using picked_by_record [OF ok _ that, of found] assms rs by blast
  have "filter (\<lambda>r. \<not> ?c r) (db_events d) = filter (\<lambda>r. toRecord r \<notin> ?W) (db_events d)"
    by (rule filter_cong) (use c in simp_all)
  then have del: "sqlite_rows (d\<lparr>db_events := filter (\<lambda>r. \<not> ?c r) (db_events d)\<rparr>) = filter (\<lambda>r. r \<notin> ?W) (sqlite_rows d)"
    by (simp add: sqlite_rows_def filter_map comp_def)
  have "length (filter ?c (db_events d)) = length (filter (\<lambda>r. r \<in> ?W) (sqlite_rows d))"
    unfolding sqlite_rows_def by (rule count_map) (use c in blast)
  also have "\<dots> = card ?W"
    using sqlite_wf [OF ok] assms rs by (intro count_chosen) (auto simp: wf_rows_def distinct_map)
  finally have count: "length (filter ?c (db_events d)) = card ?W" .
  have "sqlite_ok (d\<lparr>db_events := filter (\<lambda>r. \<not> ?c r) (db_events d)\<rparr>)"
    using ok by (simp add: sqlite_ok_def distinct_map_filter)
  then show "sqlite_ok (snd (length (filter ?c (db_events d)), d\<lparr>db_events := filter (\<lambda>r. \<not> ?c r) (db_events d)\<rparr>)) \<and>
    sqlite_rows (snd (length (filter ?c (db_events d)), d\<lparr>db_events := filter (\<lambda>r. \<not> ?c r) (db_events d)\<rparr>)) =
      filter (\<lambda>r. r \<notin> ?W) (sqlite_rows d) \<and>
    fst (length (filter ?c (db_events d)), d\<lparr>db_events := filter (\<lambda>r. \<not> ?c r) (db_events d)\<rparr>) = card ?W"
    unfolding fst_conv snd_conv using del count by blast
qed

lemma db_pruneBatch: "db_does (\<lambda>_. True) (repo_pruneBatch now dd ld limit) (\<lambda>rs x rs'. pruned now dd ld limit rs x rs')"
  unfolding repo_pruneBatch_def Let_def
proof (rule db_query [OF db_pick [OF toRecord_conditions(5)]])
  let ?row_ids = "map (\<lambda>r. Some (er_id r)) :: event_row list \<Rightarrow> nat option list"
  fix x rs assume "\<exists>found. x = ?row_ids found \<and> chosen (wipeable now dd) limit rs (set (map toRecord found))"
  then obtain found where x: "x = ?row_ids found" and W: "chosen (wipeable now dd) limit rs (set (map toRecord found))" by blast
  let ?W = "set (map toRecord found)"
  let ?wipe = "bindE (update_events (id_in x) (\<lambda>r. r\<lparr>er_payload_enc := [], er_payload_iv := [], er_headers_json := ''{}''\<rparr>)) (\<lambda>wiped. ret (wiped, 0))"
  let ?delete = "bindE (statement (\<lambda>d. (?row_ids (take limit (filter (where_holds (terminal_before (now - ld * DAY))) (db_scan d (db_events d)))), d))) (\<lambda>deleteIds.
        if deleteIds = [] then ret (0, 0)
        else bindE (statement (\<lambda>d. (length (filter (where_holds (id_in deleteIds)) (db_events d)),
            d\<lparr>db_events := filter (\<lambda>r. \<not> where_holds (id_in deleteIds) r) (db_events d)\<rparr>))) (\<lambda>deleted. ret (0, deleted)))"
  show "db_does (\<lambda>rs'. rs' = rs) (if x \<noteq> [] then ?wipe else ?delete) (\<lambda>rs x rs'. pruned now dd ld limit rs x rs')"
  proof (rule db_if)
    assume "x \<noteq> []"
    have "db_does (\<lambda>rs'. rs' = rs) (update_events (id_in x) (\<lambda>r. r\<lparr>er_payload_enc := [], er_payload_iv := [], er_headers_json := ''{}''\<rparr>))
      (\<lambda>rs1 n rs'. rs' = update_where (\<lambda>r. r \<in> ?W) wipe_row rs1 \<and> n = length (filter (\<lambda>r. r \<in> ?W) rs1))"
    proof (rule db_update [where p = "\<lambda>_ r. r \<in> ?W"])
      fix d r assume d: "sqlite_ok d" "sqlite_rows d = rs" "r \<in> set (db_events d)"
      from W have "?W \<subseteq> set (sqlite_rows d)" unfolding chosen_def d(2) by blast
      with picked_by_record [OF d(1) _ d(3)] show "where_holds (id_in x) r = (toRecord r \<in> ?W)" unfolding x by blast
    qed (simp_all add: toRecord_updates)
    then show "db_does (\<lambda>rs'. rs' = rs) ?wipe (\<lambda>rs x rs'. pruned now dd ld limit rs x rs')"
    proof (rule db_map [OF db_pre])
      fix rs1 n rs' assume *: "wf_rows rs1 \<and> rs1 = rs \<and> rs' = update_where (\<lambda>r. r \<in> ?W) wipe_row rs1 \<and> n = length (filter (\<lambda>r. r \<in> ?W) rs1)"
      then have "distinct rs" by (auto simp: wf_rows_def distinct_map)
      with W have "length (filter (\<lambda>r. r \<in> ?W) rs) = card ?W" by (intro count_chosen) (auto simp: chosen_def)
      moreover have "?W \<noteq> {}" using \<open>x \<noteq> []\<close> x by simp
      ultimately show "pruned now dd ld limit rs1 (n, 0) rs'" using * W unfolding pruned_def by blast
    qed
  next
    assume "\<not> x \<noteq> []"
    then have none: "chosen (wipeable now dd) limit rs {}" using W x by simp
    show "db_does (\<lambda>rs'. rs' = rs) ?delete (\<lambda>rs x rs'. pruned now dd ld limit rs x rs')"
    proof (rule db_query [OF db_any [OF db_pick [OF toRecord_conditions(6)]]])
      fix y rs1 assume "rs1 = rs" "\<exists>found. y = ?row_ids found \<and> chosen (deletable now ld) limit rs1 (set (map toRecord found))"
      then obtain old where y: "y = ?row_ids old" and D: "chosen (deletable now ld) limit rs (set (map toRecord old))" by blast
      show "db_does (\<lambda>rs'. rs' = rs1) (if y = [] then ret (0, 0) else
          bindE (statement (\<lambda>d. (length (filter (where_holds (id_in y)) (db_events d)),
            d\<lparr>db_events := filter (\<lambda>r. \<not> where_holds (id_in y) r) (db_events d)\<rparr>))) (\<lambda>deleted. ret (0, deleted)))
        (\<lambda>rs x rs'. pruned now dd ld limit rs x rs')"
      proof (rule db_if)
        assume "y = []"
        with y D none \<open>rs1 = rs\<close> show "db_does (\<lambda>rs'. rs' = rs1) (ret (0, 0)) (\<lambda>rs x rs'. pruned now dd ld limit rs x rs')"
          by (intro db_ret) (auto simp: pruned_def)
      next
        have "set (map toRecord old) \<subseteq> set rs1" using D \<open>rs1 = rs\<close> by (auto simp: chosen_def)
        from db_delete [OF this] show "db_does (\<lambda>rs'. rs' = rs1) (bindE (statement (\<lambda>d. (length (filter (where_holds (id_in y)) (db_events d)),
            d\<lparr>db_events := filter (\<lambda>r. \<not> where_holds (id_in y) r) (db_events d)\<rparr>))) (\<lambda>deleted. ret (0, deleted)))
          (\<lambda>rs x rs'. pruned now dd ld limit rs x rs')" unfolding y
        proof (rule db_map [OF db_pre])
          fix rs2 n rs' assume "wf_rows rs2 \<and> rs2 = rs1 \<and> rs' = filter (\<lambda>r. r \<notin> set (map toRecord old)) rs2 \<and> n = card (set (map toRecord old))"
          with D none \<open>rs1 = rs\<close> show "pruned now dd ld limit rs2 (0, n) rs'" unfolding pruned_def by blast
        qed
      qed
    qed
  qed
qed

section \<open>The contract\<close>

lemma db_call: "db_does P m Q \<Longrightarrow> sqlite_ok d \<Longrightarrow> P (sqlite_rows d) \<Longrightarrow> updates sqlite_rows sqlite_ok (run_db op m) d Q"
  by (rule db_doesD [OF db_run])

interpretation sqlite: event_store sqlite_ops sqlite_rows sqlite_ok
proof (unfold_locales, unfold sqlite_ops_def event_store_ops.select_convs)
  fix d :: sqlite_db and ids :: "string list" and now age dd ld t0 :: int and limit :: nat and l :: lease and bulk owner and err route :: string and e
  assume d: "sqlite_ok d"
  show "wf_rows (sqlite_rows d)" by (rule sqlite_wf) (rule d)
  show "updates sqlite_rows sqlite_ok (sqlite_insert e) d (\<lambda>rs x rs'. case x of
        Duplicate \<Rightarrow> rs' = rs \<and> ne_idempotency_key e \<in> set (map ev_idempotency_key rs)
      | Inserted i \<Rightarrow> (\<exists>r. stored_as e i r \<and> rs' = rs @ [r]) \<and> i \<notin> set (map ev_id rs) \<and>
          ne_idempotency_key e \<notin> set (map ev_idempotency_key rs))"
    by (rule db_doesD [OF db_insert d TrueI])
  show "updates sqlite_rows sqlite_ok (run_db ''routesWithDueEvents'' (repo_routesWithDueEvents now)) d (\<lambda>rs x rs'. rs' = rs \<and>
        distinct x \<and> set x = {ev_route_id r | r. r \<in> set rs \<and> is_due r now})"
    by (rule db_call [OF db_routes d TrueI])
  show "updates sqlite_rows sqlite_ok (bindE (run_db ''claimDue'' (repo_claimDue route now limit (lease_owner l) (lease_end l)))
        (\<lambda>found. ret (map toRecord found))) d (\<lambda>rs x rs'.
        x = map (claim_row now l) (due_rows rs route now limit) \<and>
        rs' = update_where (\<lambda>r. r \<in> set (due_rows rs route now limit)) (claim_row now l) rs)"
    by (rule db_doesD [OF db_map [OF db_run [OF db_claimDue]] d TrueI]) (cases l, simp)
  show "updates sqlite_rows sqlite_ok (run_db ''recoverDelivering'' (repo_recoverDelivering now owner)) d (\<lambda>rs x rs'.
        rs' = update_where (recoverable now owner) (recover_row now) rs \<and> x = length (filter (recoverable now owner) rs))"
    by (rule db_call [OF db_recoverDelivering d TrueI])
  show "updates sqlite_rows sqlite_ok (run_db ''parkExpired'' (repo_parkExpired now age)) d (\<lambda>rs x rs'.
        rs' = update_where (expired (now - age)) expire_row rs \<and> x = length (filter (expired (now - age)) rs))"
    by (rule db_call [OF db_parkExpired d TrueI])
  show "updates sqlite_rows sqlite_ok (run_db ''prune'' (repo_pruneBatch now dd ld limit)) d (\<lambda>rs x rs'. pruned now dd ld limit rs x rs')"
    by (rule db_call [OF db_pruneBatch d TrueI])
  assume ids: "set ids \<subseteq> ev_id ` set (sqlite_rows d)"
  show "updates sqlite_rows sqlite_ok (run_db ''markDelivered'' (repo_markDelivered (numericIds ids) t0 bulk)) d (\<lambda>rs x rs'.
        rs' = update_where (with_ids ids) (deliver_row t0 bulk) rs)"
    by (rule db_call [OF db_markDelivered d ids])
  show "updates sqlite_rows sqlite_ok (run_db ''markFailed'' (repo_markFailed (numericIds ids) t0 err)) d (\<lambda>rs x rs'.
        rs' = update_where (with_ids ids) (fail_row t0 err) rs)"
    by (rule db_call [OF db_markFailed d ids])
  show "updates sqlite_rows sqlite_ok (run_db ''markParked'' (repo_markParked (numericIds ids) err)) d (\<lambda>rs x rs'.
        rs' = update_where (with_ids ids) (park_row err) rs)"
    by (rule db_call [OF db_markParked d ids])
  show "updates sqlite_rows sqlite_ok (run_db ''releaseDelivering'' (repo_releaseDelivering (numericIds ids) t0 err)) d (\<lambda>rs x rs'.
        rs' = update_where (\<lambda>r. with_ids ids r \<and> ev_status r = Delivering) (fail_row t0 err) rs \<and>
        x = length (filter (\<lambda>r. with_ids ids r \<and> ev_status r = Delivering) rs))"
    by (rule db_call [OF db_releaseDelivering d ids])
qed

end
