(* ===== verification/SqliteControl.thy ===== *)
theory SqliteControl imports SqliteFacts Control begin

text \<open>
  Operator state in SQLite: the key-value repository of \<open>packages/store-sqlite/src/repo/kv.ts\<close>
  and \<open>SqliteControlStore\<close> of \<open>store.ts\<close>.  The column \<open>updated_at\<close> is written and never read; it is
  left out.
\<close>

section \<open>The key-value repository\<close>

definition ROUTE_PAUSED_PREFIX :: string where "ROUTE_PAUSED_PREFIX = ''route_paused.''"

definition kv_get :: "string \<Rightarrow> string option sql" where
  "kv_get k = statement (\<lambda>d. (map_of (db_kv d) k, d))"

definition kv_set :: "string \<Rightarrow> string \<Rightarrow> unit sql" where
  "kv_set k v = statement (\<lambda>d. ((), d\<lparr>db_kv := AList.update k v (db_kv d)\<rparr>))"

definition kv_delete :: "string \<Rightarrow> unit sql" where
  "kv_delete k = statement (\<lambda>d. ((), d\<lparr>db_kv := filter (\<lambda>p. fst p \<noteq> k) (db_kv d)\<rparr>))"

definition killswitch_of_text :: "string option \<Rightarrow> killswitch" where
  "killswitch_of_text v = (if v = Some ''pause'' then KillPause else if v = Some ''panic'' then KillPanic else KillNone)"

definition killswitch_text :: "killswitch \<Rightarrow> string" where
  "killswitch_text k = (case k of KillNone \<Rightarrow> ''none'' | KillPause \<Rightarrow> ''pause'' | KillPanic \<Rightarrow> ''panic'')"

definition globalKillswitch :: "killswitch sql" where
  "globalKillswitch = bindE (kv_get ''killswitch.global'') (\<lambda>v. ret (killswitch_of_text v))"

definition setGlobalKillswitch :: "killswitch \<Rightarrow> unit sql" where
  "setGlobalKillswitch k = kv_set ''killswitch.global'' (killswitch_text k)"

definition kv_isRoutePaused :: "string \<Rightarrow> bool sql" where
  "kv_isRoutePaused routeId = bindE (kv_get (ROUTE_PAUSED_PREFIX @ routeId)) (\<lambda>v. ret (v = Some ''1''))"

definition kv_setRoutePaused :: "string \<Rightarrow> bool \<Rightarrow> unit sql" where
  "kv_setRoutePaused routeId paused =
     (if paused then kv_set (ROUTE_PAUSED_PREFIX @ routeId) ''1'' else kv_delete (ROUTE_PAUSED_PREFIX @ routeId))"

text \<open>\<open>LIKE\<close> on a key: \<open>_\<close> stands for any character, and ASCII letters match in either case.\<close>

definition ascii_lower :: "char \<Rightarrow> char" where
  "ascii_lower c = (if is_upper c then lower_char c else c)"

definition like_char :: "char \<Rightarrow> char \<Rightarrow> bool" where
  "like_char p c \<longleftrightarrow> p = CHR ''_'' \<or> ascii_lower p = ascii_lower c"

definition like_prefix :: "string \<Rightarrow> string \<Rightarrow> bool" where
  "like_prefix p s \<longleftrightarrow> list_all2 like_char p (take (length p) s)"

definition pausedRoutes :: "string list sql" where
  "pausedRoutes = statement (\<lambda>d. (remdups (map (\<lambda>p. drop (length ROUTE_PAUSED_PREFIX) (fst p))
     (filter (\<lambda>p. like_prefix ROUTE_PAUSED_PREFIX (fst p) \<and> snd p = ''1'') (db_kv d))), d))"

section \<open>The control store\<close>

definition sqlite_control_ops :: "sqlite_db control_ops" where
  "sqlite_control_ops = \<lparr>ct_getKillswitch = run_db ''killswitch'' globalKillswitch,
     ct_setKillswitch = (\<lambda>k. run_db ''setKillswitch'' (setGlobalKillswitch k)),
     ct_isRoutePaused = (\<lambda>routeId. run_db ''isPaused'' (kv_isRoutePaused routeId)),
     ct_setRoutePaused = (\<lambda>routeId paused. run_db ''setPaused'' (kv_setRoutePaused routeId paused))\<rparr>"

definition kv_view :: "sqlite_db \<Rightarrow> killswitch \<times> string set" where
  "kv_view d = (killswitch_of_text (map_of (db_kv d) ''killswitch.global''),
     {rt. map_of (db_kv d) (ROUTE_PAUSED_PREFIX @ rt) = Some ''1''})"

section \<open>The contract\<close>

definition kv_does :: "'a sql \<Rightarrow> (killswitch \<times> string set \<Rightarrow> 'a \<Rightarrow> killswitch \<times> string set \<Rightarrow> bool) \<Rightarrow> bool" where
  "kv_does m Q \<longleftrightarrow> (\<forall>d. sets_view kv_view m d Q)"

lemma kv_faults [simp]: "kv_view (d\<lparr>db_faults := fs\<rparr>) = kv_view d"
  by (simp add: kv_view_def)

lemma kv_statement:
  assumes "\<And>d. Q (kv_view d) (fst (f d)) (kv_view (snd (f d)))"
  shows "kv_does (statement f) Q"
  unfolding kv_does_def
proof
  fix d
  show "sets_view kv_view (statement f) d Q"
  proof (cases "db_faults d")
    case Nil
    with assms [of d] show ?thesis by (simp add: sets_view_def statement_def split_beta)
  next
    case (Cons x fs)
    with assms [of "d\<lparr>db_faults := fs\<rparr>"] show ?thesis by (cases x) (simp_all add: sets_view_def statement_def split_beta)
  qed
qed

lemma kv_map:
  assumes "kv_does m Q" and "\<And>v x v'. Q v x v' \<Longrightarrow> Q' v (g x) v'"
  shows "kv_does (bindE m (\<lambda>x. ret (g x))) Q'"
  unfolding kv_does_def
proof
  fix d
  obtain r d' where m: "m d = (r, d')" by fastforce
  with assms(1) have "case r of Inl _ \<Rightarrow> kv_view d' = kv_view d | Inr x \<Rightarrow> Q (kv_view d) x (kv_view d')"
    by (auto simp: kv_does_def sets_view_def dest: spec [of _ d])
  with m assms(2) show "sets_view kv_view (bindE m (\<lambda>x. ret (g x))) d Q'"
    by (cases r) (simp_all add: sets_view_def bindE_def ret_def)
qed

lemma sets_view_either:
  "sets_view kv_view m d Q = either (\<lambda>d'. kv_view d' = kv_view d) (\<lambda>x d'. Q (kv_view d) x (kv_view d')) (m d)"
  by (simp add: sets_view_def either_def split: prod.splits sum.splits)

lemma kv_run:
  assumes "kv_does m Q"
  shows "kv_does (run_db op m) Q"
  unfolding kv_does_def sets_view_either run_db_def
proof
  fix d
  let ?E = "either (\<lambda>d'. kv_view d' = kv_view d) (\<lambda>x d'. Q (kv_view d) x (kv_view d'))"
  show "?E (runSqlite op BUSY_RETRY_ATTEMPTS pause_db m d)"
  proof (rule runSqlite_keeps [where pause = pause_db])
    fix d' assume same: "kv_view d' = kv_view d"
    have "either (\<lambda>d''. kv_view d'' = kv_view d') (\<lambda>x d''. Q (kv_view d') x (kv_view d'')) (m d')"
      using assms by (simp add: kv_does_def sets_view_either)
    then show "?E (m d')" by (simp only: same)
  qed (simp_all add: pause_db_def ret_def BUSY_RETRY_ATTEMPTS_def)
qed

lemma killswitch_text_of [simp]: "killswitch_of_text (Some (killswitch_text k)) = k"
  by (cases k) (simp_all add: killswitch_of_text_def killswitch_text_def)

lemma prefix_not_killswitch [simp]: "''killswitch.global'' \<noteq> ROUTE_PAUSED_PREFIX @ rt" "ROUTE_PAUSED_PREFIX @ rt \<noteq> ''killswitch.global''"
  by (simp_all add: ROUTE_PAUSED_PREFIX_def)

lemma map_of_without: "map_of (filter (\<lambda>p. fst p \<noteq> k) kv) j = (if j = k then None else map_of kv j)"
  by (induction kv) auto

interpretation sqlite_control: control_store sqlite_control_ops kv_view
proof (unfold_locales, unfold sqlite_control_ops_def control_ops.select_convs)
  fix d k route paused
  have get: "kv_does (kv_get key) (\<lambda>v x v'. v' = v \<and> (key = ''killswitch.global'' \<longrightarrow> killswitch_of_text x = fst v) \<and>
      (\<forall>rt. key = ROUTE_PAUSED_PREFIX @ rt \<longrightarrow> (x = Some ''1'') = (rt \<in> snd v)))" for key
    unfolding kv_get_def by (rule kv_statement) (auto simp: kv_view_def)
  show "sets_view kv_view (run_db ''killswitch'' globalKillswitch) d (\<lambda>v x v'. x = fst v \<and> v' = v)"
    unfolding globalKillswitch_def
    using kv_run [OF kv_map [OF get [of "''killswitch.global''"], where g = killswitch_of_text and Q' = "\<lambda>v x v'. x = fst v \<and> v' = v"]]
    by (simp add: kv_does_def)
  show "sets_view kv_view (run_db ''isPaused'' (kv_isRoutePaused route)) d (\<lambda>v x v'. x = (route \<in> snd v) \<and> v' = v)"
    unfolding kv_isRoutePaused_def
    using kv_run [OF kv_map [OF get [of "ROUTE_PAUSED_PREFIX @ route"], where g = "\<lambda>v. v = Some ''1''" and Q' = "\<lambda>v x v'. x = (route \<in> snd v) \<and> v' = v"]]
    by (simp add: kv_does_def)
  have "kv_does (setGlobalKillswitch k) (\<lambda>v _ v'. v' = (k, snd v))"
    unfolding setGlobalKillswitch_def kv_set_def by (rule kv_statement) (simp add: kv_view_def update_conv)
  then show "sets_view kv_view (run_db ''setKillswitch'' (setGlobalKillswitch k)) d (\<lambda>v _ v'. v' = (k, snd v))"
    using kv_run unfolding kv_does_def by blast
  have "kv_does (kv_setRoutePaused route paused) (\<lambda>v _ v'. v' = (fst v, if paused then insert route (snd v) else snd v - {route}))"
    unfolding kv_setRoutePaused_def kv_set_def kv_delete_def
    by (cases paused; simp; rule kv_statement) (auto simp: kv_view_def update_conv map_of_without)
  then show "sets_view kv_view (run_db ''setPaused'' (kv_setRoutePaused route paused)) d
      (\<lambda>v _ v'. v' = (fst v, if paused then insert route (snd v) else snd v - {route}))"
    using kv_run unfolding kv_does_def by blast
qed

section \<open>Every paused route in one query\<close>

text \<open>The keys the repository writes.\<close>

definition kv_keys_ok :: "sqlite_db \<Rightarrow> bool" where
  "kv_keys_ok d \<longleftrightarrow> distinct (map fst (db_kv d)) \<and>
     list_all (\<lambda>p. fst p = ''killswitch.global'' \<or> take (length ROUTE_PAUSED_PREFIX) (fst p) = ROUTE_PAUSED_PREFIX) (db_kv d)"

lemma like_prefix_refl: "like_prefix p (p @ s)"
  by (simp add: like_prefix_def list_all2_conv_all_nth like_char_def)

lemma pausedRoutes_view:
  assumes "kv_keys_ok d" and "pausedRoutes d = (Inr rs, d')"
  shows "set rs = snd (kv_view d)"
proof -
  let ?n = "length ROUTE_PAUSED_PREFIX"
  have rs: "set rs = {drop ?n k | k. like_prefix ROUTE_PAUSED_PREFIX k \<and> (k, ''1'') \<in> set (db_kv d)}"
    using assms(2) by (force simp: pausedRoutes_def statement_def split: list.splits option.splits)
  have look: "(k, v) \<in> set (db_kv d) \<longleftrightarrow> map_of (db_kv d) k = Some v" for k v
    using assms(1) by (simp add: kv_keys_ok_def)
  have keys: "\<exists>rt. k = ROUTE_PAUSED_PREFIX @ rt" if "(k, v) \<in> set (db_kv d)" "like_prefix ROUTE_PAUSED_PREFIX k" for k v
  proof -
    from assms(1) that(1) have "k = ''killswitch.global'' \<or> take ?n k = ROUTE_PAUSED_PREFIX"
      by (fastforce simp: kv_keys_ok_def list_all_iff)
    moreover have "\<not> like_prefix ROUTE_PAUSED_PREFIX ''killswitch.global''" by code_simp
    ultimately show ?thesis using that(2) by (metis append_take_drop_id)
  qed
  show ?thesis
  proof (intro equalityI subsetI)
    fix rt assume "rt \<in> set rs"
    then obtain k where k: "rt = drop ?n k" "like_prefix ROUTE_PAUSED_PREFIX k" "(k, ''1'') \<in> set (db_kv d)" unfolding rs by blast
    with keys show "rt \<in> snd (kv_view d)" by (fastforce simp: kv_view_def look)
  next
    fix rt assume "rt \<in> snd (kv_view d)"
    then have "(ROUTE_PAUSED_PREFIX @ rt, ''1'') \<in> set (db_kv d)" by (simp add: kv_view_def look)
    with like_prefix_refl show "rt \<in> set rs" unfolding rs by force
  qed
qed

end
