(* ===== verification/StoreSpec.thy ===== *)
theory StoreSpec imports SqliteFacts begin

text \<open>
  What an event store is, without a database: a list of records and, for each call, the answers
  it may give and the records it leaves.  A store that meets the contract refines it over any
  sequence of calls, from any number of relay instances.
\<close>

section \<open>Calls and answers\<close>

datatype store_call =
    CInsert new_event
  | CRoutes int
  | CClaim string int nat lease
  | CDeliver "string list" int "string option"
  | CFail "string list" int string
  | CPark "string list" string
  | CRelease "string list" int string
  | CRecover int "string option"
  | CExpire int int
  | CPrune int int int nat

datatype store_answer =
    AInsert insert_result
  | ARoutes "string list"
  | AClaim "event_record list"
  | ADone
  | ACount nat
  | APruned "nat \<times> nat"

definition answer :: "('a \<Rightarrow> store_answer) \<Rightarrow> ('h, exn, 'a) sem \<Rightarrow> ('h, exn, store_answer) sem" where
  "answer f m = bindE m (\<lambda>x. ret (f x))"

fun perform :: "'h event_store_ops \<Rightarrow> store_call \<Rightarrow> ('h, exn, store_answer) sem" where
  "perform S (CInsert e) = answer AInsert (st_insert S e)"
| "perform S (CRoutes now) = answer ARoutes (st_routesWithDueEvents S now)"
| "perform S (CClaim route now limit l) = answer AClaim (st_claimDue S route now limit l)"
| "perform S (CDeliver ids t0 bulk) = answer (\<lambda>_. ADone) (st_markDelivered S ids t0 bulk)"
| "perform S (CFail ids t0 err) = answer (\<lambda>_. ADone) (st_markFailed S ids t0 err)"
| "perform S (CPark ids err) = answer (\<lambda>_. ADone) (st_markParked S ids err)"
| "perform S (CRelease ids t0 err) = answer ACount (st_releaseDelivering S ids t0 err)"
| "perform S (CRecover now owner) = answer ACount (st_recoverDelivering S now owner)"
| "perform S (CExpire now age) = answer ACount (st_parkExpired S now age)"
| "perform S (CPrune now dd ld limit) = answer APruned (st_pruneBatch S now dd ld limit)"

fun run_calls :: "'h event_store_ops \<Rightarrow> store_call list \<Rightarrow> 'h \<Rightarrow> (exn + store_answer) list \<times> 'h" where
  "run_calls S [] h = ([], h)"
| "run_calls S (c # cs) h = (case perform S c h of (x, h1) \<Rightarrow> case run_calls S cs h1 of (xs, h2) \<Rightarrow> (x # xs, h2))"

section \<open>The specification\<close>

text \<open>Rows are named by the ids the store gave them, each once.\<close>

fun legal :: "store_call \<Rightarrow> event_record list \<Rightarrow> bool" where
  "legal (CDeliver ids _ _) rs \<longleftrightarrow> distinct ids \<and> set ids \<subseteq> ev_id ` set rs"
| "legal (CFail ids _ _) rs \<longleftrightarrow> distinct ids \<and> set ids \<subseteq> ev_id ` set rs"
| "legal (CPark ids _) rs \<longleftrightarrow> distinct ids \<and> set ids \<subseteq> ev_id ` set rs"
| "legal (CRelease ids _ _) rs \<longleftrightarrow> distinct ids \<and> set ids \<subseteq> ev_id ` set rs"
| "legal _ rs \<longleftrightarrow> True"

inductive spec_step :: "store_call \<Rightarrow> event_record list \<Rightarrow> store_answer \<Rightarrow> event_record list \<Rightarrow> bool" where
  duplicate: "ne_idempotency_key e \<in> ev_idempotency_key ` set rs \<Longrightarrow> spec_step (CInsert e) rs (AInsert Duplicate) rs"
| inserted: "ne_idempotency_key e \<notin> ev_idempotency_key ` set rs \<Longrightarrow> i \<notin> ev_id ` set rs \<Longrightarrow> stored_as e i r \<Longrightarrow>
    spec_step (CInsert e) rs (AInsert (Inserted i)) (rs @ [r])"
| routes: "distinct x \<Longrightarrow> set x = {ev_route_id r | r. r \<in> set rs \<and> is_due r now} \<Longrightarrow> spec_step (CRoutes now) rs (ARoutes x) rs"
| claim: "spec_step (CClaim route now limit l) rs (AClaim (map (claim_row now l) (due_rows rs route now limit)))
    (update_where (\<lambda>r. r \<in> set (due_rows rs route now limit)) (claim_row now l) rs)"
| deliver: "spec_step (CDeliver ids t0 bulk) rs ADone (update_where (with_ids ids) (deliver_row t0 bulk) rs)"
| fail: "spec_step (CFail ids t0 err) rs ADone (update_where (with_ids ids) (fail_row t0 err) rs)"
| park: "spec_step (CPark ids err) rs ADone (update_where (with_ids ids) (park_row err) rs)"
| release: "spec_step (CRelease ids t0 err) rs (ACount (length (filter (\<lambda>r. with_ids ids r \<and> ev_status r = Delivering) rs)))
    (update_where (\<lambda>r. with_ids ids r \<and> ev_status r = Delivering) (fail_row t0 err) rs)"
| recover: "spec_step (CRecover now owner) rs (ACount (length (filter (recoverable now owner) rs)))
    (update_where (recoverable now owner) (recover_row now) rs)"
| expire: "spec_step (CExpire now age) rs (ACount (length (filter (expired (now - age)) rs)))
    (update_where (expired (now - age)) expire_row rs)"
| prune: "pruned now dd ld limit rs x rs' \<Longrightarrow> spec_step (CPrune now dd ld limit) rs (APruned x) rs'"

text \<open>A call that fails changes nothing; after a call with ids the store never gave, anything may follow.\<close>

inductive spec_run :: "store_call list \<Rightarrow> event_record list \<Rightarrow> (exn + store_answer) list \<Rightarrow> event_record list \<Rightarrow> bool" where
  finished: "spec_run [] rs [] rs"
| failed: "spec_run cs rs xs rs' \<Longrightarrow> spec_run (c # cs) rs (Inl e # xs) rs'"
| answered: "legal c rs \<Longrightarrow> spec_step c rs x rs1 \<Longrightarrow> spec_run cs rs1 xs rs' \<Longrightarrow> spec_run (c # cs) rs (Inr x # xs) rs'"
| misused: "\<not> legal c rs \<Longrightarrow> spec_run (c # cs) rs xs rs'"

inductive_cases spec_run_ConsE: "spec_run (c # cs) rs xs rs'"
inductive_cases spec_run_NilE: "spec_run [] rs xs rs'"
inductive_cases spec_claimE: "spec_step (CClaim route now limit l) rs x rs'"
inductive_cases spec_insertE: "spec_step (CInsert e) rs x rs'"
inductive_cases spec_routesE: "spec_step (CRoutes now) rs x rs'"
inductive_cases spec_recoverE: "spec_step (CRecover now owner) rs x rs'"

section \<open>Refinement\<close>

lemma updates_answer:
  assumes "updates rows ok m h Q" and "\<And>x rs'. Q (rows h) x rs' \<Longrightarrow> spec_step c (rows h) (f x) rs'"
  shows "updates rows ok (answer f m) h (spec_step c)"
  using assms by (auto simp: updates_def answer_def bindE_def ret_def split: prod.splits sum.splits)

context event_store
begin

lemma perform_refines:
  assumes "ok h" and "legal c (rows h)"
  shows "updates rows ok (perform S c) h (spec_step c)"
proof (cases c)
  case (CInsert e)
  show ?thesis unfolding CInsert perform.simps
    by (rule updates_answer [OF insert [OF assms(1)]]) (auto split: insert_result.splits intro: spec_step.intros)
next
  case (CPrune now dd ld limit)
  show ?thesis unfolding CPrune perform.simps
    by (rule updates_answer [OF pruneBatch [OF assms(1)]]) (auto intro: spec_step.intros)
qed (use assms in \<open>auto intro!: updates_answer [OF routesWithDueEvents] updates_answer [OF claimDue] updates_answer [OF markDelivered]
    updates_answer [OF markFailed] updates_answer [OF markParked] updates_answer [OF releaseDelivering]
    updates_answer [OF recoverDelivering] updates_answer [OF parkExpired] intro: spec_step.intros\<close>)

lemma run_refines:
  "ok h \<Longrightarrow> run_calls S cs h = (xs, h') \<Longrightarrow> spec_run cs (rows h) xs (rows h')"
proof (induction cs arbitrary: h xs h')
  case Nil
  then show ?case by (simp add: spec_run.finished)
next
  case (Cons c cs)
  show ?case
  proof (cases "legal c (rows h)")
    case True
    obtain x h1 where p: "perform S c h = (x, h1)" by fastforce
    obtain ys h2 where r: "run_calls S cs h1 = (ys, h2)" by fastforce
    note up = updatesD [OF perform_refines [OF Cons.prems(1) True] p]
    from Cons.IH [OF up(1) r] have rest: "spec_run cs (rows h1) ys (rows h2)" .
    from Cons.prems(2) p r have "xs = x # ys" "h' = h2" by simp_all
    with rest up(2,3) True show ?thesis by (cases x) (auto intro: spec_run.intros)
  qed (rule spec_run.misused)
qed

end

section \<open>Leases exclude\<close>

text \<open>
  What each relay instance holds: instance, event and the end of its lease.  A claim adds what was
  handed out; settling or releasing an event gives it back; a sweep ends the leases that have run
  out by its time and, as the first sweep of an instance does, those of its own former life.
  A call that fails changes nothing.
\<close>

type_synonym holdings = "(string \<times> string \<times> int) list"

definition held_event :: "string \<times> string \<times> int \<Rightarrow> string" where
  "held_event x = fst (snd x)"

fun holds_after :: "string \<Rightarrow> store_call \<Rightarrow> exn + store_answer \<Rightarrow> holdings \<Rightarrow> holdings" where
  "holds_after me (CClaim route now limit l) (Inr (AClaim rs)) H = H @ map (\<lambda>r. (me, ev_id r, lease_end l)) rs"
| "holds_after me (CDeliver ids t0 bulk) (Inr x) H = filter (\<lambda>(i, e, t). e \<notin> set ids) H"
| "holds_after me (CFail ids t0 err) (Inr x) H = filter (\<lambda>(i, e, t). e \<notin> set ids) H"
| "holds_after me (CPark ids err) (Inr x) H = filter (\<lambda>(i, e, t). e \<notin> set ids) H"
| "holds_after me (CRelease ids t0 err) (Inr x) H = filter (\<lambda>(i, e, t). e \<notin> set ids) H"
| "holds_after me (CRecover now owner) (Inr x) H = filter (\<lambda>(i, e, t). now \<le> t \<and> owner \<noteq> Some i) H"
| "holds_after me c x H = H"

text \<open>
  An instance claims in its own name, does not settle or release what another one holds, and
  sweeps for leases that have ended or for its own.
\<close>

fun plays_fair :: "holdings \<Rightarrow> string \<Rightarrow> store_call \<Rightarrow> bool" where
  "plays_fair H me (CClaim route now limit l) \<longleftrightarrow> lease_owner l = me"
| "plays_fair H me (CDeliver ids t0 bulk) \<longleftrightarrow> list_all (\<lambda>(i, e, t). e \<in> set ids \<longrightarrow> i = me) H"
| "plays_fair H me (CFail ids t0 err) \<longleftrightarrow> list_all (\<lambda>(i, e, t). e \<in> set ids \<longrightarrow> i = me) H"
| "plays_fair H me (CPark ids err) \<longleftrightarrow> list_all (\<lambda>(i, e, t). e \<in> set ids \<longrightarrow> i = me) H"
| "plays_fair H me (CRelease ids t0 err) \<longleftrightarrow> list_all (\<lambda>(i, e, t). e \<in> set ids \<longrightarrow> i = me) H"
| "plays_fair H me (CRecover now owner) \<longleftrightarrow> owner = None \<or> owner = Some me"
| "plays_fair H me c \<longleftrightarrow> True"

fun fair_run :: "('h \<Rightarrow> event_record list) \<Rightarrow> 'h event_store_ops \<Rightarrow> 'h \<Rightarrow> holdings \<Rightarrow> (string \<times> store_call) list \<Rightarrow> bool" where
  "fair_run rows S h H [] \<longleftrightarrow> True"
| "fair_run rows S h H ((me, c) # cs) \<longleftrightarrow> legal c (rows h) \<and> plays_fair H me c \<and>
     (case perform S c h of (x, h') \<Rightarrow> fair_run rows S h' (holds_after me c x H) cs)"

fun holdings_after :: "'h event_store_ops \<Rightarrow> 'h \<Rightarrow> holdings \<Rightarrow> (string \<times> store_call) list \<Rightarrow> holdings" where
  "holdings_after S h H [] = H"
| "holdings_after S h H ((me, c) # cs) = (case perform S c h of (x, h') \<Rightarrow> holdings_after S h' (holds_after me c x H) cs)"

lemma fair_run_take: "fair_run rows S h H cs \<Longrightarrow> fair_run rows S h H (take n cs)"
  by (induction rows S h H cs arbitrary: n rule: fair_run.induct) (auto simp: take_Cons split: nat.split)

text \<open>Each event is held once, and its row says by whom and until when.\<close>

definition claims_ok :: "holdings \<Rightarrow> event_record list \<Rightarrow> bool" where
  "claims_ok H rs \<longleftrightarrow> distinct (map ev_id rs) \<and> distinct (map held_event H) \<and>
     (\<forall>(i, e, t) \<in> set H. \<exists>r \<in> set rs. ev_id r = e \<and> ev_status r = Delivering \<and> ev_claimed_by r = Some i \<and> ev_lease_until r = Some t)"

lemma ids_update [simp]: "(\<And>r. ev_id (f r) = ev_id r) \<Longrightarrow> map ev_id (update_where P f rs) = map ev_id rs"
  by (induction rs) auto

lemma id_set: "ev_id ` set rs = set (map ev_id rs)"
  by simp

lemma ids_kept [simp]: "ev_id (claim_row now l r) = ev_id r" "ev_id (recover_row now r) = ev_id r" "ev_id (deliver_row t0 b r) = ev_id r"
  "ev_id (fail_row t0 err r) = ev_id r" "ev_id (park_row err r) = ev_id r" "ev_id (expire_row r) = ev_id r" "ev_id (wipe_row r) = ev_id r"
  by (simp_all add: claim_row_def recover_row_def deliver_row_def fail_row_def park_row_def expire_row_def wipe_row_def clear_lease_def)

lemma claims_update:
  assumes "claims_ok H rs" and "\<And>r. ev_id (f r) = ev_id r"
    and "\<And>i e t r. (i, e, t) \<in> set H \<Longrightarrow> Q (i, e, t) \<Longrightarrow> r \<in> set rs \<Longrightarrow> ev_id r = e \<Longrightarrow>
      ev_status r = Delivering \<Longrightarrow> ev_claimed_by r = Some i \<Longrightarrow> ev_lease_until r = Some t \<Longrightarrow> \<not> P r"
  shows "claims_ok (filter Q H) (update_where P f rs)"
  unfolding claims_ok_def
proof (intro conjI ballI)
  show "distinct (map ev_id (update_where P f rs))" "distinct (map held_event (filter Q H))"
    using assms(1,2) by (auto simp: claims_ok_def distinct_map_filter)
  fix x assume "x \<in> set (filter Q H)"
  then have q: "x \<in> set H" "Q x" unfolding set_filter by blast+
  obtain i e t where "x = (i, e, t)" by (cases x)
  with q have x: "x = (i, e, t)" "(i, e, t) \<in> set H" "Q (i, e, t)" by simp_all
  with assms(1) obtain r where r: "r \<in> set rs" "ev_id r = e" "ev_status r = Delivering" "ev_claimed_by r = Some i" "ev_lease_until r = Some t"
    by (auto simp: claims_ok_def)
  with x assms(3) have "\<not> P r" by blast
  with r(1) have "r \<in> set (update_where P f rs)" by (auto simp: set_update_where)
  with r x(1) show "case x of (i, e, t) \<Rightarrow> \<exists>r \<in> set (update_where P f rs). ev_id r = e \<and> ev_status r = Delivering \<and>
      ev_claimed_by r = Some i \<and> ev_lease_until r = Some t" by auto
qed

lemma claims_update_all:
  assumes "claims_ok H rs" and "\<And>r. ev_id (f r) = ev_id r" and "\<And>r. ev_status r = Delivering \<Longrightarrow> \<not> P r"
  shows "claims_ok H (update_where P f rs)"
  using claims_update [OF assms(1,2), where Q = "\<lambda>_. True" and P = P] assms(3) by simp

lemma claims_claim:
  assumes "claims_ok H rs"
  shows "claims_ok (H @ map (\<lambda>r. (lease_owner l, ev_id r, lease_end l)) (due_rows rs route now limit))
    (update_where (\<lambda>r. r \<in> set (due_rows rs route now limit)) (claim_row now l) rs)"
proof -
  let ?D = "due_rows rs route now limit"
  let ?rs = "update_where (\<lambda>r. r \<in> set ?D) (claim_row now l) rs"
  have D: "set ?D \<subseteq> set rs" "r \<in> set ?D \<Longrightarrow> is_due r now" "distinct (map ev_id ?D)" for r
    using assms by (auto simp: due_rows_def claims_ok_def distinct_map_take distinct_map_filter dest: in_set_takeD)
  have same: "x = r" if "x \<in> set rs" "r \<in> set rs" "ev_id x = ev_id r" for x r
    using that assms by (auto simp: claims_ok_def dest: distinct_key_eq)
  have fresh: "ev_id r \<notin> held_event ` set H" if "r \<in> set ?D" for r
  proof
    assume "ev_id r \<in> held_event ` set H"
    then obtain i t where "(i, ev_id r, t) \<in> set H" by (auto simp: held_event_def)
    with assms obtain x where "x \<in> set rs" "ev_id x = ev_id r" "ev_status x = Delivering" by (auto simp: claims_ok_def)
    moreover have "r \<in> set rs" using D(1) that by blast
    ultimately have "ev_status r = Delivering" using same by blast
    with D(2) [OF that] show False by (simp add: is_due_def)
  qed
  have idle: "ev_status r \<noteq> Delivering" if "r \<in> set ?D" for r using D(2) [OF that] by (auto simp: is_due_def)
  have old: "claims_ok (filter (\<lambda>_. True) H) ?rs"
    by (rule claims_update [OF assms]) (use idle in auto)
  have "distinct (map held_event (H @ map (\<lambda>r. (lease_owner l, ev_id r, lease_end l)) ?D))"
  proof -
    have "map held_event (map (\<lambda>r. (lease_owner l, ev_id r, lease_end l)) ?D) = map ev_id ?D" by (simp add: held_event_def)
    then have parts: "map held_event (H @ map (\<lambda>r. (lease_owner l, ev_id r, lease_end l)) ?D) = map held_event H @ map ev_id ?D"
      by (simp del: map_map)
    have "set (map held_event H) \<inter> set (map ev_id ?D) = {}"
    proof (rule equals0I)
      fix e assume e: "e \<in> set (map held_event H) \<inter> set (map ev_id ?D)"
      then obtain r where "r \<in> set ?D" "e = ev_id r" by auto
      with fresh [of r] e show False by simp
    qed
    moreover have "distinct (map held_event H)" using assms by (simp add: claims_ok_def)
    ultimately show ?thesis unfolding parts distinct_append using D(3) by blast
  qed
  moreover have "\<exists>q \<in> set ?rs. ev_id q = ev_id r \<and> ev_status q = Delivering \<and> ev_claimed_by q = Some (lease_owner l) \<and>
      ev_lease_until q = Some (lease_end l)" if "r \<in> set ?D" for r
    by (rule bexI [of _ "claim_row now l r"]) (use that D(1) in \<open>auto simp: set_update_where claim_row_def\<close>)
  ultimately show ?thesis using old by (auto simp: claims_ok_def)
qed

lemma claims_settle:
  assumes "claims_ok H rs" and "\<And>r. ev_id (f r) = ev_id r" and "\<And>r. P r \<Longrightarrow> ev_id r \<in> set ids"
  shows "claims_ok (filter (\<lambda>(i, e, t). e \<notin> set ids) H) (update_where P f rs)"
  by (rule claims_update [OF assms(1,2)]) (use assms(3) in auto)

lemma claims_prune:
  assumes "claims_ok H rs" and "pruned now dd ld limit rs x rs'"
  shows "claims_ok H rs'"
proof -
  consider (wipe) W where "\<forall>r \<in> W. is_terminal r" "rs' = update_where (\<lambda>r. r \<in> W) wipe_row rs"
    | (delete) D where "\<forall>r \<in> D. is_terminal r" "rs' = filter (\<lambda>r. r \<notin> D) rs"
    using assms(2) unfolding pruned_def chosen_def wipeable_def deletable_def by blast
  then show ?thesis
  proof cases
    case wipe
    then show ?thesis unfolding wipe(2) by (intro claims_update_all [OF assms(1)]) (auto simp: is_terminal_def)
  next
    case delete
    then show ?thesis using assms(1) unfolding delete(2)
      by (fastforce simp: claims_ok_def distinct_map_filter is_terminal_def)
  qed
qed

inductive_cases spec_deliverE: "spec_step (CDeliver ids t0 bulk) rs x rs'"
inductive_cases spec_failE: "spec_step (CFail ids t0 err) rs x rs'"
inductive_cases spec_parkE: "spec_step (CPark ids err) rs x rs'"
inductive_cases spec_releaseE: "spec_step (CRelease ids t0 err) rs x rs'"
inductive_cases spec_expireE: "spec_step (CExpire now age) rs x rs'"
inductive_cases spec_pruneE: "spec_step (CPrune now dd ld limit) rs x rs'"

lemma claims_step:
  assumes "claims_ok H rs" and "plays_fair H me c" and "spec_step c rs x rs'"
  shows "claims_ok (holds_after me c (Inr x) H) rs'"
proof (cases c)
  case (CInsert e)
  from assms(3) consider "rs' = rs" | r where "rs' = rs @ [r]" "ev_id r \<notin> ev_id ` set rs"
    unfolding CInsert by (fastforce elim: spec_insertE simp: stored_as_def new_row_def)
  then show ?thesis using assms(1) by cases (auto simp: CInsert claims_ok_def)
next
  case (CClaim route now limit l)
  from assms(3) have "x = AClaim (map (claim_row now l) (due_rows rs route now limit))"
    "rs' = update_where (\<lambda>r. r \<in> set (due_rows rs route now limit)) (claim_row now l) rs"
    unfolding CClaim by (auto elim: spec_claimE)
  with claims_claim [OF assms(1), of l route now limit] assms(2) CClaim show ?thesis by (simp add: comp_def)
next
  case (CRecover now owner)
  from assms(3) have "rs' = update_where (recoverable now owner) (recover_row now) rs"
    unfolding CRecover by (auto elim: spec_recoverE)
  then show ?thesis unfolding CRecover holds_after.simps
    by (simp, intro claims_update [OF assms(1)]) (auto simp: recoverable_def)
next
  case (CExpire now age)
  from assms(3) have "rs' = update_where (expired (now - age)) expire_row rs" unfolding CExpire by (auto elim: spec_expireE)
  with claims_update_all [OF assms(1)] CExpire show ?thesis by (simp add: expired_def)
next
  case (CPrune now dd ld limit)
  from assms(3) obtain y where "pruned now dd ld limit rs y rs'" unfolding CPrune by (auto elim: spec_pruneE)
  with claims_prune [OF assms(1)] CPrune show ?thesis by simp
next
  case (CRoutes now)
  with assms show ?thesis by (auto elim: spec_routesE)
qed (use assms(1,3) in \<open>auto elim!: spec_deliverE spec_failE spec_parkE spec_releaseE intro!: claims_settle simp: with_ids_def\<close>)

fun claimed_ids :: "exn + store_answer \<Rightarrow> string list" where
  "claimed_ids (Inr (AClaim rs)) = map ev_id rs"
| "claimed_ids _ = []"

context event_store
begin

lemma fair_claims:
  "ok h \<Longrightarrow> claims_ok H (rows h) \<Longrightarrow> fair_run rows S h H cs \<Longrightarrow> distinct (map held_event (holdings_after S h H cs))"
proof (induction cs arbitrary: h H)
  case Nil
  then show ?case by (simp add: claims_ok_def)
next
  case (Cons mc cs)
  obtain me c where mc: "mc = (me, c)" by (cases mc)
  obtain x h1 where p: "perform S c h = (x, h1)" by fastforce
  from Cons.prems(3) mc p have fair: "legal c (rows h)" "plays_fair H me c" "fair_run rows S h1 (holds_after me c x H) cs" by simp_all
  note up = updatesD [OF perform_refines [OF Cons.prems(1) fair(1)] p]
  have "claims_ok (holds_after me c x H) (rows h1)"
  proof (cases x)
    case (Inl e)
    have "holds_after me c (Inl e) H = H" by (cases c) simp_all
    with up(2) [OF Inl] Inl Cons.prems(2) show ?thesis by simp
  next
    case (Inr y)
    with claims_step [OF Cons.prems(2) fair(2) up(3) [OF Inr]] show ?thesis by simp
  qed
  with Cons.IH [OF up(1) _ fair(3)] mc p show ?case by simp
qed

end

section \<open>The stores of the repository\<close>

text \<open>
  \<^bold>\<open>C5.\<close> The SQLite store refines the specification: over any sequence of calls, whichever
  statements the driver lets fail, it answers as a list of records does, a failed call leaving
  no trace.
\<close>

theorem sqlite_refines_spec:
  assumes "sqlite_ok d" and "run_calls sqlite_ops cs d = (xs, d')"
  shows "spec_run cs (sqlite_rows d) xs (sqlite_rows d')"
  by (rule sqlite.run_refines [OF assms])

text \<open>
  \<^bold>\<open>C6.\<close> Relay instances that share a SQLite store never hold the same event at once: after every call
  of any interleaving of their claims, deliveries, failures, releases, recoveries of their own or of
  lapsed leases, expiries, prunes and insertions, whichever statements the driver lets fail, each
  event is held once.  This is so while calls name rows that the store has and no instance settles
  or releases what another one holds (an instance whose lease has lapsed, or that settled an
  event, no longer holds it); \<open>late_release_hands_twice\<close> shows what happens otherwise.
\<close>

theorem sqlite_claims_exclusive:
  assumes "sqlite_ok d" and "fair_run sqlite_rows sqlite_ops d [] cs"
  shows "distinct (map held_event (holdings_after sqlite_ops d [] (take n cs)))"
proof -
  have "claims_ok [] (sqlite_rows d)" using sqlite_wf [OF assms(1)] by (simp add: claims_ok_def wf_rows_def)
  from sqlite.fair_claims [OF assms(1) this fair_run_take [OF assms(2)]] show ?thesis .
qed

text \<open>Two instances share one database; the first statement of the second one fails once.\<close>

definition shared_db :: sqlite_db where
  "shared_db = \<lparr>db_events = [], db_kv = [], db_scan = id, db_faults = [None, None, None, None, None, Some (CodedError ''locked'' ''SQLITE_BUSY'')]\<rparr>"

definition sample_event :: "string \<Rightarrow> new_event" where
  "sample_event k = \<lparr>ne_route_id = ''r1'', ne_source = ''payabli'', ne_event_id = k, ne_event_type = None, ne_payload = [1],
     ne_payload_iv = None, ne_headers_json = ''{}'', ne_received_at = 0, ne_status = Pending, ne_idempotency_key = k\<rparr>"

definition two_instances :: "(string \<times> store_call) list" where
  "two_instances = [(''a'', CInsert (sample_event ''e1'')),
     (''a'', CClaim ''r1'' 5 10 \<lparr>lease_owner = ''a'', lease_end = 605\<rparr>),
     (''b'', CRecover 6 (Some ''b'')),
     (''b'', CClaim ''r1'' 6 10 \<lparr>lease_owner = ''b'', lease_end = 606\<rparr>),
     (''a'', CFail [''1''] 700 ''offline''),
     (''b'', CClaim ''r1'' 700 10 \<lparr>lease_owner = ''b'', lease_end = 1300\<rparr>),
     (''a'', CRecover 701 None),
     (''a'', CClaim ''r1'' 1200 10 \<lparr>lease_owner = ''a'', lease_end = 1800\<rparr>)]"

lemma shared_ok: "sqlite_ok shared_db" "sqlite_rows shared_db = []"
  by (simp_all add: shared_db_def sqlite_ok_def sqlite_rows_def)

lemma shared_run: "fair_run sqlite_rows sqlite_ops shared_db [] two_instances"
  "holdings_after sqlite_ops shared_db [] (take 4 two_instances) = [(''a'', ''1'', 605)]"
  "holdings_after sqlite_ops shared_db [] (take 8 two_instances) = [(''b'', ''1'', 1300)]"
  by code_simp+

theorem sqlite_refines_spec_witness:
  "spec_run (map snd two_instances) [] (fst (run_calls sqlite_ops (map snd two_instances) shared_db))
     (sqlite_rows (snd (run_calls sqlite_ops (map snd two_instances) shared_db)))"
  using sqlite_refines_spec [OF shared_ok(1), of "map snd two_instances"] shared_ok(2) by (metis prod.collapse)

theorem sqlite_claims_exclusive_witness:
  "distinct (map held_event (holdings_after sqlite_ops shared_db [] (take 8 two_instances))) \<and>
   holdings_after sqlite_ops shared_db [] (take 8 two_instances) = [(''b'', ''1'', 1300)]"
  using sqlite_claims_exclusive [OF shared_ok(1) shared_run(1), of 8] shared_run(3) by simp

text \<open>
  The dispatcher releases every event of its batch at the end (\<open>releaseLeftover\<close>), those it has
  settled included, and \<open>releaseDelivering\<close> looks at the status only: an event that \<open>a\<close> gave back for
  retry, and that \<open>b\<close> claimed meanwhile, is taken from \<open>b\<close>, and handed to \<open>c\<close> under \<open>b\<close>'s running lease.
\<close>

definition late_release :: "(string \<times> store_call) list" where
  "late_release = [(''a'', CInsert (sample_event ''e1'')),
     (''a'', CClaim ''r1'' 5 10 \<lparr>lease_owner = ''a'', lease_end = 605\<rparr>),
     (''a'', CFail [''1''] 6 ''enrichment failed''),
     (''b'', CClaim ''r1'' 7 10 \<lparr>lease_owner = ''b'', lease_end = 607\<rparr>),
     (''a'', CRelease [''1''] 8 ''left delivering after batch''),
     (''c'', CClaim ''r1'' 9 10 \<lparr>lease_owner = ''c'', lease_end = 609\<rparr>)]"

lemma late_release_hands_twice:
  "\<not> fair_run sqlite_rows sqlite_ops (shared_db\<lparr>db_faults := []\<rparr>) [] late_release"
  "map claimed_ids (fst (run_calls sqlite_ops (map snd late_release) (shared_db\<lparr>db_faults := []\<rparr>))) = [[], [''1''], [], [''1''], [], [''1'']]"
  by code_simp+

end
