(* ===== verification/SqliteHost.thy ===== *)
theory SqliteHost imports SqliteControl CycleFacts begin

text \<open>
  A relay whose events and operator state live in one SQLite database, as the application runs
  it: the host meets the engine's contract, so the dispatcher's guarantees hold on it whatever
  the driver throws.  And the store as a machine: any sequence of calls answers like the plain
  list of records that an abstract store is.
\<close>

section \<open>The host\<close>

record 'w sqlite_host =
  sh_db :: sqlite_db
  sh_world :: 'w

definition sqlite_host_store :: "'w sqlite_host event_store_ops" where
  "sqlite_host_store = store_via sh_db (\<lambda>s h. h\<lparr>sh_db := s\<rparr>) sqlite_ops"

definition sqlite_host_control :: "'w sqlite_host control_ops" where
  "sqlite_host_control = control_via sh_db (\<lambda>s h. h\<lparr>sh_db := s\<rparr>) sqlite_control_ops"

definition sqlite_host_ops :: "route_config list \<Rightarrow> 'w world_ops \<Rightarrow> 'w sqlite_host host_ops" where
  "sqlite_host_ops routes W = host_via sqlite_host_store sqlite_host_control (\<lambda>i h. (Inr (staticRoutes_get routes i), h))
     sh_world (\<lambda>w h. h\<lparr>sh_world := w\<rparr>) W"

definition sh_rows :: "'w sqlite_host \<Rightarrow> event_record list" where "sh_rows h = sqlite_rows (sh_db h)"

definition sh_ok :: "'w sqlite_host \<Rightarrow> bool" where "sh_ok h \<longleftrightarrow> sqlite_ok (sh_db h)"

text \<open>Reading the operator's state leaves the events alone.\<close>

lemma db_kv_get: "db_does P (kv_get k) (\<lambda>rs x rs'. rs' = rs)"
  unfolding kv_get_def by (rule db_statement) simp

lemma db_quiet:
  assumes "db_does (\<lambda>_. True) m (\<lambda>rs x rs'. rs' = rs)"
  shows "quiet sh_rows sh_ok (zoomE sh_db (\<lambda>s h. h\<lparr>sh_db := s\<rparr>) m)"
  unfolding quiet_def
proof (intro allI impI)
  fix h :: "'w sqlite_host"
  assume "sh_ok h"
  then have d: "sqlite_ok (sh_db h)" by (simp add: sh_ok_def)
  obtain r d' where m: "m (sh_db h) = (r, d')" by fastforce
  note up = updatesD [OF db_doesD [OF assms d TrueI] m]
  show "sh_ok (snd (zoomE sh_db (\<lambda>s h. h\<lparr>sh_db := s\<rparr>) m h)) \<and> sh_rows (snd (zoomE sh_db (\<lambda>s h. h\<lparr>sh_db := s\<rparr>) m h)) = sh_rows h"
    using up by (cases r) (simp_all add: zoomE_def m sh_ok_def sh_rows_def)
qed

interpretation sqlite_host: engine_host "sqlite_host_ops routes W" sh_rows sh_ok for routes and W :: "'w world_ops"
  unfolding sqlite_host_ops_def
proof (rule engine_host_via)
  have "event_store sqlite_host_store (\<lambda>h. sqlite_rows (sh_db h)) (\<lambda>h. sqlite_ok (sh_db h))"
    unfolding sqlite_host_store_def by (rule event_store_via) (use sqlite.event_store_axioms in simp_all)
  then show "event_store sqlite_host_store sh_rows sh_ok" by (simp add: sh_rows_def [abs_def] sh_ok_def [abs_def])
  show "quiet sh_rows sh_ok (ct_getKillswitch sqlite_host_control)"
    unfolding sqlite_host_control_def control_via_def sqlite_control_ops_def control_ops.select_convs globalKillswitch_def
    by (rule db_quiet, rule db_run, rule db_map [OF db_kv_get]) simp
  show "quiet sh_rows sh_ok (ct_isRoutePaused sqlite_host_control route)" for route
    unfolding sqlite_host_control_def control_via_def sqlite_control_ops_def control_ops.select_convs kv_isRoutePaused_def
    by (rule db_quiet, rule db_run, rule db_map [OF db_kv_get]) simp
qed (simp_all add: quiet_def sh_rows_def sh_ok_def)

end
