(* ===== verification/SqliteCycle.thy ===== *)
theory SqliteCycle imports SqliteHost CycleDemo begin

text \<open>
  One cycle of the dispatcher on the application's store: whatever statement the driver fails at,
  the rows move one for one.  The witness runs it on a database whose fifth statement fails.
\<close>

section \<open>The dispatcher on SQLite\<close>

text \<open>
  A dispatch cycle on the SQLite store, at whichever statement the driver fails, on the
  store or on the operator's state: the rows after it are the rows before it, one for one, with
  their identity, route, payload and key, settled rows untouched; its rows are claimed no longer
  or will be taken back; and its summary is what it announced.
\<close>

theorem sqlite_cycle:
  assumes "sqlite_ok (sh_db (en_host s))" and "reclaims sh_rows (cf_instanceId cf) s" and "cycle (sqlite_host_ops routes W) cf abort s = (r, s')"
  shows "sqlite_ok (sh_db (en_host s')) \<and>
    list_all2 row_step (sqlite_rows (sh_db (en_host s))) (sqlite_rows (sh_db (en_host s'))) \<and>
    reclaims sh_rows (cf_instanceId cf) s' \<and>
    (\<exists>tr. en_trace s' = en_trace s @ tr \<and> accounted (batchMax (cf_dispatch cf)) new_summary tr (d_summary s'))"
proof -
  have "sh_ok (en_host s)" using assms(1) by (simp add: sh_ok_def)
  from sqlite_host.cycle_effect [OF this assms(2,3)] show ?thesis by (simp add: sh_ok_def sh_rows_def)
qed

text \<open>A database with one row due and a driver that fails at the fifth statement.\<close>

definition faulty_db :: sqlite_db where
  "faulty_db = \<lparr>db_events = [inserted_row \<lparr>ie_route_id = ''r1'', ie_source = ''payabli'', ie_event_id = ''e1'', ie_event_type = None,
       ie_payload_enc = [1], ie_payload_iv = [], ie_headers_json = ''{}'', ie_received_at = 0, ie_status = Pending,
       ie_idempotency_key = ''k1''\<rparr> 1],
     db_kv = [], db_scan = id, db_faults = [None, None, None, None, Some (CodedError ''disk'' ''SQLITE_FULL'')]\<rparr>"

definition faulty_state :: "'w \<Rightarrow> 'w sqlite_host dispatcher" where
  "faulty_state w = \<lparr>en_host = \<lparr>sh_db = faulty_db, sh_world = w\<rparr>, en_trace = [], d_reclaimOwner = Some ''i1'', d_lastSweepAt = 0,
     d_summary = new_summary\<rparr>"

theorem sqlite_cycle_witness:
  "list_all2 row_step (sqlite_rows faulty_db)
     (sqlite_rows (sh_db (en_host (snd (cycle (sqlite_host_ops [demo_route, other_route] online_world) online_config (\<lambda>_. False) (faulty_state ()))))))"
proof -
  obtain r s' where c: "cycle (sqlite_host_ops [demo_route, other_route] online_world) online_config (\<lambda>_. False) (faulty_state ()) = (r, s')" by fastforce
  have "sqlite_ok (sh_db (en_host (faulty_state ())))" by (simp add: faulty_state_def faulty_db_def sqlite_ok_def inserted_row_def)
  moreover have "reclaims sh_rows (cf_instanceId online_config) (faulty_state ())"
    by (simp add: reclaims_def faulty_state_def online_simps)
  ultimately show ?thesis using sqlite_cycle [OF _ _ c] c by (simp add: faulty_state_def)
qed

end
