(* ===== verification/Migrations.thy ===== *)
theory Migrations imports Prelude Exn begin

text \<open>
  Schema migrations of the SQLite store (\<open>packages/store-sqlite/src/migrations.ts\<close>).  What a
  migration's SQL does to the tables is the driver's: an argument \<open>exec\<close> on their state.
\<close>

record migration =
  mg_name :: string
  mg_sql :: string

record 's migrated =
  md_tables :: 's
  md_applied :: "string list"      \<comment> \<open>the names in \<open>schema_migrations\<close>\<close>

text \<open>One transaction: the script, then the name, which is a primary key; a failure undoes both.\<close>

definition apply_migration :: "(string \<Rightarrow> 's \<Rightarrow> exn + 's) \<Rightarrow> migration \<Rightarrow> ('s migrated, exn, unit) sem" where
  "apply_migration exec m d = (case exec (mg_sql m) (md_tables d) of
     Inl e \<Rightarrow> (Inl e, d)
   | Inr t \<Rightarrow> (if mg_name m \<in> set (md_applied d)
       then (Inl (CodedError ''UNIQUE constraint failed: schema_migrations.name'' ''SQLITE_CONSTRAINT_PRIMARYKEY''), d)
       else (Inr (), d\<lparr>md_tables := t, md_applied := md_applied d @ [mg_name m]\<rparr>)))"

text \<open>\<open>applied\<close> is read once, before the first migration.\<close>

fun run_migrations :: "(string \<Rightarrow> 's \<Rightarrow> exn + 's) \<Rightarrow> string list \<Rightarrow> migration list \<Rightarrow> ('s migrated, exn, unit) sem" where
  "run_migrations exec applied [] = ret ()"
| "run_migrations exec applied (m # ms) =
     (if mg_name m \<in> set applied then run_migrations exec applied ms
      else thenE (apply_migration exec m) (run_migrations exec applied ms))"

definition migrate :: "(string \<Rightarrow> 's \<Rightarrow> exn + 's) \<Rightarrow> migration list list \<Rightarrow> ('s migrated, exn, unit) sem" where
  "migrate exec sets = bindE (getsE md_applied) (\<lambda>applied. run_migrations exec applied (concat sets))"

lemma run_migrations_done:
  "run_migrations exec applied ms d = (Inr (), d') \<Longrightarrow>
     set (md_applied d') = set (md_applied d) \<union> {n \<in> set (map mg_name ms). n \<notin> set applied}"
proof (induction ms arbitrary: d)
  case (Cons m ms)
  show ?case
  proof (cases "mg_name m \<in> set applied")
    case True
    with Cons show ?thesis by auto
  next
    case False
    with Cons.prems obtain t where t: "exec (mg_sql m) (md_tables d) = Inr t"
      "run_migrations exec applied ms (d\<lparr>md_tables := t, md_applied := md_applied d @ [mg_name m]\<rparr>) = (Inr (), d')"
      by (auto simp: thenE_def bindE_def apply_migration_def split: sum.splits if_splits)
    from Cons.IH [OF t(2)] False show ?thesis by auto
  qed
qed (simp add: ret_def)

lemma run_migrations_none: "set (map mg_name ms) \<subseteq> set applied \<Longrightarrow> run_migrations exec applied ms d = (Inr (), d)"
  by (induction ms) (simp_all add: ret_def)

text \<open>
  Migrating is idempotent: a run that completes has recorded every migration of every set,
  and a second run, at the next start or by another process, changes nothing.
\<close>

theorem migrate_idempotent:
  assumes "migrate exec sets d = (Inr (), d')"
  shows "set (map mg_name (concat sets)) \<subseteq> set (md_applied d') \<and> migrate exec sets d' = (Inr (), d')"
proof -
  have "run_migrations exec (md_applied d) (concat sets) d = (Inr (), d')" using assms by (simp add: migrate_def bindE_def getsE_def)
  from run_migrations_done [OF this] have recorded: "set (map mg_name (concat sets)) \<subseteq> set (md_applied d')" by auto
  with recorded run_migrations_none [OF recorded] show ?thesis by (simp add: migrate_def bindE_def getsE_def)
qed

definition two_sets :: "migration list list" where
  "two_sets = [[\<lparr>mg_name = ''001_init.sql'', mg_sql = ''events''\<rparr>, \<lparr>mg_name = ''002_leases.sql'', mg_sql = ''leases''\<rparr>],
     [\<lparr>mg_name = ''app_001.sql'', mg_sql = ''admin''\<rparr>]]"

theorem migrate_idempotent_witness:
  "migrate (\<lambda>sql t. Inr (t @ [sql])) two_sets \<lparr>md_tables = [''events'', ''leases'', ''admin''], md_applied = [''001_init.sql'', ''002_leases.sql'', ''app_001.sql'']\<rparr> =
     (Inr (), \<lparr>md_tables = [''events'', ''leases'', ''admin''], md_applied = [''001_init.sql'', ''002_leases.sql'', ''app_001.sql'']\<rparr>)"
proof -
  have "migrate (\<lambda>sql t. Inr (t @ [sql])) two_sets \<lparr>md_tables = [''events''], md_applied = [''001_init.sql'']\<rparr> =
     (Inr (), \<lparr>md_tables = [''events'', ''leases'', ''admin''], md_applied = [''001_init.sql'', ''002_leases.sql'', ''app_001.sql'']\<rparr>)"
    by (simp add: migrate_def two_sets_def bindE_def getsE_def thenE_def apply_migration_def ret_def)
  from migrate_idempotent [OF this] show ?thesis by blast
qed

end
