(* ===== verification/Lifecycle.thy ===== *)
theory Lifecycle imports Main begin

text \<open>
  The life of a dispatcher (\<open>start\<close>, \<open>wake\<close>, \<open>runOnce\<close>, \<open>pruneNow\<close>, \<open>stop\<close> and \<open>schedulePrune\<close> of
  \<open>packages/core/src/forward/dispatcher.ts\<close>) as a state machine.  The promise chains \<open>inFlight\<close>
  and \<open>pruneWork\<close> are the queues of the jobs chained to them that have not finished; what a
  cycle or a prune does is the matter of the theory \<open>Dispatcher\<close>, here it begins and ends.
\<close>

section \<open>States and operations\<close>

datatype cycle_job = WakeLoop | SingleCycle
datatype prune_job = ScheduledPrune | RequestedPrune

record lifecycle =
  lc_running :: bool
  lc_wakeRequested :: bool
  lc_listening :: bool          \<comment> \<open>\<open>onSignal\<close> is registered\<close>
  lc_timer :: bool
  lc_pruneTimer :: bool
  lc_inFlight :: "cycle_job list"
  lc_cycle :: bool              \<comment> \<open>the first job is inside \<open>cycle\<close>\<close>
  lc_pruneWork :: "prune_job list"
  lc_pruning :: bool
  lc_begun :: nat               \<comment> \<open>cycles the loop has begun\<close>

definition new_lifecycle :: lifecycle where
  "new_lifecycle = \<lparr>lc_running = False, lc_wakeRequested = False, lc_listening = False, lc_timer = False, lc_pruneTimer = False,
     lc_inFlight = [], lc_cycle = False, lc_pruneWork = [], lc_pruning = False, lc_begun = 0\<rparr>"

definition wake :: "lifecycle \<Rightarrow> lifecycle" where
  "wake s = (if \<not> lc_running s then s else s\<lparr>lc_wakeRequested := True, lc_inFlight := lc_inFlight s @ [WakeLoop]\<rparr>)"

definition schedulePrune :: "lifecycle \<Rightarrow> lifecycle" where
  "schedulePrune s = s\<lparr>lc_pruneWork := lc_pruneWork s @ [ScheduledPrune]\<rparr>"

definition start_loop :: "bool \<Rightarrow> lifecycle \<Rightarrow> lifecycle" where
  "start_loop retention s = (if lc_running s then s else
     (let s1 = s\<lparr>lc_running := True, lc_listening := True, lc_timer := True\<rparr>;
          s2 = (if retention then schedulePrune (s1\<lparr>lc_pruneTimer := True\<rparr>) else s1) in wake s2))"

definition onSignal :: "lifecycle \<Rightarrow> lifecycle" where
  "onSignal s = (if lc_listening s then wake s else s)"

definition poll_tick :: "lifecycle \<Rightarrow> lifecycle" where
  "poll_tick s = (if lc_timer s then wake s else s)"

definition prune_tick :: "lifecycle \<Rightarrow> lifecycle" where
  "prune_tick s = (if lc_pruneTimer s then schedulePrune s else s)"

definition request_cycle :: "lifecycle \<Rightarrow> lifecycle" where
  "request_cycle s = s\<lparr>lc_inFlight := lc_inFlight s @ [SingleCycle]\<rparr>"

definition request_prune :: "lifecycle \<Rightarrow> lifecycle" where
  "request_prune s = s\<lparr>lc_pruneWork := lc_pruneWork s @ [RequestedPrune]\<rparr>"

definition request_stop :: "lifecycle \<Rightarrow> lifecycle" where
  "request_stop s = s\<lparr>lc_running := False, lc_listening := False, lc_timer := False, lc_pruneTimer := False\<rparr>"

text \<open>
  The next thing the chain of cycles does by itself: the first job's cycle ends, and with it a
  job that is a single cycle; or that job looks whether to begin one.
\<close>

definition advance_cycles :: "lifecycle \<Rightarrow> lifecycle" where
  "advance_cycles s = (case lc_inFlight s of
     [] \<Rightarrow> s
   | WakeLoop # rest \<Rightarrow>
       if lc_cycle s then s\<lparr>lc_cycle := False\<rparr>
       else if lc_wakeRequested s \<and> lc_running s
         then s\<lparr>lc_wakeRequested := False, lc_cycle := True, lc_begun := Suc (lc_begun s)\<rparr>
       else s\<lparr>lc_inFlight := rest\<rparr>
   | SingleCycle # rest \<Rightarrow>
       if lc_cycle s then s\<lparr>lc_cycle := False, lc_inFlight := rest\<rparr> else s\<lparr>lc_cycle := True\<rparr>)"

definition advance_prunes :: "lifecycle \<Rightarrow> lifecycle" where
  "advance_prunes s = (case lc_pruneWork s of
     [] \<Rightarrow> s
   | _ # rest \<Rightarrow> if lc_pruning s then s\<lparr>lc_pruning := False, lc_pruneWork := rest\<rparr> else s\<lparr>lc_pruning := True\<rparr>)"

section \<open>Runs\<close>

inductive lifecycle_step :: "bool \<Rightarrow> lifecycle \<Rightarrow> lifecycle \<Rightarrow> bool" for retention where
  "lifecycle_step retention s (start_loop retention s)"
| "lifecycle_step retention s (onSignal s)"
| "lifecycle_step retention s (poll_tick s)"
| "lifecycle_step retention s (prune_tick s)"
| "lifecycle_step retention s (request_cycle s)"
| "lifecycle_step retention s (request_prune s)"
| "lifecycle_step retention s (request_stop s)"
| "lifecycle_step retention s (advance_cycles s)"
| "lifecycle_step retention s (advance_prunes s)"

inductive lives :: "bool \<Rightarrow> lifecycle \<Rightarrow> bool" for retention where
  born: "lives retention new_lifecycle"
| lived: "lives retention s \<Longrightarrow> lifecycle_step retention s s' \<Longrightarrow> lives retention s'"

lemmas lifecycle_defs = wake_def schedulePrune_def start_loop_def onSignal_def poll_tick_def prune_tick_def request_cycle_def
  request_prune_def request_stop_def advance_cycles_def advance_prunes_def

text \<open>
  A requested wake-up of a running dispatcher has a loop that will see it; the timers and the
  signal handler are on exactly while it runs; a cycle and a prune run inside a job.
\<close>

definition lifecycle_ok :: "lifecycle \<Rightarrow> bool" where
  "lifecycle_ok s \<longleftrightarrow> (lc_running s \<and> lc_wakeRequested s \<longrightarrow> WakeLoop \<in> set (lc_inFlight s)) \<and>
     lc_listening s = lc_running s \<and> lc_timer s = lc_running s \<and> (lc_pruneTimer s \<longrightarrow> lc_running s) \<and>
     (lc_cycle s \<longrightarrow> lc_inFlight s \<noteq> []) \<and> (lc_pruning s \<longrightarrow> lc_pruneWork s \<noteq> [])"

lemma lifecycle_ok_step: "lifecycle_step retention s s' \<Longrightarrow> lifecycle_ok s \<Longrightarrow> lifecycle_ok s'"
  by (induction rule: lifecycle_step.induct)
    (auto simp: lifecycle_ok_def lifecycle_defs Let_def split: list.splits cycle_job.splits)

lemma lifecycle_ok_lives: "lives retention s \<Longrightarrow> lifecycle_ok s"
  by (induction rule: lives.induct) (auto simp: lifecycle_ok_step, simp add: lifecycle_ok_def new_lifecycle_def)

section \<open>No wake-up is lost\<close>

text \<open>How many of its own steps the chain needs before the first loop looks.\<close>

fun until_loop :: "cycle_job list \<Rightarrow> nat" where
  "until_loop [] = 0"
| "until_loop (WakeLoop # _) = 0"
| "until_loop (SingleCycle # js) = Suc (Suc (until_loop js))"

definition wake_distance :: "lifecycle \<Rightarrow> nat" where
  "wake_distance s = (if lc_cycle s then (case lc_inFlight s of SingleCycle # js \<Rightarrow> Suc (until_loop js) | _ \<Rightarrow> 1)
     else until_loop (lc_inFlight s))"

lemma until_loop_le: "until_loop js \<le> 2 * length js"
  by (induction js rule: until_loop.induct) auto

lemma wake_begins:
  assumes "lifecycle_ok s" and "lc_running s" and "lc_wakeRequested s"
  shows "lc_begun ((advance_cycles ^^ Suc (wake_distance s)) s) = Suc (lc_begun s)"
  using assms
proof (induction "wake_distance s" arbitrary: s rule: less_induct)
  case less
  have ok: "lifecycle_ok (advance_cycles s)"
    by (rule lifecycle_ok_step [OF lifecycle_step.intros(8) less.prems(1)])
  from less.prems obtain j js where q: "lc_inFlight s = j # js" by (cases "lc_inFlight s") (auto simp: lifecycle_ok_def)
  show ?case
  proof (cases "j = WakeLoop \<and> \<not> lc_cycle s")
    case True
    with q less.prems show ?thesis by (simp add: wake_distance_def advance_cycles_def)
  next
    case False
    let ?t = "advance_cycles s"
    have t: "lc_running ?t" "lc_wakeRequested ?t" "lc_begun ?t = lc_begun s"
      using False q less.prems by (cases j; auto simp: advance_cycles_def)+
    have d: "wake_distance s = Suc (wake_distance ?t)"
      using False q by (cases j) (auto simp: advance_cycles_def wake_distance_def)
    from less.hyps [OF _ ok t(1,2)] d t(3) show ?thesis by (simp add: funpow_swap1)
  qed
qed

text \<open>
  \<^bold>\<open>C33.\<close> No wake-up is lost: in every state a dispatcher can be in, if it runs and a wake-up is
  requested (an event was stored, the poll timer fired, or it was just started, also while a
  cycle is going on), then at most two of its own steps per chained job and one more lead to
  the beginning of a new cycle.
\<close>

theorem wake_not_lost:
  assumes "lives retention s" and "lc_running s" and "lc_wakeRequested s"
  shows "\<exists>n \<le> 2 * length (lc_inFlight s) + 1. lc_begun ((advance_cycles ^^ n) s) = Suc (lc_begun s)"
proof -
  have ok: "lifecycle_ok s" by (rule lifecycle_ok_lives [OF assms(1)])
  then obtain j js where q: "lc_inFlight s = j # js" using assms(2,3) by (cases "lc_inFlight s") (auto simp: lifecycle_ok_def)
  have "wake_distance s \<le> 2 * length (lc_inFlight s)"
    using until_loop_le [of js] until_loop_le [of "lc_inFlight s"] by (cases j) (auto simp: wake_distance_def q)
  with wake_begins [OF ok assms(2,3)] show ?thesis by (intro exI [of _ "Suc (wake_distance s)"]) simp
qed

section \<open>Stopping\<close>

definition drained :: "lifecycle \<Rightarrow> bool" where
  "drained s \<longleftrightarrow> lc_inFlight s = [] \<and> \<not> lc_cycle s \<and> lc_pruneWork s = [] \<and> \<not> lc_pruning s"

definition advance :: "lifecycle \<Rightarrow> lifecycle" where
  "advance s = advance_prunes (advance_cycles s)"

text \<open>The steps a chain still needs when the dispatcher is stopped.\<close>

fun cycle_steps :: "cycle_job list \<Rightarrow> bool \<Rightarrow> nat" where
  "cycle_steps [] c = 0"
| "cycle_steps (WakeLoop # js) c = (if c then 2 else 1) + cycle_steps js False"
| "cycle_steps (SingleCycle # js) c = (if c then 1 else 2) + cycle_steps js False"

definition prune_steps :: "prune_job list \<Rightarrow> bool \<Rightarrow> nat" where
  "prune_steps js p = 2 * length js - (if p then 1 else 0)"

lemma cycle_steps_zero: "cycle_steps js c = 0 \<longleftrightarrow> js = []"
  by (cases "(js, c)" rule: cycle_steps.cases) auto

lemma cycle_steps_le: "cycle_steps js c \<le> 2 * length js"
  by (induction js c rule: cycle_steps.induct) auto

lemma stopped_advance:
  assumes "\<not> lc_running s" and "lifecycle_ok s"
  shows "\<not> lc_running (advance s) \<and> lifecycle_ok (advance s) \<and> lc_begun (advance s) = lc_begun s \<and>
    cycle_steps (lc_inFlight (advance s)) (lc_cycle (advance s)) = cycle_steps (lc_inFlight s) (lc_cycle s) - 1 \<and>
    prune_steps (lc_pruneWork (advance s)) (lc_pruning (advance s)) = prune_steps (lc_pruneWork s) (lc_pruning s) - 1"
proof -
  let ?t = "advance_cycles s"
  have c: "\<not> lc_running ?t \<and> lc_begun ?t = lc_begun s \<and> lc_pruneWork ?t = lc_pruneWork s \<and> lc_pruning ?t = lc_pruning s \<and>
      cycle_steps (lc_inFlight ?t) (lc_cycle ?t) = cycle_steps (lc_inFlight s) (lc_cycle s) - 1"
    using assms(1) by (auto simp: advance_cycles_def split: list.splits cycle_job.splits)
  have p: "lc_running (advance s) = lc_running ?t \<and> lc_begun (advance s) = lc_begun ?t \<and> lc_inFlight (advance s) = lc_inFlight ?t \<and>
      lc_cycle (advance s) = lc_cycle ?t \<and>
      prune_steps (lc_pruneWork (advance s)) (lc_pruning (advance s)) = prune_steps (lc_pruneWork ?t) (lc_pruning ?t) - 1"
    by (auto simp: advance_def advance_prunes_def prune_steps_def split: list.splits)
  have "lifecycle_ok ?t" by (rule lifecycle_ok_step [OF lifecycle_step.intros(8) assms(2)])
  then have "lifecycle_ok (advance s)" unfolding advance_def by (rule lifecycle_ok_step [OF lifecycle_step.intros(9)])
  with c p show ?thesis by simp
qed

lemma stopped_runs:
  assumes "\<not> lc_running s" and "lifecycle_ok s"
  shows "\<not> lc_running ((advance ^^ n) s) \<and> lifecycle_ok ((advance ^^ n) s) \<and> lc_begun ((advance ^^ n) s) = lc_begun s \<and>
    cycle_steps (lc_inFlight ((advance ^^ n) s)) (lc_cycle ((advance ^^ n) s)) = cycle_steps (lc_inFlight s) (lc_cycle s) - n \<and>
    prune_steps (lc_pruneWork ((advance ^^ n) s)) (lc_pruning ((advance ^^ n) s)) = prune_steps (lc_pruneWork s) (lc_pruning s) - n"
proof (induction n)
  case (Suc n)
  with stopped_advance [of "(advance ^^ n) s"] show ?case by simp
qed (use assms in simp)

text \<open>
  Stopping drains: from any state a dispatcher can be in, once \<open>stop\<close> was called the chains
  that it awaits run empty within two steps per chained job, and the loop begins no cycle
  meanwhile, however many wake-ups were pending.
\<close>

theorem stop_drains:
  assumes "lives retention s"
  shows "\<exists>n \<le> 2 * max (length (lc_inFlight s)) (length (lc_pruneWork s)).
    drained ((advance ^^ n) (request_stop s)) \<and> lc_begun ((advance ^^ n) (request_stop s)) = lc_begun s"
proof -
  let ?t = "request_stop s"
  let ?n = "max (cycle_steps (lc_inFlight ?t) (lc_cycle ?t)) (prune_steps (lc_pruneWork ?t) (lc_pruning ?t))"
  have ok: "\<not> lc_running ?t" "lifecycle_ok ?t"
    using lifecycle_ok_step [OF lifecycle_step.intros(7) lifecycle_ok_lives [OF assms]] by (simp_all add: request_stop_def)
  have "prune_steps (lc_pruneWork ?t) (lc_pruning ?t) \<le> 2 * length (lc_pruneWork s)"
    by (simp add: prune_steps_def request_stop_def)
  moreover have "cycle_steps (lc_inFlight ?t) (lc_cycle ?t) \<le> 2 * length (lc_inFlight s)"
    using cycle_steps_le [of "lc_inFlight s"] by (simp add: request_stop_def)
  ultimately have bound: "?n \<le> 2 * max (length (lc_inFlight s)) (length (lc_pruneWork s))" by linarith
  let ?u = "(advance ^^ ?n) ?t"
  from stopped_runs [OF ok, of ?n] have u: "lifecycle_ok ?u" "lc_begun ?u = lc_begun ?t"
    "cycle_steps (lc_inFlight ?u) (lc_cycle ?u) = 0" "prune_steps (lc_pruneWork ?u) (lc_pruning ?u) = 0" by simp_all
  have "lc_inFlight ?u = []" using u(3) by (simp add: cycle_steps_zero)
  moreover have "lc_pruneWork ?u = []" using u(4) by (cases "lc_pruneWork ?u") (simp_all add: prune_steps_def split: if_splits)
  ultimately have "drained ?u" using u(1) by (auto simp: drained_def lifecycle_ok_def)
  with bound u(2) show ?thesis by (intro exI [of _ ?n]) (simp add: request_stop_def)
qed

section \<open>A dispatcher that is started, woken and stopped\<close>

definition busy_lifecycle :: lifecycle where
  "busy_lifecycle = onSignal (advance_cycles (request_cycle (start_loop True new_lifecycle)))"

lemma busy_lives: "lives True busy_lifecycle"
  unfolding busy_lifecycle_def
  by (rule lives.lived [OF lives.lived [OF lives.lived [OF lives.lived [OF lives.born]]]]; rule lifecycle_step.intros)

lemma busy_state:
  "lc_running busy_lifecycle" "lc_wakeRequested busy_lifecycle" "lc_cycle busy_lifecycle" "lc_begun busy_lifecycle = 1"
  "lc_inFlight busy_lifecycle = [WakeLoop, SingleCycle, WakeLoop]" "lc_pruneWork busy_lifecycle = [ScheduledPrune]"
  by (simp_all add: busy_lifecycle_def lifecycle_defs new_lifecycle_def)

theorem wake_not_lost_witness: "\<exists>n \<le> 7. lc_begun ((advance_cycles ^^ n) busy_lifecycle) = 2"
  using wake_not_lost [OF busy_lives busy_state(1,2)] by (simp add: busy_state eval_nat_numeral)

theorem stop_drains_witness: "\<exists>n \<le> 6. drained ((advance ^^ n) (request_stop busy_lifecycle)) \<and> lc_begun ((advance ^^ n) (request_stop busy_lifecycle)) = 1"
  using stop_drains [OF busy_lives] by (simp add: busy_state)

end
