(* ===== verification/Routes.thy ===== *)
theory Routes imports Adapters begin

text \<open>
  Checking a routes document (\<open>packages/core/src/engine/routes.ts\<close>), and what an instance tells
  End Close about itself (\<open>packages/core/src/engine/manifest.ts\<close>).  The schema's parser is the
  function \<open>relayConfigSchema.parse\<close> of the zod package, an argument here.
\<close>

section \<open>Sources and enrichments\<close>

fun assertKnownSources :: "(string \<Rightarrow> bool) \<Rightarrow> route_config list \<Rightarrow> exn + unit" where
  "assertKnownSources has [] = Inr ()"
| "assertKnownSources has (r # rs) =
     (if \<not> has (r_source r) then Inl (OtherError (''route '' @ r_id r @ '': no adapter for source \"'' @ r_source r @ ''\"''))
      else assertKnownSources has rs)"

text \<open>\<open>enrichments\<close> is the list of own keys of the host's table, when it gave one.\<close>

fun unknown_enrichment :: "string list option \<Rightarrow> (string \<times> string) list \<Rightarrow> (string \<times> string) option" where
  "unknown_enrichment es [] = None"
| "unknown_enrichment es ((field, name) # fs) =
     (case es of None \<Rightarrow> Some (field, name)
      | Some names \<Rightarrow> if name \<in> set names then unknown_enrichment es fs else Some (field, name))"

fun assertKnownEnrichments :: "string list option \<Rightarrow> route_config list \<Rightarrow> exn + unit" where
  "assertKnownEnrichments es [] = Inr ()"
| "assertKnownEnrichments es (r # rs) = (case unknown_enrichment es (routeEnrichments r) of
     Some (field, name) \<Rightarrow>
       Inl (OtherError (''route '' @ r_id r @ '': '' @ field @ '' references unknown enrichment \"'' @ name @ ''\"''))
   | None \<Rightarrow> assertKnownEnrichments es rs)"

fun duplicate_id :: "string list \<Rightarrow> route_config list \<Rightarrow> string option" where
  "duplicate_id seen [] = None"
| "duplicate_id seen (r # rs) = (if r_id r \<in> set seen then Some (r_id r) else duplicate_id (r_id r # seen) rs)"

definition parseRoutes ::
  "('doc \<Rightarrow> exn + route_config list) \<Rightarrow> (string \<Rightarrow> bool) \<Rightarrow> string list option \<Rightarrow> 'doc \<Rightarrow> exn + route_config list" where
  "parseRoutes parse has es doc = (case parse doc of
     Inl e \<Rightarrow> Inl e
   | Inr routes \<Rightarrow> (case duplicate_id [] routes of
       Some i \<Rightarrow> Inl (OtherError (''duplicate route id: '' @ i))
     | None \<Rightarrow> (case assertKnownSources has routes of
         Inl e \<Rightarrow> Inl e
       | Inr _ \<Rightarrow> (case assertKnownEnrichments es routes of
           Inl e \<Rightarrow> Inl e
         | Inr _ \<Rightarrow> Inr routes))))"

section \<open>What is accepted\<close>

definition known_enrichments :: "string list option \<Rightarrow> route_config \<Rightarrow> bool" where
  "known_enrichments es r \<longleftrightarrow> list_all (\<lambda>(field, name). case es of None \<Rightarrow> False | Some names \<Rightarrow> name \<in> set names) (routeEnrichments r)"

lemma assertKnownSources_iff: "assertKnownSources has rs = Inr u \<longleftrightarrow> list_all (\<lambda>r. has (r_source r)) rs"
  by (induction rs) auto

lemma unknown_enrichment_iff:
  "unknown_enrichment es fs = None \<longleftrightarrow> list_all (\<lambda>(field, name). case es of None \<Rightarrow> False | Some names \<Rightarrow> name \<in> set names) fs"
  by (induction es fs rule: unknown_enrichment.induct) (auto split: option.splits)

lemma assertKnownEnrichments_iff: "assertKnownEnrichments es rs = Inr u \<longleftrightarrow> list_all (known_enrichments es) rs"
  by (induction es rs rule: assertKnownEnrichments.induct)
    (auto simp: known_enrichments_def unknown_enrichment_iff [symmetric] split: option.splits)

lemma duplicate_id_iff: "duplicate_id seen rs = None \<longleftrightarrow> distinct (map r_id rs) \<and> set (map r_id rs) \<inter> set seen = {}"
  by (induction seen rs rule: duplicate_id.induct) auto

text \<open>
  A routes document is accepted exactly when the schema accepts it, its route ids are
  distinct, every source has an adapter, and every \<open>enrich\<close> reference names an enrichment the
  host registered (none does when it registered none); the accepted routes are the document's,
  in its order.
\<close>

theorem parseRoutes_iff:
  "parseRoutes parse has es doc = Inr rs \<longleftrightarrow>
     parse doc = Inr rs \<and> distinct (map r_id rs) \<and> list_all (\<lambda>r. has (r_source r)) rs \<and> list_all (known_enrichments es) rs"
proof -
  have "parseRoutes parse has es doc = Inr rs \<longleftrightarrow> parse doc = Inr rs \<and> duplicate_id [] rs = None \<and>
      assertKnownSources has rs = Inr () \<and> assertKnownEnrichments es rs = Inr ()"
    by (auto simp: parseRoutes_def split: sum.splits option.splits)
  then show ?thesis by (simp add: duplicate_id_iff assertKnownSources_iff assertKnownEnrichments_iff)
qed

section \<open>The manifest of an instance\<close>

datatype enrichment_output = OutString | OutNumber | OutBoolean

record enrichment_descriptor =
  ed_description :: "string option"
  ed_output :: "enrichment_output option"

datatype 'f enrichment_registration = BareFunction 'f | Described 'f enrichment_descriptor

fun splitEnrichments ::
  "(string \<times> 'f enrichment_registration) list \<Rightarrow> (string \<times> 'f) list \<times> (string \<times> enrichment_descriptor) list" where
  "splitEnrichments [] = ([], [])"
| "splitEnrichments ((name, reg) # regs) = (case splitEnrichments regs of (fs, ds) \<Rightarrow> (case reg of
     BareFunction f \<Rightarrow> ((name, f) # fs, (name, \<lparr>ed_description = None, ed_output = None\<rparr>) # ds)
   | Described f d \<Rightarrow> ((name, f) # fs, (name, d) # ds)))"

datatype manifest_reason = Boot | Heartbeat | ConfigApplied | ManifestError | Shutdown
datatype manifest_host = Application | Embedded
datatype config_source = Remote | Local

record manifest_source =
  ms_host :: manifest_host
  ms_configSource :: config_source
  ms_adapters :: "string list option"
  ms_enrichments :: "(string \<times> enrichment_descriptor) list option"

record instance_manifest =
  im_schema :: nat
  im_reason :: manifest_reason
  im_host :: manifest_host
  im_engine_version :: string
  im_config_schema :: nat
  im_config_source :: config_source
  im_adapters :: "string list"
  im_enrichments :: "(string \<times> enrichment_descriptor) list"

definition CONFIG_SCHEMA_VERSION :: nat where "CONFIG_SCHEMA_VERSION = 1"

text \<open>\<open>[...new Set(xs)]\<close>: each element where it occurs first.\<close>

definition js_set :: "'a list \<Rightarrow> 'a list" where
  "js_set xs = fold (\<lambda>x acc. if x \<in> set acc then acc else acc @ [x]) xs []"

definition buildManifest :: "string \<Rightarrow> manifest_source \<Rightarrow> manifest_reason \<Rightarrow> instance_manifest" where
  "buildManifest ENGINE_VERSION src reason =
     \<lparr>im_schema = 1, im_reason = reason, im_host = ms_host src, im_engine_version = ENGINE_VERSION,
      im_config_schema = CONFIG_SCHEMA_VERSION, im_config_source = ms_configSource src,
      im_adapters = js_set (BUILTIN_SOURCES @ (case ms_adapters src of None \<Rightarrow> [] | Some ks \<Rightarrow> ks)),
      im_enrichments = (case ms_enrichments src of None \<Rightarrow> [] | Some es \<Rightarrow> es)\<rparr>"

lemma js_set_fold: "distinct acc \<Longrightarrow>
    distinct (fold (\<lambda>x acc. if x \<in> set acc then acc else acc @ [x]) xs acc) \<and>
    set (fold (\<lambda>x acc. if x \<in> set acc then acc else acc @ [x]) xs acc) = set acc \<union> set xs"
  by (induction xs arbitrary: acc) auto

lemma js_set_sound: "distinct (js_set xs)" "set (js_set xs) = set xs"
  using js_set_fold [of "[]" xs] by (simp_all add: js_set_def)

text \<open>The functions and the descriptors have the names of the registrations, in their order.\<close>

lemma splitEnrichments_names:
  "map fst (fst (splitEnrichments regs)) = map fst regs" "map fst (snd (splitEnrichments regs)) = map fst regs"
  by (induction regs rule: splitEnrichments.induct) (auto split: prod.splits enrichment_registration.splits)

lemma buildManifest_adapters:
  "set (im_adapters (buildManifest v src reason)) = set BUILTIN_SOURCES \<union> set (case ms_adapters src of None \<Rightarrow> [] | Some ks \<Rightarrow> ks)"
  by (simp add: buildManifest_def js_set_sound)

section \<open>The manifest as it is sent\<close>

fun reason_text :: "manifest_reason \<Rightarrow> string" where
  "reason_text Boot = ''boot''" | "reason_text Heartbeat = ''heartbeat''" | "reason_text ConfigApplied = ''config_applied''"
| "reason_text ManifestError = ''error''" | "reason_text Shutdown = ''shutdown''"

fun output_text :: "enrichment_output \<Rightarrow> string" where
  "output_text OutString = ''string''" | "output_text OutNumber = ''number''" | "output_text OutBoolean = ''boolean''"

definition descriptor_json :: "enrichment_descriptor \<Rightarrow> json" where
  "descriptor_json d = JObj ((case ed_description d of None \<Rightarrow> [] | Some t \<Rightarrow> [(''description'', JStr t)]) @
     (case ed_output d of None \<Rightarrow> [] | Some x \<Rightarrow> [(''output'', JStr (output_text x))]))"

definition manifest_json :: "instance_manifest \<Rightarrow> json" where
  "manifest_json m = JObj [(''schema'', JNum (string_of_nat (im_schema m))), (''reason'', JStr (reason_text (im_reason m))),
     (''host'', JStr (case im_host m of Application \<Rightarrow> ''application'' | Embedded \<Rightarrow> ''embedded'')),
     (''engine_version'', JStr (im_engine_version m)), (''config_schema'', JNum (string_of_nat (im_config_schema m))),
     (''config_source'', JStr (case im_config_source m of Remote \<Rightarrow> ''remote'' | Local \<Rightarrow> ''local'')),
     (''capabilities'', JObj [(''adapters'', JArr (map JStr (im_adapters m))),
        (''enrichments'', JObj (map (\<lambda>(n, d). (n, descriptor_json d)) (im_enrichments m)))])]"

end
