(* ===== verification/RemoteConfig.thy ===== *)
theory RemoteConfig imports Routes Client Control begin

text \<open>
  Routes that End Close holds (\<open>packages/core/src/engine/remote-config.ts\<close>): fetching and
  validating the document, and the provider that serves the last one it loaded.  The provider
  is a state machine: its lookups, refreshes and announcements run between the moment a fetch
  begins and the moment it settles.  A synchronous stretch of code reads the clock once.
\<close>

section \<open>Fetching the document\<close>

datatype remote_error_kind = Unavailable | Unauthorized | NotFound | Invalid

datatype remote_error = RemoteConfigError (re_kind: remote_error_kind) (re_message: string)

definition retryable :: "remote_error \<Rightarrow> bool" where
  "retryable e \<longleftrightarrow> re_kind e = Unavailable"

record remote_config =
  rc_routes :: "route_config list"
  rc_document :: json
  rc_environment :: "string option"
  rc_etag :: "string option"
  rc_fetchedAt :: int

text \<open>What the host gives: its adapters and enrichments, a timeout; and the engine's environment.\<close>

record fetch_options =
  fo_has :: "string \<Rightarrow> bool"
  fo_enrichments :: "string list option"
  fo_timeoutMs :: "nat option"

record 'h remote_env =
  env_client :: "'h endclose_client"
  env_json_parse :: "string \<Rightarrow> exn + json"
  env_schema :: "json \<Rightarrow> exn + route_config list"    \<comment> \<open>\<open>relayConfigSchema.parse\<close>\<close>
  env_now :: "'h \<Rightarrow> int \<times> 'h"

fun remote_error_of :: "exn \<Rightarrow> remote_error" where
  "remote_error_of (PermanentHttpError msg status body) =
     (if status = 404 then RemoteConfigError NotFound (''End Close is not managing this environment'' @ [CHR 0x27] @ ''s configuration'')
      else if status = 401 \<or> status = 403
        then RemoteConfigError Unauthorized (''End Close rejected the API key (HTTP '' @ string_of_nat status @ '')'')
      else RemoteConfigError Invalid (''unexpected response from End Close: '' @ msg))"
| "remote_error_of err = RemoteConfigError Unavailable (''End Close is unreachable: '' @ message err)"

definition environment_of :: "(string \<times> json) list \<Rightarrow> string option" where
  "environment_of kvs = (case object_get kvs ''environment'' of Some (JStr s) \<Rightarrow> Some s | _ \<Rightarrow> None)"

text \<open>The routes of a document; anything but an object that has \<open>routes\<close> carries none.\<close>

definition document_routes :: "'h remote_env \<Rightarrow> fetch_options \<Rightarrow> json \<Rightarrow> remote_error + route_config list \<times> json \<times> string option" where
  "document_routes E opts body = (case body of
     JObj kvs \<Rightarrow> (case object_get kvs ''routes'' of
         None \<Rightarrow> Inl (RemoteConfigError Invalid ''End Close configuration response carries no routes document'')
       | Some rs \<Rightarrow> (case parseRoutes (env_schema E) (fo_has opts) (fo_enrichments opts) (JObj [(''routes'', rs)]) of
           Inl err \<Rightarrow> Inl (RemoteConfigError Invalid (''End Close configuration is not a valid routes document: '' @ message err))
         | Inr routes \<Rightarrow> Inr (routes, JObj [(''routes'', rs)], environment_of kvs)))
   | _ \<Rightarrow> Inl (RemoteConfigError Invalid ''End Close configuration response carries no routes document''))"

definition fetchDocument :: "'h remote_env \<Rightarrow> fetch_options \<Rightarrow> string option \<Rightarrow> ('h, remote_error, remote_config option) sem" where
  "fetchDocument E opts ifNoneMatch =
     bindE (catchE (bindE (getRelayConfig (env_json_parse E) (env_client E) ifNoneMatch (fo_timeoutMs opts)) (\<lambda>res. ret res))
       (\<lambda>err. throwE (remote_error_of err)))
     (\<lambda>res. case res of
        Unchanged \<Rightarrow> ret None
      | Document body etag \<Rightarrow> bindE (of_sum (document_routes E opts body)) (\<lambda>(routes, document, environment).
          (\<lambda>h. case env_now E h of (t, h') \<Rightarrow> (Inr (Some \<lparr>rc_routes = routes, rc_document = document,
             rc_environment = environment, rc_etag = etag, rc_fetchedAt = t\<rparr>), h'))))"

text \<open>A document that was accepted went through every check of \<open>parseRoutes\<close>.\<close>

lemma fetched_valid:
  assumes "fetchDocument E opts etag h = (Inr (Some c), h')"
  shows "parseRoutes (env_schema E) (fo_has opts) (fo_enrichments opts) (rc_document c) = Inr (rc_routes c)"
  using assms
  by (auto simp: fetchDocument_def document_routes_def bindE_def catchE_def throwE_def of_sum_def ret_def
      split: prod.splits sum.splits relay_config_answer.splits json.splits option.splits)

lemma answered_unchanged: "getRelayConfig parse cl etag t h = (Inr Unchanged, h') \<Longrightarrow> non_empty etag \<noteq> None"
  by (auto simp: getRelayConfig_def bindE_def thenE_def ret_def of_sum_def split: prod.splits sum.splits if_splits)

text \<open>\<open>304\<close> is the answer to an entity tag only.\<close>

lemma unchanged_has_etag: "fetchDocument E opts etag h = (Inr None, h') \<Longrightarrow> etag \<noteq> None"
  by (cases etag) (auto simp: fetchDocument_def bindE_def catchE_def throwE_def of_sum_def ret_def non_empty_def
      split: prod.splits sum.splits relay_config_answer.splits dest!: answered_unchanged)

section \<open>The provider\<close>

definition DEFAULT_REMOTE_REFRESH_MS :: int where "DEFAULT_REMOTE_REFRESH_MS = 60000"
definition DEFAULT_MANIFEST_HEARTBEAT_MS :: int where "DEFAULT_MANIFEST_HEARTBEAT_MS = 15 * 60000"
definition FAILED_LOAD_HOLD_MS :: int where "FAILED_LOAD_HOLD_MS = 5000"

record provider_options =
  po_refreshMs :: int
  po_heartbeatMs :: int
  po_manifest :: bool          \<comment> \<open>whether a manifest is given\<close>

text \<open>
  \<open>pv_inFlight\<close> is the document held when the running fetch began; \<open>pv_announced\<close> the reasons
  of the announcements made so far.
\<close>

record provider =
  pv_cached :: "remote_config option"
  pv_byId :: "(string \<times> route_config) list"
  pv_inFlight :: "remote_config option option"
  pv_lastError :: "remote_error option"
  pv_holdUntil :: int
  pv_lastAnnouncedAt :: "int option"
  pv_announced :: "manifest_reason list"

definition new_provider :: provider where
  "new_provider = \<lparr>pv_cached = None, pv_byId = [], pv_inFlight = None, pv_lastError = None, pv_holdUntil = 0,
     pv_lastAnnouncedAt = None, pv_announced = []\<rparr>"

definition announce :: "provider_options \<Rightarrow> manifest_reason \<Rightarrow> int \<Rightarrow> provider \<Rightarrow> provider" where
  "announce po reason now s =
     (if \<not> po_manifest po then s else s\<lparr>pv_lastAnnouncedAt := Some now, pv_announced := pv_announced s @ [reason]\<rparr>)"

text \<open>\<open>fetchNow\<close> up to the request: a fetch that is already running is shared.\<close>

definition fetchNow :: "provider_options \<Rightarrow> int \<Rightarrow> provider \<Rightarrow> provider" where
  "fetchNow po now s =
     (if pv_inFlight s \<noteq> None then s
      else
        (let s1 = s\<lparr>pv_holdUntil := now + (if pv_cached s \<noteq> None then po_refreshMs po else FAILED_LOAD_HOLD_MS)\<rparr>;
             s2 = (case pv_lastAnnouncedAt s1 of
                 None \<Rightarrow> announce po Boot now s1
               | Some t \<Rightarrow> if po_heartbeatMs po \<le> now - t then announce po Heartbeat now s1 else s1)
         in s2\<lparr>pv_inFlight := Some (pv_cached s2)\<rparr>))"

text \<open>
  The fetch settles: \<open>.then\<close>, \<open>.catch\<close> and \<open>.finally\<close>.  With \<open>304\<close> the document is the one that was
  held when it began; there is one, as only its entity tag draws that answer.
\<close>

definition settle_fetch :: "provider_options \<Rightarrow> int \<Rightarrow> remote_error + remote_config option \<Rightarrow> provider \<Rightarrow> provider" where
  "settle_fetch po now outcome s = (case pv_inFlight s of
     None \<Rightarrow> s
   | Some held \<Rightarrow>
       (let s1 = (case outcome of
           Inr None \<Rightarrow> s\<lparr>pv_lastError := None, pv_holdUntil := now + po_refreshMs po,
             pv_cached := map_option (\<lambda>c. c\<lparr>rc_fetchedAt := now\<rparr>) held\<rparr>
         | Inr (Some config) \<Rightarrow> s\<lparr>pv_lastError := None, pv_holdUntil := now + po_refreshMs po,
             pv_cached := Some config, pv_byId := routes_by_id (rc_routes config)\<rparr>
         | Inl e \<Rightarrow> s\<lparr>pv_lastError := Some e\<rparr>)
        in s1\<lparr>pv_inFlight := None\<rparr>))"

text \<open>The entity tag a fetch sends is that of the document held when it began.\<close>

definition sent_etag :: "provider \<Rightarrow> string option" where
  "sent_etag s = (case pv_inFlight s of Some (Some held) \<Rightarrow> rc_etag held | _ \<Rightarrow> None)"

definition unavailable :: "remote_error \<Rightarrow> string \<Rightarrow> exn" where
  "unavailable e op = StoreUnavailableError (''End Close configuration unavailable: '' @ re_message e) op"

datatype readiness = Serve | Refuse exn | Await

text \<open>\<open>ready\<close>: serve what is held, refuse from the cached error, or wait for the fetch.\<close>

definition ready :: "provider_options \<Rightarrow> string \<Rightarrow> int \<Rightarrow> provider \<Rightarrow> readiness \<times> provider" where
  "ready po op now s =
     (if pv_cached s \<noteq> None then
        (Serve, if pv_holdUntil s \<le> now \<and> pv_inFlight s = None then fetchNow po now s else s)
      else (case pv_lastError s of
         Some e \<Rightarrow> if pv_inFlight s = None \<and> now < pv_holdUntil s then (Refuse (unavailable e op), s)
           else (Await, fetchNow po now s)
       | None \<Rightarrow> (Await, fetchNow po now s)))"

text \<open>What a lookup that waited gets when the fetch has settled.\<close>

definition resume :: "string \<Rightarrow> remote_error + remote_config option \<Rightarrow> exn + unit" where
  "resume op outcome = (case outcome of Inl e \<Rightarrow> Inl (unavailable e op) | Inr _ \<Rightarrow> Inr ())"

definition provider_get :: "provider \<Rightarrow> string \<Rightarrow> route_config option" where
  "provider_get s i = map_of (pv_byId s) i"

definition provider_all :: "provider \<Rightarrow> route_config list" where
  "provider_all s = map snd (pv_byId s)"

section \<open>A lookup from beginning to end\<close>

record 'h remote =
  rm_host :: 'h
  rm_provider :: provider

definition read_clock :: "'h remote_env \<Rightarrow> ('h remote, exn, int) sem" where
  "read_clock E s = (case env_now E (rm_host s) of (t, h) \<Rightarrow> (Inr t, s\<lparr>rm_host := h\<rparr>))"

text \<open>The fetch that is in flight, run to its end.\<close>

definition await_fetch ::
  "'h remote_env \<Rightarrow> fetch_options \<Rightarrow> provider_options \<Rightarrow> 'h remote \<Rightarrow> (remote_error + remote_config option) \<times> 'h remote" where
  "await_fetch E opts po s = (case fetchDocument E opts (sent_etag (rm_provider s)) (rm_host s) of (outcome, h) \<Rightarrow>
     (case env_now E h of (t, h') \<Rightarrow> (outcome, \<lparr>rm_host = h', rm_provider = settle_fetch po t outcome (rm_provider s)\<rparr>)))"

definition remote_get ::
  "'h remote_env \<Rightarrow> fetch_options \<Rightarrow> provider_options \<Rightarrow> string \<Rightarrow> ('h remote, exn, route_config option) sem" where
  "remote_get E opts po i = bindE (read_clock E) (\<lambda>now s.
     (case ready po ''routes.get'' now (rm_provider s) of
        (Serve, p) \<Rightarrow> (Inr (provider_get p i), s\<lparr>rm_provider := p\<rparr>)
      | (Refuse e, p) \<Rightarrow> (Inl e, s\<lparr>rm_provider := p\<rparr>)
      | (Await, p) \<Rightarrow> (case await_fetch E opts po (s\<lparr>rm_provider := p\<rparr>) of (outcome, s') \<Rightarrow>
          (case resume ''routes.get'' outcome of
             Inl e \<Rightarrow> (Inl e, s')
           | Inr _ \<Rightarrow> (Inr (provider_get (rm_provider s') i), s')))))"

text \<open>\<open>load\<close> and \<open>refresh\<close>; a refresh replaces what is held only when it succeeds.\<close>

definition remote_refresh ::
  "'h remote_env \<Rightarrow> fetch_options \<Rightarrow> provider_options \<Rightarrow> ('h remote, remote_error, remote_config option) sem" where
  "remote_refresh E opts po s = (case env_now E (rm_host s) of (now, h) \<Rightarrow>
     (case await_fetch E opts po \<lparr>rm_host = h, rm_provider = fetchNow po now (rm_provider s)\<rparr> of
        (Inl e, s') \<Rightarrow> (Inl e, s')
      | (Inr _, s') \<Rightarrow> (Inr (pv_cached (rm_provider s')), s')))"

definition remote_load ::
  "'h remote_env \<Rightarrow> fetch_options \<Rightarrow> provider_options \<Rightarrow> ('h remote, remote_error, remote_config option) sem" where
  "remote_load E opts po s = (if pv_cached (rm_provider s) \<noteq> None then (Inr (pv_cached (rm_provider s)), s) else remote_refresh E opts po s)"

text \<open>The request behind an announcement, which never throws.\<close>

definition send_announcement ::
  "'h remote_env \<Rightarrow> string \<Rightarrow> string \<Rightarrow> manifest_source \<Rightarrow> manifest_reason \<Rightarrow> nat option \<Rightarrow> ('h, exn, unit) sem" where
  "send_announcement E ENGINE_VERSION instanceId src reason timeoutMs =
     catchE (putRelayInstance (env_json_parse E) (env_client E) instanceId (manifest_json (buildManifest ENGINE_VERSION src reason)) timeoutMs)
       (\<lambda>_. ret ())"

section \<open>Any interleaving\<close>

inductive provider_step :: "provider_options \<Rightarrow> provider \<Rightarrow> provider \<Rightarrow> bool" for po where
  lookup: "provider_step po s (snd (ready po op now s))"
| refresh: "provider_step po s (fetchNow po now s)"
| announced: "provider_step po s (announce po reason now s)"
| settled: "outcome = Inr None \<longrightarrow> sent_etag s \<noteq> None \<Longrightarrow> provider_step po s (settle_fetch po now outcome s)"

inductive reachable_provider :: "provider_options \<Rightarrow> provider \<Rightarrow> bool" for po where
  start: "reachable_provider po new_provider"
| step: "reachable_provider po s \<Longrightarrow> provider_step po s s' \<Longrightarrow> reachable_provider po s'"

text \<open>The routes served are those of the document held, and a running fetch began from that document.\<close>

definition provider_ok :: "provider \<Rightarrow> bool" where
  "provider_ok s \<longleftrightarrow> pv_byId s = (case pv_cached s of None \<Rightarrow> [] | Some c \<Rightarrow> routes_by_id (rc_routes c)) \<and>
     (case pv_inFlight s of None \<Rightarrow> True | Some held \<Rightarrow> held = pv_cached s) \<and>
     (pv_cached s = None \<and> pv_inFlight s = None \<and> pv_lastError s = None \<longrightarrow> pv_byId s = [])"

lemma announce_simps [simp]:
  "pv_cached (announce po reason now s) = pv_cached s" "pv_byId (announce po reason now s) = pv_byId s"
  "pv_inFlight (announce po reason now s) = pv_inFlight s" "pv_lastError (announce po reason now s) = pv_lastError s"
  "pv_holdUntil (announce po reason now s) = pv_holdUntil s"
  by (simp_all add: announce_def)

lemma fetchNow_simps [simp]:
  "pv_cached (fetchNow po now s) = pv_cached s" "pv_byId (fetchNow po now s) = pv_byId s"
  "pv_inFlight (fetchNow po now s) = (case pv_inFlight s of None \<Rightarrow> Some (pv_cached s) | Some held \<Rightarrow> Some held)"
  "pv_lastError (fetchNow po now s) = pv_lastError s"
  by (auto simp: fetchNow_def Let_def split: option.splits)

lemma ready_state:
  "snd (ready po op now s) = s \<or> snd (ready po op now s) = fetchNow po now s"
  by (auto simp: ready_def split: option.splits)

lemma provider_ok_step: "provider_step po s s' \<Longrightarrow> provider_ok s \<Longrightarrow> provider_ok s'"
proof (induction rule: provider_step.induct)
  case (lookup s op now)
  then show ?case using ready_state [of po op now s] by (auto simp: provider_ok_def split: option.splits)
next
  case (settled outcome s now)
  then show ?case by (auto simp: provider_ok_def settle_fetch_def Let_def sent_etag_def split: option.splits sum.splits)
qed (auto simp: provider_ok_def split: option.splits)

lemma provider_ok_reachable: "reachable_provider po s \<Longrightarrow> provider_ok s"
  by (induction rule: reachable_provider.induct) (auto simp: provider_ok_step, simp add: provider_ok_def new_provider_def)

text \<open>A document once held is replaced only by one that was fetched.\<close>

lemma document_step:
  "provider_step po s s' \<Longrightarrow> provider_ok s \<Longrightarrow> pv_cached s = Some c \<Longrightarrow>
     (\<exists>c'. pv_cached s' = Some c' \<and> (rc_routes c' = rc_routes c \<or> (\<exists>now. s' = settle_fetch po now (Inr (Some c')) s)))"
proof (induction rule: provider_step.induct)
  case (lookup s op now)
  then show ?case using ready_state [of po op now s] by auto
next
  case (settled outcome s now)
  then show ?case
    by (cases "pv_inFlight s"; cases outcome)
      (auto simp: settle_fetch_def Let_def provider_ok_def split: option.splits)
qed auto

text \<open>
  \<^bold>\<open>C35.\<close> However lookups, refreshes, announcements and settling fetches interleave, the provider
  answers with the routes of the document it holds (none before the first one), and no step
  takes a held document away: its routes change only when a fetch settles with a new document.
\<close>

theorem provider_keeps_document:
  assumes "reachable_provider po s" and "provider_step po s s'"
  shows "(\<forall>i. provider_get s i = (case pv_cached s of None \<Rightarrow> None | Some c \<Rightarrow> staticRoutes_get (rc_routes c) i)) \<and>
    (case pv_cached s of None \<Rightarrow> True | Some c \<Rightarrow>
       (\<exists>c'. pv_cached s' = Some c' \<and> (rc_routes c' = rc_routes c \<or> (\<exists>now. s' = settle_fetch po now (Inr (Some c')) s))))"
proof -
  have ok: "provider_ok s" by (rule provider_ok_reachable [OF assms(1)])
  then have "provider_get s i = (case pv_cached s of None \<Rightarrow> None | Some c \<Rightarrow> staticRoutes_get (rc_routes c) i)" for i
    by (auto simp: provider_ok_def provider_get_def staticRoutes_get_def split: option.splits)
  then show ?thesis using document_step [OF assms(2) ok] by (auto split: option.splits)
qed

text \<open>
  A lookup answers from a document that passed every check of \<open>parseRoutes\<close>: the one held, or
  when none is held the one it fetches.  While a document is held a lookup never fails; without
  one it fails with \<open>StoreUnavailableError\<close>, which ingestion answers with 503.
\<close>

theorem remote_get_outcome:
  assumes "provider_ok (rm_provider s)" and "pv_inFlight (rm_provider s) = None" and "remote_get E opts po i s = (r, s')"
  shows "case r of
      Inr x \<Rightarrow> (\<exists>c. pv_cached (rm_provider s') = Some c \<and> x = staticRoutes_get (rc_routes c) i \<and>
        (pv_cached (rm_provider s) = Some c \<or> pv_cached (rm_provider s) = None \<and>
           parseRoutes (env_schema E) (fo_has opts) (fo_enrichments opts) (rc_document c) = Inr (rc_routes c)))
    | Inl e \<Rightarrow> is_store_unavailable e \<and> pv_cached (rm_provider s) = None \<and> pv_cached (rm_provider s') = None"
proof -
  obtain now h where t: "env_now E (rm_host s) = (now, h)" by fastforce
  let ?p = "rm_provider s"
  obtain rd p where rd: "ready po ''routes.get'' now ?p = (rd, p)" by fastforce
  have p: "p = ?p \<or> p = fetchNow po now ?p" using ready_state [of po "''routes.get''" now ?p] rd by simp
  show ?thesis
  proof (cases "pv_cached ?p")
    case (Some c)
    with rd have "rd = Serve" by (auto simp: ready_def)
    with assms(3) t rd have "r = Inr (provider_get p i)" "rm_provider s' = p" by (auto simp: remote_get_def bindE_def read_clock_def)
    with Some p assms(1) show ?thesis by (auto simp: provider_ok_def provider_get_def staticRoutes_get_def)
  next
    case None
    show ?thesis
    proof (cases "\<exists>e. rd = Refuse e")
      case True
      with rd None have "rd = Refuse (unavailable (the (pv_lastError ?p)) ''routes.get'')" "p = ?p"
        by (auto simp: ready_def split: option.splits if_splits)
      with assms(3) t rd None show ?thesis by (auto simp: remote_get_def bindE_def read_clock_def unavailable_def)
    next
      case False
      with rd None have aw: "rd = Await" "p = fetchNow po now ?p" by (auto simp: ready_def split: option.splits if_splits)
      then have fl: "pv_inFlight p = Some None" "pv_cached p = None" using None assms(2) by simp_all
      then have tag: "sent_etag p = None" by (simp add: sent_etag_def)
      obtain out h1 where f: "fetchDocument E opts None h = (out, h1)" by fastforce
      obtain now2 h2 where t2: "env_now E h1 = (now2, h2)" by fastforce
      have run: "remote_get E opts po i s = (case resume ''routes.get'' out of
          Inl e \<Rightarrow> (Inl e, \<lparr>rm_host = h2, rm_provider = settle_fetch po now2 out p\<rparr>)
        | Inr _ \<Rightarrow> (Inr (provider_get (settle_fetch po now2 out p) i), \<lparr>rm_host = h2, rm_provider = settle_fetch po now2 out p\<rparr>))"
        using t rd aw(1) tag f t2 by (simp add: remote_get_def bindE_def read_clock_def await_fetch_def split: sum.splits)
      show ?thesis
      proof (cases out)
        case (Inl e)
        with run assms(3) fl None show ?thesis by (auto simp: resume_def unavailable_def settle_fetch_def)
      next
        case (Inr o')
        with f unchanged_has_etag [of E opts None h h1] obtain c where c: "o' = Some c" by (cases o') auto
        with run assms(3) fl None Inr fetched_valid [of E opts None h c h1] f show ?thesis
          by (auto simp: resume_def settle_fetch_def provider_get_def staticRoutes_get_def)
      qed
    qed
  qed
qed

section \<open>A document loaded and kept\<close>

definition hosted_route :: route_config where
  "hosted_route = \<lparr>r_id = ''r1'', r_source = ''payabli'',
     r_auth = StaticHeader \<lparr>pa_header = ''authorization'', pa_secret_env = ''S'', pa_allowed_ips = []\<rparr>, r_events = None,
     r_map = \<lparr>m_data_stream_key = ''d'', m_external_id = PathRef ''id'', m_amount = PathRef ''amt'', m_direction = Credit,
       m_date = None, m_description = None, m_currency = None, m_metadata = []\<rparr>,
     r_max_body_bytes = 1048576\<rparr>"

definition hosted_document :: json where "hosted_document = JObj [(''routes'', JArr [])]"

definition hosted_env :: "unit remote_env" where
  "hosted_env = \<lparr>env_client = \<lparr>cl_baseUrl = ''https://api'', cl_apiKey = ''key'',
       cl_fetch = (\<lambda>rq. ret \<lparr>hr_status = 200, hr_etag = Some ''v1'', hr_text = Inr ''doc''\<rparr>)\<rparr>,
     env_json_parse = (\<lambda>_. Inr hosted_document), env_schema = (\<lambda>_. Inr [hosted_route]), env_now = (\<lambda>h. (1000, h))\<rparr>"

definition hosted_fetch :: fetch_options where
  "hosted_fetch = \<lparr>fo_has = (\<lambda>src. src \<in> set BUILTIN_SOURCES), fo_enrichments = None, fo_timeoutMs = None\<rparr>"

definition hosted_options :: provider_options where
  "hosted_options = \<lparr>po_refreshMs = DEFAULT_REMOTE_REFRESH_MS, po_heartbeatMs = DEFAULT_MANIFEST_HEARTBEAT_MS, po_manifest = True\<rparr>"

definition hosted_config :: remote_config where
  "hosted_config = \<lparr>rc_routes = [hosted_route], rc_document = hosted_document, rc_environment = None, rc_etag = Some ''v1'', rc_fetchedAt = 1000\<rparr>"

definition loaded_provider :: provider where
  "loaded_provider = \<lparr>pv_cached = Some hosted_config, pv_byId = [(''r1'', hosted_route)], pv_inFlight = None, pv_lastError = None,
     pv_holdUntil = 61000, pv_lastAnnouncedAt = Some 1000, pv_announced = [Boot]\<rparr>"

lemma hosted_simps:
  "env_client hosted_env = \<lparr>cl_baseUrl = ''https://api'', cl_apiKey = ''key'',
       cl_fetch = (\<lambda>rq. ret \<lparr>hr_status = 200, hr_etag = Some ''v1'', hr_text = Inr ''doc''\<rparr>)\<rparr>"
  "env_json_parse hosted_env = (\<lambda>_. Inr hosted_document)" "env_schema hosted_env = (\<lambda>_. Inr [hosted_route])"
  "env_now hosted_env = (\<lambda>h. (1000, h))" "r_id hosted_route = ''r1''" "rc_routes hosted_config = [hosted_route]"
  by (simp_all add: hosted_env_def hosted_route_def hosted_config_def)

lemma hosted_parsed: "parseRoutes (\<lambda>_. Inr [hosted_route]) (fo_has hosted_fetch) (fo_enrichments hosted_fetch) doc = Inr [hosted_route]"
  by (simp add: parseRoutes_def hosted_fetch_def hosted_route_def BUILTIN_SOURCES_def routeEnrichments_def)

lemmas hosted_provider_defs = fetchNow_def announce_def settle_fetch_def new_provider_def hosted_options_def loaded_provider_def
  hosted_simps routes_by_id_def DEFAULT_REMOTE_REFRESH_MS_def DEFAULT_MANIFEST_HEARTBEAT_MS_def FAILED_LOAD_HOLD_MS_def

lemma hosted_get:
  "remote_get hosted_env hosted_fetch hosted_options ''r1'' \<lparr>rm_host = (), rm_provider = new_provider\<rparr> =
     (Inr (Some hosted_route), \<lparr>rm_host = (), rm_provider = loaded_provider\<rparr>)"
proof -
  have fetched: "fetchDocument hosted_env hosted_fetch None () = (Inr (Some hosted_config), ())"
    by (simp add: fetchDocument_def getRelayConfig_def send_def hosted_simps bindE_def catchE_def thenE_def ret_def of_sum_def
      non_empty_def assertOk_def status_ok_def document_routes_def object_get_def environment_of_def proto_names_def hosted_document_def hosted_parsed hosted_config_def)
  then show ?thesis
    by (simp add: remote_get_def read_clock_def bindE_def ready_def await_fetch_def sent_etag_def hosted_simps hosted_provider_defs resume_def
      provider_get_def)
qed

theorem remote_get_outcome_witness:
  "\<exists>c. pv_cached loaded_provider = Some c \<and> staticRoutes_get (rc_routes c) ''r1'' = Some hosted_route \<and>
     parseRoutes (env_schema hosted_env) (fo_has hosted_fetch) (fo_enrichments hosted_fetch) (rc_document c) = Inr (rc_routes c)"
  using remote_get_outcome [OF _ _ hosted_get] by (simp add: provider_ok_def new_provider_def) metis

definition failed_refresh :: provider where
  "failed_refresh = settle_fetch hosted_options 70500 (Inl (RemoteConfigError NotFound ''gone'')) (fetchNow hosted_options 70000 loaded_provider)"

theorem provider_keeps_document_witness:
  "provider_get failed_refresh ''r1'' = Some hosted_route \<and> pv_lastError failed_refresh = Some (RemoteConfigError NotFound ''gone'') \<and>
   (\<exists>c. pv_cached failed_refresh = Some c \<and> rc_routes c = [hosted_route])"
proof -
  have start: "reachable_provider hosted_options (fetchNow hosted_options 1000 new_provider)"
    by (rule reachable_provider.step [OF reachable_provider.start provider_step.refresh])
  have "loaded_provider = settle_fetch hosted_options 1000 (Inr (Some hosted_config)) (fetchNow hosted_options 1000 new_provider)"
    by (simp add: hosted_provider_defs)
  then have "provider_step hosted_options (fetchNow hosted_options 1000 new_provider) loaded_provider"
    by (metis provider_step.settled Inr_inject option.distinct(1))
  with start have loaded: "reachable_provider hosted_options loaded_provider" by (rule reachable_provider.step)
  then have again: "reachable_provider hosted_options (fetchNow hosted_options 70000 loaded_provider)"
    by (rule reachable_provider.step [OF _ provider_step.refresh])
  have st: "provider_step hosted_options (fetchNow hosted_options 70000 loaded_provider) failed_refresh"
    unfolding failed_refresh_def by (rule provider_step.settled) simp
  have "pv_byId failed_refresh = [(''r1'', hosted_route)]" "pv_lastError failed_refresh = Some (RemoteConfigError NotFound ''gone'')"
    "pv_cached failed_refresh = Some hosted_config"
    by (simp_all add: failed_refresh_def hosted_provider_defs)
  moreover have "rc_routes hosted_config = [hosted_route]" by (simp add: hosted_config_def)
  ultimately show ?thesis
    using provider_keeps_document [OF again st] by (simp add: provider_get_def)
qed

end
