(* ===== verification/Relay.thy ===== *)
theory Relay imports RemoteConfig SqliteHost begin

text \<open>
  The embeddable engine (\<open>packages/core/src/engine/relay.ts\<close>): what \<open>createRelay\<close> makes of its
  options, and the operations of a relay that are more than a call of a component:
  \<open>dispatchOnce\<close>, \<open>flush\<close>, \<open>readPayload\<close> and the announcement of \<open>stop\<close>.
\<close>

section \<open>Options\<close>

datatype key_option = KeyText string | KeyBuffer bytes

datatype 'h routes_option =
    NoRoutes                             \<comment> \<open>fetched from End Close\<close>
  | RouteList "route_config list"
  | HostRoutes "string \<Rightarrow> ('h, exn, route_config option) sem"

datatype secrets_option = Resolver secret_resolver | SecretMap "string \<Rightarrow> string option"

record dispatch_option =
  do_batchMax :: "nat option"
  do_pollIntervalMs :: "nat option"
  do_backoffBaseMs :: "nat option"
  do_backoffCapMs :: "nat option"
  do_parkAfterMs :: "int option"
  do_leaseMs :: "int option"
  do_recoverIntervalMs :: "int option"
  do_enrichTimeoutMs :: "nat option"

datatype retention_option = NoRetention | Retention "int option" "int option"

record remote_option =
  rmo_refreshIntervalMs :: "int option"
  rmo_announce :: "bool option"

record ('h, 'f) relay_options =
  ro_routes :: "'h routes_option"
  ro_secrets :: secrets_option
  ro_encryption :: "key_option option"   \<comment> \<open>\<open>None\<close> is \<open>'none'\<close>\<close>
  ro_maskingKey :: key_option
  ro_dispatch :: dispatch_option
  ro_retention :: retention_option
  ro_adapters :: "(string \<times> registered) list option"
  ro_enrichments :: "(string \<times> 'f enrichment_registration) list option"
  ro_instanceId :: "string option"
  ro_remote :: remote_option

definition toKey :: "crypto \<Rightarrow> string \<Rightarrow> key_option \<Rightarrow> exn + bytes" where
  "toKey C name v = (case v of
     KeyText s \<Rightarrow> deriveKey C name (Some s)
   | KeyBuffer b \<Rightarrow> if length b \<noteq> 32 then Inl (OtherError (name @ '' must be a 32-byte Buffer or a string of 16+ chars'')) else Inr b)"

definition toSecretResolver :: "secrets_option \<Rightarrow> secret_resolver" where
  "toSecretResolver s = (case s of Resolver r \<Rightarrow> r | SecretMap m \<Rightarrow> staticSecrets m)"

text \<open>\<open>{ ...DEFAULT_DISPATCH, ...opts.dispatch }\<close>.\<close>

definition or_default :: "'a option \<Rightarrow> 'a \<Rightarrow> 'a" where
  "or_default x d = (case x of None \<Rightarrow> d | Some v \<Rightarrow> v)"

definition dispatch_of :: "dispatch_option \<Rightarrow> dispatch_settings" where
  "dispatch_of p = \<lparr>batchMax = or_default (do_batchMax p) (batchMax DEFAULT_DISPATCH),
     pollIntervalMs = or_default (do_pollIntervalMs p) (pollIntervalMs DEFAULT_DISPATCH),
     backoffBaseMs = or_default (do_backoffBaseMs p) (backoffBaseMs DEFAULT_DISPATCH),
     backoffCapMs = or_default (do_backoffCapMs p) (backoffCapMs DEFAULT_DISPATCH),
     parkAfterMs = or_default (do_parkAfterMs p) (parkAfterMs DEFAULT_DISPATCH),
     leaseMs = or_default (do_leaseMs p) (leaseMs DEFAULT_DISPATCH),
     recoverIntervalMs = or_default (do_recoverIntervalMs p) (recoverIntervalMs DEFAULT_DISPATCH),
     enrichTimeoutMs = or_default (do_enrichTimeoutMs p) (enrichTimeoutMs DEFAULT_DISPATCH)\<rparr>"

definition retention_of :: "retention_option \<Rightarrow> retention_settings option" where
  "retention_of r = (case r of NoRetention \<Rightarrow> None
   | Retention dd ld \<Rightarrow> Some \<lparr>deliveredDays = or_default dd (deliveredDays DEFAULT_RETENTION),
       ledgerDays = or_default ld (ledgerDays DEFAULT_RETENTION)\<rparr>)"

section \<open>Creating a relay\<close>

text \<open>The JavaScript runtime the engine runs on.\<close>

record runtime =
  rt_crypto :: crypto
  rt_json_parse :: "string \<Rightarrow> exn + json"
  rt_date_parse :: "string \<Rightarrow> int option"
  rt_number :: "string \<Rightarrow> rat option"
  rt_randomUUID :: string

datatype 'h route_source =
    FromEndClose fetch_options provider_options "manifest_source option"
  | Static "route_config list"
  | FromHost "string \<Rightarrow> ('h, exn, route_config option) sem"

record ('h, 'f) relay =
  re_config :: engine_config
  re_routes :: "'h route_source"
  re_enrichments :: "(string \<times> 'f) list"

definition remote_source ::
  "('h, 'f) relay_options \<Rightarrow> (string \<Rightarrow> bool) \<Rightarrow> (string \<times> 'f) list \<Rightarrow> (string \<times> enrichment_descriptor) list \<Rightarrow> 'h route_source" where
  "remote_source opts has functions descriptors =
     FromEndClose \<lparr>fo_has = has, fo_enrichments = Some (map fst functions), fo_timeoutMs = None\<rparr>
       \<lparr>po_refreshMs = or_default (rmo_refreshIntervalMs (ro_remote opts)) DEFAULT_REMOTE_REFRESH_MS,
        po_heartbeatMs = DEFAULT_MANIFEST_HEARTBEAT_MS, po_manifest = (rmo_announce (ro_remote opts) \<noteq> Some False)\<rparr>
       (if rmo_announce (ro_remote opts) = Some False then None
        else Some \<lparr>ms_host = Embedded, ms_configSource = Remote, ms_adapters = map_option (map fst) (ro_adapters opts),
          ms_enrichments = Some descriptors\<rparr>)"

definition host_adapters :: "('h, 'f) relay_options \<Rightarrow> string \<Rightarrow> registered option" where
  "host_adapters opts src = (case ro_adapters opts of None \<Rightarrow> None
   | Some as \<Rightarrow> (case map_of as src of Some a \<Rightarrow> Some a | None \<Rightarrow> if src \<in> set proto_names then Some PrototypeValue else None))"

definition createRelay :: "runtime \<Rightarrow> ('h, 'f) relay_options \<Rightarrow> exn + ('h, 'f) relay" where
  "createRelay rt opts =
     (let C = rt_crypto rt; has = hasAdapter C (rt_number rt) (host_adapters opts);
          (functions, descriptors) = splitEnrichments (case ro_enrichments opts of None \<Rightarrow> [] | Some regs \<Rightarrow> regs);
          checked = (case ro_routes opts of
              RouteList rs \<Rightarrow> (case assertKnownSources has rs of Inl e \<Rightarrow> Inl e
                | Inr _ \<Rightarrow> assertKnownEnrichments (Some (map fst functions)) rs)
            | _ \<Rightarrow> Inr ());
          routes = (case ro_routes opts of NoRoutes \<Rightarrow> remote_source opts has functions descriptors
            | RouteList rs \<Rightarrow> Static rs | HostRoutes p \<Rightarrow> FromHost p)
      in case checked of Inl e \<Rightarrow> Inl e
       | Inr _ \<Rightarrow> (case (case ro_encryption opts of None \<Rightarrow> Inr plainCodec
             | Some k \<Rightarrow> map_sum id (aesGcmCodec C) (toKey C ''dataKey'' k)) of
           Inl e \<Rightarrow> Inl e
         | Inr codec \<Rightarrow> (case toKey C ''maskingKey'' (ro_maskingKey opts) of
             Inl e \<Rightarrow> Inl e
           | Inr key \<Rightarrow> Inr \<lparr>re_config = \<lparr>cf_codec = codec, cf_crypto = C, cf_maskingKey = key,
               cf_instanceId = or_default (ro_instanceId opts) (rt_randomUUID rt), cf_dispatch = dispatch_of (ro_dispatch opts),
               cf_retention = retention_of (ro_retention opts), cf_secrets = toSecretResolver (ro_secrets opts),
               cf_adapters = host_adapters opts, cf_json_parse = rt_json_parse rt, cf_date_parse = rt_date_parse rt,
               cf_number = rt_number rt\<rparr>, re_routes = routes, re_enrichments = functions\<rparr>)))"

lemma map_sum_Inr: "map_sum id f x = Inr y \<longleftrightarrow> (\<exists>z. x = Inr z \<and> y = f z)"
  by (cases x) auto

lemma deriveKey_length: "(\<And>m. length (sha256 C m) = 32) \<Longrightarrow> deriveKey C n raw = Inr k \<Longrightarrow> length k = 32"
  by (auto simp: deriveKey_def Let_def split: option.splits if_splits)

text \<open>
  \<^bold>\<open>C38.\<close> A relay is created only from sound options: static routes all have an adapter and name
  registered enrichments only; the masking key, and with encryption the data key of the codec,
  has 32 bytes (derived from a text of at least 16 characters, or given as such); payloads are
  stored in clear only when the host asked for that explicitly.
\<close>

theorem createRelay_sound:
  assumes "\<And>m. length (sha256 (rt_crypto rt) m) = 32" and "createRelay rt opts = Inr relay"
  shows "length (cf_maskingKey (re_config relay)) = 32 \<and>
    (case ro_encryption opts of None \<Rightarrow> cf_codec (re_config relay) = plainCodec
     | Some k \<Rightarrow> (\<exists>key. toKey (rt_crypto rt) ''dataKey'' k = Inr key \<and> length key = 32 \<and>
         cf_codec (re_config relay) = aesGcmCodec (rt_crypto rt) key)) \<and>
    (case ro_routes opts of
       RouteList rs \<Rightarrow> re_routes relay = Static rs \<and> list_all (\<lambda>r. hasAdapter (rt_crypto rt) (rt_number rt) (host_adapters opts) (r_source r)) rs \<and>
         list_all (known_enrichments (Some (map fst (re_enrichments relay)))) rs
     | HostRoutes p \<Rightarrow> re_routes relay = FromHost p
     | NoRoutes \<Rightarrow> (\<exists>fo po ms. re_routes relay = FromEndClose fo po ms))"
proof -
  have key: "length k = 32" if "toKey (rt_crypto rt) n v = Inr k" for n v k
    using that deriveKey_length [OF assms(1)] by (auto simp: toKey_def split: key_option.splits if_splits)
  obtain fs ds where split: "splitEnrichments (case ro_enrichments opts of None \<Rightarrow> [] | Some regs \<Rightarrow> regs) = (fs, ds)" by fastforce
  show ?thesis
    using assms(2) split key
    by (auto simp: createRelay_def Let_def remote_source_def map_sum_Inr assertKnownSources_iff [symmetric, of _ _ "()"]
        assertKnownEnrichments_iff [symmetric, of _ _ "()"] split: sum.splits routes_option.splits option.splits)
qed

text \<open>A relay with an encrypted buffer whose routes come from End Close.\<close>

definition sample_runtime :: runtime where
  "sample_runtime = \<lparr>rt_crypto = \<lparr>sha256 = (\<lambda>m. replicate 32 0), hmac = (\<lambda>a k m. []), gcm_seal = (\<lambda>k iv m. (m, replicate 16 0)),
       gcm_open = (\<lambda>k iv c t. Some c)\<rparr>,
     rt_json_parse = (\<lambda>_. Inr JNull), rt_date_parse = (\<lambda>_. None), rt_number = (\<lambda>_. None), rt_randomUUID = ''u1''\<rparr>"

definition sample_options :: "(unit, unit) relay_options" where
  "sample_options = \<lparr>ro_routes = NoRoutes, ro_secrets = SecretMap (\<lambda>_. None), ro_encryption = Some (KeyText ''0123456789abcdef''),
     ro_maskingKey = KeyBuffer (replicate 32 7),
     ro_dispatch = \<lparr>do_batchMax = None, do_pollIntervalMs = None, do_backoffBaseMs = None, do_backoffCapMs = None,
       do_parkAfterMs = None, do_leaseMs = None, do_recoverIntervalMs = None, do_enrichTimeoutMs = None\<rparr>,
     ro_retention = NoRetention, ro_adapters = None, ro_enrichments = None, ro_instanceId = None,
     ro_remote = \<lparr>rmo_refreshIntervalMs = None, rmo_announce = None\<rparr>\<rparr>"

theorem createRelay_sound_witness:
  "\<exists>relay. createRelay sample_runtime sample_options = Inr relay \<and> length (cf_maskingKey (re_config relay)) = 32 \<and>
     (\<exists>key. cf_codec (re_config relay) = aesGcmCodec (rt_crypto sample_runtime) key \<and> length key = 32)"
proof -
  have sha: "length (sha256 (rt_crypto sample_runtime) m) = 32" for m by (simp add: sample_runtime_def)
  have "\<exists>relay. createRelay sample_runtime sample_options = Inr relay"
    by (simp add: createRelay_def sample_options_def toKey_def deriveKey_def MIN_KEY_CHARS_def Let_def)
  then obtain relay where r: "createRelay sample_runtime sample_options = Inr relay" by blast
  show ?thesis using createRelay_sound [OF sha r] r by (auto simp: sample_options_def)
qed

section \<open>The operations of a relay\<close>

definition SHUTDOWN_ANNOUNCE_MS :: nat where "SHUTDOWN_ANNOUNCE_MS = 1000"
definition FLUSH_POLL_MIN_MS :: nat where "FLUSH_POLL_MIN_MS = 50"
definition FLUSH_POLL_MAX_MS :: nat where "FLUSH_POLL_MAX_MS = 1000"

text \<open>\<open>9999-12-31T23:59:59.999Z\<close>.\<close>

definition FAR_FUTURE :: int where "FAR_FUTURE = 253402300799999"

record counts =
  ct_delivered :: nat
  ct_retried :: nat
  ct_parked :: nat

definition counts_of :: "cycle_summary \<Rightarrow> counts" where
  "counts_of c = \<lparr>ct_delivered = cs_delivered c, ct_retried = cs_retried c, ct_parked = cs_parked c\<rparr>"

text \<open>\<open>None\<close>: the prune that was asked for has not ended within the fuel.\<close>

definition dispatchOnce :: "'h host_ops \<Rightarrow> engine_config \<Rightarrow> nat \<Rightarrow> bool \<Rightarrow> ('h, counts option) dispatch" where
  "dispatchOnce D cf fuel prune = bindE (runOnce D cf) (\<lambda>c.
     if prune then bindE (runPrune D cf (\<lambda>_. False) fuel) (\<lambda>p. ret (map_option (\<lambda>_. counts_of c) p))
     else ret (Some (counts_of c)))"

datatype flush_reason = FlushTimeout | FlushPaused | FlushUnroutable

record flush_result = counts +
  fr_drained :: bool
  fr_reason :: "flush_reason option"

definition no_counts :: counts where "no_counts = \<lparr>ct_delivered = 0, ct_retried = 0, ct_parked = 0\<rparr>"

definition add_counts :: "cycle_summary \<Rightarrow> counts \<Rightarrow> counts" where
  "add_counts c t = \<lparr>ct_delivered = ct_delivered t + cs_delivered c, ct_retried = ct_retried t + cs_retried c,
     ct_parked = ct_parked t + cs_parked c\<rparr>"

definition flushed :: "counts \<Rightarrow> bool \<Rightarrow> flush_reason option \<Rightarrow> flush_result" where
  "flushed t drained reason = \<lparr>ct_delivered = ct_delivered t, ct_retried = ct_retried t, ct_parked = ct_parked t,
     fr_drained = drained, fr_reason = reason\<rparr>"

text \<open>\<open>new Map(c.skipped...)\<close> and why a backlog confined to skipped routes will not clear.\<close>

definition skipped_map :: "cycle_summary \<Rightarrow> (string \<times> skip_reason) list" where
  "skipped_map c = fold (\<lambda>(r, reason). AList.update r reason) (cs_skipped c) []"

definition stuck :: "cycle_summary \<Rightarrow> string list \<Rightarrow> flush_reason option" where
  "stuck c backlog =
     (if list_all (\<lambda>r. map_of (skipped_map c) r \<noteq> None) backlog
      then Some (if list_all (\<lambda>r. map_of (skipped_map c) r = Some Paused) backlog then FlushPaused else FlushUnroutable)
      else None)"

text \<open>The loop; \<open>None\<close> when it has not ended within the fuel.\<close>

fun flush_loop ::
  "'h host_ops \<Rightarrow> engine_config \<Rightarrow> int \<Rightarrow> nat \<Rightarrow> nat \<Rightarrow> counts \<Rightarrow> ('h, flush_result option) dispatch" where
  "flush_loop D cf deadline 0 pollMs t = ret None"
| "flush_loop D cf deadline (Suc fuel) pollMs t =
     bindE (runOnce D cf) (\<lambda>c.
       (let t' = add_counts c t in
        if cs_halted c then ret (Some (flushed t' False (Some FlushPaused)))
        else bindE (ask (ho_now D)) (\<lambda>now.
          (let remaining = deadline - now in
           if remaining \<le> 0 then ret (Some (flushed t' False (Some FlushTimeout)))
           else if 0 < cs_delivered c + cs_retried c + cs_parked c then flush_loop D cf deadline fuel pollMs t'
           else bindE (host (st_routesWithDueEvents (ho_store D) FAR_FUTURE)) (\<lambda>backlog.
             if backlog = [] then ret (Some (flushed t' True None))
             else (case stuck c backlog of
                 Some reason \<Rightarrow> ret (Some (flushed t' False (Some reason)))
               | None \<Rightarrow> thenE (ask (ho_sleep D (min pollMs (nat remaining))))
                   (flush_loop D cf deadline fuel (min (pollMs * 2) FLUSH_POLL_MAX_MS) t')))))))"

definition flush :: "'h host_ops \<Rightarrow> engine_config \<Rightarrow> nat \<Rightarrow> nat \<Rightarrow> ('h, flush_result option) dispatch" where
  "flush D cf fuel timeoutMs = bindE (ask (ho_now D)) (\<lambda>now.
     flush_loop D cf (now + int timeoutMs) fuel FLUSH_POLL_MIN_MS no_counts)"

text \<open>\<open>getById\<close> is there when the store supports inspection.\<close>

definition readPayload ::
  "engine_config \<Rightarrow> (string \<Rightarrow> ('h, exn, event_record option) sem) option \<Rightarrow> string \<Rightarrow> ('h, exn, bytes option) sem" where
  "readPayload cf getById i = (case getById of
     None \<Rightarrow> throwE (OtherError ''store does not support inspection (EventStoreAdmin)'')
   | Some f \<Rightarrow> bindE (f i) (\<lambda>row. case row of
       None \<Rightarrow> ret None
     | Some r \<Rightarrow> if ev_payload r = [] then ret None
         else bindE (of_sum (decode (cf_codec cf) (ev_payload r) (ev_payload_iv r))) (\<lambda>b. ret (Some b))))"

definition preview :: "engine_config \<Rightarrow> route_config \<Rightarrow> json \<Rightarrow> string \<Rightarrow> exn + mapped_event" where
  "preview cf route sample receivedAt = mapEvent (cf_crypto cf) (cf_date_parse cf) route sample receivedAt (cf_maskingKey cf)"

definition stop_announcement :: "'h remote_env \<Rightarrow> string \<Rightarrow> string \<Rightarrow> 'x route_source \<Rightarrow> ('h, exn, unit) sem" where
  "stop_announcement E ENGINE_VERSION instanceId routes = (case routes of
     FromEndClose fo po (Some src) \<Rightarrow> send_announcement E ENGINE_VERSION instanceId src Shutdown (Some SHUTDOWN_ANNOUNCE_MS)
   | _ \<Rightarrow> ret ())"

section \<open>What a flush reports\<close>

lemma cycle_summary_returned: "cycle D cf abort s = (Inr c, s') \<Longrightarrow> c = d_summary s'"
  by (auto simp: cycle_def bindE_def thenE_def getsE_def split: prod.splits sum.splits if_splits)

lemma runOnce_Inr: "runOnce D cf s = (Inr c, s') \<longleftrightarrow> cycle D cf (\<lambda>_. False) s = (Inr c, s')"
  by (auto simp: runOnce_def catchE_def thenE_def bindE_def throwE_def split: prod.splits sum.splits)

definition counted :: "counts \<Rightarrow> action list \<Rightarrow> ('z) counts_scheme \<Rightarrow> bool" where
  "counted t tr res \<longleftrightarrow> ct_delivered res = ct_delivered t + settled_count FDelivered tr \<and>
     ct_retried res = ct_retried t + settled_count FRetried tr \<and> ct_parked res = ct_parked t + settled_count FParked tr"

text \<open>What holds of a flush that has returned \<open>res\<close>, its events now being \<open>rs\<close>.\<close>

definition flush_report :: "event_record list \<Rightarrow> flush_result \<Rightarrow> bool" where
  "flush_report rs res \<longleftrightarrow> (fr_drained res \<longleftrightarrow> fr_reason res = None) \<and>
     (fr_drained res \<longrightarrow> (\<forall>r \<in> set rs. \<not> is_due r FAR_FUTURE))"

lemma counted_append:
  "counted (add_counts c t) tr' res \<Longrightarrow> accounted n new_summary tr c \<Longrightarrow> counted t (tr @ tr') res"
  by (simp add: counted_def add_counts_def accounted_def new_summary_def settled_count_def)

lemma bindE_thrown: "m s = (Inl e, s1) \<Longrightarrow> bindE m k s = (Inl e, s1)"
  by (simp add: bindE_def)

lemma backlog_run:
  "m (en_host s) = (r, h) \<Longrightarrow> bindE (host m) k s = (case r of Inl e \<Rightarrow> (Inl e, s\<lparr>en_host := h\<rparr>) | Inr x \<Rightarrow> k x (s\<lparr>en_host := h\<rparr>))"
  by (simp add: bindE_def host_def zoomE_def split: sum.splits)

text \<open>One turn of the loop, in terms of what its calls answer.\<close>

lemma flush_loop_step:
  assumes "runOnce D cf s = (Inr c, s1)" and "ho_now D (en_host s1) = (now, h)" and "st_routesWithDueEvents (ho_store D) FAR_FUTURE h = (rb, h3)"
  shows "flush_loop D cf deadline (Suc fuel) pollMs t s =
    (if cs_halted c then (Inr (Some (flushed (add_counts c t) False (Some FlushPaused))), s1)
     else if deadline - now \<le> 0 then (Inr (Some (flushed (add_counts c t) False (Some FlushTimeout))), s1\<lparr>en_host := h\<rparr>)
     else if 0 < cs_delivered c + cs_retried c + cs_parked c then flush_loop D cf deadline fuel pollMs (add_counts c t) (s1\<lparr>en_host := h\<rparr>)
     else (case rb of Inl e \<Rightarrow> (Inl e, s1\<lparr>en_host := h3\<rparr>)
       | Inr backlog \<Rightarrow> if backlog = [] then (Inr (Some (flushed (add_counts c t) True None)), s1\<lparr>en_host := h3\<rparr>)
         else (case stuck c backlog of
             Some reason \<Rightarrow> (Inr (Some (flushed (add_counts c t) False (Some reason))), s1\<lparr>en_host := h3\<rparr>)
           | None \<Rightarrow> thenE (ask (ho_sleep D (min pollMs (nat (deadline - now)))))
               (flush_loop D cf deadline fuel (min (pollMs * 2) FLUSH_POLL_MAX_MS) (add_counts c t)) (s1\<lparr>en_host := h3\<rparr>))))"
  unfolding flush_loop.simps(2) bindE_run [where m = "runOnce D cf", OF assms(1)] Let_def
  by (simp only: if_distrib [of "\<lambda>f. f s1"] bindE_ask [where g = "ho_now D", OF assms(2)] if_distrib [of "\<lambda>f. f (s1\<lparr>en_host := h\<rparr>)"] ret_def)
    (auto simp: backlog_run [where m = "st_routesWithDueEvents (ho_store D) FAR_FUTURE" and s = "s1\<lparr>en_host := h\<rparr>"] assms(3) ret_def split: sum.splits option.splits)

lemma quiet_step: "quiet rows ok f \<Longrightarrow> ok h \<Longrightarrow> f h = (x, h') \<Longrightarrow> ok h' \<and> rows h' = rows h"
  unfolding quiet_def by (metis snd_conv)

context engine_host
begin

lemma flush_loop_sound:
  assumes "ok (en_host s)" and "reclaims rows (cf_instanceId cf) s" and "flush_loop D cf deadline fuel pollMs t s = (Inr (Some res), s')"
  shows "ok (en_host s') \<and> list_all2 row_step (rows (en_host s)) (rows (en_host s')) \<and> flush_report (rows (en_host s')) res \<and>
    (\<exists>tr. en_trace s' = en_trace s @ tr \<and> counted t tr res)"
  using assms
proof (induction fuel arbitrary: pollMs t s)
  case (Suc fuel)
  obtain r1 s1 where one: "runOnce D cf s = (r1, s1)" by fastforce
  have "r1 = Inl e \<Longrightarrow> flush_loop D cf deadline (Suc fuel) pollMs t s = (Inl e, s1)" for e
    unfolding flush_loop.simps(2) by (rule bindE_thrown) (simp add: one)
  with Suc.prems(3) obtain c where r1: "r1 = Inr c" by (cases r1) auto
  with one have cyc: "cycle D cf (\<lambda>_. False) s = (Inr c, s1)" by (simp add: runOnce_Inr)
  have c: "c = d_summary s1" by (rule cycle_summary_returned [OF cyc])
  from cycle_effect [OF Suc.prems(1,2) cyc] obtain tr1 where 1: "ok (en_host s1)" "list_all2 row_step (rows (en_host s)) (rows (en_host s1))"
    "reclaims rows (cf_instanceId cf) s1" "en_trace s1 = en_trace s @ tr1" "accounted (batchMax (cf_dispatch cf)) new_summary tr1 c"
    unfolding c by blast
  let ?t = "add_counts c t"
  have base: "counted t tr1 (flushed ?t drained reason)" for drained reason
    using 1(5) by (simp add: counted_def flushed_def add_counts_def accounted_def new_summary_def)
  have trans: "list_all2 row_step (rows (en_host s)) rs" if "list_all2 row_step (rows (en_host s1)) rs" for rs
    using list_all2_trans [OF row_step_trans 1(2) that] .
  have rest: "ok (en_host s') \<and> list_all2 row_step (rows (en_host s)) (rows (en_host s')) \<and> flush_report (rows (en_host s')) res \<and>
      (\<exists>tr. en_trace s' = en_trace s @ tr \<and> counted t tr res)"
    if "ok (en_host s4)" "reclaims rows (cf_instanceId cf) s4" "rows (en_host s4) = rows (en_host s1)" "en_trace s4 = en_trace s1"
      "flush_loop D cf deadline fuel p ?t s4 = (Inr (Some res), s')" for s4 p
  proof -
    from Suc.IH [OF that(1,2,5)] obtain tr where tr: "ok (en_host s')" "list_all2 row_step (rows (en_host s4)) (rows (en_host s'))"
      "flush_report (rows (en_host s')) res" "en_trace s' = en_trace s4 @ tr" "counted ?t tr res" by blast
    have "list_all2 row_step (rows (en_host s)) (rows (en_host s'))" using trans tr(2) that(3) by simp
    moreover have "en_trace s' = en_trace s @ (tr1 @ tr)" "counted t (tr1 @ tr) res"
      using tr(4) that(4) 1(4) counted_append [OF tr(5) 1(5)] by simp_all
    ultimately show ?thesis using tr(1,3) by blast
  qed
  have fin: "ok (en_host s') \<and> list_all2 row_step (rows (en_host s)) (rows (en_host s')) \<and> flush_report (rows (en_host s')) res \<and>
      (\<exists>tr. en_trace s' = en_trace s @ tr \<and> counted t tr res)"
    if "ok (en_host s')" "rows (en_host s') = rows (en_host s1)" "en_trace s' = en_trace s1" "res = flushed ?t drained reason"
      "flush_report (rows (en_host s')) (flushed ?t drained reason)" for drained reason
  proof -
    have "\<exists>tr. en_trace s' = en_trace s @ tr \<and> counted t tr res"
      by (rule exI [of _ tr1], rule conjI) (use that(3,4) 1(4) base in simp_all)
    with that 1(2) show ?thesis by simp
  qed
  obtain now h where t: "ho_now D (en_host s1) = (now, h)" by fastforce
  let ?s2 = "s1\<lparr>en_host := h\<rparr>"
  have h: "ok h" "rows h = rows (en_host s1)" using quiet_step [OF quiet_now 1(1) t] by simp_all
  have s2: "ok (en_host ?s2)" "reclaims rows (cf_instanceId cf) ?s2" "rows (en_host ?s2) = rows (en_host s1)" "en_trace ?s2 = en_trace s1"
    using h 1(3) by (simp_all add: reclaims_def)
  obtain rb h3 where q: "st_routesWithDueEvents (ho_store D) FAR_FUTURE h = (rb, h3)" by fastforce
  let ?s3 = "s1\<lparr>en_host := h3\<rparr>"
  note up = updatesD [OF routesWithDueEvents [OF h(1)] q]
  note turn = flush_loop_step [OF one [unfolded r1] t q, of deadline fuel pollMs t, unfolded Suc.prems(3)]
  show ?case
  proof (cases "cs_halted c")
    case True
    with turn have "s' = s1" "res = flushed ?t False (Some FlushPaused)" by simp_all
    show ?thesis
      by (rule fin [of False "Some FlushPaused"]) (use \<open>s' = s1\<close> \<open>res = _\<close> 1(1) in \<open>simp_all add: flush_report_def flushed_def\<close>)
  next
    case running: False
    show ?thesis
    proof (cases "deadline - now \<le> 0")
      case True
      with turn running have "s' = ?s2" "res = flushed ?t False (Some FlushTimeout)" by simp_all
      show ?thesis
        by (rule fin [of False "Some FlushTimeout"]) (use \<open>s' = _\<close> \<open>res = _\<close> s2 in \<open>simp_all add: flush_report_def flushed_def\<close>)
    next
      case time: False
      show ?thesis
      proof (cases "0 < cs_delivered c + cs_retried c + cs_parked c")
        case True
        with turn running time have "flush_loop D cf deadline fuel pollMs ?t ?s2 = (Inr (Some res), s')" by simp
        from rest [OF s2 this] show ?thesis .
      next
        case idle: False
        with turn running time obtain backlog where rb: "rb = Inr backlog" by (cases rb) auto
        note after = turn [unfolded if_not_P [OF running] if_not_P [OF time] if_not_P [OF idle] rb sum.case]
        from up(3) [OF rb] have s3: "rows (en_host ?s3) = rows (en_host s1)" "backlog = [] \<Longrightarrow> \<forall>r \<in> set (rows h). \<not> is_due r FAR_FUTURE"
          using h(2) by auto
        show ?thesis
        proof (cases "backlog = [] \<or> stuck c backlog \<noteq> None")
          case True
          with after have "s' = ?s3" "res = flushed ?t (backlog = []) (if backlog = [] then None else stuck c backlog)"
            by (auto split: if_splits)
          show ?thesis
            by (rule fin [of "backlog = []" "if backlog = [] then None else stuck c backlog"])
              (use \<open>s' = _\<close> \<open>res = _\<close> True s3 up(1) h(2) in \<open>auto simp: flush_report_def flushed_def\<close>)
        next
          case waiting: False
          obtain h4 where z: "ho_sleep D (min pollMs (nat (deadline - now))) h3 = ((), h4)"
            by (cases "ho_sleep D (min pollMs (nat (deadline - now))) h3") simp
          let ?s4 = "s1\<lparr>en_host := h4\<rparr>"
          have "ok h4 \<and> rows h4 = rows h3" by (rule quiet_step [OF quiet_sleep up(1) z])
          with s3(1) 1(3) have s4: "ok (en_host ?s4)" "reclaims rows (cf_instanceId cf) ?s4" "rows (en_host ?s4) = rows (en_host s1)"
            by (simp_all add: reclaims_def)
          have "flush_loop D cf deadline fuel (min (pollMs * 2) FLUSH_POLL_MAX_MS) ?t ?s4 = (Inr (Some res), s')"
            using after waiting z
            by (simp add: thenE_def bindE_ask [where g = "ho_sleep D (min pollMs (nat (deadline - now)))" and s = ?s3 and x = "()" and h = h4])
          from rest [OF s4 _ this] show ?thesis by simp
        qed
      qed
    qed
  qed
qed (simp add: ret_def)

end

end
