(* ===== verification/FlushFacts.thy ===== *)
theory FlushFacts imports Relay IngestFacts begin

text \<open>
  Draining a relay: what a flush that has returned tells of the stored events, and that it
  returns.  For the latter, a relation between the host's states that every single call keeps
  is kept by a whole cycle.
\<close>

section \<open>What every call of a cycle keeps, the cycle keeps\<close>

definition moves :: "('h \<Rightarrow> 'h \<Rightarrow> bool) \<Rightarrow> ('h \<Rightarrow> 'a \<times> 'h) \<Rightarrow> bool" where
  "moves Q f \<longleftrightarrow> (\<forall>h. Q h (snd (f h)))"

definition store_moves :: "('h \<Rightarrow> 'h \<Rightarrow> bool) \<Rightarrow> 'h event_store_ops \<Rightarrow> bool" where
  "store_moves Q S \<longleftrightarrow> (\<forall>now. moves Q (st_routesWithDueEvents S now)) \<and>
     (\<forall>route now limit l. moves Q (st_claimDue S route now limit l)) \<and>
     (\<forall>ids t0 bulk. moves Q (st_markDelivered S ids t0 bulk)) \<and> (\<forall>ids t0 err. moves Q (st_markFailed S ids t0 err)) \<and>
     (\<forall>ids err. moves Q (st_markParked S ids err)) \<and> (\<forall>ids t0 err. moves Q (st_releaseDelivering S ids t0 err)) \<and>
     (\<forall>now owner. moves Q (st_recoverDelivering S now owner)) \<and> (\<forall>now age. moves Q (st_parkExpired S now age))"

definition host_moves :: "('h \<Rightarrow> 'h \<Rightarrow> bool) \<Rightarrow> 'h host_ops \<Rightarrow> bool" where
  "host_moves Q D \<longleftrightarrow> store_moves Q (ho_store D) \<and> moves Q (ct_getKillswitch (ho_control D)) \<and>
     (\<forall>route. moves Q (ct_isRoutePaused (ho_control D) route)) \<and> (\<forall>route. moves Q (ho_route_get D route)) \<and>
     moves Q (ho_now D) \<and> moves Q (ho_random D) \<and> (\<forall>ms. moves Q (ho_sleep D ms)) \<and>
     (\<forall>rq. moves Q (cl_fetch (ho_client D) rq)) \<and>
     (\<forall>name fn input ctx. ho_enrichment D name = Some fn \<longrightarrow> moves Q (fn input ctx))"

definition on_hosts :: "('h \<Rightarrow> 'h \<Rightarrow> bool) \<Rightarrow> 'h dispatcher \<Rightarrow> 'h dispatcher \<Rightarrow> bool" where
  "on_hosts Q s s' \<longleftrightarrow> Q (en_host s) (en_host s')"

locale host_relation = calls: step_relation Q for Q :: "'h \<Rightarrow> 'h \<Rightarrow> bool" +
  fixes D :: "'h host_ops"
  assumes moved: "host_moves Q D"
begin

sublocale turns: step_relation "on_hosts Q"
  by unfold_locales (auto simp: on_hosts_def calls.R_refl intro: calls.R_trans)

lemma keeps_moves: "moves Q m \<Longrightarrow> keeps Q m"
  by (simp add: moves_def keeps_def)

lemma turns_host: "moves Q m \<Longrightarrow> keeps (on_hosts Q) (host m)"
  by (auto simp: moves_def keeps_def on_hosts_def host_def zoomE_def split_beta)

lemma turns_ask: "moves Q g \<Longrightarrow> keeps (on_hosts Q) (ask g)"
  unfolding ask_def by (rule turns_host) (auto simp: moves_def split_beta)

lemma turns_local:
  "keeps (on_hosts Q) (emit e)" "keeps (on_hosts Q) (observe a)" "keeps (on_hosts Q) (in_summary f)" "keeps (on_hosts Q) (set_reclaim w)"
  "keeps (on_hosts Q) (modifyE (\<lambda>s. s\<lparr>d_lastSweepAt := t0\<rparr>))"
  by (simp_all add: keeps_def on_hosts_def emit_def observe_def in_summary_def set_reclaim_def modifyE_def calls.R_refl)

lemmas moved_calls = moved [unfolded host_moves_def store_moves_def]

lemma turns_calls:
  "keeps (on_hosts Q) (host (st_routesWithDueEvents (ho_store D) now))" "keeps (on_hosts Q) (host (st_claimDue (ho_store D) route now limit l))"
  "keeps (on_hosts Q) (host (st_markDelivered (ho_store D) ids t0 bulk))" "keeps (on_hosts Q) (host (st_markFailed (ho_store D) ids t0 err))"
  "keeps (on_hosts Q) (host (st_markParked (ho_store D) ids err))" "keeps (on_hosts Q) (host (st_releaseDelivering (ho_store D) ids t0 err))"
  "keeps (on_hosts Q) (host (st_recoverDelivering (ho_store D) now owner))" "keeps (on_hosts Q) (host (st_parkExpired (ho_store D) now age))"
  "keeps (on_hosts Q) (host (ct_getKillswitch (ho_control D)))" "keeps (on_hosts Q) (host (ct_isRoutePaused (ho_control D) route))"
  "keeps (on_hosts Q) (host (ho_route_get D route))" "keeps (on_hosts Q) (ask (ho_now D))" "keeps (on_hosts Q) (ask (ho_random D))"
  "keeps (on_hosts Q) (ask (ho_sleep D ms))"
  using moved_calls by (simp_all add: turns_host turns_ask)

lemma turns_request: "keeps (on_hosts Q) (host (request parse (ho_client D) verb path k body t))"
proof -
  have fetch: "keeps Q (cl_fetch (ho_client D) rq)" for rq using moved_calls by (simp add: keeps_moves)
  have "keeps Q (request parse (ho_client D) verb path k body t)"
    unfolding request_def send_def
    by (intro calls.keeps_bindE calls.keeps_thenE calls.keeps_catchE calls.keeps_throwE calls.keeps_of_sum calls.keeps_ret fetch)
      (simp_all add: calls.keeps_of_sum calls.keeps_ret)
  then show ?thesis by (intro turns_host) (simp add: moves_def keeps_def)
qed

lemma turns_bulk: "keeps (on_hosts Q) (host (bulkCreateRecords C parse (ho_client D) records))"
  "keeps (on_hosts Q) (host (getBulkRequest parse (ho_client D) i))"
  unfolding bulkCreateRecords_def getBulkRequest_def by (rule turns_request)+

lemmas turns_rules = turns.keeps_ret turns.keeps_throwE turns.keeps_getsE turns.keeps_of_sum turns.keeps_bindE turns.keeps_thenE
  turns.keeps_catchE turns.keeps_finallyE turns.keeps_bothE turns.keeps_forE turns.keeps_whenE
  turns_local turns_calls turns_bulk

lemma turns_if: "(b \<Longrightarrow> keeps (on_hosts Q) m) \<Longrightarrow> (\<not> b \<Longrightarrow> keeps (on_hosts Q) k) \<Longrightarrow> keeps (on_hosts Q) (if b then m else k)"
  by simp

lemma turns_records: "keeps (on_hosts Q) (recordDelivered events t0)" "keeps (on_hosts Q) (recordParked events reason)"
  "keeps (on_hosts Q) (next_attempt D cf n)"
  unfolding recordDelivered_def recordParked_def next_attempt_def
  by (auto intro!: turns_rules split: list.splits)

lemma turns_resolve: "keeps (on_hosts Q) (resolve_pending D cf event payload pes r)"
proof (induction pes arbitrary: r)
  case (Cons pe pes)
  have "moves Q (fn input ctx)" if "ho_enrichment D name = Some fn" for name fn input ctx
    using that moved_calls by simp
  then have "ho_enrichment D name = Some fn \<Longrightarrow> keeps (on_hosts Q) (ask (fn input ctx))" for name fn input ctx
    by (rule turns_ask)
  with Cons show ?case by (auto simp: Let_def intro!: turns_rules split: option.splits sum.splits)
qed (simp add: turns_rules)

lemma turns_map_batch: "keeps (on_hosts Q) (map_batch D cf route events)"
proof (induction events)
  case (Cons e events)
  have "keeps (on_hosts Q) (map_one D cf route e)"
    unfolding map_one_def park_event_def retryOne_def resolveEnrichments_def
    by (auto intro!: turns_rules turns_records turns_resolve split: sum.splits)
  with Cons show ?case by (auto intro!: turns_rules)
qed (simp add: turns_rules)

lemma turns_post_attempts: "keeps (on_hosts Q) (post_attempts D cf records attempt left lastErr)"
  by (induction left arbitrary: attempt lastErr) (auto intro!: turns_rules)

lemma turns_deliver_all: "keeps (on_hosts Q) (deliver_all D i mapped t0)"
  unfolding deliver_all_def by (intro turns_rules turns_records)

lemma turns_settle_split: "keeps (on_hosts Q) (settle_split D i mapped failed t0)"
  unfolding settle_split_def Let_def by (intro turns_rules turns_records)

lemma turns_poll: "keeps (on_hosts Q) (poll_results D cf i mapped t0 left)"
  by (induction left) (auto simp: turns_deliver_all intro!: turns_rules turns_settle_split split: option.splits)

lemma turns_deliverBatch: "keeps (on_hosts Q) (deliverBatch D cf route claimed)"
  unfolding deliverBatch_def post_batch_def Let_def postWithRetries_def settleResults_def park_batch_def retry_batch_def
  by (auto intro!: turns_rules turns_records turns_map_batch turns_post_attempts turns_poll split: option.splits)

lemma turns_claim: "keeps (on_hosts Q) (claim_and_deliver D cf now route routeId)"
  unfolding claim_and_deliver_def releaseLeftover_def by (auto intro!: turns_rules turns_deliverBatch)

lemma turns_visit_routes: "keeps (on_hosts Q) (visit_routes D cf abort now due)"
  by (induction due) (auto simp: visit_route_def skip_route_def simp del: bindE_gets intro!: turns_rules turns_claim split: option.splits)

lemma turns_cycle: "keeps (on_hosts Q) (cycle D cf abort)"
  unfolding cycle_def sweep_def Let_def by (auto simp del: bindE_gets intro!: turns_rules turns_visit_routes)

lemma turns_runOnce: "keeps (on_hosts Q) (runOnce D cf)"
  unfolding runOnce_def by (intro turns_rules turns_cycle)

end

section \<open>The clock of a SQLite relay\<close>

text \<open>
  Time passes: before an instant \<open>T\<close> the clock is read finitely often, whatever else is called in
  between; \<open>early T w\<close> bounds how often it will be from \<open>w\<close> on.  Nothing is asked of its resolution
  (many readings may show the same millisecond), and it may be set back.
\<close>

definition time_passes :: "(int \<Rightarrow> 'w \<Rightarrow> nat) \<Rightarrow> 'w world_ops \<Rightarrow> bool" where
  "time_passes early W \<longleftrightarrow>
     (\<forall>T w. early T (snd (wo_now W w)) \<le> early T w \<and> (fst (wo_now W w) < T \<longrightarrow> early T (snd (wo_now W w)) < early T w)) \<and>
     (\<forall>T. moves (\<lambda>w w'. early T w' \<le> early T w) (wo_random W)) \<and> (\<forall>T ms. moves (\<lambda>w w'. early T w' \<le> early T w) (wo_sleep W ms)) \<and>
     (\<forall>T rq. moves (\<lambda>w w'. early T w' \<le> early T w) (cl_fetch (wo_client W) rq)) \<and>
     (\<forall>T name fn input ctx. wo_enrichment W name = Some fn \<longrightarrow> moves (\<lambda>w w'. early T w' \<le> early T w) (fn input ctx))"

definition not_earlier :: "('w \<Rightarrow> nat) \<Rightarrow> 'w sqlite_host \<Rightarrow> 'w sqlite_host \<Rightarrow> bool" where
  "not_earlier e h h' \<longleftrightarrow> e (sh_world h') \<le> e (sh_world h)"

lemma not_earlier_db: "moves (not_earlier e) (zoomE sh_db (\<lambda>s h. h\<lparr>sh_db := s\<rparr>) m)"
  by (simp add: moves_def not_earlier_def zoomE_def split_beta)

lemma not_earlier_world: "moves (\<lambda>w w'. e w' \<le> e w) f \<Longrightarrow> moves (not_earlier e) (via sh_world (\<lambda>w h. h\<lparr>sh_world := w\<rparr>) f)"
  by (simp add: moves_def not_earlier_def via_def split_beta)

lemma time_moves: "time_passes early W \<Longrightarrow> host_moves (not_earlier (early T)) (sqlite_host_ops routes W)"
proof -
  assume t: "time_passes early W"
  then have now: "moves (\<lambda>w w'. early T w' \<le> early T w) (wo_now W)" unfolding time_passes_def moves_def by blast
  have route: "moves (not_earlier (early T)) (\<lambda>h. (Inr (staticRoutes_get routes i), h))" for i by (simp add: moves_def not_earlier_def)
  from t now show ?thesis
    unfolding host_moves_def store_moves_def sqlite_host_ops_def host_via_def sqlite_host_store_def sqlite_host_control_def
      store_via_def control_via_def time_passes_def
    by (auto simp: not_earlier_db route not_earlier_world split: option.splits)
qed

lemma flush_loop_returns:
  assumes "time_passes early W" and "early deadline (sh_world (en_host s)) < fuel"
    and "flush_loop (sqlite_host_ops routes W) cf deadline fuel pollMs t s = (r, s')"
  shows "r \<noteq> Inr None"
  using assms(2,3)
proof (induction fuel arbitrary: pollMs t s)
  case (Suc fuel)
  let ?D = "sqlite_host_ops routes W" and ?e = "\<lambda>h. early deadline (sh_world h)"
  have mv: "host_moves (not_earlier (early deadline)) ?D" by (rule time_moves [OF assms(1)])
  have rel: "host_relation (not_earlier (early deadline)) ?D"
    by (unfold_locales) (auto simp: not_earlier_def mv)
  obtain r1 s1 where one: "runOnce ?D cf s = (r1, s1)" by fastforce
  show ?case
  proof (cases r1)
    case (Inl e)
    then have "flush_loop ?D cf deadline (Suc fuel) pollMs t s = (Inl e, s1)"
      unfolding flush_loop.simps(2) by (intro bindE_thrown) (simp add: one)
    with Suc.prems(2) show ?thesis by simp
  next
    case (Inr c)
    have s1: "?e (en_host s1) \<le> ?e (en_host s)"
      using keepsD [OF host_relation.turns_runOnce [OF rel] one] by (simp add: on_hosts_def not_earlier_def)
    obtain now h where t: "ho_now ?D (en_host s1) = (now, h)" by fastforce
    then have clock: "now < deadline \<Longrightarrow> ?e h < ?e (en_host s1)"
      using assms(1) by (auto simp: time_passes_def sqlite_host_ops_def host_via_def via_def split_beta)
    obtain rb h3 where q: "st_routesWithDueEvents (ho_store ?D) FAR_FUTURE h = (rb, h3)" by fastforce
    have h3: "?e h3 \<le> ?e h"
      using mv q unfolding host_moves_def store_moves_def moves_def not_earlier_def by (metis snd_conv)
    note turn = flush_loop_step [OF one [unfolded Inr] t q, of deadline fuel pollMs t, unfolded Suc.prems(2)]
    have next_turn: "r \<noteq> Inr None"
      if "\<not> deadline - now \<le> 0" "?e (en_host s2) \<le> ?e h" "flush_loop ?D cf deadline fuel p (add_counts c t) s2 = (r, s')" for s2 p
    proof (rule Suc.IH [OF _ that(3)])
      show "?e (en_host s2) < fuel" using that(1,2) clock s1 Suc.prems(1) by simp
    qed
    show ?thesis
    proof (cases "cs_halted c \<or> deadline - now \<le> 0")
      case True
      with turn show ?thesis by (auto split: if_splits)
    next
      case False
      show ?thesis
      proof (cases "0 < cs_delivered c + cs_retried c + cs_parked c")
        case True
        with turn False have "flush_loop ?D cf deadline fuel pollMs (add_counts c t) (s1\<lparr>en_host := h\<rparr>) = (r, s')" by simp
        with next_turn [of "s1\<lparr>en_host := h\<rparr>"] False show ?thesis by simp
      next
        case idle: False
        obtain h4 where z: "ho_sleep ?D (min pollMs (nat (deadline - now))) h3 = ((), h4)"
          by (cases "ho_sleep ?D (min pollMs (nat (deadline - now))) h3") simp
        have h4: "?e h4 \<le> ?e h3" using mv z unfolding host_moves_def moves_def not_earlier_def by (metis snd_conv)
        let ?k = "flush_loop ?D cf deadline fuel (min (pollMs * 2) FLUSH_POLL_MAX_MS) (add_counts c t)"
        have slept: "thenE (ask (ho_sleep ?D (min pollMs (nat (deadline - now))))) ?k (s1\<lparr>en_host := h3\<rparr>) = ?k (s1\<lparr>en_host := h4\<rparr>)"
          unfolding thenE_def
          by (subst bindE_ask [where g = "ho_sleep ?D (min pollMs (nat (deadline - now)))" and x = "()" and h = h4]) (simp_all add: z)
        from turn False idle have "(\<exists>x. r = Inl x) \<or> (\<exists>x. r = Inr (Some x)) \<or>
            flush_loop ?D cf deadline fuel (min (pollMs * 2) FLUSH_POLL_MAX_MS) (add_counts c t) (s1\<lparr>en_host := h4\<rparr>) = (r, s')"
          by (auto simp: slept split: sum.splits if_splits option.splits)
        with next_turn [of "s1\<lparr>en_host := h4\<rparr>"] False h3 h4 show ?thesis by auto
      qed
    qed
  qed
qed simp

text \<open>
  \<^bold>\<open>C37.\<close> A flush returns: it takes at most one turn for each time that the clock is read before the
  deadline, and one more, whatever the store, the network and the enrichments do.
\<close>

theorem flush_returns:
  assumes "time_passes early W" and "flush (sqlite_host_ops routes W) cf fuel timeoutMs s = (r, s')"
    and "early (fst (wo_now W (sh_world (en_host s))) + int timeoutMs) (sh_world (en_host s)) < fuel"
  shows "r \<noteq> Inr None"
proof -
  obtain now h where t: "ho_now (sqlite_host_ops routes W) (en_host s) = (now, h)" by fastforce
  then have w: "wo_now W (sh_world (en_host s)) = (now, sh_world h)"
    by (auto simp: sqlite_host_ops_def host_via_def via_def split: prod.splits)
  have "early (now + int timeoutMs) (sh_world h) \<le> early (now + int timeoutMs) (sh_world (en_host s))"
    using assms(1) w unfolding time_passes_def by (metis snd_conv)
  with assms(3) w have "early (now + int timeoutMs) (sh_world (en_host (s\<lparr>en_host := h\<rparr>))) < fuel" by simp
  moreover have "flush_loop (sqlite_host_ops routes W) cf (now + int timeoutMs) fuel FLUSH_POLL_MIN_MS no_counts (s\<lparr>en_host := h\<rparr>) = (r, s')"
    using assms(2) unfolding flush_def
    by (simp only: bindE_ask [where g = "ho_now (sqlite_host_ops routes W)", OF t])
  ultimately show ?thesis by (rule flush_loop_returns [OF assms(1)])
qed

text \<open>
  \<^bold>\<open>C36.\<close> What a flush reports is true: its counters are the settlements announced while it ran; when
  it says \<open>drained\<close>, no stored event is left that will ever be due; otherwise it names the reason it
  stopped.  The stored events are kept one for one throughout.
\<close>

theorem flush_reports:
  assumes "sqlite_ok (sh_db (en_host s))" and "reclaims sh_rows (cf_instanceId cf) s"
    and "flush (sqlite_host_ops routes W) cf fuel timeoutMs s = (Inr (Some res), s')"
  shows "(if fr_drained res then filter (\<lambda>r. is_due r FAR_FUTURE) (sh_rows (en_host s')) = [] else fr_reason res \<noteq> None) \<and>
    (\<exists>tr. en_trace s' = en_trace s @ tr \<and> counted no_counts tr res) \<and>
    list_all2 row_step (sh_rows (en_host s)) (sh_rows (en_host s'))"
proof -
  obtain now h where t: "ho_now (sqlite_host_ops routes W) (en_host s) = (now, h)" by fastforce
  have ok: "sh_ok (en_host s)" using assms(1) by (simp add: sh_ok_def)
  have h: "sh_ok h \<and> sh_rows h = sh_rows (en_host s)" by (rule quiet_step [OF sqlite_host.quiet_now ok t])
  let ?s = "s\<lparr>en_host := h\<rparr>"
  have start: "sh_ok (en_host ?s)" "reclaims sh_rows (cf_instanceId cf) ?s" "sh_rows (en_host ?s) = sh_rows (en_host s)"
    using h assms(2) by (simp_all add: reclaims_def)
  have "flush_loop (sqlite_host_ops routes W) cf (now + int timeoutMs) fuel FLUSH_POLL_MIN_MS no_counts ?s = (Inr (Some res), s')"
    using assms(3) unfolding flush_def
    by (simp only: bindE_ask [where g = "ho_now (sqlite_host_ops routes W)", OF t])
  from sqlite_host.flush_loop_sound [OF start(1,2) this] start(3) show ?thesis
    by (auto simp: flush_report_def filter_empty_conv)
qed

section \<open>A flush of an empty relay\<close>

definition counting_world :: "int world_ops" where
  "counting_world = \<lparr>wo_now = (\<lambda>w. (w, w + 1)), wo_random = (\<lambda>w. (1 / 2, w)), wo_iv = (\<lambda>w. ([], w)),
     wo_sleep = (\<lambda>ms w. ((), w + int ms)),
     wo_client = \<lparr>cl_baseUrl = ''https://api'', cl_apiKey = ''key'', cl_fetch = (\<lambda>rq w. (Inl (OtherError ''offline''), w + 1))\<rparr>,
     wo_enrichment = (\<lambda>_. None)\<rparr>"

text \<open>A coarse clock, that shows each millisecond three times.\<close>

definition coarse_world :: "int world_ops" where
  "coarse_world = counting_world\<lparr>wo_now := \<lambda>w. (w div 3, w + 1)\<rparr>"

lemma coarse_time: "time_passes (\<lambda>T w. nat (3 * T - w)) coarse_world"
  by (auto simp: time_passes_def coarse_world_def counting_world_def moves_def)

definition idle_state :: "event_row list \<Rightarrow> int \<Rightarrow> int sqlite_host dispatcher" where
  "idle_state es w = \<lparr>en_host = \<lparr>sh_db = \<lparr>db_events = es, db_kv = [], db_scan = id, db_faults = []\<rparr>, sh_world = w\<rparr>,
     en_trace = [], d_reclaimOwner = Some ''i1'', d_lastSweepAt = 0, d_summary = new_summary\<rparr>"

definition paid_event :: event_row where
  "paid_event = (inserted_row \<lparr>ie_route_id = ''r1'', ie_source = ''payabli'', ie_event_id = ''e1'', ie_event_type = None,
     ie_payload_enc = [1], ie_payload_iv = [], ie_headers_json = ''{}'', ie_received_at = 0, ie_status = Delivered,
     ie_idempotency_key = ''k1''\<rparr> 1)"

theorem flush_returns_witness:
  "fst (flush (sqlite_host_ops [] coarse_world) demo_config 90000 30000 (idle_state [paid_event] 100)) \<noteq> Inr None"
proof -
  have "wo_now coarse_world (sh_world (en_host (idle_state [paid_event] 100))) = (33, 101)" "sh_world (en_host (idle_state [paid_event] 100)) = 100"
    by (simp_all add: coarse_world_def idle_state_def)
  then show ?thesis
    by (intro flush_returns [OF coarse_time prod.collapse [symmetric]]) simp
qed

text \<open>A call whose driver does not fail.\<close>

lemma run_db_sound: "m d = (Inr x, d') \<Longrightarrow> run_db op m d = (Inr x, d')"
proof -
  assume "m d = (Inr x, d')"
  then have "busy_tries m n d = (Inr x, d')" for n by (cases n) simp_all
  then show ?thesis
    using runSqlite_tries [where pause = pause_db and attempts = BUSY_RETRY_ATTEMPTS and fn = m and op = op and s = d]
    by (simp add: run_db_def pause_db_def ret_def BUSY_RETRY_ATTEMPTS_def)
qed

lemma idle_calls:
  "run_db op (repo_recoverDelivering now owner) \<lparr>db_events = [paid_event], db_kv = [], db_scan = id, db_faults = []\<rparr> =
     (Inr 0, \<lparr>db_events = [paid_event], db_kv = [], db_scan = id, db_faults = []\<rparr>)"
  "run_db op (repo_parkExpired now age) \<lparr>db_events = [paid_event], db_kv = [], db_scan = id, db_faults = []\<rparr> =
     (Inr 0, \<lparr>db_events = [paid_event], db_kv = [], db_scan = id, db_faults = []\<rparr>)"
  "run_db op (repo_routesWithDueEvents now) \<lparr>db_events = [paid_event], db_kv = [], db_scan = id, db_faults = []\<rparr> =
     (Inr [], \<lparr>db_events = [paid_event], db_kv = [], db_scan = id, db_faults = []\<rparr>)"
  "run_db op globalKillswitch \<lparr>db_events = [paid_event], db_kv = [], db_scan = id, db_faults = []\<rparr> =
     (Inr KillNone, \<lparr>db_events = [paid_event], db_kv = [], db_scan = id, db_faults = []\<rparr>)"
  by (rule run_db_sound, simp add: repo_recoverDelivering_def repo_parkExpired_def repo_routesWithDueEvents_def update_events_def statement_def
      paid_event_def inserted_row_def sql_defs due_where_def globalKillswitch_def kv_get_def killswitch_of_text_def bindE_def ret_def)+

lemma idle_cycle:
  "cycle (sqlite_host_ops [] counting_world) demo_config (\<lambda>_. False) (idle_state [paid_event] 101) =
     (Inr new_summary, (idle_state [paid_event] 103)\<lparr>d_reclaimOwner := None\<rparr>)"
  by (simp add: cycle_def sweep_def ask_def host_def zoomE_def bindE_def thenE_def catchE_def getsE_def modifyE_def in_summary_def set_reclaim_def
      ret_def whenE_def Let_def idle_state_def sqlite_host_ops_def host_via_def via_def sqlite_host_store_def store_via_def control_via_def
      sqlite_host_control_def sqlite_control_ops_def sqlite_ops_def idle_calls counting_world_def demo_config_def DEFAULT_DISPATCH_def new_summary_def)

lemma idle_flush:
  "flush (sqlite_host_ops [] counting_world) demo_config 2 30000 (idle_state [paid_event] 100) =
     (Inr (Some (flushed no_counts True None)), (idle_state [paid_event] 104)\<lparr>d_reclaimOwner := None\<rparr>)"
proof -
  let ?D = "sqlite_host_ops [] counting_world"
  have start: "ho_now ?D (en_host (idle_state [paid_event] 100)) = (100, en_host (idle_state [paid_event] 101))"
    by (simp add: sqlite_host_ops_def host_via_def via_def counting_world_def idle_state_def)
  have at101: "(idle_state [paid_event] 100)\<lparr>en_host := en_host (idle_state [paid_event] 101)\<rparr> = idle_state [paid_event] 101"
    by (simp add: idle_state_def)
  let ?s1 = "(idle_state [paid_event] 103)\<lparr>d_reclaimOwner := None\<rparr>" and ?h = "en_host (idle_state [paid_event] 104)"
  have one: "runOnce ?D demo_config (idle_state [paid_event] 101) = (Inr new_summary, ?s1)" by (simp add: runOnce_Inr idle_cycle)
  have t: "ho_now ?D (en_host ?s1) = (103, ?h)"
    by (simp add: sqlite_host_ops_def host_via_def via_def counting_world_def idle_state_def)
  have q: "st_routesWithDueEvents (ho_store ?D) FAR_FUTURE ?h = (Inr [], ?h)"
    by (simp add: sqlite_host_ops_def host_via_def sqlite_host_store_def store_via_def sqlite_ops_def zoomE_def idle_state_def idle_calls)
  have "flush_loop ?D demo_config (100 + int 30000) (Suc 1) FLUSH_POLL_MIN_MS no_counts (idle_state [paid_event] 101) =
      (Inr (Some (flushed (add_counts new_summary no_counts) True None)), ?s1\<lparr>en_host := ?h\<rparr>)"
    unfolding flush_loop_step [OF one t q] by (simp add: new_summary_def)
  moreover have "add_counts new_summary no_counts = no_counts" by (simp add: add_counts_def new_summary_def no_counts_def)
  moreover have "?s1\<lparr>en_host := ?h\<rparr> = (idle_state [paid_event] 104)\<lparr>d_reclaimOwner := None\<rparr>" by (simp add: idle_state_def)
  ultimately show ?thesis
    unfolding flush_def bindE_ask [where g = "ho_now ?D", OF start] at101 by (simp add: numeral_2_eq_2)
qed

theorem flush_reports_witness:
  "filter (\<lambda>r. is_due r FAR_FUTURE) (sh_rows (en_host (idle_state [paid_event] 104))) = [] \<and> fr_drained (flushed no_counts True None)"
proof -
  have "sqlite_ok (sh_db (en_host (idle_state [paid_event] 100)))" by (simp add: idle_state_def sqlite_ok_def)
  moreover have "reclaims sh_rows (cf_instanceId demo_config) (idle_state [paid_event] 100)"
    by (simp add: reclaims_def idle_state_def demo_config_def)
  ultimately show ?thesis using flush_reports [OF _ _ idle_flush] by (simp add: flushed_def)
qed

end
