(* ===== verification/AppDb.thy ===== *)
theory AppDb imports SqliteControl RemoteConfig begin

text \<open>
  The application's database and its configuration: the tables of routes, configuration versions
  and audit entries beside the event store's (\<open>apps/relay/src/db/repo/routes.ts\<close>,
  \<open>db/repo/audit.ts\<close>), and the functions of \<open>apps/relay/src/config/load.ts\<close> and
  \<open>config/store.ts\<close>.  The latest version is the configuration.  A table is the list of its rows in
  the order in which they were inserted; \<open>config_json\<close> is the route it is the JSON text of.  A
  synchronous stretch of code reads the clock once.  The YAML and schema packages are the
  functions of the environment.
\<close>

section \<open>The tables\<close>

record stored_route =
  sr_id :: string
  sr_source :: string
  sr_paused :: nat
  sr_config :: route_config
  sr_updated_at :: int

record config_version =
  cv_id :: nat
  cv_applied_at :: int
  cv_config_hash :: string
  cv_config_yaml :: string
  cv_applied_by :: string

record audit_entry =
  au_id :: nat
  au_at :: int
  au_actor :: string
  au_action :: string
  au_detail_json :: string

record app_db =
  ad_store :: sqlite_db
  ad_routes :: "stored_route list"
  ad_versions :: "config_version list"
  ad_audit :: "audit_entry list"

type_synonym 'a app = "(app_db, exn, 'a) sem"

text \<open>A statement of the store's repositories, and one on the other tables.\<close>

definition store_sql :: "'a sql \<Rightarrow> 'a app" where
  "store_sql m = zoomE ad_store (\<lambda>s d. d\<lparr>ad_store := s\<rparr>) m"

definition app_statement :: "(app_db \<Rightarrow> 'a \<times> app_db) \<Rightarrow> 'a app" where
  "app_statement f = bindE (store_sql (statement (\<lambda>s. ((), s)))) (\<lambda>_ d. case f d of (x, d') \<Rightarrow> (Inr x, d'))"

text \<open>\<open>db.transaction\<close>, which nests as savepoints: whatever throws, every table is as before.\<close>

definition rollback :: "app_db \<Rightarrow> app_db \<Rightarrow> app_db" where
  "rollback d d' = d\<lparr>ad_store := (ad_store d)\<lparr>db_faults := db_faults (ad_store d')\<rparr>\<rparr>"

definition app_transaction :: "'a app \<Rightarrow> 'a app" where
  "app_transaction m d = (case thenE (app_statement (\<lambda>d. ((), d))) (bindE m (\<lambda>x. thenE (app_statement (\<lambda>d. ((), d))) (ret x))) d of
     (Inr x, d') \<Rightarrow> (Inr x, d')
   | (Inl e, d') \<Rightarrow> (Inl e, rollback d d'))"

section \<open>Route definitions\<close>

definition upsert_route :: "int \<Rightarrow> route_config \<Rightarrow> stored_route list \<Rightarrow> stored_route list" where
  "upsert_route now r rows =
     (if r_id r \<in> sr_id ` set rows
      then update_where (\<lambda>x. sr_id x = r_id r) (\<lambda>x. x\<lparr>sr_source := r_source r, sr_config := r, sr_updated_at := now\<rparr>) rows
      else rows @ [\<lparr>sr_id = r_id r, sr_source = r_source r, sr_paused = 0, sr_config = r, sr_updated_at = now\<rparr>])"

text \<open>The ids of the \<open>NOT IN\<close> list; for no routes at all the list is the empty text.\<close>

definition kept_ids :: "route_config list \<Rightarrow> string list" where
  "kept_ids routes = (if routes = [] then [''''] else map r_id routes)"

definition routes_upsertAll :: "int \<Rightarrow> route_config list \<Rightarrow> unit app" where
  "routes_upsertAll now routes = app_transaction
     (thenE (forE (\<lambda>r. app_statement (\<lambda>d. ((), d\<lparr>ad_routes := upsert_route now r (ad_routes d)\<rparr>))) routes)
        (app_statement (\<lambda>d. ((), d\<lparr>ad_routes := filter (\<lambda>x. sr_id x \<in> set (kept_ids routes)) (ad_routes d)\<rparr>))))"

definition routes_get :: "string \<Rightarrow> route_config option app" where
  "routes_get i = app_statement (\<lambda>d. (map_option sr_config (find (\<lambda>x. sr_id x = i) (ad_routes d)), d))"

definition routes_all :: "route_config list app" where
  "routes_all = app_statement (\<lambda>d. (map sr_config (ad_routes d), d))"

section \<open>The audit log\<close>

definition next_id :: "nat list \<Rightarrow> nat" where
  "next_id ids = (if ids = [] then 1 else Suc (Max (set ids)))"

definition audit_log :: "int \<Rightarrow> string \<Rightarrow> string \<Rightarrow> (string \<times> json) list \<Rightarrow> unit app" where
  "audit_log now actor action detail = app_statement (\<lambda>d. ((), d\<lparr>ad_audit := ad_audit d @
     [\<lparr>au_id = next_id (map au_id (ad_audit d)), au_at = now, au_actor = actor, au_action = action,
       au_detail_json = show_json (JObj detail)\<rparr>]\<rparr>))"

section \<open>Parsing a configuration\<close>

record app_env =
  ae_crypto :: crypto
  ae_number :: "string \<Rightarrow> rat option"
  ae_yaml_parse :: "string \<Rightarrow> exn + json"
  ae_yaml_stringify :: "json \<Rightarrow> string"
  ae_schema :: "json \<Rightarrow> exn + route_config list"    \<comment> \<open>\<open>relayConfigSchema.parse\<close>\<close>
  ae_secrets :: secret_resolver

record loaded_config =
  lc_routes :: "route_config list"
  lc_yamlText :: string
  lc_hash :: string

definition builtin_has :: "app_env \<Rightarrow> string \<Rightarrow> bool" where
  "builtin_has E = hasAdapter (ae_crypto E) (ae_number E) (\<lambda>_. None)"

definition config_hash :: "app_env \<Rightarrow> string \<Rightarrow> string" where
  "config_hash E yamlText = ''sha256:'' @ hex (sha256 (ae_crypto E) (utf8 yamlText))"

definition parseConfig :: "app_env \<Rightarrow> string \<Rightarrow> exn + loaded_config" where
  "parseConfig E yamlText = (case ae_yaml_parse E yamlText of
     Inl e \<Rightarrow> Inl e
   | Inr raw \<Rightarrow> (case parseRoutes (ae_schema E) (builtin_has E) None raw of
       Inl e \<Rightarrow> Inl e
     | Inr routes \<Rightarrow> Inr \<lparr>lc_routes = routes, lc_yamlText = yamlText, lc_hash = config_hash E yamlText\<rparr>))"

section \<open>Versions\<close>

text \<open>\<open>ORDER BY id DESC\<close>.\<close>

definition newest_first :: "config_version list \<Rightarrow> config_version list" where
  "newest_first vs = sort_key (\<lambda>v. - int (cv_id v)) vs"

definition latest_version :: "app_db \<Rightarrow> config_version option" where
  "latest_version d = (case newest_first (ad_versions d) of [] \<Rightarrow> None | v # _ \<Rightarrow> Some v)"

definition readActiveConfigRaw :: "string option app" where
  "readActiveConfigRaw = app_statement (\<lambda>d. (map_option cv_config_yaml (latest_version d), d))"

definition active_of :: "app_env \<Rightarrow> string option \<Rightarrow> loaded_config option" where
  "active_of E raw = (case raw of None \<Rightarrow> None | Some y \<Rightarrow> (case parseConfig E y of Inl _ \<Rightarrow> None | Inr l \<Rightarrow> Some l))"

definition getActiveConfig :: "app_env \<Rightarrow> loaded_config option app" where
  "getActiveConfig E = bindE readActiveConfigRaw (\<lambda>raw. ret (active_of E raw))"

text \<open>Flags of routes that are no longer configured are dropped.\<close>

definition drop_pauses :: "route_config list \<Rightarrow> unit app" where
  "drop_pauses routes = bindE (store_sql pausedRoutes) (\<lambda>paused.
     forE (\<lambda>p. whenE (p \<notin> set (map r_id routes)) (store_sql (kv_setRoutePaused p False))) paused)"

definition insert_version :: "int \<Rightarrow> string \<Rightarrow> string \<Rightarrow> string \<Rightarrow> unit app" where
  "insert_version now hash yamlText appliedBy = app_statement (\<lambda>d. ((), d\<lparr>ad_versions := ad_versions d @
     [\<lparr>cv_id = next_id (map cv_id (ad_versions d)), cv_applied_at = now, cv_config_hash = hash, cv_config_yaml = yamlText,
       cv_applied_by = appliedBy\<rparr>]\<rparr>))"

definition apply_version :: "int \<Rightarrow> string \<Rightarrow> string \<Rightarrow> loaded_config \<Rightarrow> unit app" where
  "apply_version now yamlText appliedBy loaded =
     bindE (app_statement (\<lambda>d. (map_option cv_config_hash (latest_version d), d))) (\<lambda>lastHash.
     if lastHash = Some (lc_hash loaded) then ret ()
     else thenE (routes_upsertAll now (lc_routes loaded))
       (thenE (drop_pauses (lc_routes loaded))
       (thenE (insert_version now (lc_hash loaded) yamlText appliedBy)
          (audit_log now appliedBy ''config.apply''
             [(''config_hash'', JStr (lc_hash loaded)), (''routes'', JNum (string_of_nat (length (lc_routes loaded))))]))))"

definition require_secrets :: "secret_resolver \<Rightarrow> route_config list \<Rightarrow> unit app" where
  "require_secrets secrets routes = forE (\<lambda>r. bindE (of_sum (requireSecret secrets (secret_env (r_auth r)))) (\<lambda>_. ret ())) routes"

definition saveConfig :: "app_env \<Rightarrow> int \<Rightarrow> string \<Rightarrow> string \<Rightarrow> loaded_config app" where
  "saveConfig E now yamlText appliedBy =
     bindE (of_sum (parseConfig E yamlText)) (\<lambda>loaded.
     thenE (require_secrets (ae_secrets E) (lc_routes loaded))
     (thenE (app_transaction (apply_version now yamlText appliedBy loaded)) (ret loaded)))"

text \<open>The list leaves the document out: id, time, hash and author.\<close>

definition listConfigVersions :: "nat \<Rightarrow> (nat \<times> int \<times> string \<times> string) list app" where
  "listConfigVersions limit = app_statement (\<lambda>d. (map (\<lambda>v. (cv_id v, cv_applied_at v, cv_config_hash v, cv_applied_by v))
     (take limit (newest_first (ad_versions d))), d))"

definition getConfigVersion :: "nat \<Rightarrow> config_version option app" where
  "getConfigVersion i = app_statement (\<lambda>d. (find (\<lambda>v. cv_id v = i) (ad_versions d), d))"

datatype active_config_state = ConfigOk loaded_config | ConfigEmpty | ConfigInvalid string

text \<open>\<open>file\<close> is what the path of the seed holds: nothing, or its text or the failure to read it.\<close>

definition resolveActiveConfig ::
  "app_env \<Rightarrow> int \<Rightarrow> (string \<Rightarrow> (exn + string) option) \<Rightarrow> string option \<Rightarrow> active_config_state app" where
  "resolveActiveConfig E now file seedPath = bindE readActiveConfigRaw (\<lambda>raw. case raw of
     Some y \<Rightarrow> ret (case parseConfig E y of Inr l \<Rightarrow> ConfigOk l | Inl e \<Rightarrow> ConfigInvalid (message e))
   | None \<Rightarrow> (case non_empty seedPath of
       None \<Rightarrow> ret ConfigEmpty
     | Some path \<Rightarrow> (case file path of
         None \<Rightarrow> ret ConfigEmpty
       | Some content \<Rightarrow> catchE (bindE (of_sum content) (\<lambda>y. bindE (saveConfig E now y ''seed'') (\<lambda>l. ret (ConfigOk l))))
           (\<lambda>e. ret (ConfigInvalid (''seed file '' @ path @ '': '' @ message e))))))"

end
