(* ===== verification/AppDbFacts.thy ===== *)
theory AppDbFacts imports AppDb begin

text \<open>
  What an apply does.  A program that returns has met no failure of the driver, so it did what it
  does on a driver that never fails; there each statement is a function on the tables, and the
  program is computed by rewriting.  One that throws inside a transaction leaves the tables as
  they were.
\<close>

section \<open>Programs that return\<close>

definition calm :: "app_db \<Rightarrow> app_db" where
  "calm d = d\<lparr>ad_store := (ad_store d)\<lparr>db_faults := []\<rparr>\<rparr>"

definition calms :: "'a app \<Rightarrow> bool" where
  "calms m \<longleftrightarrow> (\<forall>d x d'. m d = (Inr x, d') \<longrightarrow> m (calm d) = (Inr x, calm d'))"

named_theorems calm_rules

lemma calm_simps [simp]:
  "ad_routes (calm d) = ad_routes d" "ad_versions (calm d) = ad_versions d" "ad_audit (calm d) = ad_audit d"
  "db_events (ad_store (calm d)) = db_events (ad_store d)" "db_kv (ad_store (calm d)) = db_kv (ad_store d)"
  "db_scan (ad_store (calm d)) = db_scan (ad_store d)" "db_faults (ad_store (calm d)) = []" "calm (calm d) = calm d"
  "latest_version (calm d) = latest_version d" "calm (rollback d d') = calm d"
  by (simp_all add: calm_def latest_version_def rollback_def)

lemma calmsD: "calms m \<Longrightarrow> m d = (Inr x, d') \<Longrightarrow> m (calm d) = (Inr x, calm d')"
  by (simp add: calms_def)

lemma calms_ret [calm_rules]: "calms (ret x)" by (simp add: calms_def ret_def)

lemma calms_of_sum [calm_rules]: "calms (of_sum r)" by (cases r) (simp_all add: calms_def of_sum_def)

lemma calms_bind [calm_rules]: "calms m \<Longrightarrow> (\<And>x. calms (f x)) \<Longrightarrow> calms (bindE m f)"
  by (auto simp: calms_def bindE_Inr_iff)

lemma calms_then [calm_rules]: "calms m \<Longrightarrow> calms k \<Longrightarrow> calms (thenE m k)"
  by (auto simp: calms_def thenE_Inr_iff)

lemma calms_for [calm_rules]: "(\<And>x. calms (f x)) \<Longrightarrow> calms (forE f xs)"
  by (induction xs) (simp_all add: calm_rules)

lemma calms_when [calm_rules]: "calms m \<Longrightarrow> calms (whenE b m)"
  by (simp add: whenE_def calm_rules)

lemma calms_if [calm_rules]: "(b \<Longrightarrow> calms m) \<Longrightarrow> (\<not> b \<Longrightarrow> calms k) \<Longrightarrow> calms (if b then m else k)"
  by simp

definition with_faults :: "app_db \<Rightarrow> exn option list \<Rightarrow> app_db" where
  "with_faults d fs = d\<lparr>ad_store := (ad_store d)\<lparr>db_faults := fs\<rparr>\<rparr>"

lemma calm_with_faults [simp]: "calm (with_faults d fs) = calm d"
  by (simp add: calm_def with_faults_def)

text \<open>A statement ran on the tables it met, or it threw and changed none.\<close>

lemma app_statement_eq:
  "app_statement f d = (case db_faults (ad_store d) of
     [] \<Rightarrow> (Inr (fst (f d)), snd (f d))
   | None # fs \<Rightarrow> (Inr (fst (f (with_faults d fs))), snd (f (with_faults d fs)))
   | Some e # fs \<Rightarrow> (Inl e, with_faults d fs))"
  by (simp add: app_statement_def store_sql_def zoomE_def bindE_def statement_def with_faults_def split_beta
      split: list.splits option.splits)

lemma calms_statement:
  assumes "\<And>d. fst (f (calm d)) = fst (f d)" and "\<And>d. calm (snd (f (calm d))) = calm (snd (f d))"
    and "\<And>d. db_faults (ad_store (snd (f d))) = db_faults (ad_store d)"
  shows "calms (app_statement f)"
  unfolding calms_def
proof (intro allI impI)
  fix d x d' assume "app_statement f d = (Inr x, d')"
  then obtain d0 where d0: "calm d0 = calm d" "x = fst (f d0)" "d' = snd (f d0)"
    by (cases "db_faults (ad_store d)") (auto simp: app_statement_eq split: option.splits, metis calm_with_faults)
  have "db_faults (ad_store (snd (f (calm d)))) = []" by (simp add: assms(3))
  then have "calm (snd (f (calm d))) = snd (f (calm d))" by (simp add: calm_def)
  moreover have "fst (f (calm d)) = x" "calm (snd (f (calm d))) = calm d'"
    using assms(1,2) [of d0] d0 by simp_all
  ultimately show "app_statement f (calm d) = (Inr x, calm d')" by (simp add: app_statement_eq)
qed

lemma calm_tables:
  "calm (d\<lparr>ad_routes := r\<rparr>) = (calm d)\<lparr>ad_routes := r\<rparr>" "calm (d\<lparr>ad_versions := v\<rparr>) = (calm d)\<lparr>ad_versions := v\<rparr>"
  "calm (d\<lparr>ad_audit := a\<rparr>) = (calm d)\<lparr>ad_audit := a\<rparr>"
  by (simp_all add: calm_def)

text \<open>A statement of the store's repositories is one on the whole database.\<close>

lemma store_statement: "store_sql (statement g) = app_statement (\<lambda>d. case g (ad_store d) of (x, s) \<Rightarrow> (x, d\<lparr>ad_store := s\<rparr>))"
  by (rule ext) (auto simp: app_statement_def store_sql_def zoomE_def bindE_def statement_def split: list.splits option.splits prod.splits)

lemma calms_store:
  assumes "\<And>s. fst (g (s\<lparr>db_faults := []\<rparr>)) = fst (g s)" and "\<And>s. (snd (g (s\<lparr>db_faults := []\<rparr>)))\<lparr>db_faults := []\<rparr> = (snd (g s))\<lparr>db_faults := []\<rparr>"
    and "\<And>s. db_faults (snd (g s)) = db_faults s"
  shows "calms (store_sql (statement g))"
  unfolding store_statement
  by (rule calms_statement) (use assms in \<open>auto simp: calm_def split_beta\<close>)

lemma calms_transaction [calm_rules]: "calms m \<Longrightarrow> calms (app_transaction m)"
proof -
  assume "calms m"
  moreover have "calms (app_statement (\<lambda>d. ((), d)))" by (rule calms_statement) simp_all
  ultimately have "calms (thenE (app_statement (\<lambda>d. ((), d))) (bindE m (\<lambda>x. thenE (app_statement (\<lambda>d. ((), d))) (ret x))))"
    by (intro calm_rules)
  then show ?thesis by (fastforce simp: calms_def app_transaction_def split: prod.splits sum.splits)
qed

section \<open>On a driver that does not fail\<close>

lemma statement_calm [simp]:
  "db_faults (ad_store d) = [] \<Longrightarrow> app_statement f d = (Inr (fst (f d)), snd (f d))"
  by (simp add: app_statement_eq)

lemma transaction_calm:
  "db_faults (ad_store d) = [] \<Longrightarrow> m d = (Inr x, d') \<Longrightarrow> db_faults (ad_store d') = [] \<Longrightarrow> app_transaction m d = (Inr x, d')"
  by (simp add: app_transaction_def thenE_def bindE_def ret_def)

lemma transaction_Inl: "app_transaction m d = (Inl e, d') \<Longrightarrow> calm d' = calm d"
  by (auto simp: app_transaction_def split: prod.splits sum.splits)

section \<open>The statements of an apply\<close>

lemma calms_statements [calm_rules]:
  "calms (routes_upsertAll now routes)" "calms (store_sql pausedRoutes)" "calms (store_sql (kv_setRoutePaused i p))"
  "calms (insert_version now h y by)" "calms (audit_log now by' act det)" "calms readActiveConfigRaw"
  "calms (app_statement (\<lambda>d. (map_option cv_config_hash (latest_version d), d)))"
  "calms (store_sql (kv_get k))" "calms (store_sql (kv_set k v))" "calms (store_sql (kv_delete k))"
proof -
  have kv: "calms (store_sql (kv_get k))" "calms (store_sql (kv_set k v))" "calms (store_sql (kv_delete k))" for k v
    unfolding kv_get_def kv_set_def kv_delete_def by (rule calms_store; simp)+
  then show "calms (store_sql (kv_get k))" "calms (store_sql (kv_set k v))" "calms (store_sql (kv_delete k))"
    "calms (store_sql (kv_setRoutePaused i p))" by (simp_all add: kv_setRoutePaused_def)
  show "calms (store_sql pausedRoutes)" unfolding pausedRoutes_def by (rule calms_store) simp_all
  show "calms (routes_upsertAll now routes)" unfolding routes_upsertAll_def
    by (intro calm_rules calms_statement) (simp_all add: calm_tables)
  show "calms (insert_version now h y by)" "calms (audit_log now by' act det)" "calms readActiveConfigRaw"
    "calms (app_statement (\<lambda>d. (map_option cv_config_hash (latest_version d), d)))"
    unfolding insert_version_def audit_log_def readActiveConfigRaw_def by (rule calms_statement; simp add: calm_tables)+
qed

lemma calms_apply: "calms (apply_version now y by loaded)"
  unfolding apply_version_def drop_pauses_def by (intro calm_rules)

lemma calms_saveConfig: "calms (saveConfig E now y by)"
  unfolding saveConfig_def require_secrets_def by (intro calm_rules calms_apply)

section \<open>What the routes table serves\<close>

definition route_at :: "stored_route list \<Rightarrow> string \<Rightarrow> route_config option" where
  "route_at rows i = map_option sr_config (find (\<lambda>x. sr_id x = i) rows)"

definition upserted :: "int \<Rightarrow> route_config list \<Rightarrow> stored_route list \<Rightarrow> stored_route list" where
  "upserted now routes rows = filter (\<lambda>x. sr_id x \<in> set (kept_ids routes)) (fold (upsert_route now) routes rows)"

lemma find_append: "find P (xs @ ys) = (case find P xs of None \<Rightarrow> find P ys | Some x \<Rightarrow> Some x)"
  by (induction xs) auto

lemma find_update_other:
  "i \<noteq> j \<Longrightarrow> find (\<lambda>x. sr_id x = i) (update_where (\<lambda>x. sr_id x = j) (\<lambda>x. x\<lparr>sr_source := a, sr_config := b, sr_updated_at := c\<rparr>) rows) =
     find (\<lambda>x. sr_id x = i) rows"
  by (induction rows) auto

lemma find_update_same:
  "i \<in> sr_id ` set rows \<Longrightarrow> \<exists>x. find (\<lambda>x. sr_id x = i)
     (update_where (\<lambda>x. sr_id x = i) (\<lambda>x. x\<lparr>sr_source := a, sr_config := b, sr_updated_at := c\<rparr>) rows) = Some x \<and> sr_config x = b"
  by (induction rows) auto

lemma find_none_id: "i \<notin> sr_id ` set rows \<Longrightarrow> find (\<lambda>x. sr_id x = i) rows = None"
  by (auto simp: find_None_iff)

lemma route_at_upsert: "route_at (upsert_route now r rows) i = (if i = r_id r then Some r else route_at rows i)"
proof (cases "r_id r \<in> sr_id ` set rows")
  case True
  with find_update_same [OF this, where a = "r_source r" and b = r and c = now] show ?thesis
    by (auto simp: route_at_def upsert_route_def find_update_other)
next
  case False
  then show ?thesis by (auto simp: route_at_def upsert_route_def find_append find_none_id split: option.splits)
qed

lemma route_at_fold:
  "distinct (map r_id routes) \<Longrightarrow> route_at (fold (upsert_route now) routes rows) i =
     (case map_of (map (\<lambda>r. (r_id r, r)) routes) i of Some r \<Rightarrow> Some r | None \<Rightarrow> route_at rows i)"
proof (induction routes arbitrary: rows)
  case (Cons r routes)
  then have "r_id r \<notin> r_id ` set routes" by simp
  then have "map_of (map (\<lambda>r. (r_id r, r)) routes) (r_id r) = None" by (auto simp: map_of_eq_None_iff)
  with Cons show ?case by (auto simp: route_at_upsert split: option.splits)
qed simp

lemma route_at_filter: "route_at (filter (\<lambda>x. sr_id x \<in> K) rows) i = (if i \<in> K then route_at rows i else None)"
  by (induction rows) (auto simp: route_at_def find_None_iff)

text \<open>The table serves the routes of the list that was stored, and no others.\<close>

lemma route_at_upserted:
  assumes "distinct (map r_id routes)" and "i \<noteq> []"
  shows "route_at (upserted now routes rows) i = staticRoutes_get routes i"
proof -
  have "map_of (map (\<lambda>r. (r_id r, r)) routes) i = None \<longleftrightarrow> i \<notin> set (map r_id routes)" by (force simp: map_of_eq_None_iff)
  then show ?thesis using assms
    by (auto simp: upserted_def route_at_filter route_at_fold kept_ids_def staticRoutes_get_def routes_by_id_distinct split: option.splits)
qed

lemma upsertAll_loop:
  "db_faults (ad_store d) = [] \<Longrightarrow> forE (\<lambda>r. app_statement (\<lambda>d. ((), d\<lparr>ad_routes := upsert_route now r (ad_routes d)\<rparr>))) routes d =
     (Inr (), d\<lparr>ad_routes := fold (upsert_route now) routes (ad_routes d)\<rparr>)"
  by (induction routes arbitrary: d) (simp_all add: thenE_def bindE_def ret_def)

lemma upsertAll_calm:
  "db_faults (ad_store d) = [] \<Longrightarrow> routes_upsertAll now routes d = (Inr (), d\<lparr>ad_routes := upserted now routes (ad_routes d)\<rparr>)"
  unfolding routes_upsertAll_def
  by (rule transaction_calm) (simp_all add: thenE_def bindE_def upsertAll_loop upserted_def)

section \<open>Pauses\<close>

definition unpaused :: "string list \<Rightarrow> route_config list \<Rightarrow> (string \<times> string) list \<Rightarrow> (string \<times> string) list" where
  "unpaused ps routes kv = fold (\<lambda>p kv. if p \<in> set (map r_id routes) then kv else filter (\<lambda>q. fst q \<noteq> ROUTE_PAUSED_PREFIX @ p) kv) ps kv"

definition paused_list :: "(string \<times> string) list \<Rightarrow> string list" where
  "paused_list kv = remdups (map (\<lambda>p. drop (length ROUTE_PAUSED_PREFIX) (fst p))
     (filter (\<lambda>p. like_prefix ROUTE_PAUSED_PREFIX (fst p) \<and> snd p = ''1'') kv))"

definition with_kv :: "app_db \<Rightarrow> (string \<times> string) list \<Rightarrow> app_db" where
  "with_kv d kv = d\<lparr>ad_store := (ad_store d)\<lparr>db_kv := kv\<rparr>\<rparr>"

lemma with_kv_simps [simp]:
  "ad_routes (with_kv d kv) = ad_routes d" "ad_versions (with_kv d kv) = ad_versions d" "ad_audit (with_kv d kv) = ad_audit d"
  "db_kv (ad_store (with_kv d kv)) = kv" "db_faults (ad_store (with_kv d kv)) = db_faults (ad_store d)"
  "db_events (ad_store (with_kv d kv)) = db_events (ad_store d)"
  "latest_version (with_kv d kv) = latest_version d" "with_kv (with_kv d a) b = with_kv d b" "with_kv d (db_kv (ad_store d)) = d"
  by (simp_all add: with_kv_def latest_version_def)

lemma kv_calm [simp]:
  assumes "db_faults (ad_store d) = []"
  shows "store_sql (kv_get k) d = (Inr (map_of (db_kv (ad_store d)) k), d)"
    and "store_sql (kv_set k v) d = (Inr (), with_kv d (AList.update k v (db_kv (ad_store d))))"
    and "store_sql (kv_delete k) d = (Inr (), with_kv d (filter (\<lambda>p. fst p \<noteq> k) (db_kv (ad_store d))))"
    and "store_sql pausedRoutes d = (Inr (paused_list (db_kv (ad_store d))), d)"
  using assms by (simp_all add: kv_get_def kv_set_def kv_delete_def pausedRoutes_def store_statement with_kv_def paused_list_def)

lemma drop_loop:
  "db_faults (ad_store d) = [] \<Longrightarrow> forE (\<lambda>p. whenE (p \<notin> set (map r_id routes)) (store_sql (kv_setRoutePaused p False))) ps d =
     (Inr (), with_kv d (unpaused ps routes (db_kv (ad_store d))))"
  by (induction ps arbitrary: d) (simp_all add: unpaused_def thenE_def bindE_def ret_def whenE_def kv_setRoutePaused_def)

lemma drop_pauses_calm:
  "db_faults (ad_store d) = [] \<Longrightarrow>
     drop_pauses routes d = (Inr (), with_kv d (unpaused (paused_list (db_kv (ad_store d))) routes (db_kv (ad_store d))))"
  by (simp add: drop_pauses_def bindE_def drop_loop del: set_map)

lemma map_of_unpaused:
  "map_of (unpaused ps routes kv) k = (if \<exists>p\<in>set ps. p \<notin> set (map r_id routes) \<and> k = ROUTE_PAUSED_PREFIX @ p then None else map_of kv k)"
  unfolding unpaused_def by (induction ps arbitrary: kv) (auto simp: map_of_without)

text \<open>Every paused route is among those the query lists, so exactly the configured ones stay paused.\<close>

lemma unpaused_view:
  assumes "snd (kv_view s) = P"
  shows "{rt. map_of (unpaused (paused_list (db_kv s)) routes (db_kv s)) (ROUTE_PAUSED_PREFIX @ rt) = Some ''1''} = P \<inter> set (map r_id routes)"
proof -
  have listed: "rt \<in> set (paused_list (db_kv s))" if "map_of (db_kv s) (ROUTE_PAUSED_PREFIX @ rt) = Some ''1''" for rt
    using map_of_SomeD [OF that] like_prefix_refl [of ROUTE_PAUSED_PREFIX rt] by (force simp: paused_list_def)
  show ?thesis using assms listed by (auto simp: kv_view_def map_of_unpaused)
qed

section \<open>The effect of an apply\<close>

definition new_version :: "app_db \<Rightarrow> int \<Rightarrow> string \<Rightarrow> string \<Rightarrow> string \<Rightarrow> config_version" where
  "new_version d now hash yamlText appliedBy = \<lparr>cv_id = next_id (map cv_id (ad_versions d)), cv_applied_at = now,
     cv_config_hash = hash, cv_config_yaml = yamlText, cv_applied_by = appliedBy\<rparr>"

definition apply_entry :: "app_db \<Rightarrow> int \<Rightarrow> string \<Rightarrow> loaded_config \<Rightarrow> audit_entry" where
  "apply_entry d now appliedBy l = \<lparr>au_id = next_id (map au_id (ad_audit d)), au_at = now, au_actor = appliedBy, au_action = ''config.apply'',
     au_detail_json = show_json (JObj [(''config_hash'', JStr (lc_hash l)), (''routes'', JNum (string_of_nat (length (lc_routes l))))])\<rparr>"

definition applied :: "int \<Rightarrow> string \<Rightarrow> string \<Rightarrow> loaded_config \<Rightarrow> app_db \<Rightarrow> app_db" where
  "applied now yamlText appliedBy l d =
     with_kv (d\<lparr>ad_routes := upserted now (lc_routes l) (ad_routes d),
        ad_versions := ad_versions d @ [new_version d now (lc_hash l) yamlText appliedBy],
        ad_audit := ad_audit d @ [apply_entry d now appliedBy l]\<rparr>)
       (unpaused (paused_list (db_kv (ad_store d))) (lc_routes l) (db_kv (ad_store d)))"

definition unchanged_version :: "app_db \<Rightarrow> loaded_config \<Rightarrow> bool" where
  "unchanged_version d l \<longleftrightarrow> map_option cv_config_hash (latest_version d) = Some (lc_hash l)"

lemma apply_calm:
  assumes "db_faults (ad_store d) = []"
  shows "apply_version now y by' l d = (Inr (), if unchanged_version d l then d else applied now y by' l d)"
  using assms
  by (simp add: apply_version_def bindE_def thenE_def ret_def upsertAll_calm drop_pauses_calm insert_version_def audit_log_def
      unchanged_version_def applied_def new_version_def apply_entry_def) (auto simp: with_kv_def)

lemma secrets_calm: "require_secrets S routes d = (r, d') \<Longrightarrow> d' = d \<and>
    (r = Inr () \<longleftrightarrow> list_all (\<lambda>x. sec_resolve S (secret_env (r_auth x)) \<noteq> None) routes)"
  unfolding require_secrets_def
proof (induction routes)
  case (Cons x routes)
  then show ?case
    by (cases "sec_resolve S (secret_env (r_auth x))") (auto simp: thenE_def bindE_def of_sum_def ret_def requireSecret_def)
qed (auto simp: ret_def)

lemma unchanged_calm [simp]: "unchanged_version (calm d) l = unchanged_version d l"
  by (simp add: unchanged_version_def)

text \<open>The document and its secrets are checked before the transaction begins.\<close>

lemma saveConfig_cases:
  assumes "saveConfig E now y by' d = (r, d')"
  obtains (refused) e where "r = Inl e" "d' = d"
  | (tried) l t where "parseConfig E y = Inr l" "list_all (\<lambda>x. sec_resolve (ae_secrets E) (secret_env (r_auth x)) \<noteq> None) (lc_routes l)"
      "app_transaction (apply_version now y by' l) d = (t, d')" "r = map_sum id (\<lambda>_. l) t"
proof (cases "parseConfig E y")
  case (Inl e)
  with assms have "r = Inl e" "d' = d" by (simp_all add: saveConfig_def bindE_def of_sum_def)
  then show ?thesis by (rule refused)
next
  case (Inr l)
  obtain q d1 where q: "require_secrets (ae_secrets E) (lc_routes l) d = (q, d1)" by fastforce
  note s = secrets_calm [OF q]
  show ?thesis
  proof (cases q)
    case (Inl e)
    with assms Inr q s have "r = Inl e" "d' = d" by (simp_all add: saveConfig_def bindE_def of_sum_def thenE_def)
    then show ?thesis by (rule refused)
  next
    case (Inr u)
    obtain t d2 where t: "app_transaction (apply_version now y by' l) d = (t, d2)" by fastforce
    have "r = map_sum id (\<lambda>_. l) t" "d' = d2"
      using assms \<open>parseConfig E y = Inr l\<close> q Inr s t
      by (cases t; simp add: saveConfig_def bindE_def of_sum_def thenE_def ret_def)+
    with tried \<open>parseConfig E y = Inr l\<close> Inr s t show ?thesis by simp
  qed
qed

lemma saveConfig_Inl:
  assumes "saveConfig E now y by' d = (Inl e, d')"
  shows "calm d' = calm d"
  using assms
proof (cases rule: saveConfig_cases)
  case (tried l t)
  then show ?thesis by (cases t) (auto dest: transaction_Inl)
qed simp

lemma saveConfig_Inr:
  assumes "saveConfig E now y by' d = (Inr l, d')"
  shows "parseConfig E y = Inr l \<and> list_all (\<lambda>x. sec_resolve (ae_secrets E) (secret_env (r_auth x)) \<noteq> None) (lc_routes l) \<and>
    calm d' = (if unchanged_version d l then calm d else applied now y by' l (calm d))"
  using assms
proof (cases rule: saveConfig_cases)
  case (tried l' t)
  have t: "l' = l" "t = Inr ()" using tried(4) by (cases t; simp)+
  have "calms (app_transaction (apply_version now y by' l))" by (intro calm_rules calms_apply)
  from calmsD [OF this tried(3) [unfolded t]] have run: "app_transaction (apply_version now y by' l) (calm d) = (Inr (), calm d')" .
  have "app_transaction (apply_version now y by' l) (calm d) =
      (Inr (), if unchanged_version (calm d) l then calm d else applied now y by' l (calm d))"
    by (rule transaction_calm) (simp_all add: apply_calm, simp add: applied_def with_kv_def)
  with run have "calm d' = (if unchanged_version d l then calm d else applied now y by' l (calm d))" by simp
  with tried(1,2) t show ?thesis by simp
qed simp

lemma saveConfig_calm:
  assumes "db_faults (ad_store d) = []" and "parseConfig E y = Inr l"
    and "list_all (\<lambda>x. sec_resolve (ae_secrets E) (secret_env (r_auth x)) \<noteq> None) (lc_routes l)"
  shows "saveConfig E now y by' d = (Inr l, if unchanged_version d l then d else applied now y by' l d)"
proof -
  have "app_transaction (apply_version now y by' l) d = (Inr (), if unchanged_version d l then d else applied now y by' l d)"
    by (rule transaction_calm) (simp_all add: apply_calm assms(1), simp add: applied_def with_kv_def assms(1))
  moreover have "require_secrets (ae_secrets E) (lc_routes l) d = (Inr (), d)"
    using secrets_calm [of "ae_secrets E" "lc_routes l" d] assms(3)
    by (cases "require_secrets (ae_secrets E) (lc_routes l) d") blast
  ultimately show ?thesis by (simp add: saveConfig_def bindE_def thenE_def of_sum_def ret_def assms(2))
qed

lemma next_id_greater: "i \<in> set ids \<Longrightarrow> i < next_id ids"
  by (auto simp: next_id_def less_Suc_eq_le)

lemma sort_key_snoc_least: "(\<And>v. v \<in> set vs \<Longrightarrow> f x < f v) \<Longrightarrow> sort_key f (vs @ [x]) = x # sort_key f vs"
proof (induction vs)
  case (Cons a vs)
  then have "sort_key f (vs @ [x]) = x # sort_key f vs" "\<not> f a \<le> f x" by (simp_all add: not_le)
  then show ?case by simp
qed simp

lemma latest_applied: "latest_version (applied now y by' l d) = Some (new_version d now (lc_hash l) y by')"
proof -
  have "newest_first (ad_versions d @ [new_version d now (lc_hash l) y by']) = new_version d now (lc_hash l) y by' # newest_first (ad_versions d)"
    unfolding newest_first_def by (rule sort_key_snoc_least) (simp add: new_version_def next_id_greater)
  then show ?thesis by (simp add: latest_version_def applied_def with_kv_def)
qed

lemma parseConfig_Inr:
  "parseConfig E y = Inr l \<Longrightarrow> distinct (map r_id (lc_routes l)) \<and> lc_hash l = config_hash E y \<and> lc_yamlText l = y"
  by (auto simp: parseConfig_def parseRoutes_iff split: sum.splits)

lemma view_calm [simp]: "kv_view (ad_store (calm d)) = kv_view (ad_store d)"
  by (simp add: kv_view_def)

lemma unpaused_killswitch: "map_of (unpaused ps routes kv) ''killswitch.global'' = map_of kv ''killswitch.global''"
  by (simp add: map_of_unpaused)

lemma view_applied:
  "kv_view (ad_store (applied now y by' l d)) =
     (fst (kv_view (ad_store d)), snd (kv_view (ad_store d)) \<inter> set (map r_id (lc_routes l)))"
  using unpaused_view [of "ad_store d" _ "lc_routes l"]
  by (simp add: applied_def with_kv_def) (simp add: kv_view_def unpaused_killswitch)

lemma save_outcome:
  assumes "saveConfig E now y by' d = (r, d')"
  shows "case r of
      Inl e \<Rightarrow> calm d' = calm d
    | Inr l \<Rightarrow> parseConfig E y = Inr l \<and> list_all (\<lambda>x. sec_resolve (ae_secrets E) (secret_env (r_auth x)) \<noteq> None) (lc_routes l) \<and>
        db_events (ad_store d') = db_events (ad_store d) \<and>
        (if unchanged_version d l then calm d' = calm d
         else latest_version d' = Some (new_version d now (lc_hash l) y by') \<and>
           (\<forall>i. i = [] \<or> route_at (ad_routes d') i = staticRoutes_get (lc_routes l) i) \<and>
           kv_view (ad_store d') = (fst (kv_view (ad_store d)), snd (kv_view (ad_store d)) \<inter> set (map r_id (lc_routes l))) \<and>
           ad_versions d' = ad_versions d @ [new_version d now (lc_hash l) y by'] \<and>
           ad_audit d' = ad_audit d @ [apply_entry d now by' l])"
proof (cases r)
  case (Inl e)
  with assms show ?thesis by (simp add: saveConfig_Inl)
next
  case (Inr l)
  from saveConfig_Inr [OF assms [unfolded Inr]]
  have l: "parseConfig E y = Inr l" "list_all (\<lambda>x. sec_resolve (ae_secrets E) (secret_env (r_auth x)) \<noteq> None) (lc_routes l)"
    and d': "calm d' = (if unchanged_version d l then calm d else applied now y by' l (calm d))" by blast+
  have same: "db_events (ad_store d') = db_events (ad_store (calm d'))" "latest_version d' = latest_version (calm d')"
    "ad_routes d' = ad_routes (calm d')" "kv_view (ad_store d') = kv_view (ad_store (calm d'))"
    "ad_versions d' = ad_versions (calm d')" "ad_audit d' = ad_audit (calm d')" by simp_all
  show ?thesis
  proof (cases "unchanged_version d l")
    case True
    with d' l Inr show ?thesis unfolding same by simp
  next
    case False
    then have d': "calm d' = applied now y by' l (calm d)" using d' by simp
    have "route_at (upserted now (lc_routes l) rows) i = staticRoutes_get (lc_routes l) i" if "i \<noteq> []" for rows i
      using route_at_upserted parseConfig_Inr [OF l(1)] that by blast
    then show ?thesis unfolding same d' using False l Inr
      by (simp add: latest_applied view_applied del: set_map) (auto simp: applied_def new_version_def apply_entry_def with_kv_def)
  qed
qed

text \<open>
  \<^bold>\<open>C12.\<close> Applying a document is all or nothing.  If it throws, at whichever statement, every table is as
  before.  If it returns, the document passed every check and its secrets are set; a document
  that is already the latest version changes nothing; any other becomes the latest version, the
  routes table serves its routes and no others, pauses of routes it does not have are dropped
  and no other operator state or event is touched, and the apply is in the audit log.
\<close>

theorem saveConfig_atomic:
  assumes "saveConfig E now y by' d = (r, d')"
  shows "case r of
      Inl e \<Rightarrow> calm d' = calm d
    | Inr l \<Rightarrow> parseConfig E y = Inr l \<and> list_all (\<lambda>x. sec_resolve (ae_secrets E) (secret_env (r_auth x)) \<noteq> None) (lc_routes l) \<and>
        db_events (ad_store d') = db_events (ad_store d) \<and>
        (if unchanged_version d l then calm d' = calm d
         else latest_version d' = Some (new_version d now (lc_hash l) y by') \<and>
           (\<forall>i. i = [] \<or> route_at (ad_routes d') i = staticRoutes_get (lc_routes l) i) \<and>
           kv_view (ad_store d') = (fst (kv_view (ad_store d)), snd (kv_view (ad_store d)) \<inter> set (map r_id (lc_routes l))) \<and>
           ad_versions d' = ad_versions d @ [new_version d now (lc_hash l) y by'] \<and>
           ad_audit d' = ad_audit d @ [apply_entry d now by' l])"
  by (rule save_outcome [OF assms])

text \<open>A first document over a database that still has a paused route of an older one.\<close>

definition demo_app_env :: app_env where
  "demo_app_env = \<lparr>ae_crypto = toy_crypto, ae_number = (\<lambda>_. None), ae_yaml_parse = (\<lambda>_. Inr hosted_document),
     ae_yaml_stringify = (\<lambda>_. ''routes: []''), ae_schema = (\<lambda>_. Inr [hosted_route]),
     ae_secrets = staticSecrets (\<lambda>n. if n = ''S'' then Some ''secret'' else None)\<rparr>"

definition paused_db :: app_db where
  "paused_db = \<lparr>ad_store = \<lparr>db_events = [], db_kv = [(''route_paused.old'', ''1''), (''killswitch.global'', ''pause'')],
       db_scan = id, db_faults = []\<rparr>, ad_routes = [], ad_versions = [], ad_audit = []\<rparr>"

definition demo_loaded :: "string \<Rightarrow> loaded_config" where
  "demo_loaded y = \<lparr>lc_routes = [hosted_route], lc_yamlText = y, lc_hash = ''sha256:'' @ hex (utf8 y)\<rparr>"

lemma demo_has: "hasAdapter toy_crypto (\<lambda>_. None) (\<lambda>_. None) ''payabli''"
  by (simp add: hasAdapter_def lookup_adapter_def builtin_adapter_def)

lemma demo_app_env_simps:
  "ae_crypto demo_app_env = toy_crypto" "ae_number demo_app_env = (\<lambda>_. None)" "ae_yaml_parse demo_app_env = (\<lambda>_. Inr hosted_document)"
  "ae_schema demo_app_env = (\<lambda>_. Inr [hosted_route])" "ae_secrets demo_app_env = staticSecrets (\<lambda>n. if n = ''S'' then Some ''secret'' else None)"
  "ae_yaml_stringify demo_app_env = (\<lambda>_. ''routes: []'')" "sha256 toy_crypto = (\<lambda>m. m)"
  by (simp_all add: demo_app_env_def toy_crypto_def)

lemma demo_parsed: "parseConfig demo_app_env y = Inr (demo_loaded y)"
proof -
  have "parseRoutes (\<lambda>_. Inr [hosted_route]) (hasAdapter toy_crypto (\<lambda>_. None) (\<lambda>_. None)) None hosted_document = Inr [hosted_route]"
    by (simp add: parseRoutes_def hosted_route_def demo_has routeEnrichments_def)
  then show ?thesis
    by (simp add: parseConfig_def builtin_has_def demo_loaded_def config_hash_def demo_app_env_simps)
qed

lemma demo_secrets: "list_all (\<lambda>x. sec_resolve (ae_secrets demo_app_env) (secret_env (r_auth x)) \<noteq> None) (lc_routes (demo_loaded y))"
  by (simp add: demo_app_env_def demo_loaded_def staticSecrets_def hosted_route_def)

theorem saveConfig_atomic_witness:
  "route_at (ad_routes (snd (saveConfig demo_app_env 5 ''doc'' ''admin'' paused_db))) ''r1'' = staticRoutes_get [hosted_route] ''r1'' \<and>
   kv_view (ad_store (snd (saveConfig demo_app_env 5 ''doc'' ''admin'' paused_db))) = (KillPause, {})"
proof -
  have "saveConfig demo_app_env 5 ''doc'' ''admin'' paused_db =
      (Inr (demo_loaded ''doc''), applied 5 ''doc'' ''admin'' (demo_loaded ''doc'') paused_db)"
    using saveConfig_calm [OF _ demo_parsed demo_secrets, of paused_db 5 "''doc''" "''admin''"]
    by (simp add: unchanged_version_def latest_version_def newest_first_def paused_db_def)
  moreover have "\<not> unchanged_version paused_db (demo_loaded ''doc'')"
    by (simp add: unchanged_version_def latest_version_def newest_first_def paused_db_def)
  moreover have "kv_view (ad_store paused_db) = (KillPause, {''old''})"
    by (auto simp: kv_view_def paused_db_def killswitch_of_text_def ROUTE_PAUSED_PREFIX_def)
  moreover have "lc_routes (demo_loaded ''doc'') = [hosted_route]" "r_id hosted_route = ''r1''"
    by (simp_all add: demo_loaded_def hosted_route_def)
  ultimately show ?thesis
    using saveConfig_atomic [of demo_app_env 5 "''doc''" "''admin''" paused_db] by (auto dest: spec [of _ "''r1''"])
qed

end
