(* ===== verification/ManagedConfig.thy ===== *)
theory ManagedConfig imports AppDbFacts begin

text \<open>
  Who owns the application's configuration (\<open>apps/relay/src/config/remote.ts\<close>): one question to
  End Close with what is stored of the answer, and the manager that remembers the last answer.
  Every error of a fetch is a \<open>RemoteConfigError\<close> (theory \<open>RemoteConfig\<close>), so the branch that throws
  any other on is not there.  Logging is left out.
\<close>

section \<open>Asking End Close\<close>

definition REMOTE_ACTOR :: string where "REMOTE_ACTOR = ''endclose''"
definition ETAG_KEY :: string where "ETAG_KEY = ''remote_config.etag''"
definition HASH_KEY :: string where "HASH_KEY = ''remote_config.hash''"
definition ENVIRONMENT_KEY :: string where "ENVIRONMENT_KEY = ''remote_config.environment''"

datatype disabled_reason = ByEnv | NoApiKey

text \<open>\<open>loaded\<close> is asserted to be there with \<open>stored!\<close>; a missing document is \<open>None\<close>.\<close>

datatype remote_check =
    Managed "loaded_config option" bool "string option"   \<comment> \<open>loaded, changed, environment\<close>
  | Unmanaged
  | Disabled disabled_reason
  | CheckFailed string bool                               \<comment> \<open>error, retryable\<close>

record 'h check_options =
  ck_client :: "'h endclose_client"
  ck_apiKey :: string
  ck_enabled :: bool
  ck_json_parse :: "string \<Rightarrow> exn + json"
  ck_now :: "'h \<Rightarrow> int \<times> 'h"

record 'h app_world =
  aw_db :: app_db
  aw_host :: 'h

definition on_db :: "'a app \<Rightarrow> ('h app_world, exn, 'a) sem" where
  "on_db m = zoomE aw_db (\<lambda>d w. w\<lparr>aw_db := d\<rparr>) m"

definition kv_at :: "string \<Rightarrow> ('h app_world, exn, string option) sem" where "kv_at k = on_db (store_sql (kv_get k))"
definition kv_put :: "string \<Rightarrow> string \<Rightarrow> ('h app_world, exn, unit) sem" where "kv_put k v = on_db (store_sql (kv_set k v))"
definition kv_drop :: "string \<Rightarrow> ('h app_world, exn, unit) sem" where "kv_drop k = on_db (store_sql (kv_delete k))"

definition remoteConfigToYaml :: "app_env \<Rightarrow> remote_config \<Rightarrow> string" where
  "remoteConfigToYaml E config =
     ''# Configuration managed by End Close (GET /relays/config).'' @ [CHR 0x0A] @
     ''# Edit it in End Close; changes reach this relay within a minute. The local editor'' @ [CHR 0x0A] @
     ''# is locked while End Close manages this environment.'' @ [CHR 0x0A] @
     ae_yaml_stringify E (rc_document config)"

definition wasManagedByEndClose :: "app_env \<Rightarrow> bool app" where
  "wasManagedByEndClose E = bindE (getActiveConfig E) (\<lambda>stored. case stored of
     None \<Rightarrow> ret False
   | Some l \<Rightarrow> bindE (store_sql (kv_get HASH_KEY)) (\<lambda>h. ret (h = Some (lc_hash l))))"

text \<open>\<open>fetchRemoteConfig\<close> with the defaults of its options.\<close>

definition fetchRemoteConfig ::
  "app_env \<Rightarrow> 'h check_options \<Rightarrow> string option \<Rightarrow> ('h app_world, exn, remote_error + remote_config option) sem" where
  "fetchRemoteConfig E opts ifNoneMatch w =
     (case fetchDocument \<lparr>env_client = ck_client opts, env_json_parse = ck_json_parse opts, env_schema = ae_schema E, env_now = ck_now opts\<rparr>
        \<lparr>fo_has = builtin_has E, fo_enrichments = None, fo_timeoutMs = None\<rparr> ifNoneMatch (aw_host w) of
      (outcome, h) \<Rightarrow> (Inr outcome, w\<lparr>aw_host := h\<rparr>))"

definition app_clock :: "'h check_options \<Rightarrow> ('h app_world, exn, int) sem" where
  "app_clock opts w = (case ck_now opts (aw_host w) of (t, h) \<Rightarrow> (Inr t, w\<lparr>aw_host := h\<rparr>))"

definition attemptE :: "('s, 'e, 'a) sem \<Rightarrow> ('s, 'e, 'e + 'a) sem" where
  "attemptE m s = (case m s of (r, s') \<Rightarrow> (Inr r, s'))"

definition isStoreError :: "exn \<Rightarrow> bool" where
  "isStoreError e = (case e of CodedError _ code \<Rightarrow> starts_with ''SQLITE'' code | _ \<Rightarrow> False)"

text \<open>The entity tag to send: that of the stored document, when it still is End Close's.\<close>

definition conditional_etag :: "loaded_config option \<Rightarrow> ('h app_world, exn, string option) sem" where
  "conditional_etag stored = (case stored of
     None \<Rightarrow> ret None
   | Some l \<Rightarrow> bindE (kv_at HASH_KEY) (\<lambda>h. if h = Some (lc_hash l) then bindE (kv_at ETAG_KEY) (\<lambda>t. ret (non_empty t)) else ret None))"

definition keep_answer :: "remote_config \<Rightarrow> loaded_config \<Rightarrow> ('h app_world, exn, unit) sem" where
  "keep_answer config loaded =
     thenE (case non_empty (rc_etag config) of
         Some t \<Rightarrow> thenE (kv_put ETAG_KEY t) (kv_put HASH_KEY (lc_hash loaded))
       | None \<Rightarrow> thenE (kv_drop ETAG_KEY) (kv_drop HASH_KEY))
       (case non_empty (rc_environment config) of Some v \<Rightarrow> kv_put ENVIRONMENT_KEY v | None \<Rightarrow> kv_drop ENVIRONMENT_KEY)"

text \<open>A fetched document is saved, and what identifies the answer is kept.\<close>

definition store_document :: "app_env \<Rightarrow> loaded_config option \<Rightarrow> remote_config \<Rightarrow> int \<Rightarrow> ('h app_world, exn, remote_check) sem" where
  "store_document E stored config now =
     bindE (attemptE (on_db (saveConfig E now (remoteConfigToYaml E config) REMOTE_ACTOR))) (\<lambda>saved. case saved of
       Inl e \<Rightarrow> ret (CheckFailed (''configuration from End Close could not be applied: '' @ message e) (isStoreError e))
     | Inr loaded \<Rightarrow> thenE (keep_answer config loaded)
         (ret (Managed (Some loaded) (map_option lc_hash stored \<noteq> Some (lc_hash loaded)) (rc_environment config))))"

definition forget_answer :: "('h app_world, exn, unit) sem" where
  "forget_answer = thenE (kv_drop ETAG_KEY) (thenE (kv_drop HASH_KEY) (kv_drop ENVIRONMENT_KEY))"

definition settle_answer ::
  "app_env \<Rightarrow> 'h check_options \<Rightarrow> loaded_config option \<Rightarrow> remote_error + remote_config option \<Rightarrow> ('h app_world, exn, remote_check) sem" where
  "settle_answer E opts stored fetched = (case fetched of
       Inl err \<Rightarrow> if re_kind err = NotFound then thenE forget_answer (ret Unmanaged)
         else ret (CheckFailed (re_message err) (retryable err))
     | Inr None \<Rightarrow> bindE (kv_at ENVIRONMENT_KEY) (\<lambda>environment. ret (Managed stored False (non_empty environment)))
     | Inr (Some config) \<Rightarrow> bindE (app_clock opts) (\<lambda>now. store_document E stored config now))"

definition checkEndCloseInner :: "app_env \<Rightarrow> 'h check_options \<Rightarrow> ('h app_world, exn, remote_check) sem" where
  "checkEndCloseInner E opts =
     bindE (on_db (getActiveConfig E)) (\<lambda>stored.
     bindE (conditional_etag stored) (\<lambda>etag.
     bindE (fetchRemoteConfig E opts etag) (\<lambda>fetched. settle_answer E opts stored fetched)))"

text \<open>It never throws.\<close>

definition checkEndClose :: "app_env \<Rightarrow> 'h check_options \<Rightarrow> 'h app_world \<Rightarrow> remote_check \<times> 'h app_world" where
  "checkEndClose E opts w =
     (if \<not> ck_enabled opts then (Disabled ByEnv, w)
      else if ck_apiKey opts = [] then (Disabled NoApiKey, w)
      else (case checkEndCloseInner E opts w of
          (Inr r, w') \<Rightarrow> (r, w')
        | (Inl e, w') \<Rightarrow> (CheckFailed (''local store error: '' @ message e) True, w')))"

section \<open>The manager\<close>

datatype ownership_state = StManaged | StUnmanaged | StDisabled | StFailed | StUnknown

record ownership =
  ow_state :: ownership_state
  ow_managed :: bool
  ow_environment :: "string option"
  ow_error :: "string option"
  ow_retrying :: bool
  ow_last_checked_at :: "int option"
  ow_last_confirmed_at :: "int option"

text \<open>\<open>mg_inFlight\<close>: a check is running, which further calls of \<open>check\<close> share; \<open>mg_timer\<close>: \<open>start\<close> was called.\<close>

record manager =
  mg_status :: ownership
  mg_inFlight :: bool
  mg_timer :: bool

definition new_manager :: "app_env \<Rightarrow> 'h check_options \<Rightarrow> manager app" where
  "new_manager E opts =
     bindE (if ck_enabled opts \<and> ck_apiKey opts \<noteq> [] then wasManagedByEndClose E else ret False) (\<lambda>managed.
     bindE (if managed then store_sql (kv_get ENVIRONMENT_KEY) else ret None) (\<lambda>environment.
       ret \<lparr>mg_status = \<lparr>ow_state = StUnknown, ow_managed = managed, ow_environment = environment, ow_error = None,
              ow_retrying = False, ow_last_checked_at = None, ow_last_confirmed_at = None\<rparr>,
            mg_inFlight = False, mg_timer = False\<rparr>))"

definition record_check :: "remote_check \<Rightarrow> int \<Rightarrow> ownership \<Rightarrow> ownership" where
  "record_check result now st = (case result of
     Managed _ _ environment \<Rightarrow> \<lparr>ow_state = StManaged, ow_managed = True,
       ow_environment = (case environment of None \<Rightarrow> ow_environment st | Some v \<Rightarrow> Some v), ow_error = None, ow_retrying = False,
       ow_last_checked_at = Some now, ow_last_confirmed_at = Some now\<rparr>
   | Unmanaged \<Rightarrow> \<lparr>ow_state = StUnmanaged, ow_managed = False, ow_environment = None, ow_error = None, ow_retrying = False,
       ow_last_checked_at = Some now, ow_last_confirmed_at = Some now\<rparr>
   | Disabled _ \<Rightarrow> \<lparr>ow_state = StDisabled, ow_managed = False, ow_environment = None, ow_error = None, ow_retrying = False,
       ow_last_checked_at = Some now, ow_last_confirmed_at = None\<rparr>
   | CheckFailed err retry \<Rightarrow> st\<lparr>ow_state := StFailed, ow_error := Some err, ow_retrying := retry, ow_last_checked_at := Some now\<rparr>)"

definition shouldPoll :: "manager \<Rightarrow> bool" where
  "shouldPoll m \<longleftrightarrow> ow_state (mg_status m) \<noteq> StDisabled"

text \<open>\<open>check\<close> until the request is out, and when it has settled; \<open>start\<close>, \<open>stop\<close> and a tick of the timer.\<close>

definition begin_check :: "manager \<Rightarrow> manager" where
  "begin_check m = m\<lparr>mg_inFlight := True\<rparr>"

definition settle_check :: "remote_check \<Rightarrow> int \<Rightarrow> manager \<Rightarrow> manager" where
  "settle_check result now m = (if mg_inFlight m then m\<lparr>mg_status := record_check result now (mg_status m), mg_inFlight := False\<rparr> else m)"

definition start_polling :: "manager \<Rightarrow> manager" where "start_polling m = m\<lparr>mg_timer := True\<rparr>"
definition stop_polling :: "manager \<Rightarrow> manager" where "stop_polling m = m\<lparr>mg_timer := False\<rparr>"

definition poll_remote :: "manager \<Rightarrow> manager" where
  "poll_remote m = (if mg_timer m \<and> shouldPoll m then begin_check m else m)"

end
