(* ===== verification/ManagedFacts.thy ===== *)
theory ManagedFacts imports ManagedConfig begin

text \<open>
  What one question to End Close does to the database, and the manager's memory of who owns the
  configuration.  A question runs as one step: while End Close owns the configuration the editor
  is locked, so nothing else applies a document between the request and its answer.
\<close>

section \<open>Statements that returned\<close>

lemma kv_get_Inr: "store_sql (kv_get k) d = (Inr x, d') \<Longrightarrow> x = map_of (db_kv (ad_store d)) k \<and> calm d' = calm d"
  using calmsD [of "store_sql (kv_get k)" d x d'] by (auto simp: calm_rules)

lemma kv_set_Inr: "store_sql (kv_set k v) d = (Inr x, d') \<Longrightarrow> calm d' = with_kv (calm d) (AList.update k v (db_kv (ad_store d)))"
  using calmsD [of "store_sql (kv_set k v)" d x d'] by (auto simp: calm_rules)

lemma kv_delete_Inr: "store_sql (kv_delete k) d = (Inr x, d') \<Longrightarrow> calm d' = with_kv (calm d) (filter (\<lambda>p. fst p \<noteq> k) (db_kv (ad_store d)))"
  using calmsD [of "store_sql (kv_delete k)" d x d'] by (auto simp: calm_rules)

definition active :: "app_env \<Rightarrow> app_db \<Rightarrow> loaded_config option" where
  "active E d = active_of E (map_option cv_config_yaml (latest_version d))"

lemma active_calm [simp]: "active E (calm d) = active E d"
  by (simp add: active_def)

lemma getActive_Inr: "getActiveConfig E d = (Inr x, d') \<Longrightarrow> x = active E d \<and> calm d' = calm d"
proof -
  assume a: "getActiveConfig E d = (Inr x, d')"
  have "calms (getActiveConfig E)" unfolding getActiveConfig_def by (intro calm_rules)
  from calmsD [OF this a] show ?thesis
    by (auto simp: getActiveConfig_def readActiveConfigRaw_def bindE_def ret_def active_def)
qed

lemma on_db_Inr: "on_db m w = (Inr x, w') \<longleftrightarrow> (\<exists>d'. m (aw_db w) = (Inr x, d') \<and> w' = w\<lparr>aw_db := d'\<rparr>)"
  by (auto simp: on_db_def zoomE_def split: prod.splits)

definition cdb :: "'h app_world \<Rightarrow> app_db" where "cdb w = calm (aw_db w)"

lemma cdb_kv: "db_kv (ad_store (aw_db w)) = db_kv (ad_store (cdb w))" "latest_version (aw_db w) = latest_version (cdb w)"
  "active E (aw_db w) = active E (cdb w)"
  by (simp_all add: cdb_def)

lemma world_Inr:
  "kv_at k w = (Inr x, w') \<Longrightarrow> x = map_of (db_kv (ad_store (cdb w))) k \<and> cdb w' = cdb w"
  "kv_put k v w = (Inr u, w') \<Longrightarrow> cdb w' = with_kv (cdb w) (AList.update k v (db_kv (ad_store (cdb w))))"
  "kv_drop k w = (Inr u, w') \<Longrightarrow> cdb w' = with_kv (cdb w) (filter (\<lambda>p. fst p \<noteq> k) (db_kv (ad_store (cdb w))))"
  "on_db (getActiveConfig E) w = (Inr s, w') \<Longrightarrow> s = active E (cdb w) \<and> cdb w' = cdb w"
  "app_clock opts w = (Inr t, w') \<Longrightarrow> cdb w' = cdb w"
  "fetchRemoteConfig E opts etag w = (Inr f, w') \<Longrightarrow> cdb w' = cdb w"
proof -
  show "kv_at k w = (Inr x, w') \<Longrightarrow> x = map_of (db_kv (ad_store (cdb w))) k \<and> cdb w' = cdb w"
    by (auto simp: kv_at_def on_db_Inr cdb_def dest: kv_get_Inr)
  show "kv_put k v w = (Inr u, w') \<Longrightarrow> cdb w' = with_kv (cdb w) (AList.update k v (db_kv (ad_store (cdb w))))"
    by (auto simp: kv_put_def on_db_Inr cdb_def dest: kv_set_Inr)
  show "kv_drop k w = (Inr u, w') \<Longrightarrow> cdb w' = with_kv (cdb w) (filter (\<lambda>p. fst p \<noteq> k) (db_kv (ad_store (cdb w))))"
    by (auto simp: kv_drop_def on_db_Inr cdb_def dest: kv_delete_Inr)
  show "on_db (getActiveConfig E) w = (Inr s, w') \<Longrightarrow> s = active E (cdb w) \<and> cdb w' = cdb w"
    by (auto simp: on_db_Inr cdb_def dest: getActive_Inr)
  show "app_clock opts w = (Inr t, w') \<Longrightarrow> cdb w' = cdb w" "fetchRemoteConfig E opts etag w = (Inr f, w') \<Longrightarrow> cdb w' = cdb w"
    by (auto simp: cdb_def app_clock_def fetchRemoteConfig_def split: prod.splits)
qed

section \<open>The answers\<close>

text \<open>The entity tag that goes out describes the stored document.\<close>

lemma conditional_etag_Inr:
  assumes "conditional_etag stored w = (Inr etag, w')"
  shows "cdb w' = cdb w \<and> (etag \<noteq> None \<longrightarrow> (\<exists>l. stored = Some l \<and> map_of (db_kv (ad_store (cdb w))) HASH_KEY = Some (lc_hash l) \<and>
     map_of (db_kv (ad_store (cdb w))) ETAG_KEY = etag))"
  using assms
  by (cases stored) (auto simp: conditional_etag_def run_Inr non_empty_def dest!: world_Inr split: if_splits)

definition kv_kept :: "app_db \<Rightarrow> remote_config \<Rightarrow> loaded_config \<Rightarrow> (string \<times> string) list" where
  "kv_kept d config loaded =
     (let kv = db_kv (ad_store d);
          kv1 = (case non_empty (rc_etag config) of
             Some t \<Rightarrow> AList.update HASH_KEY (lc_hash loaded) (AList.update ETAG_KEY t kv)
           | None \<Rightarrow> filter (\<lambda>p. fst p \<noteq> HASH_KEY) (filter (\<lambda>p. fst p \<noteq> ETAG_KEY) kv))
      in case non_empty (rc_environment config) of
           Some v \<Rightarrow> AList.update ENVIRONMENT_KEY v kv1 | None \<Rightarrow> filter (\<lambda>p. fst p \<noteq> ENVIRONMENT_KEY) kv1)"

lemma keep_answer_Inr: "keep_answer config loaded w = (Inr u, w') \<Longrightarrow> cdb w' = with_kv (cdb w) (kv_kept (cdb w) config loaded)"
  by (cases "non_empty (rc_etag config)"; cases "non_empty (rc_environment config)")
    (auto simp: keep_answer_def kv_kept_def run_Inr dest!: world_Inr)

definition kv_forgotten :: "app_db \<Rightarrow> (string \<times> string) list" where
  "kv_forgotten d = filter (\<lambda>p. fst p \<noteq> ENVIRONMENT_KEY) (filter (\<lambda>p. fst p \<noteq> HASH_KEY) (filter (\<lambda>p. fst p \<noteq> ETAG_KEY) (db_kv (ad_store d))))"

lemma forget_Inr: "forget_answer w = (Inr u, w') \<Longrightarrow> cdb w' = with_kv (cdb w) (kv_forgotten (cdb w))"
  by (auto simp: forget_answer_def kv_forgotten_def run_Inr dest!: world_Inr)

lemma store_document_Inr:
  assumes "store_document E stored config now w = (Inr r, w')"
  shows "(\<exists>m b. r = CheckFailed m b \<and> cdb w' = cdb w) \<or>
    (\<exists>loaded d1. saveConfig E now (remoteConfigToYaml E config) REMOTE_ACTOR (aw_db w) = (Inr loaded, d1) \<and>
       r = Managed (Some loaded) (map_option lc_hash stored \<noteq> Some (lc_hash loaded)) (rc_environment config) \<and>
       cdb w' = with_kv (calm d1) (kv_kept (calm d1) config loaded))"
proof -
  obtain saved d1 where d1: "saveConfig E now (remoteConfigToYaml E config) REMOTE_ACTOR (aw_db w) = (saved, d1)" by fastforce
  then have sv: "attemptE (on_db (saveConfig E now (remoteConfigToYaml E config) REMOTE_ACTOR)) w = (Inr saved, w\<lparr>aw_db := d1\<rparr>)"
    by (simp add: attemptE_def on_db_def zoomE_def)
  show ?thesis
  proof (cases saved)
    case (Inl e)
    with assms sv have "r = CheckFailed (''configuration from End Close could not be applied: '' @ message e) (isStoreError e)"
        "w' = w\<lparr>aw_db := d1\<rparr>"
      by (auto simp: store_document_def run_Inr)
    moreover have "cdb (w\<lparr>aw_db := d1\<rparr>) = cdb w" using saveConfig_Inl [OF d1 [unfolded Inl]] by (simp add: cdb_def)
    ultimately show ?thesis by blast
  next
    case (Inr loaded)
    with assms sv obtain u where k: "keep_answer config loaded (w\<lparr>aw_db := d1\<rparr>) = (Inr u, w')"
      and r: "r = Managed (Some loaded) (map_option lc_hash stored \<noteq> Some (lc_hash loaded)) (rc_environment config)"
      by (auto simp: store_document_def run_Inr)
    have "cdb (w\<lparr>aw_db := d1\<rparr>) = calm d1" by (simp add: cdb_def)
    with keep_answer_Inr [OF k] r d1 Inr show ?thesis by auto
  qed
qed

lemma check_cases:
  assumes "checkEndCloseInner E opts w = (Inr r, w')"
  obtains (failed) m b where "r = CheckFailed m b" "cdb w' = cdb w"
  | (gone) "r = Unmanaged" "cdb w' = with_kv (cdb w) (kv_forgotten (cdb w))"
  | (same) l env where "r = Managed (Some l) False env" "cdb w' = cdb w" "active E (cdb w) = Some l"
      "map_of (db_kv (ad_store (cdb w))) HASH_KEY = Some (lc_hash l)" "map_of (db_kv (ad_store (cdb w))) ETAG_KEY \<noteq> None"
  | (fetched) config loaded now d0 d1 where "r = Managed (Some loaded) (map_option lc_hash (active E (cdb w)) \<noteq> Some (lc_hash loaded)) (rc_environment config)"
      "calm d0 = cdb w" "saveConfig E now (remoteConfigToYaml E config) REMOTE_ACTOR d0 = (Inr loaded, d1)"
      "cdb w' = with_kv (calm d1) (kv_kept (calm d1) config loaded)"
proof -
  obtain stored w1 etag w2 f w3 where
      s: "on_db (getActiveConfig E) w = (Inr stored, w1)" and t: "conditional_etag stored w1 = (Inr etag, w2)"
      and f: "fetchRemoteConfig E opts etag w2 = (Inr f, w3)" and k: "settle_answer E opts stored f w3 = (Inr r, w')"
    using assms unfolding checkEndCloseInner_def bindE_Inr_iff by blast
  have st: "stored = active E (cdb w)" "cdb w1 = cdb w" using world_Inr(4) [OF s] by simp_all
  note tag = conditional_etag_Inr [OF t]
  have w3: "cdb w3 = cdb w" using st tag world_Inr(6) [OF f] by simp
  show ?thesis
  proof (cases f)
    case (Inl err)
    show ?thesis
    proof (cases "re_kind err = NotFound")
      case True
      with k Inl have "r = Unmanaged" "forget_answer w3 = (Inr (), w')" by (auto simp: settle_answer_def run_Inr)
      with gone forget_Inr w3 show ?thesis by metis
    next
      case False
      with k Inl have "r = CheckFailed (re_message err) (retryable err)" "w' = w3" by (auto simp: settle_answer_def run_Inr)
      with failed w3 show ?thesis by metis
    qed
  next
    case (Inr o')
    show ?thesis
    proof (cases o')
      case None
      with Inr f have "etag \<noteq> None"
        by (auto simp: fetchRemoteConfig_def dest: unchanged_has_etag split: prod.splits)
      with tag st obtain l where l: "stored = Some l" "map_of (db_kv (ad_store (cdb w))) HASH_KEY = Some (lc_hash l)"
        "map_of (db_kv (ad_store (cdb w))) ETAG_KEY \<noteq> None" by auto
      from k Inr None obtain env where "kv_at ENVIRONMENT_KEY w3 = (Inr env, w')" "r = Managed stored False (non_empty env)"
        by (auto simp: settle_answer_def run_Inr)
      with same l st w3 world_Inr(1) show ?thesis by metis
    next
      case (Some config)
      with k Inr obtain now w4 where n: "app_clock opts w3 = (Inr now, w4)" and sd: "store_document E stored config now w4 = (Inr r, w')"
        by (auto simp: settle_answer_def bindE_Inr_iff)
      have w4: "cdb w4 = cdb w" using world_Inr(5) [OF n] w3 by simp
      from store_document_Inr [OF sd] show ?thesis
      proof (elim disjE exE conjE)
        fix m b assume "r = CheckFailed m b" "cdb w' = cdb w4"
        with failed w4 show ?thesis by metis
      next
        fix loaded d1
        assume "saveConfig E now (remoteConfigToYaml E config) REMOTE_ACTOR (aw_db w4) = (Inr loaded, d1)"
          "r = Managed (Some loaded) (map_option lc_hash stored \<noteq> Some (lc_hash loaded)) (rc_environment config)"
          "cdb w' = with_kv (calm d1) (kv_kept (calm d1) config loaded)"
        then show ?thesis using fetched [of loaded config "aw_db w4" now d1] w4 st by (simp add: cdb_def)
      qed
    qed
  qed
qed

section \<open>The stored configuration\<close>

text \<open>
  The hash of the latest version is that of its text, and the routes table serves its routes.
\<close>

definition config_ok :: "app_env \<Rightarrow> app_db \<Rightarrow> bool" where
  "config_ok E d \<longleftrightarrow> (case latest_version d of None \<Rightarrow> True
   | Some v \<Rightarrow> cv_config_hash v = config_hash E (cv_config_yaml v) \<and>
       (case parseConfig E (cv_config_yaml v) of Inl _ \<Rightarrow> True
        | Inr l \<Rightarrow> \<forall>i. i = [] \<or> route_at (ad_routes d) i = staticRoutes_get (lc_routes l) i))"

definition owned :: "app_env \<Rightarrow> app_db \<Rightarrow> bool" where
  "owned E d \<longleftrightarrow> (case active E d of None \<Rightarrow> False | Some l \<Rightarrow> map_of (db_kv (ad_store d)) HASH_KEY = Some (lc_hash l))"

lemma config_ok_calm [simp]: "config_ok E (calm d) = config_ok E d" "owned E (calm d) = owned E d"
  by (simp_all add: config_ok_def owned_def split: option.splits sum.splits)

lemma config_ok_kv [simp]: "config_ok E (with_kv d kv) = config_ok E d" "active E (with_kv d kv) = active E d"
  by (simp_all add: config_ok_def active_def split: option.splits sum.splits)

lemma config_ok_save:
  assumes "saveConfig E now y by' d = (r, d')" and "config_ok E d"
  shows "config_ok E d'"
proof (cases r)
  case (Inl e)
  with saveConfig_Inl assms show ?thesis by (metis config_ok_calm(1))
next
  case (Inr l)
  show ?thesis
  proof (cases "unchanged_version d l")
    case True
    with saveConfig_Inr [OF assms(1) [unfolded Inr]] assms(2) show ?thesis by (metis config_ok_calm(1))
  next
    case False
    from save_outcome [OF assms(1)] Inr False have l: "parseConfig E y = Inr l"
      and lat: "latest_version d' = Some (new_version d now (lc_hash l) y by')"
      and tab: "\<forall>i. i = [] \<or> route_at (ad_routes d') i = staticRoutes_get (lc_routes l) i" by auto
    then show ?thesis using parseConfig_Inr [OF l] by (simp add: config_ok_def new_version_def)
  qed
qed

lemma active_parsed:
  "active E d = Some l \<Longrightarrow> \<exists>v. latest_version d = Some v \<and> parseConfig E (cv_config_yaml v) = Inr l"
  by (auto simp: active_def active_of_def split: option.splits sum.splits)

section \<open>Without failures of the driver\<close>

definition no_faults :: "app_db \<Rightarrow> app_db \<Rightarrow> bool" where
  "no_faults d d' \<longleftrightarrow> db_faults (ad_store d) \<noteq> [] \<or> db_faults (ad_store d') = []"

lemma no_faults_statement:
  "(\<And>d. db_faults (ad_store (snd (f d))) = db_faults (ad_store d)) \<Longrightarrow> keeps no_faults (app_statement f)"
  by (rule keepsI) (auto simp: no_faults_def app_statement_eq split: list.splits option.splits)

lemma no_faults_save: "db_faults (ad_store d) = [] \<Longrightarrow> db_faults (ad_store (snd (saveConfig E now y by' d))) = []"
proof -
  assume f: "db_faults (ad_store d) = []"
  obtain r d' where sv: "saveConfig E now y by' d = (r, d')" by fastforce
  then show ?thesis
  proof (cases rule: saveConfig_cases)
    case (tried l t)
    have "app_transaction (apply_version now y by' l) d = (Inr (), if unchanged_version d l then d else applied now y by' l d)"
      by (rule transaction_calm) (simp_all add: apply_calm f, simp add: applied_def with_kv_def f)
    with tried(3) f sv show ?thesis by (auto simp: applied_def with_kv_def split: if_splits)
  qed (simp add: sv f)
qed

definition aw_calm :: "'h app_world \<Rightarrow> bool" where
  "aw_calm w \<longleftrightarrow> db_faults (ad_store (aw_db w)) = []"

text \<open>Programs that neither throw nor leave a failure behind.\<close>

definition smooth :: "('h app_world, exn, 'a) sem \<Rightarrow> bool" where
  "smooth m \<longleftrightarrow> (\<forall>w. aw_calm w \<longrightarrow> (\<exists>x w'. m w = (Inr x, w') \<and> aw_calm w'))"

named_theorems smooth_rules

lemma smooth_ret [smooth_rules]: "smooth (ret x)" by (simp add: smooth_def ret_def)

lemma smooth_bind [smooth_rules]: "smooth m \<Longrightarrow> (\<And>x. smooth (f x)) \<Longrightarrow> smooth (bindE m f)"
  by (fastforce simp: smooth_def bindE_def)

lemma smooth_then [smooth_rules]: "smooth m \<Longrightarrow> smooth k \<Longrightarrow> smooth (thenE m k)"
  by (simp add: thenE_def smooth_rules)

lemma smooth_kv [smooth_rules]: "smooth (kv_at k)" "smooth (kv_put k v)" "smooth (kv_drop k)"
  by (simp_all add: smooth_def aw_calm_def kv_at_def kv_put_def kv_drop_def on_db_def zoomE_def)

lemma smooth_world [smooth_rules]: "smooth (app_clock opts)" "smooth (fetchRemoteConfig E opts etag)"
  by (auto simp: smooth_def aw_calm_def app_clock_def fetchRemoteConfig_def split: prod.splits)

lemma smooth_active [smooth_rules]: "smooth (on_db (getActiveConfig E))"
  by (simp add: smooth_def aw_calm_def on_db_def zoomE_def getActiveConfig_def readActiveConfigRaw_def bindE_def ret_def)

lemma smooth_save [smooth_rules]: "smooth (attemptE (on_db (saveConfig E now y by')))"
  using no_faults_save [of _ E now y by'] by (simp add: smooth_def aw_calm_def attemptE_def on_db_def zoomE_def split_beta)

lemma smooth_if [smooth_rules]: "smooth m \<Longrightarrow> smooth k \<Longrightarrow> smooth (if b then m else k)"
  by simp

lemma smooth_option [smooth_rules]:
  "(x = None \<Longrightarrow> smooth m) \<Longrightarrow> (\<And>a. x = Some a \<Longrightarrow> smooth (k a)) \<Longrightarrow> smooth (case x of None \<Rightarrow> m | Some a \<Rightarrow> k a)"
  by (cases x) simp_all

lemma smooth_sum [smooth_rules]:
  "(\<And>a. x = Inl a \<Longrightarrow> smooth (m a)) \<Longrightarrow> (\<And>a. x = Inr a \<Longrightarrow> smooth (k a)) \<Longrightarrow> smooth (case x of Inl a \<Rightarrow> m a | Inr a \<Rightarrow> k a)"
  by (cases x) simp_all

lemma smooth_check: "smooth (checkEndCloseInner E opts)"
  unfolding checkEndCloseInner_def conditional_etag_def settle_answer_def store_document_def keep_answer_def forget_answer_def
  by (intro smooth_rules)

section \<open>What a question leaves behind\<close>

lemma check_not_disabled: "checkEndCloseInner E opts w \<noteq> (Inr (Disabled x), w')"
proof
  assume "checkEndCloseInner E opts w = (Inr (Disabled x), w')"
  then show False by (cases rule: check_cases) simp_all
qed

lemma kv_forgotten_keys:
  "map_of (kv_forgotten d) k = (if k \<in> {ETAG_KEY, HASH_KEY, ENVIRONMENT_KEY} then None else map_of (db_kv (ad_store d)) k)"
  by (auto simp: kv_forgotten_def map_of_without simp del: filter_filter)

lemma remote_keys [simp]:
  "ETAG_KEY \<noteq> HASH_KEY" "HASH_KEY \<noteq> ETAG_KEY" "HASH_KEY \<noteq> ENVIRONMENT_KEY" "ETAG_KEY \<noteq> ENVIRONMENT_KEY"
  "ENVIRONMENT_KEY \<noteq> HASH_KEY" "ENVIRONMENT_KEY \<noteq> ETAG_KEY"
  "''killswitch.global'' \<notin> {ETAG_KEY, HASH_KEY, ENVIRONMENT_KEY}" "ROUTE_PAUSED_PREFIX @ rt \<notin> {ETAG_KEY, HASH_KEY, ENVIRONMENT_KEY}"
  by (simp_all add: ETAG_KEY_def HASH_KEY_def ENVIRONMENT_KEY_def ROUTE_PAUSED_PREFIX_def)

lemma kv_kept_keys:
  "map_of (kv_kept d config loaded) HASH_KEY = (if non_empty (rc_etag config) = None then None else Some (lc_hash loaded))"
  "map_of (kv_kept d config loaded) ETAG_KEY = non_empty (rc_etag config)"
  "k \<notin> {ETAG_KEY, HASH_KEY, ENVIRONMENT_KEY} \<Longrightarrow> map_of (kv_kept d config loaded) k = map_of (db_kv (ad_store d)) k"
  by (auto simp: kv_kept_def Let_def map_of_without update_conv simp del: filter_filter split: option.splits)

text \<open>The operator's flags are under other keys.\<close>

lemma operator_keys:
  "(\<And>k. k \<notin> {ETAG_KEY, HASH_KEY, ENVIRONMENT_KEY} \<Longrightarrow> map_of kv k = map_of (db_kv (ad_store d)) k) \<Longrightarrow>
     kv_view (ad_store (with_kv d kv)) = kv_view (ad_store d)"
  by (simp add: kv_view_def with_kv_def del: insert_iff)

definition tables_kept :: "app_db \<Rightarrow> app_db \<Rightarrow> bool" where
  "tables_kept d d' \<longleftrightarrow> ad_routes d' = ad_routes d \<and> ad_versions d' = ad_versions d \<and> ad_audit d' = ad_audit d \<and>
     db_events (ad_store d') = db_events (ad_store d) \<and> kv_view (ad_store d') = kv_view (ad_store d)"

lemma tables_kept_kv:
  "(\<And>k. k \<notin> {ETAG_KEY, HASH_KEY, ENVIRONMENT_KEY} \<Longrightarrow> map_of kv k = map_of (db_kv (ad_store d)) k) \<Longrightarrow> tables_kept d (with_kv d kv)"
  unfolding tables_kept_def by (simp add: operator_keys del: insert_iff)

lemma question_outcome:
  assumes "checkEndClose E opts w = (r, w')" and "config_ok E (aw_db w)"
  shows "case r of
      Disabled _ \<Rightarrow> w' = w
    | Unmanaged \<Rightarrow> \<not> owned E (aw_db w') \<and> tables_kept (cdb w) (cdb w')
    | Managed l changed environment \<Rightarrow> config_ok E (aw_db w') \<and>
        (\<exists>loaded. l = Some loaded \<and> parseConfig E (lc_yamlText loaded) = Inr loaded \<and>
          map_option cv_config_hash (latest_version (aw_db w')) = Some (lc_hash loaded) \<and>
          (owned E (aw_db w') \<or> map_of (db_kv (ad_store (aw_db w'))) ETAG_KEY = None \<or> active E (aw_db w') = None) \<and>
          changed = (map_option lc_hash (active E (aw_db w)) \<noteq> Some (lc_hash loaded)))
    | CheckFailed _ _ \<Rightarrow> aw_calm w \<longrightarrow> cdb w' = cdb w"
proof (cases "ck_enabled opts \<and> ck_apiKey opts \<noteq> []")
  case False
  with assms(1) show ?thesis by (auto simp: checkEndClose_def split: if_splits)
next
  case True
  obtain t w1 where t: "checkEndCloseInner E opts w = (t, w1)" by fastforce
  show ?thesis
  proof (cases t)
    case (Inl e)
    with smooth_check [of E opts] t have "\<not> aw_calm w" by (fastforce simp: smooth_def)
    with assms(1) True t Inl show ?thesis by (auto simp: checkEndClose_def)
  next
    case (Inr r')
    with assms(1) True t have run: "checkEndCloseInner E opts w = (Inr r, w')" by (simp add: checkEndClose_def)
    then show ?thesis
    proof (cases rule: check_cases)
      case gone
      have "tables_kept (cdb w) (cdb w')" unfolding gone by (rule tables_kept_kv) (simp add: kv_forgotten_keys)
      moreover have "\<not> owned E (cdb w')" unfolding gone by (simp add: owned_def kv_forgotten_keys split: option.splits)
      ultimately show ?thesis using gone by (simp add: cdb_def)
    next
      case (same l env)
      obtain v where v: "latest_version (cdb w) = Some v" "parseConfig E (cv_config_yaml v) = Inr l" using active_parsed [OF same(3)] by blast
      have "config_ok E (cdb w)" using assms(2) by (simp add: cdb_def)
      with v have "cv_config_hash v = lc_hash l" using parseConfig_Inr by (auto simp: config_ok_def)
      moreover have "parseConfig E (lc_yamlText l) = Inr l" using parseConfig_Inr [OF v(2)] v(2) by simp
      moreover have "owned E (cdb w')" using same by (simp add: owned_def)
      moreover have "config_ok E (cdb w')" "latest_version (cdb w') = Some v" using same(2) v assms(2) by (simp_all add: cdb_def)
      ultimately show ?thesis using same by (simp add: cdb_def)
    next
      case (fetched config loaded now d0 d1)
      have ok: "config_ok E (calm d1)" using config_ok_save [OF fetched(3)] fetched(2) assms(2) by (metis cdb_def config_ok_calm(1))
      have parsed: "parseConfig E (remoteConfigToYaml E config) = Inr loaded"
        and lat: "map_option cv_config_hash (latest_version (calm d1)) = Some (lc_hash loaded)"
        using saveConfig_Inr [OF fetched(3)] by (auto simp: unchanged_version_def latest_applied new_version_def split: if_splits)
      have "lc_hash l = lc_hash loaded" if "active E (calm d1) = Some l" for l
        using active_parsed [OF that] ok lat parseConfig_Inr by (auto simp: config_ok_def)
      then have "owned E (cdb w') \<or> map_of (db_kv (ad_store (cdb w'))) ETAG_KEY = None \<or> active E (cdb w') = None"
        unfolding fetched by (auto simp: owned_def kv_kept_keys split: option.splits)
      moreover have "config_ok E (cdb w')" "latest_version (cdb w') = latest_version d1" using fetched(4) ok by simp_all
      moreover have "parseConfig E (lc_yamlText loaded) = Inr loaded" using parsed parseConfig_Inr [OF parsed] by simp
      ultimately show ?thesis using fetched(1) lat by (simp add: cdb_def)
    qed (simp add: cdb_def)
  qed
qed

text \<open>
  \<^bold>\<open>C17.\<close> What one question to End Close leaves behind, by its answer.  Asking is off: nothing.
  Unmanaged: the entity tag and hash are forgotten, so no longer owned; every other table and the
  operator's flags stay.  Managed: there is a document (the asserted one is never missing), it is
  valid, its hash is that of the latest version, the configuration invariant holds, and the
  answer says whether the document changed.  A failed question on a working driver changes
  nothing: whoever owned the configuration still does.
\<close>

theorem checkEndClose_outcome:
  assumes "checkEndClose E opts w = (r, w')" and "config_ok E (aw_db w)"
  shows "case r of
      Disabled _ \<Rightarrow> w' = w
    | Unmanaged \<Rightarrow> \<not> owned E (aw_db w') \<and> tables_kept (cdb w) (cdb w')
    | Managed l changed environment \<Rightarrow> config_ok E (aw_db w') \<and>
        (\<exists>loaded. l = Some loaded \<and> parseConfig E (lc_yamlText loaded) = Inr loaded \<and>
          map_option cv_config_hash (latest_version (aw_db w')) = Some (lc_hash loaded) \<and>
          (owned E (aw_db w') \<or> map_of (db_kv (ad_store (aw_db w'))) ETAG_KEY = None \<or> active E (aw_db w') = None) \<and>
          changed = (map_option lc_hash (active E (aw_db w)) \<noteq> Some (lc_hash loaded)))
    | CheckFailed _ _ \<Rightarrow> aw_calm w \<longrightarrow> cdb w' = cdb w"
  by (rule question_outcome [OF assms])

section \<open>A first document\<close>

definition demo_check :: "unit check_options" where
  "demo_check = \<lparr>ck_client = \<lparr>cl_baseUrl = ''https://api'', cl_apiKey = ''key'',
       cl_fetch = (\<lambda>rq. ret \<lparr>hr_status = 200, hr_etag = Some ''v1'', hr_text = Inr ''doc''\<rparr>)\<rparr>,
     ck_apiKey = ''key'', ck_enabled = True, ck_json_parse = (\<lambda>_. Inr hosted_document), ck_now = (\<lambda>h. (1000, h))\<rparr>"

definition demo_world :: "unit app_world" where
  "demo_world = \<lparr>aw_db = paused_db, aw_host = ()\<rparr>"

definition demo_managed :: loaded_config where
  "demo_managed = demo_loaded (remoteConfigToYaml demo_app_env hosted_config)"

lemma demo_check_simps:
  "ck_client demo_check = \<lparr>cl_baseUrl = ''https://api'', cl_apiKey = ''key'',
       cl_fetch = (\<lambda>rq. ret \<lparr>hr_status = 200, hr_etag = Some ''v1'', hr_text = Inr ''doc''\<rparr>)\<rparr>"
  "ck_apiKey demo_check = ''key''" "ck_enabled demo_check" "ck_json_parse demo_check = (\<lambda>_. Inr hosted_document)"
  "ck_now demo_check = (\<lambda>h. (1000, h))" "aw_db demo_world = paused_db" "aw_host demo_world = ()"
  by (simp_all add: demo_check_def demo_world_def)

lemma demo_fetched: "fetchRemoteConfig demo_app_env demo_check None w = (Inr (Inr (Some hosted_config)), w)"
proof -
  have "parseRoutes (\<lambda>_. Inr [hosted_route]) (builtin_has demo_app_env) None (JObj [(''routes'', JArr [])]) = Inr [hosted_route]"
    by (simp add: parseRoutes_def hosted_route_def builtin_has_def demo_app_env_simps demo_has routeEnrichments_def)
  then have "document_routes \<lparr>env_client = ck_client demo_check, env_json_parse = ck_json_parse demo_check, env_schema = ae_schema demo_app_env, env_now = ck_now demo_check\<rparr>
      \<lparr>fo_has = builtin_has demo_app_env, fo_enrichments = None, fo_timeoutMs = None\<rparr> hosted_document = Inr ([hosted_route], hosted_document, None)"
    by (simp add: document_routes_def hosted_document_def object_get_def environment_of_def proto_names_def demo_app_env_simps)
  then show ?thesis
    by (simp add: fetchRemoteConfig_def fetchDocument_def getRelayConfig_def send_def demo_check_simps bindE_def catchE_def thenE_def ret_def
      of_sum_def non_empty_def assertOk_def status_ok_def hosted_config_def)
qed

lemma demo_clock: "app_clock demo_check w = (Inr 1000, w)" "rc_environment hosted_config = None"
  by (cases w) (simp_all add: app_clock_def demo_check_simps hosted_config_def)

lemma demo_latest: "latest_version paused_db = None" "db_faults (ad_store paused_db) = []"
  by (simp_all add: latest_version_def newest_first_def paused_db_def)

lemma demo_checked: "\<exists>w'. checkEndClose demo_app_env demo_check demo_world = (Managed (Some demo_managed) True None, w') \<and>
    map_of (db_kv (ad_store (aw_db w'))) ETAG_KEY = Some ''v1'' \<and> active demo_app_env (aw_db w') \<noteq> None \<and> aw_calm w'"
proof -
  let ?d = "applied 1000 (remoteConfigToYaml demo_app_env hosted_config) REMOTE_ACTOR demo_managed paused_db"
  have sv: "saveConfig demo_app_env 1000 (remoteConfigToYaml demo_app_env hosted_config) REMOTE_ACTOR paused_db = (Inr demo_managed, ?d)"
    using saveConfig_calm [OF demo_latest(2) demo_parsed demo_secrets] by (simp add: unchanged_version_def demo_latest demo_managed_def)
  have "db_faults (ad_store ?d) = []" by (simp add: applied_def with_kv_def demo_latest)
  then obtain w' where keep: "keep_answer hosted_config demo_managed (demo_world\<lparr>aw_db := ?d\<rparr>) = (Inr (), w')"
    by (auto simp: keep_answer_def hosted_config_def non_empty_def thenE_def bindE_def kv_put_def kv_drop_def on_db_def zoomE_def)
  have act: "on_db (getActiveConfig demo_app_env) demo_world = (Inr None, demo_world)"
    by (simp add: on_db_def zoomE_def getActiveConfig_def readActiveConfigRaw_def bindE_def ret_def demo_check_simps demo_latest active_of_def)
  have "settle_answer demo_app_env demo_check None (Inr (Some hosted_config)) demo_world = (Inr (Managed (Some demo_managed) True None), w')"
    using keep by (simp add: settle_answer_def store_document_def attemptE_def on_db_def zoomE_def bindE_def thenE_def ret_def
        demo_clock demo_check_simps sv)
  then have run: "checkEndCloseInner demo_app_env demo_check demo_world = (Inr (Managed (Some demo_managed) True None), w')"
    by (simp add: checkEndCloseInner_def bindE_def act conditional_etag_def ret_def demo_fetched)
  have "aw_calm demo_world" by (simp add: aw_calm_def demo_check_simps demo_latest)
  with smooth_check [of demo_app_env demo_check] run have "aw_calm w'" by (fastforce simp: smooth_def)
  moreover have "map_of (db_kv (ad_store (cdb w'))) ETAG_KEY = Some ''v1''"
    unfolding keep_answer_Inr [OF keep] by (simp add: kv_kept_keys) (simp add: hosted_config_def non_empty_def)
  moreover have "active demo_app_env (cdb w') \<noteq> None"
    unfolding keep_answer_Inr [OF keep] by (simp add: cdb_def) (simp add: active_def latest_applied active_of_def new_version_def demo_parsed)
  ultimately show ?thesis using run by (simp add: checkEndClose_def demo_check_simps cdb_def)
qed

theorem checkEndClose_outcome_witness:
  "\<exists>w'. checkEndClose demo_app_env demo_check demo_world = (Managed (Some demo_managed) True None, w') \<and>
     config_ok demo_app_env (aw_db w') \<and> map_option cv_config_hash (latest_version (aw_db w')) = Some (lc_hash demo_managed)"
proof -
  obtain w' where w': "checkEndClose demo_app_env demo_check demo_world = (Managed (Some demo_managed) True None, w')"
    using demo_checked by blast
  have "config_ok demo_app_env (aw_db demo_world)" by (simp add: config_ok_def demo_check_simps demo_latest)
  from checkEndClose_outcome [OF w' this] w' show ?thesis by auto
qed

section \<open>Ownership\<close>

lemma new_manager_owned:
  assumes "new_manager E opts d = (Inr m, d')" and "ck_enabled opts" and "ck_apiKey opts \<noteq> []"
  shows "ow_managed (mg_status m) = owned E d"
proof -
  obtain b d1 where b: "wasManagedByEndClose E d = (Inr b, d1)" and m: "ow_managed (mg_status m) = b"
    using assms by (auto simp: new_manager_def run_Inr)
  from b obtain stored d2 where s: "getActiveConfig E d = (Inr stored, d2)"
    and k: "(case stored of None \<Rightarrow> ret False | Some l \<Rightarrow> bindE (store_sql (kv_get HASH_KEY)) (\<lambda>h. ret (h = Some (lc_hash l)))) d2 = (Inr b, d1)"
    unfolding wasManagedByEndClose_def bindE_Inr_iff by blast
  from getActive_Inr [OF s] have a: "stored = active E d" "calm d2 = calm d" by simp_all
  have kv: "db_kv (ad_store d2) = db_kv (ad_store d)" using a(2) by (metis calm_simps(5))
  from k have "b = (case stored of None \<Rightarrow> False | Some l \<Rightarrow> map_of (db_kv (ad_store d2)) HASH_KEY = Some (lc_hash l))"
    by (cases stored) (auto simp: run_Inr dest!: kv_get_Inr)
  with m a(1) kv show ?thesis by (simp add: owned_def split: option.splits)
qed

text \<open>
  \<^bold>\<open>C18.\<close> Ownership follows End Close's answers and survives a restart: while asking is on, a manager that
  agrees with the database still agrees after a question, whatever the answer, so the manager a
  restart creates locks or unlocks the editor as the running one did.  The exception is an answer
  without an entity tag (or a hash collision): such ownership is not kept in the database.
\<close>

theorem ownership_survives_restart:
  assumes "checkEndClose E opts w = (r, w')" and "config_ok E (aw_db w)" and "aw_calm w"
    and "ck_enabled opts" and "ck_apiKey opts \<noteq> []" and "ow_managed st = owned E (aw_db w)"
    and "new_manager E opts (aw_db w') = (Inr m, d)"
  shows "ow_managed (mg_status m) = ow_managed (record_check r now st) \<or>
    (\<exists>l c e. r = Managed l c e) \<and> (map_of (db_kv (ad_store (aw_db w'))) ETAG_KEY = None \<or> active E (aw_db w') = None)"
proof -
  have m: "ow_managed (mg_status m) = owned E (aw_db w')" using new_manager_owned assms(4,5,7) by blast
  note o = question_outcome [OF assms(1,2)]
  show ?thesis
  proof (cases r)
    case (Managed l c e)
    with o show ?thesis by (auto simp: m record_check_def)
  next
    case Unmanaged
    with o show ?thesis by (simp add: m record_check_def)
  next
    case (Disabled x)
    with assms(1,4,5) have False
      by (auto simp: checkEndClose_def check_not_disabled split: prod.splits sum.splits)
    then show ?thesis ..
  next
    case (CheckFailed x b)
    with o assms(3) have "cdb w' = cdb w" by simp
    then have "owned E (cdb w') = owned E (cdb w)" by simp
    then have "owned E (aw_db w') = owned E (aw_db w)" by (simp add: cdb_def)
    with CheckFailed assms(6) show ?thesis by (simp add: m record_check_def)
  qed
qed

lemma new_manager_calm:
  assumes "db_faults (ad_store d) = []"
  shows "\<exists>m. new_manager E opts d = (Inr m, d)"
proof -
  have "getActiveConfig E d = (Inr (active E d), d)"
    using assms by (simp add: getActiveConfig_def readActiveConfigRaw_def bindE_def ret_def active_def)
  then obtain b where "wasManagedByEndClose E d = (Inr b, d)"
    using assms by (cases "active E d") (auto simp: wasManagedByEndClose_def bindE_def ret_def)
  then show ?thesis using assms by (cases b; cases "ck_enabled opts \<and> ck_apiKey opts \<noteq> []") (simp_all add: new_manager_def bindE_def ret_def)
qed

theorem ownership_survives_restart_witness:
  "\<exists>w' m d. checkEndClose demo_app_env demo_check demo_world = (Managed (Some demo_managed) True None, w') \<and>
     new_manager demo_app_env demo_check (aw_db w') = (Inr m, d) \<and> ow_managed (mg_status m)"
proof -
  obtain w' where w': "checkEndClose demo_app_env demo_check demo_world = (Managed (Some demo_managed) True None, w')"
      "map_of (db_kv (ad_store (aw_db w'))) ETAG_KEY = Some ''v1''" "active demo_app_env (aw_db w') \<noteq> None" "aw_calm w'"
    using demo_checked by blast
  have start: "config_ok demo_app_env (aw_db demo_world)" "aw_calm demo_world" "\<not> owned demo_app_env (aw_db demo_world)"
    by (simp_all add: config_ok_def demo_check_simps demo_latest aw_calm_def owned_def active_def active_of_def)
  let ?st = "\<lparr>ow_state = StUnknown, ow_managed = False, ow_environment = None, ow_error = None, ow_retrying = False,
    ow_last_checked_at = None, ow_last_confirmed_at = None\<rparr>"
  obtain m d where m: "new_manager demo_app_env demo_check (aw_db w') = (Inr m, d)"
    using new_manager_calm w'(4) unfolding aw_calm_def by blast
  have "ow_managed (mg_status m)"
    using ownership_survives_restart [OF w'(1) start(1,2) _ _ _ m, of ?st 1000] start(3) w'(2,3)
    by (simp add: demo_check_simps record_check_def)
  with w' m show ?thesis by blast
qed

end
