(* ===== verification/Admin.thy ===== *)
theory Admin imports ManagedFacts Mapper Codec begin

text \<open>
  The management API (\<open>apps/relay/src/admin/server.ts\<close>): the two guards before every handler and
  the handlers.  A request is the route it was matched to with what the handler reads of it;
  matching, body parsing and rate limiting are the web framework's, as is the answer 500 to a
  handler that throws.  The YAML of a draft is a text; numbers in a path are read by \<open>Number\<close>.
  Process facts of \<open>/status\<close> (version, uptime, size and mount of the database file) are left out.
\<close>

section \<open>Requests and answers\<close>

datatype admin_call =
    GetHealthz
  | GetStatus
  | PostKillswitch "json option"                     \<comment> \<open>\<open>state\<close>\<close>
  | PostPause string "json option"                   \<comment> \<open>route id, \<open>paused\<close>\<close>
  | GetEvents list_filter
  | GetPayload string
  | PostReplay string
  | PostReplayParked
  | GetAudit "nat option"
  | GetConfig
  | PostValidate "string option"
  | PostConfig "string option"
  | PostPreview "string option" "string option" "json option"   \<comment> \<open>yaml, route, sample\<close>
  | GetVersions
  | GetVersion string

record web_request =
  aq_call :: admin_call
  aq_authorization :: "string option"
  aq_site :: "string option"            \<comment> \<open>\<open>Sec-Fetch-Site\<close>\<close>

datatype admin_mode = Bootstrap | Running

record route_view =
  rv_id :: string
  rv_source :: string
  rv_data_stream_key :: string
  rv_paused :: bool
  rv_counts :: "(event_status \<times> nat) list"
  rv_last_delivered_at :: "int option"
  rv_oldest_pending_age_s :: "int option"

record status_view =
  sv_mode :: admin_mode
  sv_secret_envs :: "(string \<times> bool) list"
  sv_config_hash :: "string option"
  sv_config_applied_at :: "int option"
  sv_config_error :: "string option"
  sv_remote_config :: "ownership option"
  sv_killswitch :: killswitch
  sv_routes_paused :: "string list"
  sv_queue :: "(event_status \<times> nat) list"
  sv_routes :: "route_view list"

record payload_view =
  pl_id :: nat
  pl_route_id :: string
  pl_event_id :: string
  pl_event_type :: "string option"
  pl_status :: event_status
  pl_received_at :: int
  pl_last_error :: "string option"
  pl_headers :: json
  pl_payload :: json

datatype admin_body =
    BHealth admin_mode
  | BError string
  | BStatus status_view
  | BKillswitch killswitch
  | BPaused string bool
  | BEvents "event_summary list"
  | BPayload payload_view
  | BReplayed nat
  | BReplayedParked nat
  | BAudit "audit_entry list"
  | BConfig string "string option" "string option"      \<comment> \<open>yaml, hash, error\<close>
  | BValid string "string list" "(string \<times> bool) list"
  | BInvalid string
  | BApplied string "bool option"                       \<comment> \<open>hash; \<open>paused\<close>, when restarting\<close>
  | BPreview endclose_record map_report
  | BVersions "(nat \<times> int \<times> string \<times> string) list"
  | BVersion config_version

type_synonym admin_reply = "nat \<times> admin_body"

text \<open>The callbacks the handlers make, in order.\<close>

datatype admin_callback = ConfigAppliedCallback | BootstrapAppliedCallback

record admin_state =
  as_db :: app_db
  as_callbacks :: "admin_callback list"

record admin_deps =
  dp_env :: app_env
  dp_json_parse :: "string \<Rightarrow> exn + json"
  dp_date_parse :: "string \<Rightarrow> int option"
  dp_basicAuth :: string
  dp_maskingKey :: bytes
  dp_dataKey :: bytes
  dp_mode :: admin_mode
  dp_configError :: "string option"
  dp_remote :: "ownership option"        \<comment> \<open>\<open>remoteConfig?.()\<close> when the request arrives\<close>

type_synonym 'a admin = "(admin_state, exn, 'a) sem"

definition db_do :: "'a app \<Rightarrow> 'a admin" where
  "db_do m = zoomE as_db (\<lambda>d s. s\<lparr>as_db := d\<rparr>) m"

definition repo_do :: "'a sql \<Rightarrow> 'a admin" where
  "repo_do m = db_do (store_sql m)"

definition callback :: "admin_callback \<Rightarrow> unit admin" where
  "callback c = modifyE (\<lambda>s. s\<lparr>as_callbacks := as_callbacks s @ [c]\<rparr>)"

section \<open>The guards\<close>

definition base64_digits :: string where
  "base64_digits = ''ABCDEFGHIJKLMNOPQRSTUVWXYZabcdefghijklmnopqrstuvwxyz0123456789+/''"

definition base64_char :: "nat \<Rightarrow> char" where "base64_char n = base64_digits ! (n mod 64)"

fun base64 :: "bytes \<Rightarrow> string" where
  "base64 [] = []"
| "base64 [a] = [base64_char (unat a div 4), base64_char (unat a mod 4 * 16), CHR ''='', CHR ''='']"
| "base64 [a, b] = [base64_char (unat a div 4), base64_char (unat a mod 4 * 16 + unat b div 16), base64_char (unat b mod 16 * 4), CHR ''='']"
| "base64 (a # b # c # bs) = base64_char (unat a div 4) # base64_char (unat a mod 4 * 16 + unat b div 16) #
     base64_char (unat b mod 16 * 4 + unat c div 64) # base64_char (unat c) # base64 bs"

definition basic_auth_header :: "string \<Rightarrow> string" where
  "basic_auth_header userpass = ''Basic '' @ base64 (utf8 userpass)"

definition authorized :: "admin_deps \<Rightarrow> web_request \<Rightarrow> bool" where
  "authorized dp rq \<longleftrightarrow>
     (let presented = utf8 (case aq_authorization rq of None \<Rightarrow> [] | Some h \<Rightarrow> h); expected = utf8 (basic_auth_header (dp_basicAuth dp))
      in length presented = length expected \<and> timing_safe_equal presented expected)"

definition is_get :: "admin_call \<Rightarrow> bool" where
  "is_get c \<longleftrightarrow> (case c of PostKillswitch _ \<Rightarrow> False | PostPause _ _ \<Rightarrow> False | PostReplay _ \<Rightarrow> False | PostReplayParked \<Rightarrow> False
     | PostValidate _ \<Rightarrow> False | PostConfig _ \<Rightarrow> False | PostPreview _ _ _ \<Rightarrow> False | _ \<Rightarrow> True)"

definition cross_site :: "web_request \<Rightarrow> bool" where
  "cross_site rq \<longleftrightarrow> \<not> is_get (aq_call rq) \<and>
     (case non_empty (aq_site rq) of None \<Rightarrow> False | Some site \<Rightarrow> site \<noteq> ''same-origin'' \<and> site \<noteq> ''none'')"

section \<open>Helpers of the handlers\<close>

definition ACTOR :: string where "ACTOR = ''admin''"

definition envStatus :: "secret_resolver \<Rightarrow> route_config list \<Rightarrow> (string \<times> bool) list" where
  "envStatus secrets routes = map (\<lambda>n. (n, hasSecret secrets n))
     ([''RELAY_DATA_KEY'', ''MASKING_HMAC_KEY'', ''ENDCLOSE_API_KEY''] @ js_set (map (\<lambda>r. secret_env (r_auth r)) routes))"

text \<open>A number as the id of a row: only an integer that is not negative equals one.\<close>

definition id_of_number :: "rat option \<Rightarrow> nat option" where
  "id_of_number q = (case q of None \<Rightarrow> None
   | Some x \<Rightarrow> (case quotient_of x of (a, b) \<Rightarrow> if b = 1 \<and> 0 \<le> a then Some (nat a) else None))"

definition js_number_of :: "admin_deps \<Rightarrow> string \<Rightarrow> rat option" where
  "js_number_of dp s = ae_number (dp_env dp) s"

text \<open>\<open>Math.round\<close> of milliseconds in seconds.\<close>

definition round_seconds :: "int \<Rightarrow> int" where
  "round_seconds ms = (ms + 500) div 1000"

definition route_view_of :: "int \<Rightarrow> (string \<times> route_stats) list \<Rightarrow> string list \<Rightarrow> route_config \<Rightarrow> route_view" where
  "route_view_of now stats paused r =
     (let s = map_of stats (r_id r) in
      \<lparr>rv_id = r_id r, rv_source = r_source r, rv_data_stream_key = m_data_stream_key (r_map r), rv_paused = (r_id r \<in> set paused),
       rv_counts = (case s of None \<Rightarrow> [] | Some x \<Rightarrow> rs_counts x),
       rv_last_delivered_at = (case s of None \<Rightarrow> None | Some x \<Rightarrow> rs_last_delivered_at x),
       rv_oldest_pending_age_s = (case s of None \<Rightarrow> None | Some x \<Rightarrow> map_option (\<lambda>t. round_seconds (now - t)) (rs_oldest_pending_at x))\<rparr>)"

section \<open>Handlers\<close>

definition handle_status :: "admin_deps \<Rightarrow> int \<Rightarrow> admin_reply admin" where
  "handle_status dp now =
     bindE (repo_do repo_perRouteStats) (\<lambda>stats.
     bindE (db_do (app_statement (\<lambda>d. (map_option (\<lambda>v. (cv_config_hash v, cv_applied_at v)) (latest_version d), d)))) (\<lambda>current.
     bindE (db_do (getActiveConfig (dp_env dp))) (\<lambda>activeConfig.
     bindE (db_do routes_all) (\<lambda>allRoutes.
     bindE (repo_do pausedRoutes) (\<lambda>paused.
     bindE (repo_do globalKillswitch) (\<lambda>ks.
     bindE (repo_do repo_countByStatus) (\<lambda>queue.
       ret (200, BStatus \<lparr>sv_mode = dp_mode dp,
         sv_secret_envs = (case activeConfig of None \<Rightarrow> [] | Some l \<Rightarrow> envStatus (ae_secrets (dp_env dp)) (lc_routes l)),
         sv_config_hash = map_option fst current, sv_config_applied_at = map_option snd current, sv_config_error = dp_configError dp,
         sv_remote_config = dp_remote dp, sv_killswitch = ks,
         sv_routes_paused = map r_id (filter (\<lambda>r. r_id r \<in> set paused) allRoutes), sv_queue = queue,
         sv_routes = map (route_view_of now stats paused) allRoutes\<rparr>))))))))"

definition killswitch_of_json :: "json option \<Rightarrow> killswitch option" where
  "killswitch_of_json state = (if state = Some (JStr ''none'') then Some KillNone else if state = Some (JStr ''pause'') then Some KillPause
     else if state = Some (JStr ''panic'') then Some KillPanic else None)"

definition handle_killswitch :: "int \<Rightarrow> json option \<Rightarrow> admin_reply admin" where
  "handle_killswitch now state = (case killswitch_of_json state of
     None \<Rightarrow> ret (400, BError ''state must be none|pause|panic'')
   | Some k \<Rightarrow> bindE (repo_do globalKillswitch) (\<lambda>before.
       thenE (repo_do (setGlobalKillswitch k))
       (thenE (db_do (audit_log now ACTOR (''killswitch.'' @ killswitch_text k) [(''before'', JStr (killswitch_text before))]))
         (ret (200, BKillswitch k)))))"

definition handle_pause :: "int \<Rightarrow> string \<Rightarrow> json option \<Rightarrow> admin_reply admin" where
  "handle_pause now i paused = bindE (db_do (routes_get i)) (\<lambda>route. case route of
     None \<Rightarrow> ret (404, BError ''unknown route'')
   | Some _ \<Rightarrow> (case paused of
       Some (JBool p) \<Rightarrow> thenE (repo_do (kv_setRoutePaused i p))
         (thenE (db_do (audit_log now ACTOR (if p then ''route.pause'' else ''route.resume'') [(''route'', JStr i)]))
           (ret (200, BPaused i p)))
     | _ \<Rightarrow> ret (400, BError ''paused must be boolean'')))"

definition payload_of_row :: "admin_deps \<Rightarrow> event_row \<Rightarrow> bytes \<Rightarrow> nat \<times> admin_body + payload_view" where
  "payload_of_row dp row plaintext = (case dp_json_parse dp (utf8_decode plaintext) of
     Inl _ \<Rightarrow> Inl (500, BError ''payload is not valid JSON'')
   | Inr payload \<Rightarrow> Inr \<lparr>pl_id = er_id row, pl_route_id = er_route_id row, pl_event_id = er_event_id row, pl_event_type = er_event_type row,
       pl_status = er_status row, pl_received_at = er_received_at row, pl_last_error = er_last_error row,
       pl_headers = (case dp_json_parse dp (er_headers_json row) of Inl _ \<Rightarrow> JObj [] | Inr h \<Rightarrow> h), pl_payload = payload\<rparr>)"

definition status_text :: "event_status \<Rightarrow> string" where
  "status_text st = (case st of Pending \<Rightarrow> ''pending'' | Delivering \<Rightarrow> ''delivering'' | Delivered \<Rightarrow> ''delivered'' | Retry \<Rightarrow> ''retry''
     | Parked \<Rightarrow> ''parked'' | DroppedByFilter \<Rightarrow> ''dropped_by_filter'')"

definition view_entry :: "payload_view \<Rightarrow> (string \<times> json) list" where
  "view_entry v = [(''event_id'', JNum (string_of_nat (pl_id v))), (''route'', JStr (pl_route_id v)), (''status'', JStr (status_text (pl_status v)))]"

definition handle_payload :: "admin_deps \<Rightarrow> int \<Rightarrow> string \<Rightarrow> admin_reply admin" where
  "handle_payload dp now i =
     (if js_number_of dp i = None then ret (400, BError ''invalid event id'')
      else bindE (repo_do (repo_getById (id_of_number (js_number_of dp i)))) (\<lambda>found. case found of
        None \<Rightarrow> ret (404, BError ''event not found'')
      | Some row \<Rightarrow>
          if er_payload_enc row = [] then ret (410, BError ''payload wiped by retention'')
          else (case decrypt (ae_crypto (dp_env dp)) (dp_dataKey dp) (er_payload_enc row) (er_payload_iv row) of
              Inl _ \<Rightarrow> ret (500, BError ''decrypt failed'')
            | Inr plaintext \<Rightarrow> (case payload_of_row dp row plaintext of
                Inl reply \<Rightarrow> ret reply
              | Inr view \<Rightarrow> thenE (db_do (audit_log now ACTOR ''event.view_payload'' (view_entry view))) (ret (200, BPayload view))))))"

definition handle_replay :: "admin_deps \<Rightarrow> int \<Rightarrow> string \<Rightarrow> admin_reply admin" where
  "handle_replay dp now i = (let eventId = id_of_number (js_number_of dp i) in
     bindE (repo_do (repo_replay now eventId)) (\<lambda>replayed. case eventId of
       Some n \<Rightarrow> if \<not> replayed then ret (409, BError ''event not found or not parked'')
         else thenE (db_do (audit_log now ACTOR ''event.replay'' [(''event_id'', JNum (string_of_nat n))])) (ret (200, BReplayed n))
     | None \<Rightarrow> ret (409, BError ''event not found or not parked'')))"

definition handle_replay_parked :: "int \<Rightarrow> admin_reply admin" where
  "handle_replay_parked now = bindE (repo_do (repo_replayAllParked now)) (\<lambda>count.
     thenE (whenE (0 < count) (db_do (audit_log now ACTOR ''event.replay_all_parked'' [(''count'', JNum (string_of_nat count))])))
       (ret (200, BReplayedParked count)))"

definition handle_get_config :: "admin_deps \<Rightarrow> admin_reply admin" where
  "handle_get_config dp = bindE (db_do readActiveConfigRaw) (\<lambda>raw. ret (case raw of
     None \<Rightarrow> (404, BError ''no config'')
   | Some y \<Rightarrow> (case parseConfig (dp_env dp) y of
       Inl e \<Rightarrow> (200, BConfig y None (Some (message e)))
     | Inr l \<Rightarrow> (200, BConfig (lc_yamlText l) (Some (lc_hash l)) None))))"

definition handle_validate :: "admin_deps \<Rightarrow> string option \<Rightarrow> admin_reply" where
  "handle_validate dp yaml = (case parseConfig (dp_env dp) (case yaml of None \<Rightarrow> [] | Some y \<Rightarrow> y) of
     Inl e \<Rightarrow> (200, BInvalid (message e))
   | Inr l \<Rightarrow> (200, BValid (lc_hash l) (map r_id (lc_routes l)) (envStatus (ae_secrets (dp_env dp)) (lc_routes l))))"

text \<open>The text has a dash that is no character of the model where the hyphen is.\<close>

definition RECOVERY_REASON :: string where
  "RECOVERY_REASON = ''config repaired in recovery mode - forwarding held for review''"

text \<open>A repair comes back up paused; an existing pause or panic is not loosened.\<close>

definition hold_egress :: "admin_deps \<Rightarrow> int \<Rightarrow> bool admin" where
  "hold_egress dp now =
     (if non_empty (dp_configError dp) = None then ret False
      else bindE (repo_do globalKillswitch) (\<lambda>ks.
        if ks \<noteq> KillNone then ret False
        else thenE (repo_do (setGlobalKillswitch KillPause))
          (thenE (db_do (audit_log now ''recovery'' ''killswitch.pause'' [(''reason'', JStr RECOVERY_REASON)])) (ret True))))"

definition handle_config :: "admin_deps \<Rightarrow> int \<Rightarrow> string option \<Rightarrow> admin_reply admin" where
  "handle_config dp now yaml = (case non_empty yaml of
     None \<Rightarrow> ret (400, BError ''yaml required'')
   | Some y \<Rightarrow>
       if (case dp_remote dp of None \<Rightarrow> False | Some st \<Rightarrow> ow_managed st)
       then ret (409, BError ''configuration is managed by End Close; edit it there'')
       else bindE (attemptE (db_do (saveConfig (dp_env dp) now y ACTOR))) (\<lambda>saved. case saved of
           Inl e \<Rightarrow> ret (422, BError (message e))
         | Inr loaded \<Rightarrow> thenE (callback ConfigAppliedCallback)
             (if dp_mode dp = Running then ret (200, BApplied (lc_hash loaded) None)
              else bindE (hold_egress dp now) (\<lambda>paused.
                thenE (callback BootstrapAppliedCallback) (ret (200, BApplied (lc_hash loaded) (Some paused)))))))"

definition draft_routes :: "admin_deps \<Rightarrow> string option \<Rightarrow> (exn + route_config list) admin" where
  "draft_routes dp yaml = (case non_empty yaml of
     Some y \<Rightarrow> ret (case parseConfig (dp_env dp) y of Inl e \<Rightarrow> Inl e | Inr l \<Rightarrow> Inr (lc_routes l))
   | None \<Rightarrow> attemptE (bindE (db_do (getActiveConfig (dp_env dp))) (\<lambda>l. ret (case l of None \<Rightarrow> [] | Some x \<Rightarrow> lc_routes x))))"

definition preview_failure :: "exn \<Rightarrow> admin_reply admin" where
  "preview_failure e = (case e of MappingError m \<Rightarrow> ret (422, BError m) | _ \<Rightarrow> throwE e)"

definition handle_preview ::
  "admin_deps \<Rightarrow> int \<Rightarrow> string option \<Rightarrow> string option \<Rightarrow> json option \<Rightarrow> admin_reply admin" where
  "handle_preview dp now yaml routeId sample = (case (non_empty routeId, sample) of
     (Some rid, Some sm) \<Rightarrow> bindE (draft_routes dp yaml) (\<lambda>config. case config of
         Inl e \<Rightarrow> ret (422, BError (message e))
       | Inr routes \<Rightarrow> (case find (\<lambda>r. r_id r = rid) routes of
           None \<Rightarrow> ret (404, BError (''unknown route: '' @ rid))
         | Some route \<Rightarrow> (case mapEvent (ae_crypto (dp_env dp)) (dp_date_parse dp) route sm (iso_string now) (dp_maskingKey dp) of
             Inr me \<Rightarrow> ret (200, BPreview (me_record me) (me_report me))
           | Inl e \<Rightarrow> preview_failure e)))
   | _ \<Rightarrow> ret (400, BError ''route and sample required''))"

definition admin_handler :: "admin_deps \<Rightarrow> int \<Rightarrow> admin_call \<Rightarrow> admin_reply admin" where
  "admin_handler dp now c = (case c of
     GetHealthz \<Rightarrow> ret (200, BHealth (dp_mode dp))
   | GetStatus \<Rightarrow> handle_status dp now
   | PostKillswitch state \<Rightarrow> handle_killswitch now state
   | PostPause i paused \<Rightarrow> handle_pause now i paused
   | GetEvents f \<Rightarrow> bindE (repo_do (repo_list f)) (\<lambda>rs. ret (200, BEvents (map (summary_of \<circ> toRecord) rs)))
   | GetPayload i \<Rightarrow> handle_payload dp now i
   | PostReplay i \<Rightarrow> handle_replay dp now i
   | PostReplayParked \<Rightarrow> handle_replay_parked now
   | GetAudit limit \<Rightarrow> bindE (db_do (app_statement (\<lambda>d. (take (case limit of None \<Rightarrow> 100 | Some n \<Rightarrow> n)
        (sort_key (\<lambda>a. - int (au_id a)) (ad_audit d)), d)))) (\<lambda>rows. ret (200, BAudit rows))
   | GetConfig \<Rightarrow> handle_get_config dp
   | PostValidate yaml \<Rightarrow> ret (handle_validate dp yaml)
   | PostConfig yaml \<Rightarrow> handle_config dp now yaml
   | PostPreview yaml routeId sample \<Rightarrow> handle_preview dp now yaml routeId sample
   | GetVersions \<Rightarrow> bindE (db_do (listConfigVersions 50)) (\<lambda>vs. ret (200, BVersions vs))
   | GetVersion i \<Rightarrow> bindE (case id_of_number (js_number_of dp i) of None \<Rightarrow> db_do (app_statement (\<lambda>d. (None, d)))
        | Some n \<Rightarrow> db_do (getConfigVersion n)) (\<lambda>v. ret (case v of
          None \<Rightarrow> (404, BError ''unknown version'') | Some x \<Rightarrow> (200, BVersion x))))"

text \<open>The hooks run first; liveness needs no credentials.\<close>

definition admin_request :: "admin_deps \<Rightarrow> int \<Rightarrow> web_request \<Rightarrow> admin_reply admin" where
  "admin_request dp now rq =
     (if aq_call rq \<noteq> GetHealthz \<and> \<not> authorized dp rq then ret (401, BError ''unauthorized'')
      else if cross_site rq then ret (403, BError ''cross-site request refused'')
      else admin_handler dp now (aq_call rq))"

end
