(* ===== verification/AdminFacts.thy ===== *)
theory AdminFacts imports Admin begin

text \<open>
  What a management request can change.  Each table a request may touch is a member of a set;
  the relation \<open>touches\<close> of a set is kept by every combinator, so a handler's set is read off its
  statements.
\<close>

section \<open>Tables\<close>

datatype table = Events | KeyValues | Routes_table | Versions | Audit_log

text \<open>Tables outside the set are as before; the audit log only ever grows at its end.\<close>

definition touches :: "table set \<Rightarrow> app_db \<Rightarrow> app_db \<Rightarrow> bool" where
  "touches T d d' \<longleftrightarrow>
     (Events \<in> T \<or> db_events (ad_store d') = db_events (ad_store d)) \<and>
     (KeyValues \<in> T \<or> db_kv (ad_store d') = db_kv (ad_store d)) \<and>
     (Routes_table \<in> T \<or> ad_routes d' = ad_routes d) \<and>
     (Versions \<in> T \<or> ad_versions d' = ad_versions d) \<and>
     (Audit_log \<in> T \<or> ad_audit d' = ad_audit d) \<and>
     (\<exists>es. ad_audit d' = ad_audit d @ es)"

interpretation tables: step_relation "touches T" for T
proof
  show "touches T d d" for d by (simp add: touches_def)
  fix d d' d'' assume a: "touches T d d'" "touches T d' d''"
  then obtain es es' where "ad_audit d' = ad_audit d @ es" "ad_audit d'' = ad_audit d' @ es'" unfolding touches_def by blast
  then have "\<exists>es. ad_audit d'' = ad_audit d @ es" by simp
  then show "touches T d d''" using a unfolding touches_def by metis
qed

definition admin_touches :: "table set \<Rightarrow> admin_state \<Rightarrow> admin_state \<Rightarrow> bool" where
  "admin_touches T s s' \<longleftrightarrow> touches T (as_db s) (as_db s')"

interpretation admin: step_relation "admin_touches T" for T
  by unfold_locales (simp_all add: admin_touches_def tables.R_refl, blast intro: tables.R_trans)

lemma touches_mono: "touches T d d' \<Longrightarrow> T \<subseteq> T' \<Longrightarrow> touches T' d d'"
  by (auto simp: touches_def)

lemma keeps_touches_mono: "keeps (touches T) m \<Longrightarrow> T \<subseteq> T' \<Longrightarrow> keeps (touches T') m"
  by (auto simp: keeps_def intro: touches_mono)

lemma touches_faults: "touches T d (with_faults d fs)" "touches T (with_faults d fs) d' = touches T d d'"
  by (simp_all add: touches_def with_faults_def)

lemma keeps_statement: "(\<And>d. touches T d (snd (f d))) \<Longrightarrow> keeps (touches T) (app_statement f)"
  by (rule keepsI) (simp add: app_statement_eq touches_faults split: list.splits option.splits, metis touches_faults(2))

lemma keeps_store:
  "(\<And>s. Events \<in> T \<or> db_events (snd (g s)) = db_events s) \<Longrightarrow> (\<And>s. KeyValues \<in> T \<or> db_kv (snd (g s)) = db_kv s) \<Longrightarrow>
     keeps (touches T) (store_sql (statement g))"
  unfolding store_statement by (rule keeps_statement) (simp add: touches_def split_beta)

lemma keeps_transaction: "keeps (touches T) m \<Longrightarrow> keeps (touches T) (app_transaction m)"
proof -
  assume m: "keeps (touches T) m"
  have "keeps (touches T) (app_statement (\<lambda>d. ((), d)))" by (rule keeps_statement) (simp add: touches_def)
  with m have "keeps (touches T) (thenE (app_statement (\<lambda>d. ((), d))) (bindE m (\<lambda>x. thenE (app_statement (\<lambda>d. ((), d))) (ret x))))"
    by (intro tables.keeps_thenE tables.keeps_bindE tables.keeps_ret)
  moreover have "touches T d (rollback d d')" for d d' by (simp add: touches_def rollback_def)
  ultimately show ?thesis
    by (auto simp: keeps_def app_transaction_def split: prod.splits sum.splits) (metis snd_conv)
qed

lemma store_sql_bind: "store_sql (bindE m f) = bindE (store_sql m) (\<lambda>x. store_sql (f x))"
  by (rule ext) (simp add: store_sql_def zoomE_def bindE_def split: prod.splits sum.splits)

lemma store_sql_ret [simp]: "store_sql (ret x) = ret x"
  by (rule ext) (simp add: store_sql_def zoomE_def ret_def)

section \<open>The statements of the handlers\<close>

named_theorems touch_rules

lemma touch_reads [touch_rules]:
  "keeps (touches T) (store_sql (kv_get k))" "keeps (touches T) (store_sql pausedRoutes)" "keeps (touches T) (store_sql globalKillswitch)"
  "keeps (touches T) (store_sql repo_countByStatus)" "keeps (touches T) (store_sql repo_perRouteStats)"
  "keeps (touches T) (store_sql (repo_list f))" "keeps (touches T) (store_sql (repo_getById i))"
  "keeps (touches T) (routes_get rid)" "keeps (touches T) routes_all" "keeps (touches T) readActiveConfigRaw"
  "keeps (touches T) (getActiveConfig E)" "keeps (touches T) (listConfigVersions n)" "keeps (touches T) (getConfigVersion v)"
proof -
  show get: "keeps (touches T) (store_sql (kv_get k))" for k unfolding kv_get_def by (rule keeps_store) simp_all
  then show "keeps (touches T) (store_sql globalKillswitch)"
    by (simp add: globalKillswitch_def store_sql_bind tables.keeps_bindE tables.keeps_ret)
  show "keeps (touches T) (store_sql pausedRoutes)" unfolding pausedRoutes_def by (rule keeps_store) simp_all
  show "keeps (touches T) (store_sql repo_countByStatus)" unfolding repo_countByStatus_def by (rule keeps_store) simp_all
  show "keeps (touches T) (store_sql repo_perRouteStats)"
    unfolding repo_perRouteStats_def store_sql_bind Let_def store_sql_ret by (intro tables.keeps_bindE tables.keeps_ret keeps_store) simp_all
  show "keeps (touches T) (store_sql (repo_list f))" unfolding repo_list_def by (rule keeps_store) simp_all
  show "keeps (touches T) (store_sql (repo_getById i))" unfolding repo_getById_def by (rule keeps_store) simp_all
  have id: "touches T d d" for d by (rule tables.R_refl)
  show "keeps (touches T) (routes_get rid)" "keeps (touches T) routes_all" "keeps (touches T) (listConfigVersions n)"
    "keeps (touches T) (getConfigVersion v)"
    unfolding routes_get_def routes_all_def listConfigVersions_def getConfigVersion_def by (rule keeps_statement; simp add: id)+
  show raw: "keeps (touches T) readActiveConfigRaw" unfolding readActiveConfigRaw_def by (rule keeps_statement) (simp add: id)
  show "keeps (touches T) (getActiveConfig E)" unfolding getActiveConfig_def by (rule tables.keeps_bindE [OF raw tables.keeps_ret])
qed

lemma touch_kv [touch_rules]:
  assumes "KeyValues \<in> T"
  shows "keeps (touches T) (store_sql (kv_set k v))" "keeps (touches T) (store_sql (kv_delete k))"
    "keeps (touches T) (store_sql (kv_setRoutePaused i p))" "keeps (touches T) (store_sql (setGlobalKillswitch ks))"
proof -
  show set: "keeps (touches T) (store_sql (kv_set k v))" for k v unfolding kv_set_def by (rule keeps_store) (simp_all add: assms)
  show del: "keeps (touches T) (store_sql (kv_delete k))" for k unfolding kv_delete_def by (rule keeps_store) (simp_all add: assms)
  show "keeps (touches T) (store_sql (kv_setRoutePaused i p))" "keeps (touches T) (store_sql (setGlobalKillswitch ks))"
    by (simp_all add: kv_setRoutePaused_def setGlobalKillswitch_def set del)
qed

lemma touch_audit [touch_rules]: "Audit_log \<in> T \<Longrightarrow> keeps (touches T) (audit_log now actor act det)"
  unfolding audit_log_def by (rule keeps_statement) (simp add: touches_def)

lemma touch_events [touch_rules]:
  assumes "Events \<in> T"
  shows "keeps (touches T) (store_sql (repo_replay now i))" "keeps (touches T) (store_sql (repo_replayAllParked now))"
  unfolding repo_replay_def repo_replayAllParked_def update_events_def store_sql_bind store_sql_ret
  by (intro tables.keeps_bindE tables.keeps_ret keeps_store; simp add: assms)+

lemma touch_save [touch_rules]:
  assumes "{KeyValues, Routes_table, Versions, Audit_log} \<subseteq> T"
  shows "keeps (touches T) (saveConfig E now y by')"
proof -
  have st: "keeps (touches T) (app_statement (\<lambda>d. ((), d\<lparr>ad_routes := f d\<rparr>)))"
    "keeps (touches T) (app_statement (\<lambda>d. (g d, d)))" "keeps (touches T) (app_statement (\<lambda>d. ((), d\<lparr>ad_versions := v d\<rparr>)))" for f v
    and g :: "app_db \<Rightarrow> string option"
    by (rule keeps_statement; use assms in \<open>auto simp: touches_def\<close>)+
  have kv: "KeyValues \<in> T" and au: "Audit_log \<in> T" using assms by auto
  show ?thesis
    unfolding saveConfig_def require_secrets_def apply_version_def routes_upsertAll_def drop_pauses_def insert_version_def
    by (intro keeps_rules keeps_transaction st touch_reads touch_kv [OF kv] touch_audit [OF au])
qed

section \<open>The handlers\<close>

lemma keeps_db_do: "keeps (touches T) m \<Longrightarrow> keeps (admin_touches T) (db_do m)"
  by (auto simp: keeps_def db_do_def zoomE_def admin_touches_def split: prod.splits) (metis snd_conv)

lemma keeps_repo_do: "keeps (touches T) (store_sql m) \<Longrightarrow> keeps (admin_touches T) (repo_do m)"
  by (simp add: repo_do_def keeps_db_do)

lemma keeps_attempt: "keeps R m \<Longrightarrow> keeps R (attemptE m)"
  by (auto simp: keeps_def attemptE_def split: prod.splits) (metis snd_conv)

lemma keeps_callback: "keeps (admin_touches T) (callback c)"
  by (simp add: keeps_def callback_def modifyE_def admin_touches_def tables.R_refl)

lemma keeps_reading: "keeps (admin_touches T) (db_do (app_statement (\<lambda>d. (f d, d))))"
  by (intro keeps_db_do keeps_statement) (simp add: tables.R_refl)

lemmas handler_rules = keeps_rules keeps_attempt keeps_callback keeps_reading keeps_repo_do keeps_db_do

text \<open>The tables a request may touch once the guards let it through.\<close>

definition may_touch :: "admin_deps \<Rightarrow> admin_call \<Rightarrow> table set" where
  "may_touch dp c = (case c of
     PostKillswitch state \<Rightarrow> if killswitch_of_json state = None then {} else {KeyValues, Audit_log}
   | PostPause _ _ \<Rightarrow> {KeyValues, Audit_log}
   | GetPayload _ \<Rightarrow> {Audit_log}
   | PostReplay _ \<Rightarrow> {Events, Audit_log}
   | PostReplayParked \<Rightarrow> {Events, Audit_log}
   | PostConfig yaml \<Rightarrow>
       if non_empty yaml = None \<or> (case dp_remote dp of None \<Rightarrow> False | Some st \<Rightarrow> ow_managed st) then {}
       else {KeyValues, Routes_table, Versions, Audit_log}
   | _ \<Rightarrow> {})"

lemma keeps_status: "keeps (admin_touches T) (handle_status dp now)"
  unfolding handle_status_def by (intro handler_rules touch_reads)

lemma keeps_killswitch: "keeps (admin_touches (may_touch dp (PostKillswitch state))) (handle_killswitch now state)"
  unfolding handle_killswitch_def
  by (intro handler_rules touch_reads touch_kv touch_audit) (simp_all add: may_touch_def)

lemma keeps_pause: "keeps (admin_touches (may_touch dp (PostPause i p))) (handle_pause now i p)"
proof (cases "\<exists>b. p = Some (JBool b)")
  case True
  then obtain b where p: "p = Some (JBool b)" by blast
  show ?thesis unfolding handle_pause_def p option.case json.case
    by (intro handler_rules touch_reads touch_kv touch_audit) (simp_all add: may_touch_def)
next
  case False
  then have "handle_pause now i p = bindE (db_do (routes_get i)) (\<lambda>route. case route of
       None \<Rightarrow> ret (404, BError ''unknown route'') | Some _ \<Rightarrow> ret (400, BError ''paused must be boolean''))"
    by (auto simp: handle_pause_def intro!: arg_cong [where f = "bindE _"] split: option.splits json.splits)
  then show ?thesis by simp (intro handler_rules touch_reads)
qed

lemma keeps_payload: "keeps (admin_touches (may_touch dp (GetPayload i))) (handle_payload dp now i)"
  unfolding handle_payload_def
  by (intro handler_rules touch_reads touch_audit) (simp_all add: may_touch_def)

lemma keeps_replay: "keeps (admin_touches (may_touch dp (PostReplay i))) (handle_replay dp now i)"
  unfolding handle_replay_def Let_def
  by (intro handler_rules touch_events touch_audit) (simp_all add: may_touch_def)

lemma keeps_replay_parked: "keeps (admin_touches (may_touch dp PostReplayParked)) (handle_replay_parked now)"
  unfolding handle_replay_parked_def
  by (intro handler_rules touch_events touch_audit) (simp_all add: may_touch_def)

lemma keeps_config: "keeps (admin_touches (may_touch dp (PostConfig yaml))) (handle_config dp now yaml)"
  unfolding handle_config_def hold_egress_def
  by (intro handler_rules touch_reads touch_save touch_kv touch_audit) (simp_all add: may_touch_def)

lemma keeps_preview: "keeps (admin_touches T) (handle_preview dp now yaml rid sample)"
proof -
  have draft: "keeps (admin_touches T) (draft_routes dp yaml)"
    unfolding draft_routes_def by (intro handler_rules touch_reads)
  have out: "keeps (admin_touches T) (preview_failure e)" for e
    by (cases e) (simp_all add: preview_failure_def keeps_rules)
  show ?thesis unfolding handle_preview_def prod.case by (intro handler_rules draft out)
qed

lemma keeps_handler: "keeps (admin_touches (may_touch dp c)) (admin_handler dp now c)"
proof (cases c)
  case GetHealthz then show ?thesis by (simp add: admin_handler_def keeps_rules)
next
  case GetStatus then show ?thesis by (simp add: admin_handler_def keeps_status)
next
  case (PostKillswitch state) then show ?thesis by (simp add: admin_handler_def keeps_killswitch)
next
  case (PostPause i p) then show ?thesis by (simp add: admin_handler_def keeps_pause)
next
  case (GetEvents f) then show ?thesis unfolding admin_handler_def by simp (intro handler_rules touch_reads)
next
  case (GetPayload i) then show ?thesis by (simp add: admin_handler_def keeps_payload)
next
  case (PostReplay i) then show ?thesis by (simp add: admin_handler_def keeps_replay)
next
  case PostReplayParked then show ?thesis by (simp add: admin_handler_def keeps_replay_parked)
next
  case (GetAudit l) then show ?thesis unfolding admin_handler_def by simp (intro handler_rules)
next
  case GetConfig then show ?thesis unfolding admin_handler_def handle_get_config_def by simp (intro handler_rules touch_reads)
next
  case (PostValidate y) then show ?thesis by (simp add: admin_handler_def keeps_rules)
next
  case (PostConfig y) then show ?thesis by (simp add: admin_handler_def keeps_config)
next
  case (PostPreview y r sm) then show ?thesis by (simp add: admin_handler_def keeps_preview)
next
  case GetVersions then show ?thesis unfolding admin_handler_def by simp (intro handler_rules touch_reads)
next
  case (GetVersion i) then show ?thesis unfolding admin_handler_def by simp (intro handler_rules touch_reads)
qed

lemma authorized_iff: "authorized dp rq \<longleftrightarrow> (case aq_authorization rq of None \<Rightarrow> False | Some h \<Rightarrow> h = basic_auth_header (dp_basicAuth dp))"
proof -
  have "basic_auth_header u \<noteq> []" for u by (simp add: basic_auth_header_def)
  then show ?thesis
    by (auto simp: authorized_def Let_def timing_safe_equal_def split: option.splits dest: sym)
qed

lemma admin_request_request_frame:
  "touches (if aq_authorization rq = Some (basic_auth_header (dp_basicAuth dp)) \<and> \<not> cross_site rq then may_touch dp (aq_call rq) else {})
    (as_db s) (as_db (snd (admin_request dp now rq s)))"
proof (cases "aq_call rq \<noteq> GetHealthz \<and> \<not> authorized dp rq \<or> cross_site rq")
  case True
  then have "snd (admin_request dp now rq s) = s" by (auto simp: admin_request_def ret_def)
  then show ?thesis by (simp add: tables.R_refl)
next
  case False
  then have "admin_request dp now rq s = admin_handler dp now (aq_call rq) s" by (auto simp: admin_request_def)
  then have t: "touches (may_touch dp (aq_call rq)) (as_db s) (as_db (snd (admin_request dp now rq s)))"
    using keeps_handler [of dp "aq_call rq" now] by (simp add: keeps_def admin_touches_def)
  show ?thesis
  proof (cases "aq_call rq = GetHealthz")
    case True
    then have "may_touch dp (aq_call rq) = {}" by (simp add: may_touch_def)
    with t show ?thesis by (auto intro: touches_mono)
  next
    case ne: False
    with False t show ?thesis by (auto simp: authorized_iff split: option.splits)
  qed
qed

text \<open>
  \<^bold>\<open>C19.\<close> What a management request may change, whether it answers or throws.  Without the exact
  credentials nothing; from another site (a \<open>Sec-Fetch-Site\<close> that is set and neither \<open>same-origin\<close>
  nor \<open>none\<close>) nothing either, but for the reading of a payload, a \<open>GET\<close>, which leaves its audit entry.
  Otherwise: the operator's flags only through the killswitch, pause and configuration requests;
  events only through replays; routes and versions only by a posted document while End Close does
  not own the configuration; looking at a payload changes nothing but the audit log, which no
  request ever shortens or rewrites.
\<close>

theorem admin_request_frame:
  "touches (if aq_authorization rq = Some (basic_auth_header (dp_basicAuth dp)) \<and>
      ((\<exists>i. aq_call rq = GetPayload i) \<or> aq_site rq \<in> {None, Some '''', Some ''same-origin'', Some ''none''})
    then may_touch dp (aq_call rq) else {}) (as_db s) (as_db (snd (admin_request dp now rq s)))"
proof (cases "cross_site rq")
  case True
  then have refused: "\<not> ((\<exists>i. aq_call rq = GetPayload i) \<or> aq_site rq \<in> {None, Some '''', Some ''same-origin'', Some ''none''})"
    by (auto simp: cross_site_def is_get_def non_empty_def split: option.splits if_splits)
  from admin_request_request_frame [of rq dp s now] show ?thesis
    by (simp only: refused True not_True_eq_False simp_thms if_False)
next
  case False
  then have "may_touch dp (aq_call rq) = {} \<or> (\<exists>i. aq_call rq = GetPayload i) \<or> aq_site rq \<in> {None, Some '''', Some ''same-origin'', Some ''none''}"
    by (cases "aq_call rq"; cases "aq_site rq") (auto simp: cross_site_def is_get_def non_empty_def may_touch_def split: if_splits)
  with False show ?thesis using admin_request_request_frame [of rq dp s now] by (auto split: if_splits)
qed

section \<open>Every change is in the audit log\<close>

definition audited :: "app_db \<Rightarrow> app_db \<Rightarrow> bool" where
  "audited d d' \<longleftrightarrow> touches {} d d' \<or> (\<exists>e es. ad_audit d' = ad_audit d @ e # es \<and> au_actor e \<in> {ACTOR, ''recovery''})"

definition as_calm :: "admin_state \<Rightarrow> bool" where
  "as_calm s \<longleftrightarrow> db_faults (ad_store (as_db s)) = []"

lemma db_do_calm: "as_calm s \<Longrightarrow> db_do (app_statement f) s = (Inr (fst (f (as_db s))), s\<lparr>as_db := snd (f (as_db s))\<rparr>)"
  by (simp add: db_do_def zoomE_def as_calm_def)

lemma repo_do_calm:
  "as_calm s \<Longrightarrow> repo_do (statement g) s = (Inr (fst (g (ad_store (as_db s)))), s\<lparr>as_db := (as_db s)\<lparr>ad_store := snd (g (ad_store (as_db s)))\<rparr>\<rparr>)"
  unfolding repo_do_def store_statement by (subst db_do_calm) (simp_all add: split_beta)

lemma db_do_bind: "db_do (bindE m f) = bindE (db_do m) (\<lambda>x. db_do (f x))"
  by (rule ext) (simp add: db_do_def zoomE_def bindE_def split: prod.splits sum.splits)

lemma db_do_ret: "db_do (ret x) = ret x"
  by (rule ext) (simp add: db_do_def zoomE_def ret_def)

lemma repo_do_bind: "repo_do (bindE m f) = bindE (repo_do m) (\<lambda>x. repo_do (f x))"
  by (simp only: repo_do_def store_sql_bind db_do_bind)

lemma repo_do_ret: "repo_do (ret x) = ret x"
  by (simp only: repo_do_def store_sql_ret db_do_ret)

lemma as_calm_simps [simp]:
  "as_calm (s\<lparr>as_db := d\<rparr>) \<longleftrightarrow> db_faults (ad_store d) = []" "as_calm (s\<lparr>as_callbacks := cs\<rparr>) = as_calm s"
  by (simp_all add: as_calm_def)

lemma as_calmD: "as_calm s \<Longrightarrow> db_faults (ad_store (as_db s)) = []"
  by (simp add: as_calm_def)

text \<open>First the repositories' methods are taken apart, then every statement runs.\<close>

lemmas repo_parts = repo_do_bind repo_do_ret globalKillswitch_def setGlobalKillswitch_def kv_get_def kv_set_def kv_delete_def
  repo_getById_def repo_replay_def repo_replayAllParked_def update_events_def

lemmas calm_run = bindE_def thenE_def ret_def whenE_def repo_do_calm db_do_calm as_calmD

lemma audited_killswitch: "as_calm s \<Longrightarrow> audited (as_db s) (as_db (snd (handle_killswitch now st s)))"
  unfolding handle_killswitch_def audit_log_def repo_parts
  by (cases "killswitch_of_json st") (simp_all add: calm_run audited_def tables.R_refl)

lemma audited_pause: "as_calm s \<Longrightarrow> audited (as_db s) (as_db (snd (handle_pause now i p s)))"
  unfolding handle_pause_def audit_log_def routes_get_def
  by (simp add: calm_run kv_setRoutePaused_def kv_set_def kv_delete_def audited_def tables.R_refl split: option.splits json.splits)

lemma audited_payload: "as_calm s \<Longrightarrow> audited (as_db s) (as_db (snd (handle_payload dp now i s)))"
  unfolding handle_payload_def audit_log_def repo_parts
  by (simp add: calm_run audited_def tables.R_refl split: option.splits sum.splits)

lemma touches_calm: "calm d' = calm d \<Longrightarrow> touches {} d d'"
  unfolding touches_def by (metis append_Nil2 calm_simps(1,2,3,4,5))

lemma audited_trans: "audited d d' \<Longrightarrow> audited d' d'' \<Longrightarrow> audited d d''"
proof -
  assume a: "audited d d'" and b: "audited d' d''"
  have same: "ad_audit y = ad_audit x" if "touches {} x y" for x y using that by (simp add: touches_def)
  have grows: "\<exists>es. ad_audit d'' = ad_audit d' @ es" using b by (auto simp: audited_def touches_def)
  show ?thesis
  proof (cases "touches {} d d'")
    case True
    show ?thesis
    proof (cases "touches {} d' d''")
      case t: True
      with True show ?thesis unfolding audited_def using tables.R_trans by blast
    next
      case False
      with b same [OF True] show ?thesis by (simp add: audited_def)
    qed
  next
    case False
    with a obtain e es where "ad_audit d' = ad_audit d @ e # es" "au_actor e \<in> {ACTOR, ''recovery''}" unfolding audited_def by blast
    with grows show ?thesis unfolding audited_def by fastforce
  qed
qed

lemma one_row: "distinct (map er_id rs) \<Longrightarrow> length (filter (where_holds (\<lambda>r. sql_and (id_in [i] r) (q r))) rs) \<le> 1"
proof (induction rs)
  case (Cons r rs)
  have "filter (where_holds (\<lambda>r. sql_and (id_in [i] r) (q r))) rs = []" if "where_holds (\<lambda>r. sql_and (id_in [i] r) (q r)) r"
  proof -
    from that have "i = Some (er_id r)" by (auto simp: where_holds_def sql_and_def id_in_def split: if_splits)
    moreover have "er_id x \<noteq> er_id r" if "x \<in> set rs" for x using that Cons.prems by simp (metis image_eqI)
    ultimately have "\<not> where_holds (\<lambda>r. sql_and (id_in [i] r) (q r)) x" if "x \<in> set rs" for x
      using that by (simp add: where_holds_def sql_and_def id_in_def)
    then show ?thesis by (simp add: filter_empty_conv)
  qed
  with Cons show ?case by auto
qed simp

lemma no_row: "length (filter P rs) = 0 \<Longrightarrow> update_where P f rs = rs"
  by (rule update_where_false) (auto simp: filter_empty_conv)

lemma touches_same_events: "touches {} d (d\<lparr>ad_store := (ad_store d)\<lparr>db_events := db_events (ad_store d)\<rparr>\<rparr>)"
  by (simp add: touches_def)

lemma audited_replay:
  assumes "as_calm s" and "distinct (map er_id (db_events (ad_store (as_db s))))"
  shows "audited (as_db s) (as_db (snd (handle_replay dp now i s)))"
proof (cases "id_of_number (js_number_of dp i)")
  case None
  let ?P = "where_holds (\<lambda>r. sql_and (id_in [None] r) (Some (er_status r = Parked)))"
  have "length (filter ?P (db_events (ad_store (as_db s)))) = 0"
    by (simp add: filter_empty_conv where_holds_def sql_and_def id_in_def)
  from no_row [OF this] show ?thesis
    using assms(1) unfolding handle_replay_def Let_def audit_log_def repo_parts None
    by (simp add: calm_run audited_def touches_same_events tables.R_refl)
next
  case (Some n)
  let ?P = "where_holds (\<lambda>r. sql_and (id_in [Some n] r) (Some (er_status r = Parked)))"
  let ?k = "length (filter ?P (db_events (ad_store (as_db s))))"
  from one_row [OF assms(2)] have "?k = 1 \<or> ?k = 0" by (metis le_neq_implies_less less_one)
  then show ?thesis
  proof
    assume "?k = 1"
    with assms(1) show ?thesis
      unfolding handle_replay_def Let_def audit_log_def repo_parts Some by (simp add: calm_run audited_def)
  next
    assume k: "?k = 0"
    with assms(1) no_row [OF k] show ?thesis
      unfolding handle_replay_def Let_def audit_log_def repo_parts Some by (simp add: calm_run audited_def touches_same_events tables.R_refl)
  qed
qed

lemma audited_replay_parked: "as_calm s \<Longrightarrow> audited (as_db s) (as_db (snd (handle_replay_parked now s)))"
proof -
  assume c: "as_calm s"
  let ?k = "length (filter (where_holds (\<lambda>r. Some (er_status r = Parked))) (db_events (ad_store (as_db s))))"
  show ?thesis
  proof (cases "?k = 0")
    case True
    with c no_row [OF this] show ?thesis
      unfolding handle_replay_parked_def audit_log_def repo_parts by (simp add: calm_run audited_def touches_same_events tables.R_refl)
  next
    case False
    with c show ?thesis unfolding handle_replay_parked_def audit_log_def repo_parts by (simp add: calm_run audited_def)
  qed
qed

lemma audited_hold: "as_calm s \<Longrightarrow> audited (as_db s) (as_db (snd (hold_egress dp now s)))"
  unfolding hold_egress_def audit_log_def repo_parts
  by (simp add: calm_run audited_def tables.R_refl)

lemma audited_save:
  assumes "saveConfig E now y ACTOR d = (r, d')"
  shows "audited d d'"
proof (cases r)
  case (Inl e)
  with assms saveConfig_Inl touches_calm show ?thesis by (metis audited_def)
next
  case (Inr l)
  show ?thesis
  proof (cases "unchanged_version d l")
    case True
    with save_outcome [OF assms] Inr touches_calm show ?thesis by (simp add: audited_def)
  next
    case False
    with save_outcome [OF assms] Inr show ?thesis by (auto simp: audited_def apply_entry_def)
  qed
qed

lemma audited_config:
  assumes "as_calm s"
  shows "audited (as_db s) (as_db (snd (handle_config dp now yaml s)))"
proof -
  have refl: "audited d d" for d by (simp add: audited_def tables.R_refl)
  show ?thesis
  proof (cases "non_empty yaml = None \<or> (case dp_remote dp of None \<Rightarrow> False | Some st \<Rightarrow> ow_managed st)")
    case True
    then show ?thesis by (auto simp: handle_config_def ret_def refl split: option.splits)
  next
    case False
    then obtain y where y: "non_empty yaml = Some y" by auto
    obtain r d' where sv: "saveConfig (dp_env dp) now y ACTOR (as_db s) = (r, d')" by fastforce
    have a: "audited (as_db s) d'" by (rule audited_save [OF sv])
    have f: "db_faults (ad_store d') = []" using no_faults_save [OF as_calmD [OF assms], of "dp_env dp" now y ACTOR] sv by simp
    let ?s = "s\<lparr>as_db := d', as_callbacks := as_callbacks s @ [ConfigAppliedCallback]\<rparr>"
    obtain q s2 where h: "hold_egress dp now ?s = (q, s2)" by fastforce
    have "audited d' (as_db s2)" using audited_hold [of ?s dp now] h f by (simp add: as_calm_def)
    then have "audited (as_db s) (as_db s2)" using a audited_trans by blast
    then show ?thesis using False y sv a h
      by (cases r; cases q) (auto simp: handle_config_def attemptE_def db_do_def zoomE_def bindE_def thenE_def callback_def modifyE_def ret_def)
  qed
qed

text \<open>
  \<^bold>\<open>C20.\<close> On a working driver and a table with a primary key, a request that changes anything at all
  adds an entry of the operator (or of the recovery) to the audit log.
\<close>

theorem admin_request_audited:
  assumes "as_calm s" and "distinct (map er_id (db_events (ad_store (as_db s))))"
  shows "audited (as_db s) (as_db (snd (admin_request dp now rq s)))"
proof -
  have quiet: "audited (as_db s) (as_db (snd (admin_handler dp now c s)))" if "may_touch dp c = {}" for c
    using keeps_handler [of dp c now] that by (simp add: keeps_def admin_touches_def audited_def)
  have "audited (as_db s) (as_db (snd (admin_handler dp now c s)))" for c
  proof (cases c)
    case (PostKillswitch st) then show ?thesis using audited_killswitch assms by (simp add: admin_handler_def)
  next
    case (PostPause i p) then show ?thesis using audited_pause assms by (simp add: admin_handler_def)
  next
    case (GetPayload i) then show ?thesis using audited_payload assms by (simp add: admin_handler_def)
  next
    case (PostReplay i) then show ?thesis using audited_replay assms by (simp add: admin_handler_def)
  next
    case PostReplayParked then show ?thesis using audited_replay_parked assms by (simp add: admin_handler_def)
  next
    case (PostConfig y) then show ?thesis using audited_config assms by (simp add: admin_handler_def)
  qed (rule quiet, simp add: may_touch_def)+
  then show ?thesis by (simp add: admin_request_def ret_def audited_def tables.R_refl)
qed

section \<open>Looking at a payload\<close>

lemma find_by_id: "find (where_holds (id_in [i])) rows = (case i of None \<Rightarrow> None | Some n \<Rightarrow> find (\<lambda>r. er_id r = n) rows)"
proof (cases i)
  case None
  then show ?thesis by (simp add: find_None_iff where_holds_def id_in_def)
next
  case (Some n)
  have "where_holds (id_in [Some n]) = (\<lambda>r. er_id r = n)" by (rule ext) (simp add: where_holds_def id_in_def)
  with Some show ?thesis by simp
qed

text \<open>The entry that looking at an event writes, from the columns it may name.\<close>

definition payload_seen_entry :: "app_db \<Rightarrow> int \<Rightarrow> nat \<Rightarrow> string \<Rightarrow> event_status \<Rightarrow> audit_entry" where
  "payload_seen_entry d now n route st = \<lparr>au_id = next_id (map au_id (ad_audit d)), au_at = now, au_actor = ''admin'',
     au_action = ''event.view_payload'',
     au_detail_json = show_json (JObj [(''event_id'', JNum (string_of_nat n)), (''route'', JStr route),
       (''status'', JStr (case st of Pending \<Rightarrow> ''pending'' | Delivering \<Rightarrow> ''delivering'' | Delivered \<Rightarrow> ''delivered'' | Retry \<Rightarrow> ''retry''
          | Parked \<Rightarrow> ''parked'' | DroppedByFilter \<Rightarrow> ''dropped_by_filter''))])\<rparr>"

lemma entry_of_view:
  "payload_of_row dp row p = Inr v \<Longrightarrow> \<lparr>au_id = next_id (map au_id (ad_audit d)), au_at = now, au_actor = ACTOR, au_action = ''event.view_payload'',
     au_detail_json = show_json (JObj (view_entry v))\<rparr> = payload_seen_entry d now (er_id row) (er_route_id row) (er_status row)"
  by (auto simp: payload_of_row_def payload_seen_entry_def view_entry_def status_text_def ACTOR_def split: sum.splits)

lemma number_id: "id_of_number (Some (rat_of_nat n)) = Some n"
  using quotient_of_int [of "int n"] by (simp add: id_of_number_def)

lemma handle_payload_run:
  assumes "as_calm s" and "js_number_of dp i = Some (of_nat n)"
  shows "handle_payload dp now i s = (case find (\<lambda>r. er_id r = n) (db_events (ad_store (as_db s))) of
      None \<Rightarrow> (Inr (404, BError ''event not found''), s)
    | Some row \<Rightarrow>
        if er_payload_enc row = [] then (Inr (410, BError ''payload wiped by retention''), s)
        else (case decrypt (ae_crypto (dp_env dp)) (dp_dataKey dp) (er_payload_enc row) (er_payload_iv row) of
            Inl _ \<Rightarrow> (Inr (500, BError ''decrypt failed''), s)
          | Inr plaintext \<Rightarrow> (case payload_of_row dp row plaintext of
              Inl reply \<Rightarrow> (Inr reply, s)
            | Inr view \<Rightarrow> (Inr (200, BPayload view), s\<lparr>as_db := (as_db s)\<lparr>ad_audit := ad_audit (as_db s) @
                [payload_seen_entry (as_db s) now (er_id row) (er_route_id row) (er_status row)]\<rparr>\<rparr>))))"
  using assms(1) unfolding handle_payload_def audit_log_def repo_parts Let_def
  by (simp add: calm_run assms(2) number_id find_by_id entry_of_view split: option.splits sum.splits)

lemma seal_nonempty: "aead_correct C \<Longrightarrow> fst (encrypt C k iv p) \<noteq> []"
  unfolding encrypt_def aead_correct_def by (auto simp: split_beta) (metis length_0_conv snd_conv surj_pair zero_neq_numeral)

abbreviation payload_seen :: "admin_state \<Rightarrow> int \<Rightarrow> nat \<Rightarrow> event_row \<Rightarrow> admin_state" where
  "payload_seen s now n row \<equiv> s\<lparr>as_db := (as_db s)\<lparr>ad_audit := ad_audit (as_db s) @
     [payload_seen_entry (as_db s) now n (er_route_id row) (er_status row)]\<rparr>\<rparr>"

lemma find_row: "distinct (map er_id rs) \<Longrightarrow> row \<in> set rs \<Longrightarrow> find (\<lambda>r. er_id r = er_id row) rs = Some row"
  by (induction rs) auto

lemma payload_opens:
  assumes "as_calm s" and "aead_correct (ae_crypto (dp_env dp))" and "js_number_of dp i = Some (of_nat n)"
    and "distinct (map er_id (db_events (ad_store (as_db s))))" and "row \<in> set (db_events (ad_store (as_db s)))" and "er_id row = n"
    and "(er_payload_enc row, er_payload_iv row) = encrypt (ae_crypto (dp_env dp)) (dp_dataKey dp) iv (utf8 body)"
    and "dp_json_parse dp body = Inr payload"
  shows "\<exists>v. handle_payload dp now i s = (Inr (200, BPayload v), payload_seen s now n row) \<and> pl_id v = n \<and>
    pl_route_id v = er_route_id row \<and> pl_event_id v = er_event_id row \<and> pl_status v = er_status row \<and> pl_payload v = payload"
proof -
  have "find (\<lambda>r. er_id r = n) (db_events (ad_store (as_db s))) = Some row" using find_row [OF assms(4,5)] assms(6) by simp
  moreover have "er_payload_enc row \<noteq> []" using seal_nonempty [OF assms(2)] assms(7) by (metis fst_conv)
  moreover have "decrypt (ae_crypto (dp_env dp)) (dp_dataKey dp) (er_payload_enc row) (er_payload_iv row) = Inr (utf8 body)"
    using decrypt_encrypt [OF assms(2)] assms(7) by (metis fst_conv snd_conv)
  ultimately show ?thesis using handle_payload_run [OF assms(1,3), of now] assms(6,8) by (simp add: payload_of_row_def)
qed

lemma payload_answers:
  assumes "as_calm s" and "js_number_of dp i = Some (of_nat n)" and "distinct (map er_id (db_events (ad_store (as_db s))))"
  defines "rows \<equiv> db_events (ad_store (as_db s))"
  shows "case handle_payload dp now i s of
       (Inr (status, BPayload v), s') \<Rightarrow> status = 200 \<and> (\<exists>row \<in> set rows. er_id row = n \<and> er_payload_enc row \<noteq> [] \<and> s' = payload_seen s now n row)
     | (Inr (status, BError m), s') \<Rightarrow> s' = s \<and>
         status = (if n \<notin> er_id ` set rows then 404 else if \<exists>row \<in> set rows. er_id row = n \<and> er_payload_enc row = [] then 410 else 500)
     | _ \<Rightarrow> False"
proof (cases "find (\<lambda>r. er_id r = n) rows")
  case None
  then have "n \<notin> er_id ` set rows" by (auto simp: find_None_iff)
  with None handle_payload_run [OF assms(1,2), of now] show ?thesis by (simp add: rows_def)
next
  case (Some row)
  then have row: "row \<in> set rows" "er_id row = n" by (auto simp: find_Some_iff)
  have only: "x = row" if "x \<in> set rows" "er_id x = n" for x using find_row [of rows x] that assms(3) Some by (simp add: rows_def)
  have id: "n \<in> er_id ` set rows" using row by auto
  have wiped: "(\<exists>x \<in> set rows. er_id x = n \<and> er_payload_enc x = []) \<longleftrightarrow> er_payload_enc row = []" using only row by blast
  have reply: "q = (500, BError ''payload is not valid JSON'')" if "payload_of_row dp row p = Inl q" for p q
    using that by (auto simp: payload_of_row_def split: sum.splits)
  note run = handle_payload_run [OF assms(1,2), of now, folded rows_def, unfolded Some option.case]
  consider "er_payload_enc row = []"
    | e where "er_payload_enc row \<noteq> []" "decrypt (ae_crypto (dp_env dp)) (dp_dataKey dp) (er_payload_enc row) (er_payload_iv row) = Inl e"
    | p q where "er_payload_enc row \<noteq> []" "decrypt (ae_crypto (dp_env dp)) (dp_dataKey dp) (er_payload_enc row) (er_payload_iv row) = Inr p"
        "payload_of_row dp row p = Inl q"
    | p v where "er_payload_enc row \<noteq> []" "decrypt (ae_crypto (dp_env dp)) (dp_dataKey dp) (er_payload_enc row) (er_payload_iv row) = Inr p"
        "payload_of_row dp row p = Inr v"
    by (meson sum.exhaust)
  then show ?thesis
  proof cases
    case 1
    with run id wiped show ?thesis by simp
  next
    case 2
    with run id wiped show ?thesis by simp
  next
    case 3
    with run id wiped reply [OF 3(3)] show ?thesis by simp
  next
    case 4
    with run row(2) have "handle_payload dp now i s = (Inr (200, BPayload v), payload_seen s now n row)" by simp
    with row 4 show ?thesis by auto
  qed
qed

text \<open>
  \<^bold>\<open>C21.\<close> Looking at an event on a working driver.  A payload that was stored encrypted under the data
  key comes back as it was, with the columns of its row; the audit log then gains one entry,
  which is made of the event's id, its route and its status and of nothing else.  Whatever is
  stored, an answer with a payload leaves exactly that entry; otherwise nothing changes and the
  status says why: no such event (404), wiped by retention (410), or unreadable (500).
\<close>

theorem view_payload:
  assumes "as_calm s" and "aead_correct (ae_crypto (dp_env dp))" and "ae_number (dp_env dp) i = Some (of_nat n)"
    and "distinct (map er_id (db_events (ad_store (as_db s))))"
  shows "let rows = db_events (ad_store (as_db s));
      seen = (\<lambda>row. s\<lparr>as_db := (as_db s)\<lparr>ad_audit := ad_audit (as_db s) @ [payload_seen_entry (as_db s) now n (er_route_id row) (er_status row)]\<rparr>\<rparr>) in
    (\<forall>row \<in> set rows. \<forall>iv body payload. er_id row = n \<longrightarrow>
       (er_payload_enc row, er_payload_iv row) = encrypt (ae_crypto (dp_env dp)) (dp_dataKey dp) iv (utf8 body) \<longrightarrow>
       dp_json_parse dp body = Inr payload \<longrightarrow>
       (\<exists>v. handle_payload dp now i s = (Inr (200, BPayload v), seen row) \<and> pl_id v = n \<and> pl_route_id v = er_route_id row \<and>
          pl_event_id v = er_event_id row \<and> pl_status v = er_status row \<and> pl_payload v = payload)) \<and>
    (case handle_payload dp now i s of
       (Inr (status, BPayload v), s') \<Rightarrow> status = 200 \<and> (\<exists>row \<in> set rows. er_id row = n \<and> er_payload_enc row \<noteq> [] \<and> s' = seen row)
     | (Inr (status, BError m), s') \<Rightarrow> s' = s \<and>
         status = (if n \<notin> er_id ` set rows then 404 else if \<exists>row \<in> set rows. er_id row = n \<and> er_payload_enc row = [] then 410 else 500)
     | _ \<Rightarrow> False)"
proof -
  have number: "js_number_of dp i = Some (of_nat n)" using assms(3) by (simp add: js_number_of_def)
  show ?thesis unfolding Let_def
    by (intro conjI ballI allI impI payload_opens [OF assms(1,2) number assms(4)] payload_answers [OF assms(1) number assms(4)])
qed

section \<open>An operator at work\<close>

definition sealed_row :: event_row where
  "sealed_row = inserted_row \<lparr>ie_route_id = ''r1'', ie_source = ''payabli'', ie_event_id = ''e1'', ie_event_type = None,
     ie_payload_enc = map (xor 90) (utf8 ''{}'') @ replicate 16 0, ie_payload_iv = [], ie_headers_json = ''{}'', ie_received_at = 0,
     ie_status = Pending, ie_idempotency_key = ''k1''\<rparr> 1"

definition operator_deps :: admin_deps where
  "operator_deps = \<lparr>dp_env = demo_app_env\<lparr>ae_number := (\<lambda>t. if t = ''1'' then Some 1 else None)\<rparr>,
     dp_json_parse = (\<lambda>t. if t = ''{}'' then Inr (JObj []) else Inl (OtherError ''json'')), dp_date_parse = (\<lambda>_. None),
     dp_basicAuth = ''u:p'', dp_maskingKey = [], dp_dataKey = [], dp_mode = Running, dp_configError = None, dp_remote = None\<rparr>"

definition operator_state :: admin_state where
  "operator_state = \<lparr>as_db = paused_db\<lparr>ad_store := (ad_store paused_db)\<lparr>db_events := [sealed_row]\<rparr>\<rparr>, as_callbacks = []\<rparr>"

lemma operator_events: "db_events (ad_store (as_db operator_state)) = [sealed_row]" "as_calm operator_state"
  by (simp_all add: operator_state_def as_calm_def paused_db_def)

theorem view_payload_witness:
  "\<exists>v s'. handle_payload operator_deps 5 ''1'' operator_state = (Inr (200, BPayload v), s') \<and> pl_payload v = JObj [] \<and>
     ad_audit (as_db s') = [payload_seen_entry (as_db operator_state) 5 1 ''r1'' Pending]"
proof -
  have C: "ae_crypto (dp_env operator_deps) = toy_crypto" "dp_dataKey operator_deps = []"
    by (simp_all add: operator_deps_def demo_app_env_def)
  then have law: "aead_correct (ae_crypto (dp_env operator_deps))" by (simp add: toy_crypto_correct)
  have n: "ae_number (dp_env operator_deps) ''1'' = Some (of_nat 1)" by (simp add: operator_deps_def)
  have row: "er_id sealed_row = 1" "er_route_id sealed_row = ''r1''" "er_status sealed_row = Pending"
    by (simp_all add: sealed_row_def inserted_row_def)
  have sealed: "(er_payload_enc sealed_row, er_payload_iv sealed_row) = encrypt toy_crypto [] [] (utf8 ''{}'')" by code_simp
  have parsed: "dp_json_parse operator_deps ''{}'' = Inr (JObj [])" by (simp add: operator_deps_def)
  have none: "ad_audit (as_db operator_state) = []" by (simp add: operator_state_def paused_db_def)
  have keys: "distinct (map er_id (db_events (ad_store (as_db operator_state))))" by (simp add: operator_events)
  from view_payload [OF operator_events(2) law n keys, of 5, unfolded Let_def, THEN conjunct1, rule_format, of sealed_row "[]" "''{}''" "JObj []"]
  obtain v where "handle_payload operator_deps 5 ''1'' operator_state = (Inr (200, BPayload v), operator_state\<lparr>as_db := (as_db operator_state)\<lparr>ad_audit :=
      ad_audit (as_db operator_state) @ [payload_seen_entry (as_db operator_state) 5 1 ''r1'' Pending]\<rparr>\<rparr>)" "pl_payload v = JObj []"
    using sealed parsed row by (auto simp: C operator_events)
  with none show ?thesis by simp
qed

definition panic_request :: web_request where
  "panic_request = \<lparr>aq_call = PostKillswitch (Some (JStr ''panic'')), aq_authorization = Some (basic_auth_header ''u:p''), aq_site = None\<rparr>"

theorem admin_request_audited_witness:
  "\<exists>e es. ad_audit (as_db (snd (admin_request operator_deps 5 panic_request operator_state))) = e # es \<and> au_actor e \<in> {ACTOR, ''recovery''}"
proof -
  have "admin_request operator_deps 5 panic_request operator_state = handle_killswitch 5 (Some (JStr ''panic'')) operator_state"
    by (simp add: admin_request_def panic_request_def authorized_iff cross_site_def is_get_def non_empty_def admin_handler_def operator_deps_def)
  moreover have "map_of (db_kv (ad_store (as_db (snd (handle_killswitch 5 (Some (JStr ''panic'')) operator_state))))) ''killswitch.global'' = Some ''panic''"
    using operator_events(2) unfolding handle_killswitch_def audit_log_def repo_parts
    by (simp add: killswitch_of_json_def calm_run update_conv killswitch_text_def)
  moreover have "map_of (db_kv (ad_store (as_db operator_state))) ''killswitch.global'' = Some ''pause''" "ad_audit (as_db operator_state) = []"
    by (simp_all add: operator_state_def paused_db_def)
  ultimately show ?thesis
    using admin_request_audited [OF operator_events(2), of operator_deps 5 panic_request]
    by (auto simp: operator_events(1) audited_def touches_def)
qed

end
