(* ===== verification/Application.thy ===== *)
theory Application imports AdminFacts begin

text \<open>
  The application's configuration over its whole life (\<open>apps/relay/src/index.ts\<close>, with \<open>config/\<close>
  and \<open>admin/\<close>): management requests, questions to End Close, restarts and the engine's own
  writes, in any order and with any failure of the driver.
\<close>

section \<open>Booting\<close>

text \<open>
  How \<open>main\<close> finds its configuration: what is stored, then End Close's answer, and the seed file
  only when nothing is stored.
\<close>

definition settle_boot ::
  "app_env \<Rightarrow> (string \<Rightarrow> (exn + string) option) \<Rightarrow> string option \<Rightarrow> int \<Rightarrow> remote_check \<Rightarrow> active_config_state \<Rightarrow>
     ('h app_world, exn, active_config_state) sem" where
  "settle_boot E sf relay_config now check stored = (case check of
     Managed (Some loaded) _ _ \<Rightarrow> ret (ConfigOk loaded)
   | _ \<Rightarrow> if stored = ConfigEmpty
       then on_db (resolveActiveConfig E now sf (Some (case relay_config of None \<Rightarrow> ''/etc/endclose-relay/relay.yaml'' | Some p \<Rightarrow> p)))
       else ret stored)"

definition boot_config ::
  "app_env \<Rightarrow> 'h check_options \<Rightarrow> (string \<Rightarrow> (exn + string) option) \<Rightarrow> string option \<Rightarrow> int \<Rightarrow> int \<Rightarrow> ownership \<Rightarrow>
     ('h app_world, exn, active_config_state \<times> ownership) sem" where
  "boot_config E opts sf relay_config now now' st =
     bindE (on_db (resolveActiveConfig E now sf None)) (\<lambda>stored.
     bindE (\<lambda>w. case checkEndClose E opts w of (check, w') \<Rightarrow> (Inr check, w')) (\<lambda>check.
     bindE (settle_boot E sf relay_config now check stored) (\<lambda>state. ret (state, record_check check now' st))))"

section \<open>The configuration over any step\<close>

definition AUTHORS :: "string set" where "AUTHORS = {ACTOR, REMOTE_ACTOR, ''seed''}"

definition ids_grow :: "app_db \<Rightarrow> bool" where
  "ids_grow d \<longleftrightarrow> sorted_wrt (<) (map cv_id (ad_versions d))"

text \<open>The invariant is kept, and versions are only added, each with its author.\<close>

definition config_step :: "app_env \<Rightarrow> app_db \<Rightarrow> app_db \<Rightarrow> bool" where
  "config_step E d d' \<longleftrightarrow> (config_ok E d \<longrightarrow> config_ok E d') \<and> (ids_grow d \<longrightarrow> ids_grow d') \<and>
     (\<exists>vs. ad_versions d' = ad_versions d @ vs \<and> (\<forall>v \<in> set vs. cv_applied_by v \<in> AUTHORS))"

lemma config_step_trans: "config_step E d d' \<Longrightarrow> config_step E d' d'' \<Longrightarrow> config_step E d d''"
proof -
  assume a: "config_step E d d'" "config_step E d' d''"
  then obtain vs vs' where "ad_versions d' = ad_versions d @ vs" "\<forall>v \<in> set vs. cv_applied_by v \<in> AUTHORS"
      "ad_versions d'' = ad_versions d' @ vs'" "\<forall>v \<in> set vs'. cv_applied_by v \<in> AUTHORS" unfolding config_step_def by blast
  then have "\<exists>us. ad_versions d'' = ad_versions d @ us \<and> (\<forall>v \<in> set us. cv_applied_by v \<in> AUTHORS)"
    by (intro exI [of _ "vs @ vs'"]) auto
  with a show ?thesis unfolding config_step_def by blast
qed

interpretation config: step_relation "config_step E" for E
  by unfold_locales (simp_all add: config_step_def, metis config_step_def config_step_trans)

definition world_step :: "app_env \<Rightarrow> 'h app_world \<Rightarrow> 'h app_world \<Rightarrow> bool" where
  "world_step E w w' \<longleftrightarrow> config_step E (aw_db w) (aw_db w')"

interpretation world: step_relation "world_step E" for E
  by unfold_locales (simp_all add: world_step_def config.R_refl, blast intro: config.R_trans)

definition admin_step :: "app_env \<Rightarrow> admin_state \<Rightarrow> admin_state \<Rightarrow> bool" where
  "admin_step E s s' \<longleftrightarrow> config_step E (as_db s) (as_db s')"

interpretation admin_config: step_relation "admin_step E" for E
  by unfold_locales (simp_all add: admin_step_def config.R_refl, blast intro: config.R_trans)

lemma config_step_touches:
  assumes "touches T d d'" and "Routes_table \<notin> T" and "Versions \<notin> T"
  shows "config_step E d d'"
proof -
  have "ad_routes d' = ad_routes d" "ad_versions d' = ad_versions d" using assms by (auto simp: touches_def)
  moreover from this have "latest_version d' = latest_version d" by (simp add: latest_version_def)
  ultimately show ?thesis by (simp add: config_step_def config_ok_def ids_grow_def split: option.splits sum.splits)
qed

lemma keeps_config_touches: "keeps (touches T) m \<Longrightarrow> Routes_table \<notin> T \<Longrightarrow> Versions \<notin> T \<Longrightarrow> keeps (config_step E) m"
  unfolding keeps_def using config_step_touches by blast

lemma ids_grow_snoc: "ids_grow d \<Longrightarrow> sorted_wrt (<) (map cv_id (ad_versions d) @ [next_id (map cv_id (ad_versions d))])"
  unfolding ids_grow_def by (simp add: sorted_wrt_append) (metis image_set next_id_greater image_eqI)

lemma keeps_saveConfig:
  assumes "by' \<in> AUTHORS"
  shows "keeps (config_step E) (saveConfig E now y by')"
proof (rule keepsI)
  fix d
  obtain r d' where sv: "saveConfig E now y by' d = (r, d')" by fastforce
  have ok: "config_ok E d \<longrightarrow> config_ok E d'" using config_ok_save [OF sv] by blast
  have "ad_versions d' = ad_versions d \<or> (\<exists>h. ad_versions d' = ad_versions d @ [new_version d now h y by'])"
  proof (cases r)
    case (Inl e)
    with saveConfig_Inl sv show ?thesis by (metis calm_simps(2))
  next
    case (Inr l)
    show ?thesis
    proof (cases "unchanged_version d l")
      case True
      with saveConfig_Inr sv Inr show ?thesis by (metis calm_simps(2))
    next
      case False
      with save_outcome [OF sv] Inr show ?thesis by auto
    qed
  qed
  then have "config_step E d d'"
  proof
    assume "ad_versions d' = ad_versions d"
    then show ?thesis using ok by (simp add: config_step_def ids_grow_def)
  next
    assume "\<exists>h. ad_versions d' = ad_versions d @ [new_version d now h y by']"
    then obtain h where h: "ad_versions d' = ad_versions d @ [new_version d now h y by']" ..
    then have "ids_grow d \<longrightarrow> ids_grow d'" using ids_grow_snoc by (simp add: ids_grow_def new_version_def)
    with ok h assms show ?thesis by (simp add: config_step_def new_version_def)
  qed
  then show "config_step E d (snd (saveConfig E now y by' d))" by (simp add: sv)
qed

lemma keeps_resolve: "keeps (config_step E) (resolveActiveConfig E now sf seed)"
proof -
  have raw: "keeps (config_step E) readActiveConfigRaw" by (rule keeps_config_touches [where T = "{}"]) (simp_all add: touch_rules)
  have save: "keeps (config_step E) (saveConfig E now y ''seed'')" for y by (rule keeps_saveConfig) (simp add: AUTHORS_def)
  show ?thesis unfolding resolveActiveConfig_def by (intro keeps_rules raw save)
qed

section \<open>Questions to End Close\<close>

lemma keeps_on_db: "keeps (config_step E) m \<Longrightarrow> keeps (world_step E) (on_db m)"
  by (auto simp: keeps_def on_db_def zoomE_def world_step_def split: prod.splits) (metis snd_conv)

lemma keeps_world_kv: "keeps (world_step E) (kv_at k)" "keeps (world_step E) (kv_put k v)" "keeps (world_step E) (kv_drop k)"
  unfolding kv_at_def kv_put_def kv_drop_def
  by (intro keeps_on_db keeps_config_touches [where T = "{KeyValues}"] touch_reads touch_kv; simp)+

lemma keeps_world_host: "keeps (world_step E) (app_clock opts)" "keeps (world_step E) (fetchRemoteConfig E' opts etag)"
  by (auto simp: keeps_def world_step_def app_clock_def fetchRemoteConfig_def config.R_refl split: prod.splits)

lemma keeps_check_inner: "keeps (world_step E) (checkEndCloseInner E opts)"
proof -
  have act: "keeps (world_step E) (on_db (getActiveConfig E))"
    by (intro keeps_on_db keeps_config_touches [where T = "{}"] touch_reads) simp_all
  have save: "keeps (world_step E) (attemptE (on_db (saveConfig E now y REMOTE_ACTOR)))" for now y
    by (intro keeps_attempt keeps_on_db keeps_saveConfig) (simp add: AUTHORS_def)
  show ?thesis
    unfolding checkEndCloseInner_def conditional_etag_def settle_answer_def store_document_def keep_answer_def forget_answer_def
    by (intro keeps_rules keeps_world_kv keeps_world_host act save)
qed

lemma check_step: "world_step E w (snd (checkEndClose E opts w))"
proof -
  have "world_step E w (snd (checkEndCloseInner E opts w))" using keeps_check_inner [of E opts] by (simp add: keeps_def)
  then show ?thesis by (auto simp: checkEndClose_def world.R_refl split: prod.splits sum.splits)
qed

section \<open>Management requests\<close>

lemma keeps_admin_touches: "keeps (admin_touches T) m \<Longrightarrow> Routes_table \<notin> T \<Longrightarrow> Versions \<notin> T \<Longrightarrow> keeps (admin_step E) m"
  unfolding keeps_def admin_touches_def admin_step_def using config_step_touches by blast

lemma keeps_config_request: "keeps (admin_step (dp_env dp)) (handle_config dp now yaml)"
proof -
  have save: "keeps (admin_step (dp_env dp)) (db_do (saveConfig (dp_env dp) now y ACTOR))" for y
    using keeps_saveConfig [of ACTOR "dp_env dp" now y]
    by (auto simp: keeps_def db_do_def zoomE_def admin_step_def AUTHORS_def split: prod.splits) (metis snd_conv)
  have "keeps (admin_touches {KeyValues, Audit_log}) (hold_egress dp now)" unfolding hold_egress_def
    by (intro handler_rules touch_reads touch_kv touch_audit) simp_all
  then have hold: "keeps (admin_step E) (hold_egress dp now)" for E by (rule keeps_admin_touches) simp_all
  have call: "keeps (admin_step E) (callback c)" for E c
    by (rule keeps_admin_touches [where T = "{}"]) (simp_all add: keeps_callback)
  show ?thesis unfolding handle_config_def by (intro keeps_rules keeps_attempt save hold call)
qed

lemma request_step: "admin_step (dp_env dp) s (snd (admin_request dp now rq s))"
proof (cases "\<exists>y. aq_call rq = PostConfig y")
  case True
  then obtain y where "aq_call rq = PostConfig y" ..
  then show ?thesis using keeps_config_request [of dp now y]
    by (simp add: admin_request_def ret_def admin_config.R_refl keeps_def admin_handler_def)
next
  case False
  then have "Routes_table \<notin> may_touch dp (aq_call rq)" "Versions \<notin> may_touch dp (aq_call rq)"
    by (auto simp: may_touch_def split: admin_call.splits)
  from keeps_admin_touches [OF keeps_handler this, of "dp_env dp" now]
  have "admin_step (dp_env dp) s (snd (admin_handler dp now (aq_call rq) s))" by (simp add: keeps_def)
  then show ?thesis by (auto simp: admin_request_def ret_def admin_config.R_refl)
qed

section \<open>The life of the application\<close>

record 'h application =
  ap_world :: "'h app_world"
  ap_status :: ownership

text \<open>
  \<open>request\<close>: a management request, which reads the manager's status when it arrives; \<open>asked\<close>: a
  question to End Close, recorded; \<open>booted\<close>: a restart; \<open>engine\<close>: the relay's own writes, which are on
  the events.
\<close>

inductive app_step :: "admin_deps \<Rightarrow> 'h check_options \<Rightarrow> 'h application \<Rightarrow> 'h application \<Rightarrow> bool" for dp opts where
  request: "admin_request (dp\<lparr>dp_remote := Some (ap_status a)\<rparr>) now rq \<lparr>as_db = aw_db (ap_world a), as_callbacks = cs\<rparr> = (r, s') \<Longrightarrow>
      app_step dp opts a (a\<lparr>ap_world := (ap_world a)\<lparr>aw_db := as_db s'\<rparr>\<rparr>)"
| asked: "checkEndClose (dp_env dp) opts (ap_world a) = (answer, w') \<Longrightarrow>
      app_step dp opts a \<lparr>ap_world = w', ap_status = record_check answer now (ap_status a)\<rparr>"
| booted: "new_manager (dp_env dp) opts (aw_db (ap_world a)) = (Inr m, d') \<Longrightarrow>
      boot_config (dp_env dp) opts sf path now now' (mg_status m) ((ap_world a)\<lparr>aw_db := d'\<rparr>) = (Inr (state, st), w') \<Longrightarrow>
      app_step dp opts a \<lparr>ap_world = w', ap_status = st\<rparr>"
| engine: "touches {Events} (aw_db (ap_world a)) d' \<Longrightarrow> app_step dp opts a (a\<lparr>ap_world := (ap_world a)\<lparr>aw_db := d'\<rparr>\<rparr>)"

inductive app_run :: "admin_deps \<Rightarrow> 'h check_options \<Rightarrow> 'h application \<Rightarrow> 'h application \<Rightarrow> bool" for dp opts where
  stay: "app_run dp opts a a"
| step: "app_run dp opts a b \<Longrightarrow> app_step dp opts b c \<Longrightarrow> app_run dp opts a c"

lemma boot_step: "world_step E w (snd (boot_config E opts sf path now now' st w))"
proof -
  have res: "keeps (world_step E) (on_db (resolveActiveConfig E now sf seed))" for seed
    by (intro keeps_on_db keeps_resolve)
  have ask: "keeps (world_step E) (\<lambda>w. case checkEndClose E opts w of (check, w') \<Rightarrow> (Inr check, w'))"
    using check_step [of E _ opts] by (auto simp: keeps_def split: prod.splits) (metis snd_conv)
  have settle: "keeps (world_step E) (settle_boot E sf path now check stored)" for check stored
    unfolding settle_boot_def by (cases check) (auto intro!: keeps_rules res split: option.splits)
  have "keeps (world_step E) (boot_config E opts sf path now now' st)"
    unfolding boot_config_def by (intro keeps_rules res ask settle)
  then show ?thesis by (simp add: keeps_def)
qed

lemma new_manager_keeps: "new_manager E opts d = (Inr m, d') \<Longrightarrow> config_step E d d'"
proof -
  assume m: "new_manager E opts d = (Inr m, d')"
  have "keeps (touches {}) (new_manager E opts)"
    unfolding new_manager_def wasManagedByEndClose_def by (intro keeps_rules touch_reads)
  from keepsD [OF this m] show ?thesis by (rule config_step_touches) simp_all
qed

lemma app_step_config: "app_step dp opts a b \<Longrightarrow> config_step (dp_env dp) (aw_db (ap_world a)) (aw_db (ap_world b))"
proof (induction rule: app_step.induct)
  case (request a now rq cs r s')
  then show ?case using request_step [of "dp\<lparr>dp_remote := Some (ap_status a)\<rparr>" "\<lparr>as_db = aw_db (ap_world a), as_callbacks = cs\<rparr>" now rq]
    by (simp add: admin_step_def)
next
  case (asked a answer w' now)
  then show ?case using check_step [of "dp_env dp" "ap_world a" opts] by (simp add: world_step_def)
next
  case (booted a m d' sf path now now' state st w')
  then show ?case using new_manager_keeps boot_step [of "dp_env dp" "(ap_world a)\<lparr>aw_db := d'\<rparr>" opts sf path now now' "mg_status m"]
    config.R_trans by (simp add: world_step_def) blast
next
  case (engine a d')
  then show ?case by (simp add: config_step_touches)
qed

text \<open>
  \<^bold>\<open>C8.\<close> Over the whole life of the application, whatever requests, answers, restarts and driver failures
  come in whatever order: the latest version's hash is that of its text and the routes table
  serves exactly its routes; versions are only ever added, with growing ids, by the operator,
  End Close or the seed; and while the manager says End Close owns the configuration no
  management request changes versions or routes.
\<close>

theorem application_config:
  assumes "app_run dp opts a b" and "config_ok (dp_env dp) (aw_db (ap_world a))" and "ids_grow (aw_db (ap_world a))"
  shows "config_ok (dp_env dp) (aw_db (ap_world b)) \<and> ids_grow (aw_db (ap_world b)) \<and>
    (\<exists>vs. ad_versions (aw_db (ap_world b)) = ad_versions (aw_db (ap_world a)) @ vs \<and> list_all (\<lambda>v. cv_applied_by v \<in> AUTHORS) vs) \<and>
    (if ow_managed (ap_status b)
     then (\<forall>now rq cs. touches {Events, KeyValues, Audit_log} (aw_db (ap_world b))
         (as_db (snd (admin_request (dp\<lparr>dp_remote := Some (ap_status b)\<rparr>) now rq \<lparr>as_db = aw_db (ap_world b), as_callbacks = cs\<rparr>)))) else True)"
proof -
  from assms(1) have "config_step (dp_env dp) (aw_db (ap_world a)) (aw_db (ap_world b))"
    by (induction rule: app_run.induct) (auto intro: config.R_refl config.R_trans app_step_config)
  moreover have "touches {Events, KeyValues, Audit_log} d (as_db (snd (admin_request (dp\<lparr>dp_remote := Some st\<rparr>) now rq \<lparr>as_db = d, as_callbacks = cs\<rparr>)))"
    if "ow_managed st" for d st now rq cs
  proof -
    have "may_touch (dp\<lparr>dp_remote := Some st\<rparr>) c \<subseteq> {Events, KeyValues, Audit_log}" for c
      using that by (auto simp: may_touch_def split: admin_call.splits)
    with admin_request_request_frame [of rq "dp\<lparr>dp_remote := Some st\<rparr>" "\<lparr>as_db = d, as_callbacks = cs\<rparr>" now] show ?thesis
      by (auto intro: touches_mono split: if_splits)
  qed
  ultimately show ?thesis using assms(2,3) by (simp add: config_step_def list_all_iff)
qed

definition unasked :: ownership where
  "unasked = \<lparr>ow_state = StUnknown, ow_managed = False, ow_environment = None, ow_error = None, ow_retrying = False,
     ow_last_checked_at = None, ow_last_confirmed_at = None\<rparr>"

lemma demo_versions: "ad_versions paused_db = []"
  by (simp add: paused_db_def)

theorem application_config_witness:
  "\<exists>b. app_run (operator_deps\<lparr>dp_env := demo_app_env\<rparr>) demo_check \<lparr>ap_world = demo_world, ap_status = unasked\<rparr> b \<and>
     ow_managed (ap_status b) \<and> config_ok demo_app_env (aw_db (ap_world b)) \<and> ids_grow (aw_db (ap_world b))"
proof -
  let ?dp = "operator_deps\<lparr>dp_env := demo_app_env\<rparr>"
  let ?a = "\<lparr>ap_world = demo_world, ap_status = unasked\<rparr>"
  obtain w' where w': "checkEndClose demo_app_env demo_check demo_world = (Managed (Some demo_managed) True None, w')"
    using demo_checked by blast
  let ?b = "\<lparr>ap_world = w', ap_status = record_check (Managed (Some demo_managed) True None) 1000 unasked\<rparr>"
  have "app_step ?dp demo_check ?a ?b" using asked [of ?dp demo_check ?a "Managed (Some demo_managed) True None" w' 1000] w' by simp
  then have run: "app_run ?dp demo_check ?a ?b" by (rule app_run.step [OF app_run.stay])
  have "config_ok demo_app_env (aw_db demo_world)" "ids_grow (aw_db demo_world)"
    by (simp_all add: config_ok_def demo_check_simps demo_latest ids_grow_def demo_versions)
  with application_config [OF run] have "config_ok demo_app_env (aw_db w') \<and> ids_grow (aw_db w')" by simp
  moreover have "ow_managed (ap_status ?b)" by (simp add: record_check_def)
  ultimately show ?thesis using run by (intro exI [of _ ?b]) simp
qed

end
