(* ===== verification/AppHost.thy ===== *)
theory AppHost imports Application SqliteCycle FlushFacts begin

text \<open>
  The relay as the application runs it: its store and its operator state are in the application's
  database, its routes are those of \<open>DbRouteProvider\<close> (\<open>apps/relay/src/db/route-provider.ts\<close>), read
  from the same database at every lookup, and webhooks come through the listener of
  \<open>apps/relay/src/ingest/server.ts\<close>.
\<close>

section \<open>Live routes\<close>

definition pause_app :: "nat \<Rightarrow> unit app" where
  "pause_app ms = ret ()"

definition live_get :: "string \<Rightarrow> route_config option app" where
  "live_get i = runSqlite ''routes.get'' BUSY_RETRY_ATTEMPTS pause_app (routes_get i)"

definition live_all :: "route_config list app" where
  "live_all = runSqlite ''routes.all'' BUSY_RETRY_ATTEMPTS pause_app routes_all"

section \<open>The host\<close>

record 'w app_host =
  ph_db :: app_db
  ph_world :: 'w

definition ph_sqlite :: "'w app_host \<Rightarrow> sqlite_db" where "ph_sqlite h = ad_store (ph_db h)"

definition put_sqlite :: "sqlite_db \<Rightarrow> 'w app_host \<Rightarrow> 'w app_host" where
  "put_sqlite s h = h\<lparr>ph_db := (ph_db h)\<lparr>ad_store := s\<rparr>\<rparr>"

text \<open>The host for any route provider, and the one of \<open>main\<close> in \<open>index.ts\<close>.\<close>

definition app_host_with :: "(string \<Rightarrow> ('w app_host, exn, route_config option) sem) \<Rightarrow> 'w world_ops \<Rightarrow> 'w app_host host_ops" where
  "app_host_with routes W = host_via (store_via ph_sqlite put_sqlite sqlite_ops) (control_via ph_sqlite put_sqlite sqlite_control_ops)
     routes ph_world (\<lambda>w h. h\<lparr>ph_world := w\<rparr>) W"

definition app_host_ops :: "'w world_ops \<Rightarrow> 'w app_host host_ops" where
  "app_host_ops W = app_host_with (\<lambda>i. zoomE ph_db (\<lambda>d h. h\<lparr>ph_db := d\<rparr>) (live_get i)) W"

definition ph_rows :: "'w app_host \<Rightarrow> event_record list" where "ph_rows h = sqlite_rows (ph_sqlite h)"

definition ph_ok :: "'w app_host \<Rightarrow> bool" where "ph_ok h \<longleftrightarrow> sqlite_ok (ph_sqlite h)"

section \<open>The listener\<close>

definition BODY_LIMIT :: nat where "BODY_LIMIT = 10 * 1024 * 1024"

text \<open>
  The framework throws on a body above its limit; the error handler answers that, as it answers
  whatever the handler throws.
\<close>

definition post_ingest ::
  "'h host_ops \<Rightarrow> engine_config \<Rightarrow> string \<Rightarrow> raw_request \<Rightarrow> (('h, 'z) engine_scheme, exn, nat \<times> ingest_body) sem" where
  "post_ingest D cf routeId raw = catchE
     (if BODY_LIMIT < length (rr_rawBody raw) then throwE (OtherError ''Request body is too large'')
      else bindE (ingestWebhook D cf routeId raw) (\<lambda>res. ret (ir_status res, ir_body res)))
     (\<lambda>_. ret (500, ErrorBody ''internal error''))"

section \<open>What the store's statements leave alone\<close>

context step_relation begin

lemma keeps_busy_loop:
  assumes "keeps R fn" and "\<And>ms. keeps R (pause ms)"
  shows "keeps R (busy_loop fn pause attempts delayMs i left)"
  by (induction left arbitrary: i) (auto intro!: keeps_rules assms)

lemma keeps_runSqlite:
  assumes "keeps R fn" and "\<And>ms. keeps R (pause ms)"
  shows "keeps R (runSqlite op attempts pause fn)"
  unfolding runSqlite_def withBusyRetry_def by (intro keeps_rules keeps_busy_loop assms)

end

definition same_kv :: "sqlite_db \<Rightarrow> sqlite_db \<Rightarrow> bool" where
  "same_kv d d' \<longleftrightarrow> db_kv d' = db_kv d"

interpretation kv_kept: step_relation same_kv
  by unfold_locales (simp_all add: same_kv_def)

lemma kv_statements:
  "(\<And>d. db_kv (snd (f d)) = db_kv d) \<Longrightarrow> keeps same_kv (statement f)"
  by (rule keepsI) (auto simp: statement_def same_kv_def split_beta split: list.splits option.splits)

lemma kv_update: "keeps same_kv (update_events c f)"
  unfolding update_events_def by (rule kv_statements) simp

lemma kv_transaction: "keeps same_kv m \<Longrightarrow> keeps same_kv (transaction m)"
proof -
  assume m: "keeps same_kv m"
  have "keeps same_kv (thenE (statement (\<lambda>d. ((), d))) (bindE m (\<lambda>x. thenE (statement (\<lambda>d. ((), d))) (ret x))))"
    by (intro kv_kept.keeps_thenE kv_kept.keeps_bindE kv_kept.keeps_ret kv_statements m) simp_all
  then show ?thesis by (auto simp: keeps_def transaction_def same_kv_def split: prod.splits sum.splits) (metis snd_conv)
qed

lemma kv_run_db: "keeps same_kv m \<Longrightarrow> keeps same_kv (run_db op m)"
  unfolding run_db_def by (rule kv_kept.keeps_runSqlite) (simp_all add: pause_db_def kv_kept.keeps_ret)

lemmas kv_rules = keeps_rules kv_update kv_transaction kv_run_db

lemma kv_store:
  "keeps same_kv (st_insert sqlite_ops e)" "keeps same_kv (st_routesWithDueEvents sqlite_ops now)"
  "keeps same_kv (st_claimDue sqlite_ops route now limit l)" "keeps same_kv (st_markDelivered sqlite_ops ids now bulk)"
  "keeps same_kv (st_markFailed sqlite_ops ids now err)" "keeps same_kv (st_markParked sqlite_ops ids err)"
  "keeps same_kv (st_releaseDelivering sqlite_ops ids now err)" "keeps same_kv (st_recoverDelivering sqlite_ops now owner)"
  "keeps same_kv (st_parkExpired sqlite_ops now age)" "keeps same_kv (st_pruneBatch sqlite_ops now dd ld limit)"
proof -
  note st = kv_statements
  have insert: "keeps same_kv (repo_insert x)" for x unfolding repo_insert_def by (rule st) simp
  have pauses: "keeps same_kv (pause_db ms)" for ms by (simp add: pause_db_def kv_kept.keeps_ret)
  show "keeps same_kv (st_insert sqlite_ops e)"
    unfolding sqlite_ops_def event_store_ops.select_convs sqlite_insert_def
    by (intro keeps_rules kv_kept.keeps_runSqlite insert pauses)
  show "keeps same_kv (st_routesWithDueEvents sqlite_ops now)" "keeps same_kv (st_claimDue sqlite_ops route now limit l)"
    "keeps same_kv (st_markDelivered sqlite_ops ids now bulk)"
    "keeps same_kv (st_markFailed sqlite_ops ids now err)" "keeps same_kv (st_markParked sqlite_ops ids err)"
    "keeps same_kv (st_releaseDelivering sqlite_ops ids now err)" "keeps same_kv (st_recoverDelivering sqlite_ops now owner)"
    "keeps same_kv (st_parkExpired sqlite_ops now age)" "keeps same_kv (st_pruneBatch sqlite_ops now dd ld limit)"
    unfolding sqlite_ops_def event_store_ops.select_convs repo_routesWithDueEvents_def repo_claimDue_def repo_markDelivered_def
      repo_markFailed_def repo_markParked_def repo_releaseDelivering_def repo_recoverDelivering_def repo_parkExpired_def
      repo_pruneBatch_def Let_def
    by (intro kv_rules st; simp)+
qed

section \<open>The engine touches the events only\<close>

definition events_only :: "'w app_host \<Rightarrow> 'w app_host \<Rightarrow> bool" where
  "events_only h h' \<longleftrightarrow> touches {Events} (ph_db h) (ph_db h')"

interpretation only_events: step_relation events_only
  by unfold_locales (auto simp: events_only_def tables.R_refl intro: tables.R_trans)

lemma moves_sqlite: "keeps same_kv m \<Longrightarrow> moves events_only (zoomE ph_sqlite put_sqlite m)"
  by (auto simp: moves_def keeps_def same_kv_def events_only_def touches_def zoomE_def put_sqlite_def ph_sqlite_def split: prod.splits)
    (metis snd_conv)

lemma touch_provider: "keeps (touches T) (live_get i)" "keeps (touches T) live_all"
  unfolding live_get_def live_all_def
  by (intro tables.keeps_runSqlite touch_reads; simp add: pause_app_def tables.keeps_ret)+

lemma moves_provider: "moves events_only (zoomE ph_db (\<lambda>d h. h\<lparr>ph_db := d\<rparr>) (live_get i))"
  using touch_provider(1) [of "{Events}" i]
  by (auto simp: moves_def keeps_def events_only_def zoomE_def split: prod.splits) (metis snd_conv)

lemma moves_world: "moves events_only (via ph_world (\<lambda>w h. h\<lparr>ph_world := w\<rparr>) f)"
  by (simp add: moves_def via_def events_only_def tables.R_refl split_beta)

lemma kv_control: "keeps same_kv (ct_getKillswitch sqlite_control_ops)" "keeps same_kv (ct_isRoutePaused sqlite_control_ops route)"
  unfolding sqlite_control_ops_def control_ops.select_convs globalKillswitch_def kv_isRoutePaused_def kv_get_def
  by (intro kv_rules kv_statements; simp)+

lemma app_host_moves: "host_moves events_only (app_host_ops W)"
  unfolding host_moves_def store_moves_def app_host_ops_def app_host_with_def host_via_def store_via_def control_via_def
    host_ops.select_convs event_store_ops.select_convs control_ops.select_convs endclose_client.select_convs
  by (auto intro!: moves_sqlite kv_store kv_control moves_provider moves_world split: option.splits)

interpretation app_calls: host_relation events_only "app_host_ops W" for W :: "'w world_ops"
  by unfold_locales (rule app_host_moves)

text \<open>Webhooks and pruning add two more calls of the store.\<close>

context host_relation begin

lemma keeps_inserted: "keeps R m \<Longrightarrow> (\<And>x. keeps R (f x)) \<Longrightarrow> keeps R (case a of Duplicate \<Rightarrow> m | Inserted x \<Rightarrow> f x)"
  by (cases a) simp_all

lemma turns_ingest:
  assumes "\<And>e. moves Q (st_insert (ho_store D) e)" and "moves Q (ho_iv D)"
  shows "keeps (on_hosts Q) (post_ingest D cf routeId raw)"
  unfolding post_ingest_def ingestWebhook_def ingestInner_def accept_request_def verify_request_def new_event_of_def ingested_def Let_def
  by (intro keeps_rules keeps_registered keeps_verdict keeps_inserted turns_local turns_calls turns_host turns_ask assms)

lemma turns_prune:
  assumes "\<And>now dd ld limit. moves Q (st_pruneBatch (ho_store D) now dd ld limit)"
  shows "keeps (on_hosts Q) (runPrune D cf abort fuel)"
proof -
  have "keeps (on_hosts Q) (prune_loop D abort now r fuel acc)" for now r acc
    by (induction fuel arbitrary: acc)
      (auto simp: Let_def simp del: bindE_gets intro!: keeps_rules turns_local turns_calls turns_host assms)
  then show ?thesis unfolding runPrune_def by (intro keeps_rules turns_local turns_calls)
qed

end

lemma more_moves:
  "moves events_only (st_insert (ho_store (app_host_ops W)) e)" "moves events_only (ho_iv (app_host_ops W))"
  "moves events_only (st_pruneBatch (ho_store (app_host_ops W)) now dd ld limit)"
  unfolding app_host_ops_def app_host_with_def host_via_def store_via_def host_ops.select_convs event_store_ops.select_convs
  by (intro moves_sqlite kv_store moves_world)+

section \<open>The contract of the engine's host\<close>

text \<open>Reading leaves all tables as they are.\<close>

definition same_tables :: "app_db \<Rightarrow> app_db \<Rightarrow> bool" where
  "same_tables d d' \<longleftrightarrow> calm d' = calm d"

interpretation reading: step_relation same_tables
  by unfold_locales (simp_all add: same_tables_def)

lemma same_statement: "(\<And>d. snd (f d) = d) \<Longrightarrow> keeps same_tables (app_statement f)"
  by (rule keepsI) (simp add: same_tables_def app_statement_eq split: list.splits option.splits)

lemma same_provider: "keeps same_tables (live_get i)" "keeps same_tables live_all"
  unfolding live_get_def live_all_def routes_get_def routes_all_def
  by (intro reading.keeps_runSqlite same_statement; simp add: pause_app_def reading.keeps_ret)+

definition same_rows_scan :: "sqlite_db \<Rightarrow> sqlite_db \<Rightarrow> bool" where
  "same_rows_scan d d' \<longleftrightarrow> db_events d' = db_events d \<and> db_scan d' = db_scan d"

interpretation rows_kept: step_relation same_rows_scan
  by unfold_locales (simp_all add: same_rows_scan_def)

lemma same_kv_get: "keeps same_rows_scan (kv_get k)"
  unfolding kv_get_def by (rule keepsI) (auto simp: statement_def same_rows_scan_def split: list.splits option.splits)

lemma rows_control: "keeps same_rows_scan (ct_getKillswitch sqlite_control_ops)" "keeps same_rows_scan (ct_isRoutePaused sqlite_control_ops route)"
  unfolding sqlite_control_ops_def control_ops.select_convs globalKillswitch_def kv_isRoutePaused_def run_db_def
  by (intro keeps_rules rows_kept.keeps_runSqlite same_kv_get; simp add: pause_db_def rows_kept.keeps_ret)+

lemma quiet_control:
  "keeps same_rows_scan m \<Longrightarrow> quiet ph_rows ph_ok (zoomE ph_sqlite put_sqlite m)"
  by (auto simp: keeps_def same_rows_scan_def quiet_def zoomE_def ph_rows_def ph_ok_def ph_sqlite_def put_sqlite_def sqlite_ok_def sqlite_rows_def
      split: prod.splits) (metis snd_conv)+

lemma quiet_provider: "quiet ph_rows ph_ok (zoomE ph_db (\<lambda>d h. h\<lparr>ph_db := d\<rparr>) (live_get i))"
proof -
  have same: "db_events (ad_store d') = db_events (ad_store d) \<and> db_scan (ad_store d') = db_scan (ad_store d)"
    if "calm d' = calm d" for d d' using that by (metis calm_simps(4,6))
  show ?thesis
    using same_provider(1) [of i]
    by (auto simp: keeps_def same_tables_def quiet_def zoomE_def ph_rows_def ph_ok_def ph_sqlite_def sqlite_ok_def sqlite_rows_def
        split: prod.splits dest!: same) (metis same snd_conv)+
qed

lemma engine_host_with:
  assumes "\<And>i. quiet ph_rows ph_ok (routes i)"
  shows "engine_host (app_host_with routes W) ph_rows ph_ok"
  unfolding app_host_with_def
proof (rule engine_host_via)
  have "event_store (store_via ph_sqlite put_sqlite sqlite_ops) (\<lambda>h. sqlite_rows (ph_sqlite h)) (\<lambda>h. sqlite_ok (ph_sqlite h))"
    by (rule event_store_via) (use sqlite.event_store_axioms in \<open>simp_all add: ph_sqlite_def put_sqlite_def\<close>)
  then show "event_store (store_via ph_sqlite put_sqlite sqlite_ops) (ph_rows :: 'a app_host \<Rightarrow> _) ph_ok"
    by (simp add: ph_rows_def [abs_def] ph_ok_def [abs_def])
  show "quiet ph_rows ph_ok (ct_getKillswitch (control_via ph_sqlite put_sqlite sqlite_control_ops))"
    "quiet ph_rows ph_ok (ct_isRoutePaused (control_via ph_sqlite put_sqlite sqlite_control_ops) route)" for route
    unfolding control_via_def control_ops.select_convs by (intro quiet_control rows_control)+
qed (simp_all add: ph_rows_def ph_ok_def ph_sqlite_def assms)

interpretation app_host: engine_host "app_host_ops W" ph_rows ph_ok for W :: "'w world_ops"
  unfolding app_host_ops_def by (rule engine_host_with) (rule quiet_provider)

section \<open>Lookups serve what was applied\<close>

lemma runSqlite_throws: "runSqlite op attempts pause fn d = (Inl e, d') \<Longrightarrow> is_store_error e"
  by (auto simp: runSqlite_def catchE_def throwE_def as_store_error_def split: prod.splits sum.splits if_splits)

lemma provider_serves:
  assumes "live_get i d = (r, d')"
  shows "calm d' = calm d \<and> (case r of Inl e \<Rightarrow> is_store_error e | Inr found \<Rightarrow> found = route_at (ad_routes d) i)"
proof -
  let ?K = "\<lambda>d'. calm d' = calm d" and ?Q = "\<lambda>found d'. calm d' = calm d \<and> found = route_at (ad_routes d) i"
  have "either ?K ?Q (live_get i d)"
    unfolding live_get_def
  proof (rule runSqlite_keeps)
    fix d0 assume d0: "calm d0 = calm d"
    then have "ad_routes d0 = ad_routes d" by (metis calm_simps(1))
    with d0 show "either ?K ?Q (routes_get i d0)"
      by (auto simp: either_def routes_get_def app_statement_eq route_at_def with_faults_def calm_def split: list.splits option.splits)
  qed (simp_all add: pause_app_def ret_def BUSY_RETRY_ATTEMPTS_def)
  with assms show ?thesis
    by (cases r) (auto simp: either_def live_get_def dest: runSqlite_throws)
qed

text \<open>
  \<^bold>\<open>C9.\<close> An applied document is live: once an apply has returned, and whatever the engine and the
  operator's other requests did to the events, the switches and the audit log since, a lookup of
  the route provider answers exactly the route of that id in the document, or throws an error of
  the store.  (An apply of a document whose hash is the latest version's stores nothing; the
  hypothesis is that the hash then names the same text.)
\<close>

theorem applied_document_is_live:
  assumes "saveConfig E now y by' d = (Inr l, d1)" and "config_ok E d"
    and "\<And>v. latest_version d = Some v \<Longrightarrow> cv_config_hash v = lc_hash l \<Longrightarrow> cv_config_yaml v = y"
    and "touches {Events, KeyValues, Audit_log} d1 d2" and "live_get i d2 = (r, d3)" and "i \<noteq> []"
  shows "case r of Inl e \<Rightarrow> is_store_error e | Inr found \<Rightarrow> found = staticRoutes_get (lc_routes l) i"
proof -
  have "route_at (ad_routes d1) i = staticRoutes_get (lc_routes l) i"
  proof (cases "unchanged_version d l")
    case True
    with save_outcome [OF assms(1)] have l: "parseConfig E y = Inr l" and d1: "calm d1 = calm d" by simp_all
    from True obtain v where v: "latest_version d = Some v" "cv_config_hash v = lc_hash l"
      by (auto simp: unchanged_version_def)
    with assms(3) have "cv_config_yaml v = y" by blast
    with assms(2) v l have "route_at (ad_routes d) i = staticRoutes_get (lc_routes l) i" using assms(6) by (auto simp: config_ok_def)
    with d1 show ?thesis by (metis calm_simps(1))
  next
    case False
    with save_outcome [OF assms(1)] assms(6) show ?thesis by auto
  qed
  moreover have "ad_routes d2 = ad_routes d1" using assms(4) by (simp add: touches_def)
  ultimately show ?thesis using provider_serves [OF assms(5)] by (cases r) simp_all
qed

section \<open>The relay in the application\<close>

text \<open>
  \<^bold>\<open>C4.\<close> A dispatch cycle in the application, at whichever statement the driver fails, on events,
  switches or routes: it touches no table but the events; the events are those before it, one for
  one, settled ones untouched; its rows are claimed no longer or will be taken back; and its
  summary is what it announced.
\<close>

theorem app_cycle:
  assumes "ph_ok (en_host s)" and "reclaims ph_rows (cf_instanceId cf) s" and "cycle (app_host_ops W) cf abort s = (r, s')"
  shows "ph_ok (en_host s') \<and> touches {Events} (ph_db (en_host s)) (ph_db (en_host s')) \<and>
    list_all2 row_step (ph_rows (en_host s)) (ph_rows (en_host s')) \<and> reclaims ph_rows (cf_instanceId cf) s' \<and>
    (\<exists>tr. en_trace s' = en_trace s @ tr \<and> accounted (batchMax (cf_dispatch cf)) new_summary tr (d_summary s'))"
proof -
  have "touches {Events} (ph_db (en_host s)) (ph_db (en_host s'))"
    using keepsD [OF app_calls.turns_cycle assms(3)] by (simp add: on_hosts_def events_only_def)
  with app_host.cycle_effect [OF assms] show ?thesis by simp
qed

text \<open>A request looks its route up once; so it may as well have been handed what it found.\<close>

lemma ingest_found:
  assumes "live_get routeId (ph_db (en_host s)) = (Inr found, d)"
  shows "ingestWebhook (app_host_ops W) cf routeId raw s =
    ingestWebhook (app_host_with (\<lambda>_ h. (Inr found, h)) W) cf routeId raw (s\<lparr>en_host := (en_host s)\<lparr>ph_db := d\<rparr>\<rparr>)"
proof -
  let ?D = "app_host_ops W" and ?F = "app_host_with (\<lambda>_ h. (Inr found, h)) W"
  have parts: "ho_store ?D = ho_store ?F" "ho_control ?D = ho_control ?F" "ho_now ?D = ho_now ?F" "ho_iv ?D = ho_iv ?F"
    by (simp_all add: app_host_ops_def app_host_with_def host_via_def)
  have v: "verify_request ?D cf routeId raw route = verify_request ?F cf routeId raw route" for route
    unfolding verify_request_def new_event_of_def parts by (rule refl)
  have "host (ho_route_get ?D routeId) s = (Inr found, s\<lparr>en_host := (en_host s)\<lparr>ph_db := d\<rparr>\<rparr>)"
    using assms by (simp add: host_def zoomE_def app_host_ops_def app_host_with_def host_via_def)
  then have "accept_request ?D cf routeId raw s = accept_request ?F cf routeId raw (s\<lparr>en_host := (en_host s)\<lparr>ph_db := d\<rparr>\<rparr>)"
    unfolding accept_request_def parts v by (simp add: bindE_def) (simp add: host_def zoomE_def app_host_with_def host_via_def)
  then show ?thesis unfolding ingestWebhook_def ingestInner_def parts by (simp add: catchE_def bindE_def)
qed

lemma ingest_lookup_fails:
  assumes "live_get routeId (ph_db (en_host s)) = (Inl e, d)" and "is_store_error e"
  shows "\<exists>res s'. ingestWebhook (app_host_ops W) cf routeId raw s = (Inr res, s') \<and> ir_status res \<noteq> 200 \<and> en_host s' = (en_host s)\<lparr>ph_db := d\<rparr>"
proof -
  have "host (ho_route_get (app_host_ops W) routeId) s = (Inl e, s\<lparr>en_host := (en_host s)\<lparr>ph_db := d\<rparr>\<rparr>)"
    using assms(1) by (simp add: host_def zoomE_def app_host_ops_def app_host_with_def host_via_def)
  then show ?thesis using assms(2)
    by (simp add: ingestWebhook_def ingestInner_def accept_request_def catchE_def bindE_def thenE_def ret_def emit_def answer_def)
qed

lemma refusal_not_200: "refusal res \<Longrightarrow> ir_status res \<noteq> 200"
  by (auto simp: refusal_def)

lemma calm_rows: "calm d' = calm (ph_db h) \<Longrightarrow> ph_ok (h\<lparr>ph_db := d'\<rparr>) = ph_ok h \<and> ph_rows (h\<lparr>ph_db := d'\<rparr>) = ph_rows h"
  unfolding ph_ok_def ph_rows_def ph_sqlite_def sqlite_ok_def sqlite_rows_def by (simp) (metis calm_simps(4,6))

text \<open>
  \<^bold>\<open>C10.\<close> A webhook in the application is always answered.  200 is answered only when the event the
  request describes under the route the database serves for its path is stored, by this request
  or before under the same key; any other answer, and also an exception of the handler, which is
  answered 500, leaves the events as they were; and no table but the events is touched.
\<close>

theorem app_ingest:
  fixes s :: "'w app_host dispatcher"
  assumes "ph_ok (en_host s)" and "post_ingest (app_host_ops W) cf routeId raw s = (r, s')"
  shows "ph_ok (en_host s') \<and> touches {Events} (ph_db (en_host s)) (ph_db (en_host s')) \<and>
    (case r of Inl _ \<Rightarrow> False
     | Inr (status, body) \<Rightarrow>
         if status = 200
         then \<exists>route e. route_at (ad_routes (ph_db (en_host s))) routeId = Some route \<and> describes cf routeId raw route e \<and>
           (ph_rows (en_host s') = ph_rows (en_host s) \<and> ne_idempotency_key e \<in> set (map ev_idempotency_key (ph_rows (en_host s))) \<or>
            (\<exists>i x. stored_as e i x \<and> ph_rows (en_host s') = ph_rows (en_host s) @ [x]))
         else ph_rows (en_host s') = ph_rows (en_host s))"
proof -
  have frame: "touches {Events} (ph_db (en_host s)) (ph_db (en_host s'))"
    using keepsD [OF app_calls.turns_ingest [OF more_moves(1,2)] assms(2)] by (simp add: on_hosts_def events_only_def)
  show ?thesis
  proof (cases "BODY_LIMIT < length (rr_rawBody raw)")
    case True
    with assms frame show ?thesis by (auto simp: post_ingest_def catchE_def throwE_def ret_def)
  next
    case False
    obtain q s1 where w: "ingestWebhook (app_host_ops W) cf routeId raw s = (q, s1)" by fastforce
    have out: "r = Inr (case q of Inl _ \<Rightarrow> (500, ErrorBody ''internal error'') | Inr res \<Rightarrow> (ir_status res, ir_body res))" "s' = s1"
      using assms(2) False w by (auto simp: post_ingest_def catchE_def bindE_def ret_def split: sum.splits)
    obtain f d where f: "live_get routeId (ph_db (en_host s)) = (f, d)" by fastforce
    note served = provider_serves [OF f]
    show ?thesis
    proof (cases f)
      case (Inl e)
      with served have "is_store_error e" by simp
      from ingest_lookup_fails [OF f [unfolded Inl] this, of W cf raw] w
      obtain res where "q = Inr res" "ir_status res \<noteq> 200" "en_host s1 = (en_host s)\<lparr>ph_db := d\<rparr>" by auto
      with out frame served assms(1) calm_rows [of d "en_host s"] show ?thesis by simp
    next
      case (Inr found)
      let ?F = "app_host_with (\<lambda>_ h. (Inr found, h)) W" and ?s = "s\<lparr>en_host := (en_host s)\<lparr>ph_db := d\<rparr>\<rparr>"
      have same: "ph_ok (en_host ?s)" "ph_rows (en_host ?s) = ph_rows (en_host s)"
        using served assms(1) calm_rows [of d "en_host s"] by simp_all
      have F: "engine_host ?F ph_rows ph_ok" by (rule engine_host_with) (simp add: quiet_def)
      have run: "ingestWebhook ?F cf routeId raw ?s = (q, s1)" using w ingest_found [OF f [unfolded Inr], of W cf raw] by simp
      from engine_host.ingestWebhook_effect [OF F same(1) run]
      have eff: "ph_ok (en_host s1)" "ingest_effect ?F cf routeId raw q (ph_rows (en_host s)) (ph_rows (en_host s1))"
        unfolding same(2) by blast+
      have route: "ho_route_get ?F routeId h = (Inr (Some route), h') \<Longrightarrow> route_at (ad_routes (ph_db (en_host s))) routeId = Some route" for route h h'
        using served Inr by (simp add: app_host_with_def host_via_def)
      show ?thesis
      proof (cases q)
        case (Inl e)
        with eff out frame show ?thesis by (simp add: ingest_effect_def)
      next
        case (Inr res)
        with eff out frame route refusal_not_200 show ?thesis
          by (auto simp: ingest_effect_def)
      qed
    qed
  qed
qed

text \<open>So a cycle, a webhook and a run of retention are \<open>engine\<close> steps of the application's life.\<close>

lemma engine_steps:
  fixes s :: "'w app_host dispatcher"
  assumes "ph_db (en_host s) = aw_db (ap_world a)"
  shows "cycle (app_host_ops W) cf abort s = (r1, s') \<Longrightarrow> app_step dp opts a (a\<lparr>ap_world := (ap_world a)\<lparr>aw_db := ph_db (en_host s')\<rparr>\<rparr>)"
    and "post_ingest (app_host_ops W) cf routeId raw s = (r2, s') \<Longrightarrow> app_step dp opts a (a\<lparr>ap_world := (ap_world a)\<lparr>aw_db := ph_db (en_host s')\<rparr>\<rparr>)"
    and "runPrune (app_host_ops W) cf abort fuel s = (r3, s') \<Longrightarrow> app_step dp opts a (a\<lparr>ap_world := (ap_world a)\<lparr>aw_db := ph_db (en_host s')\<rparr>\<rparr>)"
  using keepsD [OF app_calls.turns_cycle, of W cf abort s r1 s'] keepsD [OF app_calls.turns_ingest [OF more_moves(1,2)], of W cf routeId raw s r2 s']
    keepsD [OF app_calls.turns_prune [OF more_moves(3)], of W cf abort fuel s r3 s'] assms
  by (auto simp: on_hosts_def events_only_def intro!: app_step.engine)

section \<open>On a database\<close>

theorem applied_document_is_live_witness:
  "case fst (live_get ''r1'' (snd (saveConfig demo_app_env 5 ''doc'' ''admin'' paused_db))) of
     Inl e \<Rightarrow> is_store_error e
   | Inr found \<Rightarrow> found = staticRoutes_get [hosted_route] ''r1''"
proof -
  have none: "latest_version paused_db = None" by (simp add: latest_version_def newest_first_def paused_db_def)
  have save: "saveConfig demo_app_env 5 ''doc'' ''admin'' paused_db =
      (Inr (demo_loaded ''doc''), applied 5 ''doc'' ''admin'' (demo_loaded ''doc'') paused_db)"
    using saveConfig_calm [OF _ demo_parsed demo_secrets, of paused_db 5 "''doc''" "''admin''"]
    by (simp add: unchanged_version_def none) (simp add: paused_db_def)
  obtain r d3 where get: "live_get ''r1'' (applied 5 ''doc'' ''admin'' (demo_loaded ''doc'') paused_db) = (r, d3)" by fastforce
  have ok: "config_ok demo_app_env paused_db" by (simp add: config_ok_def none)
  from applied_document_is_live [OF save ok _ tables.R_refl get] none get save
  show ?thesis by (simp add: demo_loaded_def split: sum.splits)
qed

text \<open>The tables of an application whose driver fails at the fifth statement.\<close>

definition app_start :: "'w \<Rightarrow> 'w app_host dispatcher" where
  "app_start w = \<lparr>en_host = \<lparr>ph_db = paused_db\<lparr>ad_store := faulty_db\<rparr>, ph_world = w\<rparr>, en_trace = [], d_reclaimOwner = Some ''i1'',
     d_lastSweepAt = 0, d_summary = new_summary\<rparr>"

lemma app_start_ok: "ph_ok (en_host (app_start w))"
  by (simp add: app_start_def ph_ok_def ph_sqlite_def faulty_db_def sqlite_ok_def inserted_row_def)

theorem app_cycle_witness:
  "touches {Events} (ph_db (en_host (app_start ())))
     (ph_db (en_host (snd (cycle (app_host_ops online_world) online_config (\<lambda>_. False) (app_start ())))))"
proof -
  obtain r s' where c: "cycle (app_host_ops online_world) online_config (\<lambda>_. False) (app_start ()) = (r, s')" by fastforce
  have "reclaims ph_rows (cf_instanceId online_config) (app_start ())" by (simp add: reclaims_def app_start_def online_simps)
  with app_cycle [OF app_start_ok _ c] c show ?thesis by simp
qed

theorem app_ingest_witness:
  "touches {Events} (ph_db (en_host (app_start ())))
     (ph_db (en_host (snd (post_ingest (app_host_ops online_world) online_config ''r1'' demo_request (app_start ()))))) \<and>
   (case fst (post_ingest (app_host_ops online_world) online_config ''r1'' demo_request (app_start ())) of Inl _ \<Rightarrow> False | Inr _ \<Rightarrow> True)"
proof -
  obtain r s' where c: "post_ingest (app_host_ops online_world) online_config ''r1'' demo_request (app_start ()) = (r, s')" by fastforce
  from app_ingest [OF app_start_ok c] c show ?thesis by (simp split: sum.splits)
qed

end
