(* ===== verification/AppEnv.thy ===== *)
theory AppEnv imports Host Codec begin

text \<open>
  What the application reads of its environment before it starts: the secrets file
  (\<open>apps/relay/src/config/secrets.ts\<close>), the runtime settings (\<open>config/runtime.ts\<close>), the boot check
  (\<open>admin/setup-server.ts\<close>) and whether the data directory survives a restart
  (\<open>db/persistence.ts\<close>).
\<close>

section \<open>The environment\<close>

type_synonym environment = "string \<Rightarrow> string option"

text \<open>Unset or empty; \<open>env.X || fallback\<close>.\<close>

definition unset :: "environment \<Rightarrow> string \<Rightarrow> bool" where
  "unset env k \<longleftrightarrow> env k = None \<or> env k = Some []"

definition env_or :: "environment \<Rightarrow> string \<Rightarrow> string \<Rightarrow> string" where
  "env_or env k fallback = (case env k of None \<Rightarrow> fallback | Some v \<Rightarrow> if v = [] then fallback else v)"

section \<open>The secrets file\<close>

definition quoted_by :: "char \<Rightarrow> string \<Rightarrow> bool" where
  "quoted_by q v \<longleftrightarrow> v \<noteq> [] \<and> hd v = q \<and> last v = q \<and> 2 \<le> length v"

definition unquote :: "string \<Rightarrow> string" where
  "unquote v = (if quoted_by CHR 0x22 v \<or> quoted_by CHR 0x27 v then butlast (tl v) else v)"

text \<open>The pair of a line, if it is one.\<close>

definition secret_line :: "string \<Rightarrow> (string \<times> string) option" where
  "secret_line raw =
     (let line = js_trim raw in
      if line = [] \<or> hd line = CHR ''#'' then None
      else (case index_of CHR ''='' line of
          None \<Rightarrow> None
        | Some eq \<Rightarrow> if eq = 0 then None
            else Some (js_trim (take eq line), unquote (js_trim (drop (Suc eq) line)))))"

fun load_lines :: "string list \<Rightarrow> environment \<Rightarrow> string list \<Rightarrow> environment \<times> string list" where
  "load_lines [] env loaded = (env, loaded)"
| "load_lines (raw # lines) env loaded = (case secret_line raw of
     None \<Rightarrow> load_lines lines env loaded
   | Some (k, v) \<Rightarrow> if unset env k then load_lines lines (env(k \<mapsto> v)) (loaded @ [k]) else load_lines lines env loaded)"

record secrets_file_result =
  sf_loaded :: "string list"
  sf_error :: "string option"

text \<open>\<open>read\<close> is \<open>readFileSync\<close>.\<close>

definition loadSecretsFile :: "(string \<Rightarrow> exn + string) \<Rightarrow> environment \<Rightarrow> secrets_file_result \<times> environment" where
  "loadSecretsFile read env =
     (if unset env ''RELAY_SECRETS_FILE'' then (\<lparr>sf_loaded = [], sf_error = None\<rparr>, env)
      else (let path = env_or env ''RELAY_SECRETS_FILE'' [] in
        (case read path of
           Inl e \<Rightarrow> (\<lparr>sf_loaded = [], sf_error = Some (''RELAY_SECRETS_FILE is set but unreadable: '' @ path @ '' ('' @ message e @ '')'')\<rparr>, env)
         | Inr txt' \<Rightarrow> (case load_lines (split_on CHR 0x0A txt') env [] of (env', loaded) \<Rightarrow>
             (\<lparr>sf_loaded = loaded, sf_error = None\<rparr>, env')))))"

section \<open>The boot check\<close>

definition key_check :: "environment \<Rightarrow> string \<Rightarrow> (string \<times> string) list" where
  "key_check env name = (if unset env name then [(name, ''not set'')]
     else if length (env_or env name []) < 16 then [(name, ''too short (min 16 chars)'')] else [])"

definition checkRequiredEnv :: "environment \<Rightarrow> string option \<Rightarrow> (string \<times> string) list" where
  "checkRequiredEnv env secretsFileError =
     (case secretsFileError of None \<Rightarrow> [] | Some e \<Rightarrow> if e = [] then [] else [(''RELAY_SECRETS_FILE'', e)]) @
     key_check env ''RELAY_DATA_KEY'' @ key_check env ''MASKING_HMAC_KEY'' @
     (if unset env ''ADMIN_BASIC_AUTH'' then [(''ADMIN_BASIC_AUTH'', ''not set'')]
      else if \<not> includes_char (env_or env ''ADMIN_BASIC_AUTH'' []) CHR '':'' then [(''ADMIN_BASIC_AUTH'', ''must be user:password'')] else [])"

section \<open>Runtime settings\<close>

text \<open>\<open>number\<close> is \<open>Number\<close> where that is finite; \<open>NaN\<close> and the infinities are no integers.\<close>

definition env_int :: "(string \<Rightarrow> rat option) \<Rightarrow> environment \<Rightarrow> string \<Rightarrow> int \<Rightarrow> exn + int" where
  "env_int number env name fallback =
     (let raw = env_or env name [];
          refused = Inl (OtherError (name @ '' must be a positive integer, got: '' @ raw)) in
      if unset env name then Inr fallback
      else (case number raw of
          None \<Rightarrow> refused
        | Some q \<Rightarrow> (case quotient_of q of (a, b) \<Rightarrow> if b \<noteq> 1 \<or> a \<le> 0 then refused else Inr a)))"

fun env_ints :: "(string \<Rightarrow> rat option) \<Rightarrow> environment \<Rightarrow> (string \<times> int) list \<Rightarrow> exn + int list" where
  "env_ints number env [] = Inr []"
| "env_ints number env ((name, fallback) # rest) = (case env_int number env name fallback of
     Inl e \<Rightarrow> Inl e | Inr n \<Rightarrow> (case env_ints number env rest of Inl e \<Rightarrow> Inl e | Inr ns \<Rightarrow> Inr (n # ns)))"

definition isOff :: "string option \<Rightarrow> bool" where
  "isOff raw \<longleftrightarrow> to_lower (js_trim (case raw of None \<Rightarrow> [] | Some v \<Rightarrow> v)) \<in> {''off'', ''0'', ''false''}"

record runtime_settings =
  rs_endcloseBaseUrl :: string
  rs_instanceId :: string
  rs_ingest :: "int \<times> string"          \<comment> \<open>port and host\<close>
  rs_admin :: "int \<times> string"
  rs_metrics :: "int \<times> string"
  rs_dispatch :: dispatch_settings
  rs_retention :: retention_settings
  rs_telemetry :: bool
  rs_remoteConfig :: "bool \<times> int"       \<comment> \<open>enabled, interval\<close>

text \<open>The numbers, in the order in which they are read.\<close>

definition runtime_numbers :: "(string \<times> int) list" where
  "runtime_numbers = [(''RELAY_INGEST_PORT'', 8443), (''RELAY_ADMIN_PORT'', 8081), (''RELAY_METRICS_PORT'', 9090),
     (''RELAY_BATCH_MAX'', int (batchMax DEFAULT_DISPATCH)), (''RELAY_POLL_INTERVAL_MS'', int (pollIntervalMs DEFAULT_DISPATCH)),
     (''RELAY_BACKOFF_BASE_MS'', int (backoffBaseMs DEFAULT_DISPATCH)), (''RELAY_BACKOFF_CAP_MS'', int (backoffCapMs DEFAULT_DISPATCH)),
     (''RELAY_PARK_AFTER_MS'', parkAfterMs DEFAULT_DISPATCH), (''RELAY_LEASE_MS'', leaseMs DEFAULT_DISPATCH),
     (''RELAY_RECOVER_INTERVAL_MS'', recoverIntervalMs DEFAULT_DISPATCH),
     (''RELAY_RETENTION_DELIVERED_DAYS'', deliveredDays DEFAULT_RETENTION), (''RELAY_RETENTION_LEDGER_DAYS'', ledgerDays DEFAULT_RETENTION),
     (''RELAY_REMOTE_POLL_MS'', 60000)]"

definition settings_of :: "environment \<Rightarrow> int list \<Rightarrow> runtime_settings" where
  "settings_of env ns =
     \<lparr>rs_endcloseBaseUrl = env_or env ''ENDCLOSE_BASE_URL'' ''https://api.endclose.com/v1'',
      rs_instanceId = env_or env ''RELAY_INSTANCE_ID'' ''relay'',
      rs_ingest = (ns ! 0, env_or env ''RELAY_INGEST_HOST'' ''0.0.0.0''),
      rs_admin = (ns ! 1, env_or env ''RELAY_ADMIN_HOST'' ''0.0.0.0''),
      rs_metrics = (ns ! 2, env_or env ''RELAY_METRICS_HOST'' ''0.0.0.0''),
      rs_dispatch = \<lparr>batchMax = nat (ns ! 3), pollIntervalMs = nat (ns ! 4), backoffBaseMs = nat (ns ! 5), backoffCapMs = nat (ns ! 6),
        parkAfterMs = ns ! 7, leaseMs = ns ! 8, recoverIntervalMs = ns ! 9, enrichTimeoutMs = enrichTimeoutMs DEFAULT_DISPATCH\<rparr>,
      rs_retention = \<lparr>deliveredDays = ns ! 10, ledgerDays = ns ! 11\<rparr>,
      rs_telemetry = (\<not> isOff (env ''RELAY_TELEMETRY'')),
      rs_remoteConfig = (\<not> isOff (env ''RELAY_REMOTE_CONFIG''), ns ! 12)\<rparr>"

definition loadRuntimeSettings :: "(string \<Rightarrow> rat option) \<Rightarrow> environment \<Rightarrow> exn + runtime_settings" where
  "loadRuntimeSettings number env = map_sum id (settings_of env) (env_ints number env runtime_numbers)"

section \<open>Where the data directory is mounted\<close>

text \<open>\<open>\ddd\<close> read as \<open>parseInt(_, 8)\<close> does, up to the first digit that is not octal; characters up to 255.\<close>

definition octal_prefix :: "string \<Rightarrow> nat" where
  "octal_prefix ds = foldl (\<lambda>n c. n * 8 + digit_val c) 0 (takeWhile (\<lambda>c. digit_val c < 8) ds)"

fun decodeMountPath :: "string \<Rightarrow> string" where
  "decodeMountPath (b # c1 # c2 # c3 # s) =
     (if b = CHR 0x5C \<and> is_digit c1 \<and> is_digit c2 \<and> is_digit c3
      then char_of (octal_prefix [c1, c2, c3]) # decodeMountPath s else b # decodeMountPath (c1 # c2 # c3 # s))"
| "decodeMountPath s = s"

fun split_dash :: "string \<Rightarrow> (string \<times> string) option" where
  "split_dash [] = None"
| "split_dash (c # s) = (if starts_with '' - '' (c # s) then Some ([], drop 3 (c # s))
     else map_option (\<lambda>(h, t). (c # h, t)) (split_dash s))"

text \<open>Mount point and file system of a line.\<close>

definition mount_line :: "string \<Rightarrow> (string \<times> string) option" where
  "mount_line line = (case split_dash line of
     None \<Rightarrow> None
   | Some (head, tail) \<Rightarrow>
       (case (nth_opt (split_on CHR '' '' head) 4, nth_opt (split_on CHR '' '' tail) 0) of
          (Some mp, Some fs) \<Rightarrow> if mp = [] \<or> fs = [] then None else Some (decodeMountPath mp, fs)
        | _ \<Rightarrow> None))"

definition ends_slash :: "string \<Rightarrow> bool" where "ends_slash s \<longleftrightarrow> s \<noteq> [] \<and> last s = CHR ''/''"

definition mount_contains :: "string \<Rightarrow> string \<Rightarrow> bool" where
  "mount_contains dir mp \<longleftrightarrow> dir = mp \<or> starts_with (if ends_slash mp then mp else mp @ ''/'') dir"

fun best_mount :: "string \<Rightarrow> string list \<Rightarrow> (string \<times> string) option \<Rightarrow> (string \<times> string) option" where
  "best_mount dir [] best = best"
| "best_mount dir (line # lines) best = (case mount_line line of
     None \<Rightarrow> best_mount dir lines best
   | Some (mp, fs) \<Rightarrow> best_mount dir lines
       (if mount_contains dir mp \<and> (case best of None \<Rightarrow> True | Some (b, _) \<Rightarrow> length b < length mp) then Some (mp, fs) else best))"

definition parseMountPersistence :: "string \<Rightarrow> string \<Rightarrow> bool option" where
  "parseMountPersistence mountinfo dir =
     map_option (\<lambda>(_, fs). fs \<noteq> ''overlay'') (best_mount dir (split_on CHR 0x0A mountinfo) None)"

text \<open>\<open>dir\<close> is the directory of the path; \<open>None\<close> for the mount table: not readable.\<close>

definition isDbPathPersistent :: "string option \<Rightarrow> string \<Rightarrow> string \<Rightarrow> bool option" where
  "isDbPathPersistent mountinfo dir dbPath = (if dbPath = '':memory:'' then None
     else (case mountinfo of None \<Rightarrow> None | Some m \<Rightarrow> parseMountPersistence m dir))"

end
