(* ===== verification/AppEnvFacts.thy ===== *)
theory AppEnvFacts imports AppEnv begin

text \<open>
  What the readers of the environment promise: a secrets file fills and never overrides, and gives
  back what was written in it; settings are positive; the boot check is what the keys need; the
  mount that decides about persistence is the innermost one.
\<close>

section \<open>The secrets file\<close>

text \<open>Whatever the file holds, a variable that is set keeps its value.\<close>

lemma load_lines_set: "load_lines ls env ld = (env', ld') \<Longrightarrow> \<not> unset env k \<Longrightarrow> env' k = env k"
proof (induction ls arbitrary: env ld)
  case (Cons raw ls)
  show ?case
  proof (cases "secret_line raw")
    case None
    with Cons show ?thesis by simp
  next
    case (Some p)
    obtain j v where p: "p = (j, v)" by fastforce
    show ?thesis
    proof (cases "unset env j")
      case True
      then have kj: "k \<noteq> j" using Cons.prems(2) by auto
      have "load_lines ls (env(j \<mapsto> v)) (ld @ [j]) = (env', ld')" using Cons.prems(1) Some p True by simp
      moreover have "\<not> unset (env(j \<mapsto> v)) k" using Cons.prems(2) kj by (simp add: unset_def)
      ultimately have "env' k = (env(j \<mapsto> v)) k" by (rule Cons.IH)
      with kj show ?thesis by simp
    next
      case False
      with Cons Some p show ?thesis by simp
    qed
  qed
qed simp

definition file_key :: "string \<Rightarrow> bool" where
  "file_key k \<longleftrightarrow> k \<noteq> [] \<and> hd k \<noteq> CHR ''#'' \<and> list_all (\<lambda>c. \<not> is_space c \<and> c \<noteq> CHR ''='') k"

definition secret_text :: "string \<times> string \<Rightarrow> string" where
  "secret_text p = fst p @ ''='' @ [CHR 0x22] @ snd p @ [CHR 0x22]"

lemma js_trim_ends: "w \<noteq> [] \<Longrightarrow> \<not> is_space (hd w) \<Longrightarrow> \<not> is_space (last w) \<Longrightarrow> js_trim w = w"
proof -
  assume w: "w \<noteq> []" "\<not> is_space (hd w)" "\<not> is_space (last w)"
  then have "dropWhile is_space w = w" by (cases w) auto
  moreover have "dropWhile is_space (rev w) = rev w" using w by (cases w rule: rev_cases) simp_all
  ultimately show ?thesis by (simp add: js_trim_def trim_start_def)
qed

lemma quote_not_space: "\<not> is_space CHR 0x22" by code_simp

lemma secret_line_text: "file_key k \<Longrightarrow> secret_line (secret_text (k, v)) = Some (k, v)"
proof -
  assume k: "file_key k"
  let ?w = "secret_text (k, v)"
  obtain c cs where c: "k = c # cs" using k by (cases k) (simp_all add: file_key_def)
  have "?w = c # (cs @ ''='' @ CHR 0x22 # v) @ [CHR 0x22]" by (simp add: secret_text_def c)
  then have w: "?w \<noteq> []" "hd ?w = c" "last ?w = CHR 0x22" by simp_all
  have kc: "\<not> is_space c" "c \<noteq> CHR ''#''" using k by (simp_all add: file_key_def c)
  have ends: "js_trim ?w = ?w" by (rule js_trim_ends) (simp_all only: w kc quote_not_space not_False_eq_True)
  have "CHR ''='' \<notin> set k" using k by (auto simp: file_key_def list_all_iff)
  then have i: "index_of CHR ''='' ?w = Some (length k)" using index_of_append [of "CHR ''=''" k "CHR 0x22 # v @ [CHR 0x22]"] by (simp add: secret_text_def)
  have tk: "js_trim k = k" using k by (intro js_trim_fixed) (auto simp: file_key_def list_all_iff)
  have tv: "js_trim (CHR 0x22 # v @ [CHR 0x22]) = CHR 0x22 # v @ [CHR 0x22]" by (rule js_trim_ends) (simp_all add: quote_not_space)
  have "?w \<noteq> []" "hd ?w \<noteq> CHR ''#''" "k \<noteq> []" using w kc c by simp_all
  then show ?thesis using tk tv
    unfolding secret_line_def ends Let_def i by (simp add: secret_text_def unquote_def quoted_by_def)
qed

definition filled :: "(string \<times> string) list \<Rightarrow> environment \<Rightarrow> environment" where
  "filled ps env k = (if unset env k then (case map_of ps k of None \<Rightarrow> env k | Some v \<Rightarrow> Some v) else env k)"

lemma load_lines_text:
  "list_all file_key (map fst ps) \<Longrightarrow> distinct (map fst ps) \<Longrightarrow>
     load_lines (map secret_text ps) env ld = (filled ps env, ld @ filter (unset env) (map fst ps))"
proof (induction ps arbitrary: env ld)
  case Nil
  then show ?case by (auto simp: filled_def fun_eq_iff)
next
  case (Cons p ps)
  obtain k v where p: "p = (k, v)" by fastforce
  have fresh: "k \<notin> set (map fst ps)" using Cons.prems p by simp
  then have none: "map_of ps k = None" by (simp add: map_of_eq_None_iff)
  have same: "filter (unset (env(k \<mapsto> v))) (map fst ps) = filter (unset env) (map fst ps)"
    using fresh by (intro filter_cong) (auto simp: unset_def)
  have "filled ps (env(k \<mapsto> v)) = filled (p # ps) env" if "unset env k"
    using that none p by (auto simp: filled_def fun_eq_iff unset_def split: option.splits)
  moreover have "filled ps env = filled (p # ps) env" if "\<not> unset env k"
    using that p by (auto simp: filled_def fun_eq_iff)
  ultimately show ?case using Cons p same secret_line_text [of k v] by auto
qed

text \<open>
  A secrets file written line by line as name, equals sign and quoted value is read back exactly: every name
  that was unset or empty gets its value, spaces and quotes in it included, every other variable
  stays as it was, and the names reported are those that were filled, in their order.
\<close>

theorem loadSecretsFile_roundtrip:
  assumes "list_all file_key (map fst ps)" and "distinct (map fst ps)" and "list_all (\<lambda>p. CHR 0x0A \<notin> set (snd p)) ps" and "ps \<noteq> []"
    and "\<not> unset env ''RELAY_SECRETS_FILE''" and "read (env_or env ''RELAY_SECRETS_FILE'' []) = Inr (join [CHR 0x0A] (map secret_text ps))"
  shows "loadSecretsFile read env = (\<lparr>sf_loaded = filter (unset env) (map fst ps), sf_error = None\<rparr>, filled ps env)"
proof -
  have "CHR 0x0A \<notin> set (secret_text p)" if "p \<in> set ps" for p
  proof -
    have "is_space CHR 0x0A" by code_simp
    then show ?thesis using that assms(1,3) by (auto simp: secret_text_def file_key_def list_all_iff)
  qed
  then have "split_on CHR 0x0A (join [CHR 0x0A] (map secret_text ps)) = map secret_text ps"
    using assms(4) by (intro split_on_join) auto
  with assms(5,6) load_lines_text [OF assms(1,2)] show ?thesis by (simp add: loadSecretsFile_def Let_def)
qed

theorem loadSecretsFile_roundtrip_witness:
  "loadSecretsFile (\<lambda>_. Inr (join [CHR 0x0A] (map secret_text [(''KEY'', '' a b''), (''S'', ''x'')])))
     [''RELAY_SECRETS_FILE'' \<mapsto> ''/run/env'', ''S'' \<mapsto> ''set'', ''KEY'' \<mapsto> ''''] =
   (\<lparr>sf_loaded = [''KEY''], sf_error = None\<rparr>,
    filled [(''KEY'', '' a b''), (''S'', ''x'')] [''RELAY_SECRETS_FILE'' \<mapsto> ''/run/env'', ''S'' \<mapsto> ''set'', ''KEY'' \<mapsto> ''''])"
proof -
  let ?env = "[''RELAY_SECRETS_FILE'' \<mapsto> ''/run/env'', ''S'' \<mapsto> ''set'', ''KEY'' \<mapsto> '''']"
  have "list_all file_key (map fst [(''KEY'', '' a b''), (''S'', ''x'')])" by code_simp
  from loadSecretsFile_roundtrip [OF this, of ?env "\<lambda>_. Inr (join [CHR 0x0A] (map secret_text [(''KEY'', '' a b''), (''S'', ''x'')]))"]
  show ?thesis by (simp add: unset_def)
qed

section \<open>The boot check\<close>

text \<open>
  The boot check reports nothing exactly when the boot can derive both keys from the environment, there is a
  password for the admin plane of the form user:password, and the secrets file, if any, was read.
\<close>

theorem checkRequiredEnv_iff:
  "checkRequiredEnv env err = [] \<longleftrightarrow> (err = None \<or> err = Some []) \<and>
     (\<exists>k. deriveKey C ''RELAY_DATA_KEY'' (env ''RELAY_DATA_KEY'') = Inr k) \<and>
     (\<exists>k. deriveKey C ''MASKING_HMAC_KEY'' (env ''MASKING_HMAC_KEY'') = Inr k) \<and>
     (\<exists>u p. env ''ADMIN_BASIC_AUTH'' = Some (u @ CHR '':'' # p))"
proof -
  have key: "key_check env n = [] \<longleftrightarrow> (\<exists>k. deriveKey C m (env n) = Inr k)" for n m
    by (auto simp: key_check_def unset_def env_or_def deriveKey_def MIN_KEY_CHARS_def Let_def split: option.splits)
  have auth: "(\<not> unset env ''ADMIN_BASIC_AUTH'' \<and> includes_char (env_or env ''ADMIN_BASIC_AUTH'' []) CHR '':'') \<longleftrightarrow>
      (\<exists>u p. env ''ADMIN_BASIC_AUTH'' = Some (u @ CHR '':'' # p))"
    by (auto simp: unset_def env_or_def includes_char_def split: option.splits dest: split_list)
  show ?thesis unfolding auth [symmetric] key [symmetric] by (auto simp: checkRequiredEnv_def split: option.splits)
qed

section \<open>Settings\<close>

lemma env_int_positive: "env_int number env name fallback = Inr n \<Longrightarrow> 0 < fallback \<Longrightarrow> 0 < n"
  by (auto simp: env_int_def Let_def split: if_splits option.splits prod.splits)

lemma env_ints_positive:
  "env_ints number env xs = Inr ns \<Longrightarrow> list_all (\<lambda>x. 0 < snd x) xs \<Longrightarrow> length ns = length xs \<and> list_all (\<lambda>n. 0 < n) ns"
proof (induction xs arbitrary: ns)
  case (Cons x xs)
  obtain name fallback where x: "x = (name, fallback)" by fastforce
  with Cons.prems obtain n ms where n: "env_int number env name fallback = Inr n" and ms: "env_ints number env xs = Inr ms" "ns = n # ms"
    by (auto split: sum.splits)
  have "0 < n" using env_int_positive [OF n] Cons.prems(2) x by simp
  then show ?case using Cons.IH [OF ms(1)] Cons.prems(2) ms(2) by simp
qed simp

lemma numbers_positive: "list_all (\<lambda>x. 0 < snd x) runtime_numbers"
  by (simp add: runtime_numbers_def DEFAULT_DISPATCH_def DEFAULT_RETENTION_def)

text \<open>
  Settings that load are positive: ports, the batch size, every delay, lease and interval, and the days of
  retention.
\<close>

theorem loadRuntimeSettings_positive:
  assumes "loadRuntimeSettings number env = Inr st"
  shows "0 < fst (rs_ingest st) \<and> 0 < fst (rs_admin st) \<and> 0 < fst (rs_metrics st) \<and> 0 < batchMax (rs_dispatch st) \<and>
    0 < pollIntervalMs (rs_dispatch st) \<and> 0 < backoffBaseMs (rs_dispatch st) \<and> 0 < backoffCapMs (rs_dispatch st) \<and>
    0 < parkAfterMs (rs_dispatch st) \<and> 0 < leaseMs (rs_dispatch st) \<and> 0 < recoverIntervalMs (rs_dispatch st) \<and>
    0 < enrichTimeoutMs (rs_dispatch st) \<and> 0 < deliveredDays (rs_retention st) \<and> 0 < ledgerDays (rs_retention st) \<and>
    0 < snd (rs_remoteConfig st)"
proof -
  from assms obtain ns where ns: "env_ints number env runtime_numbers = Inr ns" and st: "st = settings_of env ns"
    by (cases "env_ints number env runtime_numbers") (auto simp: loadRuntimeSettings_def)
  have "length runtime_numbers = 13" by (simp add: runtime_numbers_def)
  with env_ints_positive [OF ns numbers_positive] have l: "length ns = 13" and p: "\<And>i. i < 13 \<Longrightarrow> 0 < ns ! i"
    by (auto simp: list_all_length)
  show ?thesis using p [of 0] p [of 1] p [of 2] p [of 3] p [of 4] p [of 5] p [of 6] p [of 7] p [of 8] p [of 9] p [of 10] p [of 11] p [of 12]
    by (simp add: st settings_of_def DEFAULT_DISPATCH_def)
qed

theorem loadRuntimeSettings_positive_witness:
  "\<exists>st. loadRuntimeSettings (\<lambda>_. Some 50) [''RELAY_BATCH_MAX'' \<mapsto> ''50''] = Inr st \<and> batchMax (rs_dispatch st) = 50 \<and> 0 < leaseMs (rs_dispatch st)"
proof -
  have "\<exists>st. loadRuntimeSettings (\<lambda>_. Some 50) [''RELAY_BATCH_MAX'' \<mapsto> ''50''] = Inr st \<and> batchMax (rs_dispatch st) = 50"
    by (simp add: loadRuntimeSettings_def runtime_numbers_def env_int_def unset_def env_or_def Let_def settings_of_def)
  then show ?thesis using loadRuntimeSettings_positive by blast
qed

section \<open>The innermost mount\<close>

text \<open>The mounts of the table that contain the directory.\<close>

definition mounts_of :: "string \<Rightarrow> string list \<Rightarrow> (string \<times> string) list" where
  "mounts_of dir lines = filter (\<lambda>(mp, _). mount_contains dir mp) (List.map_filter mount_line lines)"

lemma best_mount_longest:
  "best_mount dir lines best = (case best of None \<Rightarrow> None | Some _ \<Rightarrow> best) \<and> mounts_of dir lines = [] \<or>
   (\<exists>m. best_mount dir lines best = Some m \<and> (m \<in> set (mounts_of dir lines) \<or> best = Some m) \<and>
     list_all (\<lambda>x. length (fst x) \<le> length (fst m)) (mounts_of dir lines @ (case best of None \<Rightarrow> [] | Some b \<Rightarrow> [b])))"
proof (induction dir lines best rule: best_mount.induct)
  case (1 dir best)
  then show ?case by (simp add: mounts_of_def List.map_filter_def split: option.splits)
next
  case (2 dir line lines best)
  show ?case
  proof (cases "mount_line line")
    case None
    then have "mounts_of dir (line # lines) = mounts_of dir lines" by (simp add: mounts_of_def List.map_filter_def)
    with 2(1) None show ?thesis by simp
  next
    case (Some p)
    obtain mp fs where p: "p = (mp, fs)" by fastforce
    have ms: "mounts_of dir (line # lines) = (if mount_contains dir mp then [(mp, fs)] else []) @ mounts_of dir lines"
      using Some p by (simp add: mounts_of_def List.map_filter_def)
    let ?c = "mount_contains dir mp \<and> (case best of None \<Rightarrow> True | Some (b, _) \<Rightarrow> length b < length mp)"
    show ?thesis
    proof (cases ?c)
      case True
      with 2(2) [OF Some p [symmetric]] have "\<exists>m. best_mount dir lines (Some (mp, fs)) = Some m \<and> (m \<in> set (mounts_of dir lines) \<or> m = (mp, fs)) \<and>
          list_all (\<lambda>x. length (fst x) \<le> length (fst m)) (mounts_of dir lines @ [(mp, fs)])" by auto
      then show ?thesis using True Some p ms by (cases best) (fastforce simp: list_all_iff)+
    next
      case False
      have "best_mount dir (line # lines) best = best_mount dir lines (if ?c then Some (mp, fs) else best)" by (simp add: Some p)
      then have b: "best_mount dir (line # lines) best = best_mount dir lines best" unfolding if_not_P [OF False] .
      note IH = 2(2) [OF Some p [symmetric], unfolded if_not_P [OF False]]
      show ?thesis
      proof (cases "mount_contains dir mp")
        case True
        with False obtain q where q: "best = Some q" "length mp \<le> length (fst q)" by (cases best) auto
        with IH True show ?thesis unfolding b ms by (fastforce simp: list_all_iff)
      next
        case no: False
        with IH show ?thesis unfolding b ms by simp
      qed
    qed
  qed
qed

text \<open>
  The data directory counts as persistent by the file system of a mount that contains it and whose path is
  longest among those that do; no claim is made exactly when no mount contains it.
\<close>

theorem parseMountPersistence_innermost:
  "case parseMountPersistence mountinfo dir of
     None \<Rightarrow> mounts_of dir (split_on CHR 0x0A mountinfo) = []
   | Some persistent \<Rightarrow> (\<exists>m. m \<in> set (mounts_of dir (split_on CHR 0x0A mountinfo)) \<and> persistent = (snd m \<noteq> ''overlay'') \<and>
       list_all (\<lambda>x. length (fst x) \<le> length (fst m)) (mounts_of dir (split_on CHR 0x0A mountinfo)))"
  using best_mount_longest [of dir "split_on CHR 0x0A mountinfo" None]
  by (auto simp: parseMountPersistence_def split: option.splits prod.splits) blast

end
