(* ===== verification/Telemetry.thy ===== *)
theory Telemetry imports Routes Host Admin begin

text \<open>
  What the application tells about itself: the instance reporter
  (\<open>apps/relay/src/forward/manifest.ts\<close>) as a state machine over its calls and its timer, the
  metrics it derives from the engine's hooks (\<open>metrics/metrics.ts\<close>) and their listener's guard
  (\<open>metrics/server.ts\<close>).  Delays are jittered by a random number and left out: a timer may fire
  at any time while it is set.
\<close>

section \<open>The reporter\<close>

definition HEARTBEAT_INTERVAL_MS :: int where "HEARTBEAT_INTERVAL_MS = 15 * 60000"
definition ERROR_REPORT_MIN_INTERVAL_MS :: int where "ERROR_REPORT_MIN_INTERVAL_MS = 60000"

text \<open>The delay of the next heartbeat, by \<open>Math.random()\<close>.\<close>

definition heartbeat_delay :: "int \<Rightarrow> rat \<Rightarrow> int" where
  "heartbeat_delay base random = floor (of_int base * (4/5 + random * (2/5)) + 1/2)"

record reporter_opts =
  rpo_enabled :: bool
  rpo_ENGINE_VERSION :: string
  rpo_errorMinIntervalMs :: int

text \<open>\<open>rp_sent\<close>: the manifests sent, and when; \<open>rp_pending\<close>: how many requests are out.  A call comes
  with the time and with what \<open>configSource()\<close> answers then.\<close>

type_synonym moment = "int \<times> config_source"

record reporter =
  rp_timer :: bool
  rp_running :: bool
  rp_pending :: nat
  rp_lastErrorAt :: int
  rp_sent :: "(int \<times> instance_manifest) list"

definition new_reporter :: reporter where
  "new_reporter = \<lparr>rp_timer = False, rp_running = False, rp_pending = 0, rp_lastErrorAt = 0, rp_sent = []\<rparr>"

definition createInstanceReporter :: "string \<Rightarrow> bool \<Rightarrow> string \<Rightarrow> reporter_opts" where
  "createInstanceReporter ENGINE_VERSION enabled apiKey =
     \<lparr>rpo_enabled = (enabled \<and> apiKey \<noteq> []), rpo_ENGINE_VERSION = ENGINE_VERSION, rpo_errorMinIntervalMs = ERROR_REPORT_MIN_INTERVAL_MS\<rparr>"

definition reporter_announce :: "reporter_opts \<Rightarrow> manifest_reason \<Rightarrow> moment \<Rightarrow> reporter \<Rightarrow> reporter" where
  "reporter_announce opts reason now s =
     (if \<not> rpo_enabled opts then s else
      let manifest = buildManifest (rpo_ENGINE_VERSION opts)
        \<lparr>ms_host = Application, ms_configSource = snd now, ms_adapters = None, ms_enrichments = None\<rparr> reason in
      s\<lparr>rp_sent := rp_sent s @ [(fst now, manifest)], rp_pending := rp_pending s + 1\<rparr>)"

definition reporter_start :: "reporter_opts \<Rightarrow> moment \<Rightarrow> reporter \<Rightarrow> reporter" where
  "reporter_start opts now s =
     (if \<not> rpo_enabled opts \<or> rp_running s then s
      else (reporter_announce opts Boot now (s\<lparr>rp_running := True\<rparr>))\<lparr>rp_timer := True\<rparr>)"

definition reporter_fire :: "reporter_opts \<Rightarrow> moment \<Rightarrow> reporter \<Rightarrow> reporter" where
  "reporter_fire opts now s =
     (if \<not> rp_timer s then s
      else if \<not> rp_running s then s\<lparr>rp_timer := False\<rparr>
      else reporter_announce opts Heartbeat now s)"

definition reporter_stop :: "reporter_opts \<Rightarrow> moment \<Rightarrow> reporter \<Rightarrow> reporter" where
  "reporter_stop opts now s =
     (let s1 = s\<lparr>rp_timer := False\<rparr> in
      if rp_running s1 then reporter_announce opts Shutdown now (s1\<lparr>rp_running := False\<rparr>) else s1)"

definition reporter_configApplied :: "reporter_opts \<Rightarrow> moment \<Rightarrow> reporter \<Rightarrow> reporter" where
  "reporter_configApplied opts now s = reporter_announce opts ConfigApplied now s"

definition reporter_reportError :: "reporter_opts \<Rightarrow> moment \<Rightarrow> reporter \<Rightarrow> reporter" where
  "reporter_reportError opts now s =
     (if fst now - rp_lastErrorAt s < rpo_errorMinIntervalMs opts then s
      else reporter_announce opts ManifestError now (s\<lparr>rp_lastErrorAt := fst now\<rparr>))"

definition reporter_settled :: "reporter \<Rightarrow> reporter" where
  "reporter_settled s = s\<lparr>rp_pending := rp_pending s - 1\<rparr>"

datatype reporter_call = RpStart | RpFire | RpStop | RpConfigApplied | RpError | RpSettled

fun reporter_do :: "reporter_opts \<Rightarrow> moment \<times> reporter_call \<Rightarrow> reporter \<Rightarrow> reporter" where
  "reporter_do opts (now, RpStart) = reporter_start opts now"
| "reporter_do opts (now, RpFire) = reporter_fire opts now"
| "reporter_do opts (now, RpStop) = reporter_stop opts now"
| "reporter_do opts (now, RpConfigApplied) = reporter_configApplied opts now"
| "reporter_do opts (now, RpError) = reporter_reportError opts now"
| "reporter_do opts (now, RpSettled) = reporter_settled"

definition error_times :: "reporter \<Rightarrow> int list" where
  "error_times s = map fst (filter (\<lambda>x. im_reason (snd x) = ManifestError) (rp_sent s))"

text \<open>The errors reported so far are spaced, and the last of them is remembered.\<close>

definition errors_ok :: "reporter_opts \<Rightarrow> reporter \<Rightarrow> bool" where
  "errors_ok opts s \<longleftrightarrow> sorted_wrt (\<lambda>t u. t + rpo_errorMinIntervalMs opts \<le> u) (error_times s) \<and>
     list_all (\<lambda>t. t \<le> rp_lastErrorAt s) (error_times s)"

lemma announce_errors:
  "reason \<noteq> ManifestError \<Longrightarrow> error_times (reporter_announce opts reason now s) = error_times s"
  "rp_lastErrorAt (reporter_announce opts reason now s) = rp_lastErrorAt s"
  by (simp_all add: reporter_announce_def error_times_def buildManifest_def Let_def)

lemma error_times_fields [simp]:
  "error_times (s\<lparr>rp_running := b\<rparr>) = error_times s" "error_times (s\<lparr>rp_timer := b\<rparr>) = error_times s"
  "error_times (s\<lparr>rp_pending := n\<rparr>) = error_times s" "error_times (s\<lparr>rp_lastErrorAt := t\<rparr>) = error_times s"
  by (simp_all add: error_times_def)

lemma errors_ok_step:
  assumes "errors_ok opts s" and "0 \<le> rpo_errorMinIntervalMs opts"
  shows "errors_ok opts (reporter_do opts (now, c) s)"
proof (cases c)
  case RpError
  have "t + rpo_errorMinIntervalMs opts \<le> fst now" if "\<not> fst now - rp_lastErrorAt s < rpo_errorMinIntervalMs opts" "t \<in> set (error_times s)" for t
    using assms(1) that by (force simp: errors_ok_def list_all_iff)
  moreover have "t \<le> fst now" if "\<not> fst now - rp_lastErrorAt s < rpo_errorMinIntervalMs opts" "t \<in> set (error_times s)" for t
    using assms that by (force simp: errors_ok_def list_all_iff)
  moreover have "error_times (reporter_announce opts ManifestError now (s\<lparr>rp_lastErrorAt := fst now\<rparr>)) =
      error_times s @ (if rpo_enabled opts then [fst now] else [])"
    by (simp add: reporter_announce_def error_times_def buildManifest_def Let_def)
  ultimately show ?thesis using assms RpError
    by (auto simp: reporter_reportError_def errors_ok_def announce_errors sorted_wrt_append list_all_iff)
qed (use assms in \<open>auto simp: errors_ok_def reporter_start_def reporter_fire_def reporter_stop_def Let_def reporter_configApplied_def
    reporter_settled_def announce_errors\<close>)

text \<open>How often a reason was sent; every shutdown closes one boot.\<close>

definition sent_for :: "manifest_reason \<Rightarrow> reporter \<Rightarrow> nat" where
  "sent_for reason s = length (filter (\<lambda>x. im_reason (snd x) = reason) (rp_sent s))"

definition boots_ok :: "reporter \<Rightarrow> bool" where
  "boots_ok s \<longleftrightarrow> sent_for Boot s = sent_for Shutdown s + (if rp_running s then 1 else 0)"

lemma boots_ok_step:
  assumes "rpo_enabled opts" and "boots_ok s"
  shows "boots_ok (reporter_do opts (now, c) s)"
  using assms by (cases c) (auto simp: boots_ok_def sent_for_def reporter_start_def reporter_fire_def reporter_stop_def Let_def
      reporter_configApplied_def reporter_reportError_def reporter_settled_def reporter_announce_def buildManifest_def split: if_splits)

lemma disabled_step: "\<not> rpo_enabled opts \<Longrightarrow> rp_sent (reporter_do opts (now, c) s) = rp_sent s"
  by (cases c) (auto simp: reporter_start_def reporter_fire_def reporter_stop_def Let_def
      reporter_configApplied_def reporter_reportError_def reporter_settled_def reporter_announce_def)

lemma fold_keeps: "(\<And>x s. P s \<Longrightarrow> P (f x s)) \<Longrightarrow> P s \<Longrightarrow> P (fold f xs s)"
  by (induction xs arbitrary: s) auto

text \<open>
  \<^bold>\<open>C39.\<close> However its calls, its timer and its requests interleave, the reporter sends error check-ins at
  least the minimum interval apart, every shutdown it announces closes one boot, of which at most the
  last is open, and a disabled one sends nothing at all.
\<close>

theorem reporter_errors_spaced:
  assumes "0 \<le> rpo_errorMinIntervalMs opts"
  shows "sorted_wrt (\<lambda>t u. t + rpo_errorMinIntervalMs opts \<le> u) (error_times (fold (reporter_do opts) calls new_reporter)) \<and>
    (if rpo_enabled opts
     then sent_for Boot (fold (reporter_do opts) calls new_reporter) = sent_for Shutdown (fold (reporter_do opts) calls new_reporter) +
       (if rp_running (fold (reporter_do opts) calls new_reporter) then 1 else 0)
     else rp_sent (fold (reporter_do opts) calls new_reporter) = [])"
proof -
  have start: "errors_ok opts new_reporter" "boots_ok new_reporter" "rp_sent new_reporter = []"
    by (simp_all add: errors_ok_def boots_ok_def sent_for_def new_reporter_def error_times_def)
  have step: "errors_ok opts s \<Longrightarrow> errors_ok opts (reporter_do opts x s)" for x s
    using errors_ok_step [OF _ assms, of s "fst x" "snd x"] by simp
  from fold_keeps [of "errors_ok opts", OF step start(1)]
  have errors: "errors_ok opts (fold (reporter_do opts) calls new_reporter)" .
  show ?thesis
  proof (cases "rpo_enabled opts")
    case True
    from fold_keeps [of boots_ok "reporter_do opts", OF _ start(2)] boots_ok_step [OF True]
    have "boots_ok (fold (reporter_do opts) calls new_reporter)" by (metis surj_pair)
    with errors True show ?thesis by (simp add: errors_ok_def boots_ok_def)
  next
    case False
    then have "rp_sent s = [] \<Longrightarrow> rp_sent (reporter_do opts x s) = []" for x s
      using disabled_step [of opts "fst x" "snd x" s] by simp
    from fold_keeps [of "\<lambda>s. rp_sent s = []", OF this start(3)]
    have "rp_sent (fold (reporter_do opts) calls new_reporter) = []" .
    with errors False show ?thesis by (simp add: errors_ok_def)
  qed
qed

theorem reporter_errors_spaced_witness:
  "error_times (fold (reporter_do (createInstanceReporter ''1.0.0'' True ''key''))
      [((100000, Local), RpStart), ((100000, Local), RpError), ((150000, Local), RpError), ((160000, Local), RpError)] new_reporter) = [100000, 160000] \<and>
   sorted_wrt (\<lambda>t u. t + 60000 \<le> u) (error_times (fold (reporter_do (createInstanceReporter ''1.0.0'' True ''key''))
      [((100000, Local), RpStart), ((100000, Local), RpError), ((150000, Local), RpError), ((160000, Local), RpError)] new_reporter))"
proof -
  have "error_times (fold (reporter_do (createInstanceReporter ''1.0.0'' True ''key''))
      [((100000, Local), RpStart), ((100000, Local), RpError), ((150000, Local), RpError), ((160000, Local), RpError)] new_reporter) = [100000, 160000]" by code_simp
  moreover have "0 \<le> rpo_errorMinIntervalMs (createInstanceReporter ''1.0.0'' True ''key'')"
    by (simp add: createInstanceReporter_def ERROR_REPORT_MIN_INTERVAL_MS_def)
  from reporter_errors_spaced [OF this, of "[((100000, Local), RpStart), ((100000, Local), RpError), ((150000, Local), RpError), ((160000, Local), RpError)]"]
  have "sorted_wrt (\<lambda>t u. t + 60000 \<le> u) (error_times (fold (reporter_do (createInstanceReporter ''1.0.0'' True ''key''))
      [((100000, Local), RpStart), ((100000, Local), RpError), ((150000, Local), RpError), ((160000, Local), RpError)] new_reporter))"
    by (simp add: createInstanceReporter_def ERROR_REPORT_MIN_INTERVAL_MS_def)
  ultimately show ?thesis by blast
qed

section \<open>Metrics\<close>

text \<open>Counters by their labels; the histogram is the list of its observations, in seconds.\<close>

record metrics =
  mx_ingest :: "string \<times> ingest_outcome \<Rightarrow> nat"
  mx_forward :: "string \<times> forward_result \<Rightarrow> nat"
  mx_lag :: "rat list"
  mx_wiped :: nat
  mx_deleted :: nat

definition no_metrics :: metrics where
  "no_metrics = \<lparr>mx_ingest = (\<lambda>_. 0), mx_forward = (\<lambda>_. 0), mx_lag = [], mx_wiped = 0, mx_deleted = 0\<rparr>"

definition observeDeliveryLag :: "int \<Rightarrow> int \<Rightarrow> metrics \<Rightarrow> metrics" where
  "observeDeliveryLag receivedAt deliveredAt m =
     (let lag = of_int (deliveredAt - receivedAt) / 1000 :: rat in if 0 \<le> lag then m\<lparr>mx_lag := mx_lag m @ [lag]\<rparr> else m)"

text \<open>\<open>subscribe\<close>; a count of zero leaves the pruned counters alone, as adding it would.\<close>

fun metrics_on :: "hook_event \<Rightarrow> metrics \<Rightarrow> metrics" where
  "metrics_on (HIngest route outcome _ _) m = m\<lparr>mx_ingest := (mx_ingest m)((route, outcome) := mx_ingest m (route, outcome) + 1)\<rparr>"
| "metrics_on (HForward route result n) m = m\<lparr>mx_forward := (mx_forward m)((route, result) := mx_forward m (route, result) + n)\<rparr>"
| "metrics_on (HDelivered _ receivedAt deliveredAt) m = observeDeliveryLag receivedAt deliveredAt m"
| "metrics_on (HPrune wiped deleted) m = m\<lparr>mx_wiped := mx_wiped m + wiped, mx_deleted := mx_deleted m + deleted\<rparr>"
| "metrics_on _ m = m"

definition metrics_of :: "hook_event list \<Rightarrow> metrics" where
  "metrics_of es = fold metrics_on es no_metrics"

definition KILLSWITCH_VALUE :: "killswitch \<Rightarrow> nat" where
  "KILLSWITCH_VALUE k = (case k of KillNone \<Rightarrow> 0 | KillPause \<Rightarrow> 1 | KillPanic \<Rightarrow> 2)"

lemma forward_counter: "mx_forward (fold metrics_on es m) l = mx_forward m l +
    sum_list (map (\<lambda>e. case e of HForward r f n \<Rightarrow> if (r, f) = l then n else 0 | _ \<Rightarrow> 0) es)"
proof (induction es arbitrary: m)
  case (Cons e es)
  then show ?case by (cases e) (auto simp: observeDeliveryLag_def Let_def)
qed simp

lemma ingest_counter: "mx_ingest (fold metrics_on es m) l = mx_ingest m l +
    length (filter (\<lambda>e. case e of HIngest r f _ _ \<Rightarrow> (r, f) = l | _ \<Rightarrow> False) es)"
proof (induction es arbitrary: m)
  case (Cons e es)
  then show ?case by (cases e) (auto simp: observeDeliveryLag_def Let_def)
qed simp

lemma lags_not_negative: "list_all (\<lambda>x. 0 \<le> x) (mx_lag m) \<Longrightarrow> list_all (\<lambda>x. 0 \<le> x) (mx_lag (fold metrics_on es m))"
proof (induction es arbitrary: m)
  case (Cons e es)
  then show ?case by (cases e) (auto simp: observeDeliveryLag_def Let_def)
qed simp

section \<open>Their listener\<close>

datatype metrics_call = MHealthz | MReadyz | MMetrics "string option"    \<comment> \<open>the authorization header\<close>

datatype metrics_answer = MOk | MNotReady | MUnauthorized | MValues

definition metrics_request :: "string option \<Rightarrow> bool \<Rightarrow> metrics_call \<Rightarrow> nat \<times> metrics_answer" where
  "metrics_request basicAuth isReady c = (case c of
     MHealthz \<Rightarrow> (200, MOk)
   | MReadyz \<Rightarrow> if isReady then (200, MOk) else (503, MNotReady)
   | MMetrics header \<Rightarrow> (case non_empty basicAuth of
       None \<Rightarrow> (200, MValues)
     | Some userpass \<Rightarrow>
         (let a = utf8 (case header of None \<Rightarrow> [] | Some h \<Rightarrow> h); b = utf8 (basic_auth_header userpass) in
          if length a \<noteq> length b \<or> \<not> timing_safe_equal a b then (401, MUnauthorized) else (200, MValues))))"

lemma metrics_guard:
  "userpass \<noteq> [] \<Longrightarrow> metrics_request (Some userpass) isReady (MMetrics header) = (200, MValues) \<longleftrightarrow> header = Some (basic_auth_header userpass)"
proof -
  assume "userpass \<noteq> []"
  moreover have "basic_auth_header userpass \<noteq> []" by (simp add: basic_auth_header_def)
  ultimately show ?thesis
    by (cases header) (auto simp: metrics_request_def non_empty_def Let_def timing_safe_equal_def)
qed

end
