(* ===== verification/Boot.thy ===== *)
theory Boot imports AppHost AppEnvFacts Telemetry begin

text \<open>
  The boot of the application (\<open>main\<close> in \<open>apps/relay/src/index.ts\<close>), after the database is open and
  migrated: from the environment and the secrets file to one of its modes, with what the mode
  is given.
\<close>

section \<open>From the environment to a mode\<close>

record 'h boot_host =
  bh_read :: "string \<Rightarrow> exn + string"                  \<comment> \<open>the secrets file\<close>
  bh_seed :: "string \<Rightarrow> (exn + string) option"         \<comment> \<open>the seed file, if it exists\<close>
  bh_env :: app_env                                     \<comment> \<open>packages; its secrets are replaced\<close>
  bh_check :: "'h check_options"                        \<comment> \<open>network and clock; address and key are replaced\<close>
  bh_date_parse :: "string \<Rightarrow> int option"
  bh_ENGINE_VERSION :: string

record boot_parts =
  bp_app :: app_env
  bp_dataKey :: bytes
  bp_maskingKey :: bytes
  bp_adminAuth :: string
  bp_settings :: runtime_settings
  bp_status :: ownership
  bp_reporter :: reporter_opts

definition boot_app :: "'h boot_host \<Rightarrow> environment \<Rightarrow> app_env" where
  "boot_app H env = (bh_env H)\<lparr>ae_secrets := envSecrets env\<rparr>"

definition api_key :: "environment \<Rightarrow> string" where
  "api_key env = (case env ''ENDCLOSE_API_KEY'' of None \<Rightarrow> [] | Some k \<Rightarrow> k)"

definition boot_check_options :: "'h boot_host \<Rightarrow> environment \<Rightarrow> runtime_settings \<Rightarrow> 'h check_options" where
  "boot_check_options H env settings = (bh_check H)
     \<lparr>ck_client := (ck_client (bh_check H))\<lparr>cl_baseUrl := rs_endcloseBaseUrl settings, cl_apiKey := api_key env\<rparr>,
      ck_apiKey := api_key env, ck_enabled := fst (rs_remoteConfig settings)\<rparr>"

text \<open>What \<open>createRelay\<close> is given in running mode: live routes, an encrypted buffer, every tuning set.\<close>

definition boot_relay_options :: "boot_parts \<Rightarrow> ('w app_host, unit) relay_options" where
  "boot_relay_options p = (let d = rs_dispatch (bp_settings p); r = rs_retention (bp_settings p) in
     \<lparr>ro_routes = HostRoutes (\<lambda>i. zoomE ph_db (\<lambda>d h. h\<lparr>ph_db := d\<rparr>) (live_get i)),
      ro_secrets = Resolver (ae_secrets (bp_app p)), ro_encryption = Some (KeyBuffer (bp_dataKey p)), ro_maskingKey = KeyBuffer (bp_maskingKey p),
      ro_dispatch = \<lparr>do_batchMax = Some (batchMax d), do_pollIntervalMs = Some (pollIntervalMs d), do_backoffBaseMs = Some (backoffBaseMs d),
        do_backoffCapMs = Some (backoffCapMs d), do_parkAfterMs = Some (parkAfterMs d), do_leaseMs = Some (leaseMs d),
        do_recoverIntervalMs = Some (recoverIntervalMs d), do_enrichTimeoutMs = Some (enrichTimeoutMs d)\<rparr>,
      ro_retention = Retention (Some (deliveredDays r)) (Some (ledgerDays r)), ro_adapters = None, ro_enrichments = None,
      ro_instanceId = Some (rs_instanceId (bp_settings p)), ro_remote = \<lparr>rmo_refreshIntervalMs = None, rmo_announce = None\<rparr>\<rparr>)"

definition boot_runtime :: "'h boot_host \<Rightarrow> runtime" where
  "boot_runtime H = \<lparr>rt_crypto = ae_crypto (bh_env H), rt_json_parse = ck_json_parse (bh_check H), rt_date_parse = bh_date_parse H,
     rt_number = ae_number (bh_env H), rt_randomUUID = []\<rparr>"

datatype 'w boot_mode =
    SetupMode "(string \<times> string) list"
  | FatalBoot exn
  | BootstrapMode boot_parts "string option"            \<comment> \<open>the error of a stored document\<close>
  | RunningMode boot_parts loaded_config "('w app_host, unit) relay"

definition boot_state ::
  "app_env \<Rightarrow> 'h check_options \<Rightarrow> (string \<Rightarrow> (exn + string) option) \<Rightarrow> string option \<Rightarrow> int \<Rightarrow> int \<Rightarrow>
     ('h app_world, exn, active_config_state \<times> ownership) sem" where
  "boot_state E opts sf relay_config now now' =
     bindE (on_db (new_manager E opts)) (\<lambda>m. boot_config E opts sf relay_config now now' (mg_status m))"

definition mode_of :: "'h boot_host \<Rightarrow> boot_parts \<Rightarrow> active_config_state \<Rightarrow> 'w boot_mode" where
  "mode_of H p state = (case state of
     ConfigEmpty \<Rightarrow> BootstrapMode p None
   | ConfigInvalid e \<Rightarrow> BootstrapMode p (Some e)
   | ConfigOk l \<Rightarrow> (case createRelay (boot_runtime H) (boot_relay_options p) of
       Inl e \<Rightarrow> FatalBoot e
     | Inr relay \<Rightarrow> RunningMode p l relay))"

definition main_boot :: "'h boot_host \<Rightarrow> environment \<Rightarrow> int \<Rightarrow> int \<Rightarrow> 'h app_world \<Rightarrow> 'w boot_mode \<times> 'h app_world" where
  "main_boot H process_env now now' w =
     (let (secrets, env) = loadSecretsFile (bh_read H) process_env; C = ae_crypto (bh_env H); missing = checkRequiredEnv env (sf_error secrets) in
      if missing \<noteq> [] then (SetupMode missing, w)
      else (case deriveKey C ''RELAY_DATA_KEY'' (env ''RELAY_DATA_KEY'') of Inl e \<Rightarrow> (FatalBoot e, w)
        | Inr dataKey \<Rightarrow> (case deriveKey C ''MASKING_HMAC_KEY'' (env ''MASKING_HMAC_KEY'') of Inl e \<Rightarrow> (FatalBoot e, w)
        | Inr maskingKey \<Rightarrow> (case loadRuntimeSettings (ae_number (bh_env H)) env of Inl e \<Rightarrow> (FatalBoot e, w)
        | Inr settings \<Rightarrow> (case boot_state (boot_app H env) (boot_check_options H env settings) (bh_seed H) (env ''RELAY_CONFIG'') now now' w of
            (Inl e, w') \<Rightarrow> (FatalBoot e, w')
          | (Inr (state, st), w') \<Rightarrow>
              (mode_of H \<lparr>bp_app = boot_app H env, bp_dataKey = dataKey, bp_maskingKey = maskingKey,
                 bp_adminAuth = env_or env ''ADMIN_BASIC_AUTH'' [], bp_settings = settings, bp_status = st,
                 bp_reporter = createInstanceReporter (bh_ENGINE_VERSION H) (rs_telemetry settings) (api_key env)\<rparr> state, w'))))))"

text \<open>The admin plane of the two modes that have one.\<close>

definition boot_admin :: "'h boot_host \<Rightarrow> 'w boot_mode \<Rightarrow> admin_deps option" where
  "boot_admin H mode =
     (let deps = (\<lambda>p m err. \<lparr>dp_env = bp_app p, dp_json_parse = ck_json_parse (bh_check H), dp_date_parse = bh_date_parse H,
        dp_basicAuth = bp_adminAuth p, dp_maskingKey = bp_maskingKey p, dp_dataKey = bp_dataKey p, dp_mode = m, dp_configError = err,
        dp_remote = Some (bp_status p)\<rparr>) in
      case mode of BootstrapMode p err \<Rightarrow> Some (deps p Bootstrap err) | RunningMode p _ _ \<Rightarrow> Some (deps p Running None) | _ \<Rightarrow> None)"

section \<open>The configuration at boot\<close>

definition serves :: "app_env \<Rightarrow> app_db \<Rightarrow> active_config_state \<Rightarrow> bool" where
  "serves E d state \<longleftrightarrow> (case state of
     ConfigOk l \<Rightarrow> parseConfig E (lc_yamlText l) = Inr l \<and> map_option cv_config_hash (latest_version d) = Some (lc_hash l)
   | _ \<Rightarrow> active E d = None)"

lemma resolve_serves:
  assumes "db_faults (ad_store d) = []" and "config_ok E d"
  shows "\<exists>state d'. resolveActiveConfig E now sf seed d = (Inr state, d') \<and> db_faults (ad_store d') = [] \<and> serves E d' state \<and>
    (seed = None \<or> latest_version d \<noteq> None \<longrightarrow> d' = d)"
proof (cases "latest_version d")
  case (Some v)
  show ?thesis
  proof (cases "parseConfig E (cv_config_yaml v)")
    case (Inl e)
    with Some assms show ?thesis
      by (simp add: resolveActiveConfig_def readActiveConfigRaw_def bindE_def ret_def serves_def active_def active_of_def)
  next
    case (Inr l)
    with Some assms parseConfig_Inr [OF Inr] show ?thesis
      by (simp add: resolveActiveConfig_def readActiveConfigRaw_def bindE_def ret_def serves_def config_ok_def)
  qed
next
  case None
  then have act: "active E d = None" by (simp add: active_def active_of_def)
  have empty: "?thesis" if "resolveActiveConfig E now sf seed d = (Inr state, d)" "state = ConfigEmpty \<or> (\<exists>e. state = ConfigInvalid e)" for state
    using that assms(1) act by (auto simp: serves_def)
  have go: "resolveActiveConfig E now sf seed d = (case non_empty seed of
       None \<Rightarrow> ret ConfigEmpty
     | Some path \<Rightarrow> (case sf path of
         None \<Rightarrow> ret ConfigEmpty
       | Some content \<Rightarrow> catchE (bindE (of_sum content) (\<lambda>y. bindE (saveConfig E now y ''seed'') (\<lambda>l. ret (ConfigOk l))))
           (\<lambda>e. ret (ConfigInvalid (''seed file '' @ path @ '': '' @ message e))))) d"
    using None assms(1) by (simp add: resolveActiveConfig_def readActiveConfigRaw_def bindE_def)
  show ?thesis
  proof (cases "\<exists>path y. non_empty seed = Some path \<and> sf path = Some (Inr y)")
    case False
    have "\<exists>state. resolveActiveConfig E now sf seed d = (Inr state, d) \<and> (state = ConfigEmpty \<or> (\<exists>e. state = ConfigInvalid e))"
      unfolding go using False
      by (auto simp: ret_def catchE_def bindE_def of_sum_def split: option.splits sum.splits)
    then show ?thesis using empty by blast
  next
    case True
    then obtain path y where y: "non_empty seed = Some path" "sf path = Some (Inr y)" by blast
    then have seed: "seed \<noteq> None" by (auto simp: non_empty_def split: if_splits)
    obtain r d' where sv: "saveConfig E now y ''seed'' d = (r, d')" by fastforce
    have f: "db_faults (ad_store d') = []" using no_faults_save [OF assms(1), of E now y "''seed''"] sv by simp
    show ?thesis
    proof (cases r)
      case (Inl e)
      have "calm d' = calm d" using saveConfig_Inl sv Inl by blast
      then have "active E d' = None" using act by (metis active_calm)
      then have "serves E d' (ConfigInvalid e)" for e by (simp add: serves_def)
      with go y sv Inl f seed None show ?thesis
        by (auto simp: catchE_def bindE_def of_sum_def ret_def)
    next
      case (Inr l)
      from saveConfig_Inr [OF sv [unfolded Inr]] None
      have l: "parseConfig E y = Inr l" "calm d' = applied now y ''seed'' l (calm d)" by (auto simp: unchanged_version_def)
      have "latest_version d' = latest_version (calm d')" by simp
      also have "\<dots> = Some (new_version (calm d) now (lc_hash l) y ''seed'')" unfolding l(2) by (rule latest_applied)
      finally have "serves E d' (ConfigOk l)" using l(1) parseConfig_Inr [OF l(1)] by (simp add: serves_def new_version_def)
      with go y sv Inr f seed None show ?thesis by (auto simp: catchE_def bindE_def of_sum_def ret_def)
    qed
  qed
qed

lemma check_calm: "aw_calm w \<Longrightarrow> checkEndClose E opts w = (r, w') \<Longrightarrow> aw_calm w'"
  using smooth_check [of E opts] by (fastforce simp: checkEndClose_def smooth_def split: prod.splits sum.splits if_splits)

text \<open>Unless End Close's document was stored, the latest version is the one before the question.\<close>

lemma check_keeps_latest:
  assumes "checkEndClose E opts w = (r, w')" and "config_ok E (aw_db w)" and "aw_calm w" and "\<And>l c e. r \<noteq> Managed l c e"
  shows "latest_version (aw_db w') = latest_version (aw_db w)"
proof -
  have same: "cdb w' = cdb w \<Longrightarrow> ?thesis" unfolding cdb_def by (metis calm_simps(9))
  from question_outcome [OF assms(1,2)] assms(3,4) show ?thesis
  proof (cases r)
    case Unmanaged
    with question_outcome [OF assms(1,2)] have "tables_kept (cdb w) (cdb w')" by simp
    then show ?thesis by (simp add: tables_kept_def cdb_def latest_version_def)
  qed (auto intro: same)
qed

lemma boot_config_serves:
  assumes "aw_calm w" and "config_ok E (aw_db w)"
  shows "\<exists>state st' w'. boot_config E opts sf path now now' st w = (Inr (state, st'), w') \<and> aw_calm w' \<and> serves E (aw_db w') state"
proof -
  from resolve_serves [OF assms(1) [unfolded aw_calm_def] assms(2), of now sf None]
  obtain stored where st0: "resolveActiveConfig E now sf None (aw_db w) = (Inr stored, aw_db w)" "serves E (aw_db w) stored" by blast
  then have first: "on_db (resolveActiveConfig E now sf None) w = (Inr stored, w)" by (simp add: on_db_def zoomE_def)
  obtain r w1 where r: "checkEndClose E opts w = (r, w1)" by fastforce
  have w1: "aw_calm w1" "config_ok E (aw_db w1)"
    using check_calm [OF assms(1) r] check_step [of E w opts] r assms(2) by (auto simp: world_step_def config_step_def)
  have go: "boot_config E opts sf path now now' st w = bindE (settle_boot E sf path now r stored) (\<lambda>state. ret (state, record_check r now' st)) w1"
    by (simp add: boot_config_def bindE_def first r)
  have settle: "\<exists>state w'. settle_boot E sf path now r stored w1 = (Inr state, w') \<and> aw_calm w' \<and> serves E (aw_db w') state"
  proof (cases "\<exists>l c e. r = Managed l c e")
    case True
    then obtain l c e where m: "r = Managed l c e" by blast
    from question_outcome [OF r assms(2)] m obtain loaded where l: "l = Some loaded" "serves E (aw_db w1) (ConfigOk loaded)"
      by (auto simp: serves_def)
    with m w1 show ?thesis by (simp add: settle_boot_def ret_def)
  next
    case False
    then have "latest_version (aw_db w1) = latest_version (aw_db w)" by (intro check_keeps_latest [OF r assms(2,1)]) blast
    then have same: "serves E (aw_db w1) stored" using st0(2) by (simp add: serves_def active_def split: active_config_state.splits)
    let ?seed = "Some (case path of None \<Rightarrow> ''/etc/endclose-relay/relay.yaml'' | Some p \<Rightarrow> p)"
    from resolve_serves [OF w1(1) [unfolded aw_calm_def] w1(2), of now sf ?seed]
    obtain state d where s: "resolveActiveConfig E now sf ?seed (aw_db w1) = (Inr state, d)" "db_faults (ad_store d) = []" "serves E d state" by blast
    have eq: "settle_boot E sf path now r stored = (if stored = ConfigEmpty then on_db (resolveActiveConfig E now sf ?seed) else ret stored)"
      using False by (cases r) (auto simp: settle_boot_def)
    have "settle_boot E sf path now r stored w1 = (if stored = ConfigEmpty then (Inr state, w1\<lparr>aw_db := d\<rparr>) else (Inr stored, w1))"
      unfolding eq by (simp add: s(1) on_db_def zoomE_def ret_def)
    moreover have "aw_calm (w1\<lparr>aw_db := d\<rparr>)" using s(2) by (simp add: aw_calm_def)
    ultimately show ?thesis using s(3) same w1(1) by (cases "stored = ConfigEmpty") auto
  qed
  then show ?thesis unfolding go by (auto simp: bindE_def ret_def)
qed

lemma boot_state_serves:
  assumes "aw_calm w" and "config_ok E (aw_db w)"
  shows "\<exists>state st w'. boot_state E opts sf path now now' w = (Inr (state, st), w') \<and> aw_calm w' \<and> serves E (aw_db w') state"
proof -
  obtain m where m: "new_manager E opts (aw_db w) = (Inr m, aw_db w)" using new_manager_calm assms(1) unfolding aw_calm_def by blast
  then have "on_db (new_manager E opts) w = (Inr m, w)" by (simp add: on_db_def zoomE_def)
  with boot_config_serves [OF assms, of opts sf path now now' "mg_status m"] show ?thesis by (simp add: boot_state_def bindE_def)
qed

section \<open>What a mode is given\<close>

text \<open>The resolver plays no part in parsing.\<close>

lemma boot_app_same:
  "parseConfig (boot_app H env) = parseConfig (bh_env H)" "config_ok (boot_app H env) d = config_ok (bh_env H) d"
  "active (boot_app H env) d = active (bh_env H) d" "serves (boot_app H env) d state = serves (bh_env H) d state"
proof -
  have parts: "ae_schema (boot_app H env) = ae_schema (bh_env H)" "ae_crypto (boot_app H env) = ae_crypto (bh_env H)"
    "ae_number (boot_app H env) = ae_number (bh_env H)" "ae_yaml_parse (boot_app H env) = ae_yaml_parse (bh_env H)"
    by (simp_all add: boot_app_def)
  show p: "parseConfig (boot_app H env) = parseConfig (bh_env H)"
    unfolding parseConfig_def builtin_has_def config_hash_def parts ..
  have h: "config_hash (boot_app H env) = config_hash (bh_env H)" by (rule ext) (simp add: config_hash_def boot_app_def)
  show "config_ok (boot_app H env) d = config_ok (bh_env H) d" unfolding config_ok_def p h ..
  show a: "active (boot_app H env) d = active (bh_env H) d" unfolding active_def active_of_def p ..
  show "serves (boot_app H env) d state = serves (bh_env H) d state" unfolding serves_def p a ..
qed

text \<open>
  What the parts of a mode are made of: each key is the hash of its own variable, the management
  plane has the configured credentials, and the settings are those of the environment, none zero.
\<close>

definition parts_ok :: "'h boot_host \<Rightarrow> environment \<Rightarrow> boot_parts \<Rightarrow> bool" where
  "parts_ok H env p \<longleftrightarrow>
     (\<exists>k. env ''RELAY_DATA_KEY'' = Some k \<and> 16 \<le> length k \<and> bp_dataKey p = sha256 (ae_crypto (bh_env H)) (utf8 k)) \<and>
     (\<exists>k. env ''MASKING_HMAC_KEY'' = Some k \<and> 16 \<le> length k \<and> bp_maskingKey p = sha256 (ae_crypto (bh_env H)) (utf8 k)) \<and>
     env ''ADMIN_BASIC_AUTH'' = Some (bp_adminAuth p) \<and> CHR '':'' \<in> set (bp_adminAuth p) \<and>
     loadRuntimeSettings (ae_number (bh_env H)) env = Inr (bp_settings p) \<and> 0 < batchMax (rs_dispatch (bp_settings p)) \<and>
     0 < leaseMs (rs_dispatch (bp_settings p)) \<and> 0 < ledgerDays (rs_retention (bp_settings p))"

lemma derived: "deriveKey C n raw = Inr k \<Longrightarrow> \<exists>r. raw = Some r \<and> 16 \<le> length r \<and> k = sha256 C (utf8 r)"
  by (auto simp: deriveKey_def Let_def MIN_KEY_CHARS_def split: option.splits if_splits)

lemma key_named: "m \<in> fst ` set (key_check env n) \<longleftrightarrow> m = n \<and> (case env n of None \<Rightarrow> True | Some k \<Rightarrow> length k < 16)"
  by (auto simp: key_check_def unset_def env_or_def split: option.splits)

lemma missing_named:
  "name \<in> fst ` set (checkRequiredEnv env err) \<longleftrightarrow> name = ''RELAY_SECRETS_FILE'' \<and> err \<noteq> None \<and> err \<noteq> Some [] \<or>
     name \<in> {''RELAY_DATA_KEY'', ''MASKING_HMAC_KEY''} \<and> (case env name of None \<Rightarrow> True | Some k \<Rightarrow> length k < 16) \<or>
     name = ''ADMIN_BASIC_AUTH'' \<and> (case env ''ADMIN_BASIC_AUTH'' of None \<Rightarrow> True | Some a \<Rightarrow> CHR '':'' \<notin> set a)"
proof -
  have auth: "name \<in> fst ` set (if unset env ''ADMIN_BASIC_AUTH'' then [(''ADMIN_BASIC_AUTH'', ''not set'')]
      else if \<not> includes_char (env_or env ''ADMIN_BASIC_AUTH'' []) CHR '':'' then [(''ADMIN_BASIC_AUTH'', ''must be user:password'')] else []) \<longleftrightarrow>
      name = ''ADMIN_BASIC_AUTH'' \<and> (case env ''ADMIN_BASIC_AUTH'' of None \<Rightarrow> True | Some a \<Rightarrow> CHR '':'' \<notin> set a)"
    by (auto simp: unset_def env_or_def includes_char_def split: option.splits)
  have sec: "name \<in> fst ` set (case err of None \<Rightarrow> [] | Some e \<Rightarrow> if e = [] then [] else [(''RELAY_SECRETS_FILE'', e)]) \<longleftrightarrow>
      name = ''RELAY_SECRETS_FILE'' \<and> err \<noteq> None \<and> err \<noteq> Some []" by (cases err) auto
  show ?thesis unfolding checkRequiredEnv_def set_append image_Un Un_iff key_named auth sec by auto
qed

lemma boot_relay:
  assumes "length (bp_dataKey p) = 32" and "length (bp_maskingKey p) = 32"
  shows "\<exists>relay. createRelay (boot_runtime H) (boot_relay_options p) = Inr relay \<and>
    cf_codec (re_config relay) = aesGcmCodec (ae_crypto (bh_env H)) (bp_dataKey p) \<and> cf_maskingKey (re_config relay) = bp_maskingKey p \<and>
    cf_dispatch (re_config relay) = rs_dispatch (bp_settings p) \<and> cf_secrets (re_config relay) = ae_secrets (bp_app p)"
  using assms by (simp add: createRelay_def boot_relay_options_def boot_runtime_def Let_def toKey_def dispatch_of_def or_default_def toSecretResolver_def)

text \<open>
  \<^bold>\<open>C11.\<close> Every boot on a working driver ends in one of its modes, and each mode is given what it
  needs, from the environment with the secrets file read into it.  Setup: something is missing, the
  page names exactly the variables that are unset, too short or malformed and the secrets file if
  it could not be read, and the database is untouched.  Otherwise the data key and the masking key
  are the hashes of their own variables, the management plane has the configured credentials, and
  the settings are those of the environment.  Bootstrap: no valid document is stored.  Running: the
  document is the latest version, its text parses to its routes, and the relay encrypts what it
  stores under the data key, hashes under the masking key and resolves secrets from that
  environment.  It fails only before the database is touched, for a setting that is no positive
  integer.
\<close>

theorem main_boot_sound:
  fixes mode :: "'w boot_mode"
  assumes "\<And>m. length (sha256 (ae_crypto (bh_env H)) m) = 32" and "config_ok (bh_env H) (aw_db w)" and "aw_calm w"
    and "loadSecretsFile (bh_read H) process_env = (secrets, env)" and "main_boot H process_env now now' w = (mode, w')"
  shows "config_ok (bh_env H) (aw_db w') \<and> (case mode of
      SetupMode missing \<Rightarrow> w' = w \<and> missing \<noteq> [] \<and>
        (\<forall>name. name \<in> fst ` set missing \<longleftrightarrow> name = ''RELAY_SECRETS_FILE'' \<and> sf_error secrets \<noteq> None \<and> sf_error secrets \<noteq> Some [] \<or>
           name \<in> {''RELAY_DATA_KEY'', ''MASKING_HMAC_KEY''} \<and> (case env name of None \<Rightarrow> True | Some k \<Rightarrow> length k < 16) \<or>
           name = ''ADMIN_BASIC_AUTH'' \<and> (case env ''ADMIN_BASIC_AUTH'' of None \<Rightarrow> True | Some a \<Rightarrow> CHR '':'' \<notin> set a))
    | FatalBoot e \<Rightarrow> w' = w \<and> loadRuntimeSettings (ae_number (bh_env H)) env = Inl e
    | BootstrapMode p _ \<Rightarrow> parts_ok H env p \<and> active (bh_env H) (aw_db w') = None
    | RunningMode p l relay \<Rightarrow> parts_ok H env p \<and> parseConfig (bh_env H) (lc_yamlText l) = Inr l \<and>
        map_option cv_config_hash (latest_version (aw_db w')) = Some (lc_hash l) \<and>
        cf_codec (re_config relay) = aesGcmCodec (ae_crypto (bh_env H)) (bp_dataKey p) \<and>
        cf_maskingKey (re_config relay) = bp_maskingKey p \<and> cf_dispatch (re_config relay) = rs_dispatch (bp_settings p) \<and>
        cf_secrets (re_config relay) = envSecrets env)"
proof -
  let ?C = "ae_crypto (bh_env H)"
  note sec = assms(4)
  show ?thesis
  proof (cases "checkRequiredEnv env (sf_error secrets) = []")
    case False
    with assms(5) sec have "mode = SetupMode (checkRequiredEnv env (sf_error secrets))" "w' = w" by (simp_all add: main_boot_def)
    with assms(2) False show ?thesis by (simp only: boot_mode.case missing_named) blast
  next
    case True
    from True [unfolded checkRequiredEnv_iff [where C = ?C]] obtain dk mk u pw
      where keys: "deriveKey ?C ''RELAY_DATA_KEY'' (env ''RELAY_DATA_KEY'') = Inr dk" "deriveKey ?C ''MASKING_HMAC_KEY'' (env ''MASKING_HMAC_KEY'') = Inr mk"
        and auth: "env ''ADMIN_BASIC_AUTH'' = Some (u @ CHR '':'' # pw)" by blast
    show ?thesis
    proof (cases "loadRuntimeSettings (ae_number (bh_env H)) env")
      case (Inl e)
      with assms(2,5) sec True keys show ?thesis by (auto simp: main_boot_def)
    next
      case (Inr settings)
      let ?E = "boot_app H env" and ?opts = "boot_check_options H env settings"
      have ok: "config_ok ?E (aw_db w)" using assms(2) by (simp add: boot_app_same)
      from boot_state_serves [OF assms(3) ok, of ?opts "bh_seed H" "env ''RELAY_CONFIG''" now now']
      obtain state st w1 where b: "boot_state ?E ?opts (bh_seed H) (env ''RELAY_CONFIG'') now now' w = (Inr (state, st), w1)"
        and srv: "serves (bh_env H) (aw_db w1) state" by (auto simp: boot_app_same)
      obtain m where m: "new_manager ?E ?opts (aw_db w) = (Inr m, aw_db w)" using new_manager_calm assms(3) unfolding aw_calm_def by blast
      have "world_step ?E w w1"
        using boot_step [of ?E w ?opts "bh_seed H" "env ''RELAY_CONFIG''" now now' "mg_status m"] b m
        by (simp add: boot_state_def bindE_def on_db_def zoomE_def)
      with ok have ok1: "config_ok (bh_env H) (aw_db w1)" by (simp add: world_step_def config_step_def boot_app_same)
      define p where "p = \<lparr>bp_app = ?E, bp_dataKey = dk, bp_maskingKey = mk, bp_adminAuth = env_or env ''ADMIN_BASIC_AUTH'' [], bp_settings = settings,
        bp_status = st, bp_reporter = createInstanceReporter (bh_ENGINE_VERSION H) (rs_telemetry settings) (api_key env)\<rparr>"
      have out: "mode = mode_of H p state" "w' = w1"
        using assms(5) sec True keys Inr b by (simp_all add: main_boot_def p_def)
      have len: "length dk = 32" "length mk = 32" using deriveKey_length [OF assms(1)] keys by blast+
      have parts: "parts_ok H env p"
        using loadRuntimeSettings_positive [OF Inr] Inr auth derived [OF keys(1)] derived [OF keys(2)] by (auto simp: parts_ok_def p_def env_or_def)
      show ?thesis
      proof (cases state)
        case (ConfigOk l)
        from boot_relay [of p H] len obtain relay :: "('w app_host, unit) relay" where r: "createRelay (boot_runtime H) (boot_relay_options p) = Inr relay"
          "cf_codec (re_config relay) = aesGcmCodec ?C (bp_dataKey p)" "cf_maskingKey (re_config relay) = bp_maskingKey p"
          "cf_dispatch (re_config relay) = rs_dispatch (bp_settings p)" "cf_secrets (re_config relay) = envSecrets env"
          by (auto simp: p_def boot_app_def)
        with ConfigOk out parts srv ok1 show ?thesis by (simp add: mode_of_def serves_def)
      qed (use out parts srv ok1 in \<open>simp_all add: mode_of_def serves_def\<close>)
    qed
  qed
qed

text \<open>A container with its environment set, a seed file and no answer from End Close.\<close>

definition container_env :: environment where
  "container_env = [''RELAY_DATA_KEY'' \<mapsto> ''0123456789abcdef'', ''MASKING_HMAC_KEY'' \<mapsto> ''fedcba9876543210'', ''ADMIN_BASIC_AUTH'' \<mapsto> ''ops:secret'']"

definition container :: "unit boot_host" where
  "container = \<lparr>bh_read = (\<lambda>_. Inl (OtherError ''ENOENT'')), bh_seed = (\<lambda>_. None),
     bh_env = demo_app_env\<lparr>ae_crypto := \<lparr>sha256 = (\<lambda>m. replicate 32 0), hmac = (\<lambda>a k m. []), gcm_seal = (\<lambda>k iv m. (m, replicate 16 0)),
       gcm_open = (\<lambda>k iv c t. Some c)\<rparr>\<rparr>,
     bh_check = demo_check, bh_date_parse = (\<lambda>_. None), bh_ENGINE_VERSION = ''1.0.0''\<rparr>"

theorem main_boot_sound_witness:
  "\<exists>(mode :: unit boot_mode) w'. main_boot container container_env 0 0 demo_world = (mode, w') \<and> config_ok (bh_env container) (aw_db w') \<and>
     (case mode of BootstrapMode p _ \<Rightarrow> parts_ok container container_env p
      | RunningMode p _ relay \<Rightarrow> parts_ok container container_env p \<and> cf_maskingKey (re_config relay) = bp_maskingKey p
      | _ \<Rightarrow> False)"
proof -
  obtain mode :: "unit boot_mode" and w' where b: "main_boot container container_env 0 0 demo_world = (mode, w')" by fastforce
  have sha: "length (sha256 (ae_crypto (bh_env container)) m) = 32" for m by (simp add: container_def)
  have start: "config_ok (bh_env container) (aw_db demo_world)" "aw_calm demo_world"
    by (simp_all add: config_ok_def demo_check_simps demo_latest aw_calm_def)
  have env: "loadSecretsFile (bh_read container) container_env = (\<lparr>sf_loaded = [], sf_error = None\<rparr>, container_env)"
    by (simp add: loadSecretsFile_def unset_def container_env_def)
  note sound = main_boot_sound [OF sha start env b]
  have set: "checkRequiredEnv container_env None = []"
    by (simp add: checkRequiredEnv_def key_check_def unset_def env_or_def includes_char_def container_env_def)
  have "\<exists>st. loadRuntimeSettings (ae_number (bh_env container)) container_env = Inr st"
    by (simp add: loadRuntimeSettings_def runtime_numbers_def env_int_def unset_def container_env_def Let_def)
  then obtain st where st: "loadRuntimeSettings (ae_number (bh_env container)) container_env = Inr st" ..
  have not_setup: "main_boot container container_env 0 0 demo_world \<noteq> (SetupMode missing, demo_world)" if "missing \<noteq> []" for missing
    using env set that by (auto simp: main_boot_def mode_of_def Let_def split: sum.splits prod.splits active_config_state.splits)
  show ?thesis using sound b st not_setup env by (cases mode) auto
qed

end
