(* ===== verification/AppLife.thy ===== *)
theory AppLife imports Telemetry Lifecycle ManagedConfig begin

text \<open>
  The life of the process in its two long-lived modes (the second half of \<open>main\<close> in
  \<open>apps/relay/src/index.ts\<close>): what is started, the orderly shutdown on a signal, and the restart
  that ends bootstrap mode.  A promise that is awaited is a phase; that a server closes when it
  is asked to is the matter of the server library.
\<close>

section \<open>Running mode\<close>

text \<open>What \<open>shutdown\<close> is waiting for.\<close>

datatype app_phase = Serving | ClosingIngest | StoppingRelay | StoppingReporter | ClosingPlanes | Exited

record app_process =
  ap_phase :: app_phase
  ap_manager :: manager
  ap_loop :: lifecycle
  ap_reporter :: reporter
  ap_ingest :: bool       \<comment> \<open>the listeners\<close>
  ap_planes :: bool
  ap_db :: bool           \<comment> \<open>the connection is open\<close>

text \<open>\<open>relay.start\<close>, \<open>remote.start\<close>, the listeners, \<open>reporter.start\<close>, the signal handlers.\<close>

definition start_running :: "reporter_opts \<Rightarrow> moment \<Rightarrow> manager \<Rightarrow> app_process" where
  "start_running opts now m =
     \<lparr>ap_phase = Serving, ap_manager = start_polling m, ap_loop = start_loop True new_lifecycle,
      ap_reporter = reporter_start opts now new_reporter, ap_ingest = True, ap_planes = True, ap_db = True\<rparr>"

definition shuttingDown :: "app_process \<Rightarrow> bool" where
  "shuttingDown s \<longleftrightarrow> ap_phase s \<noteq> Serving"

definition shutdown :: "app_process \<Rightarrow> app_process" where
  "shutdown s = (if shuttingDown s then s
     else s\<lparr>ap_phase := ClosingIngest, ap_manager := stop_polling (ap_manager s)\<rparr>)"

text \<open>What follows each \<open>await\<close> of \<open>shutdown\<close>, once the promise has settled.\<close>

definition shutdown_next :: "reporter_opts \<Rightarrow> moment \<Rightarrow> app_process \<Rightarrow> app_process" where
  "shutdown_next opts now s = (case ap_phase s of
     ClosingIngest \<Rightarrow> s\<lparr>ap_ingest := False, ap_loop := request_stop (ap_loop s), ap_phase := StoppingRelay\<rparr>
   | StoppingRelay \<Rightarrow>
       if drained (ap_loop s) then s\<lparr>ap_reporter := reporter_stop opts now (ap_reporter s), ap_phase := StoppingReporter\<rparr> else s
   | StoppingReporter \<Rightarrow> s\<lparr>ap_phase := ClosingPlanes\<rparr>
   | ClosingPlanes \<Rightarrow> s\<lparr>ap_planes := False, ap_db := False, ap_phase := Exited\<rparr>
   | _ \<Rightarrow> s)"

text \<open>
  Everything else that happens to a process that has not exited: the engine's timers, a stored
  event and the progress of its promise chains; the poll of End Close and its answer; what the
  reporter is told.  A process that has exited does nothing.
\<close>

inductive app_process_step :: "reporter_opts \<Rightarrow> app_process \<Rightarrow> app_process \<Rightarrow> bool" for opts where
  signalled: "app_process_step opts s (shutdown s)"
| awaited: "app_process_step opts s (shutdown_next opts now s)"
| engine: "ap_phase s \<noteq> Exited \<Longrightarrow> f \<in> {poll_tick, prune_tick, advance_cycles, advance_prunes} \<Longrightarrow>
    app_process_step opts s (s\<lparr>ap_loop := f (ap_loop s)\<rparr>)"
| webhook: "ap_ingest s \<Longrightarrow> app_process_step opts s (s\<lparr>ap_loop := onSignal (ap_loop s)\<rparr>)"
| polled: "ap_phase s \<noteq> Exited \<Longrightarrow> app_process_step opts s (s\<lparr>ap_manager := poll_remote (ap_manager s)\<rparr>)"
| answered: "ap_phase s \<noteq> Exited \<Longrightarrow> app_process_step opts s (s\<lparr>ap_manager := settle_check result at_time (ap_manager s)\<rparr>)"
| told: "ap_phase s \<noteq> Exited \<Longrightarrow> c \<in> {RpFire, RpConfigApplied, RpError, RpSettled} \<Longrightarrow>
    app_process_step opts s (s\<lparr>ap_reporter := reporter_do opts (now, c) (ap_reporter s)\<rparr>)"

inductive app_lives :: "reporter_opts \<Rightarrow> app_process \<Rightarrow> bool" for opts where
  started: "app_lives opts (start_running opts now m)"
| went_on: "app_lives opts s \<Longrightarrow> app_process_step opts s s' \<Longrightarrow> app_lives opts s'"

section \<open>The order of a shutdown\<close>

text \<open>
  Webhooks are accepted only while the dispatcher runs; it is told to stop once, after the
  listener has closed; the reporter says so only when the chains have run empty; the database
  is closed last.
\<close>

definition process_ok :: "reporter_opts \<Rightarrow> app_process \<Rightarrow> bool" where
  "process_ok opts s \<longleftrightarrow> lives True (ap_loop s) \<and>
     ap_ingest s = (ap_phase s \<in> {Serving, ClosingIngest}) \<and> lc_running (ap_loop s) = ap_ingest s \<and>
     (mg_timer (ap_manager s) \<longrightarrow> ap_phase s = Serving) \<and>
     (ap_phase s \<in> {StoppingReporter, ClosingPlanes, Exited} \<longrightarrow> drained (ap_loop s) \<and> \<not> rp_running (ap_reporter s)) \<and>
     (ap_phase s \<in> {Serving, ClosingIngest, StoppingRelay} \<longrightarrow> rp_running (ap_reporter s) = rpo_enabled opts) \<and>
     ap_planes s = (ap_phase s \<noteq> Exited) \<and> ap_db s = (ap_phase s \<noteq> Exited) \<and>
     (rpo_enabled opts \<longrightarrow> boots_ok (ap_reporter s) \<and> sent_for Boot (ap_reporter s) = 1)"

lemma engine_running:
  "lc_running (poll_tick s) = lc_running s" "lc_running (prune_tick s) = lc_running s" "lc_running (onSignal s) = lc_running s"
  "lc_running (advance_cycles s) = lc_running s" "lc_running (advance_prunes s) = lc_running s" "\<not> lc_running (request_stop s)"
  by (auto simp: lifecycle_defs split: list.splits cycle_job.splits)

lemma engine_step: "f \<in> {poll_tick, prune_tick, advance_cycles, advance_prunes} \<Longrightarrow> lifecycle_step retention s (f s)"
  by (elim insertE emptyE) (simp_all add: lifecycle_step.intros(3,4,8,9))

lemma drained_stays:
  assumes "drained s" and "\<not> lc_running s" and "lifecycle_ok s" and "f \<in> {poll_tick, prune_tick, advance_cycles, advance_prunes}"
  shows "drained (f s)"
  using assms by (auto simp: drained_def lifecycle_ok_def poll_tick_def prune_tick_def advance_cycles_def advance_prunes_def)

lemma announced [simp]:
  "rp_running (reporter_announce opts reason now s) = rp_running s"
  "reason \<noteq> r \<Longrightarrow> sent_for r (reporter_announce opts reason now s) = sent_for r s"
  by (simp_all add: reporter_announce_def sent_for_def buildManifest_def Let_def)

lemma sent_for_fields [simp]:
  "sent_for r (s\<lparr>rp_running := b\<rparr>) = sent_for r s" "sent_for r (s\<lparr>rp_timer := b\<rparr>) = sent_for r s"
  "sent_for r (s\<lparr>rp_pending := n\<rparr>) = sent_for r s" "sent_for r (s\<lparr>rp_lastErrorAt := t\<rparr>) = sent_for r s"
  by (simp_all add: sent_for_def)

lemma told_reporter:
  assumes "c \<in> {RpFire, RpConfigApplied, RpError, RpSettled}"
  shows "rp_running (reporter_do opts (now, c) s) = rp_running s" "sent_for Boot (reporter_do opts (now, c) s) = sent_for Boot s"
  using assms by (auto simp: reporter_fire_def reporter_configApplied_def reporter_reportError_def reporter_settled_def split: if_splits)

lemma process_ok_start: "process_ok opts (start_running opts now m)"
proof -
  have "lives True (start_loop True new_lifecycle)" by (rule lives.lived [OF lives.born lifecycle_step.intros(1)])
  moreover have "lc_running (start_loop True new_lifecycle)" by (simp add: lifecycle_defs Let_def new_lifecycle_def)
  moreover have "rp_running (reporter_start opts now new_reporter) = rpo_enabled opts"
    by (simp add: reporter_start_def new_reporter_def)
  moreover have "rpo_enabled opts \<Longrightarrow> boots_ok (reporter_start opts now new_reporter) \<and> sent_for Boot (reporter_start opts now new_reporter) = 1"
    by (simp add: reporter_start_def new_reporter_def reporter_announce_def boots_ok_def sent_for_def buildManifest_def Let_def)
  ultimately show ?thesis by (simp add: process_ok_def start_running_def)
qed

lemma reporter_stop_ok:
  "\<not> rp_running (reporter_stop opts now s)"
  "rpo_enabled opts \<Longrightarrow> boots_ok s \<Longrightarrow> boots_ok (reporter_stop opts now s)"
  "sent_for Boot (reporter_stop opts now s) = sent_for Boot s"
  using boots_ok_step [of opts s now RpStop]
  by (simp_all add: reporter_stop_def Let_def)

lemma process_ok_step: "app_process_step opts s s' \<Longrightarrow> process_ok opts s \<Longrightarrow> process_ok opts s'"
proof (induction rule: app_process_step.induct)
  case (signalled s)
  show ?case
  proof (cases "ap_phase s = Serving")
    case True
    with signalled show ?thesis by (auto simp: process_ok_def shutdown_def shuttingDown_def stop_polling_def)
  next
    case False
    with signalled show ?thesis by (simp add: shutdown_def shuttingDown_def)
  qed
next
  case (awaited s now)
  have "lives True (request_stop (ap_loop s))" if "lives True (ap_loop s)"
    by (rule lives.lived [OF that lifecycle_step.intros(7)])
  with awaited show ?case
    by (cases "ap_phase s") (simp_all add: process_ok_def shutdown_next_def engine_running reporter_stop_ok)
next
  case (engine s f)
  then have before: "lives True (ap_loop s)" by (simp add: process_ok_def)
  have "lives True (f (ap_loop s))" by (rule lives.lived [OF before engine_step [OF engine(2)]])
  moreover have "lc_running (f (ap_loop s)) = lc_running (ap_loop s)" using engine by (auto simp: engine_running)
  moreover have "drained (f (ap_loop s))" if "drained (ap_loop s)" "\<not> lc_running (ap_loop s)"
    by (rule drained_stays [OF that lifecycle_ok_lives [OF before] engine(2)])
  ultimately show ?case using engine(1,3) by (auto simp: process_ok_def)
next
  case (webhook s)
  then have "lives True (onSignal (ap_loop s))" by (simp add: process_ok_def lives.lived [OF _ lifecycle_step.intros(2)])
  with webhook show ?case by (auto simp: process_ok_def engine_running)
next
  case (polled s)
  then show ?case by (simp add: process_ok_def poll_remote_def begin_check_def)
next
  case (answered s result at_time)
  then show ?case by (simp add: process_ok_def settle_check_def)
next
  case (told s c now)
  with told_reporter [OF told(2)] boots_ok_step [of opts "ap_reporter s" now c] show ?case by (simp add: process_ok_def)
qed

lemma process_ok_lives: "app_lives opts s \<Longrightarrow> process_ok opts s"
  by (induction rule: app_lives.induct) (simp_all add: process_ok_start process_ok_step)

section \<open>A signal ends the process\<close>

text \<open>What the process does by itself when a shutdown is on: the chains drain, the next promise settles.\<close>

definition shutdown_advance :: "reporter_opts \<Rightarrow> moment \<Rightarrow> app_process \<Rightarrow> app_process" where
  "shutdown_advance opts now s =
     (if ap_phase s = StoppingRelay \<and> \<not> drained (ap_loop s) then s\<lparr>ap_loop := advance (ap_loop s)\<rparr> else shutdown_next opts now s)"

lemma advance_loop:
  "(\<And>i. i < n \<Longrightarrow> \<not> drained ((advance ^^ i) (ap_loop s))) \<Longrightarrow> ap_phase s = StoppingRelay \<Longrightarrow>
     (shutdown_advance opts now ^^ n) s = s\<lparr>ap_loop := (advance ^^ n) (ap_loop s)\<rparr>"
  by (induction n) (simp_all add: shutdown_advance_def)

lemma stopping_exits:
  assumes "ap_phase s = StoppingRelay" and "\<not> lc_running (ap_loop s)" and "lifecycle_ok (ap_loop s)" and "drained ((advance ^^ n) (ap_loop s))"
  shows "\<exists>m \<le> n + 3. ap_phase ((shutdown_advance opts now ^^ m) s) = Exited \<and>
    lc_begun (ap_loop ((shutdown_advance opts now ^^ m) s)) = lc_begun (ap_loop s)"
proof -
  define k where "k = (LEAST i. drained ((advance ^^ i) (ap_loop s)))"
  have k: "drained ((advance ^^ k) (ap_loop s))" unfolding k_def by (rule LeastI, rule assms(4))
  have "k \<le> n" unfolding k_def by (rule Least_le, rule assms(4))
  moreover have before: "\<not> drained ((advance ^^ i) (ap_loop s))" if "i < k" for i using that not_less_Least unfolding k_def by blast
  have loop: "(shutdown_advance opts now ^^ k) s = s\<lparr>ap_loop := (advance ^^ k) (ap_loop s)\<rparr>" by (rule advance_loop [OF before assms(1)])
  have "(shutdown_advance opts now ^^ (3 + k)) s = (shutdown_advance opts now ^^ 3) (s\<lparr>ap_loop := (advance ^^ k) (ap_loop s)\<rparr>)"
    unfolding funpow_add comp_apply loop ..
  with k assms(1) stopped_runs [OF assms(2,3), of k]
  have "ap_phase ((shutdown_advance opts now ^^ (3 + k)) s) = Exited \<and>
      lc_begun (ap_loop ((shutdown_advance opts now ^^ (3 + k)) s)) = lc_begun (ap_loop s)"
    by (simp add: numeral_3_eq_3 shutdown_advance_def shutdown_next_def)
  ultimately show ?thesis by (intro exI [of _ "3 + k"]) simp
qed

lemma advance_lives:
  assumes "app_lives opts s"
  shows "app_lives opts (shutdown_advance opts now s)"
proof (cases "ap_phase s = StoppingRelay \<and> \<not> drained (ap_loop s)")
  case True
  let ?c = "s\<lparr>ap_loop := advance_cycles (ap_loop s)\<rparr>"
  have "app_lives opts ?c" by (rule went_on [OF assms engine]) (use True in simp_all)
  then have "app_lives opts (?c\<lparr>ap_loop := advance_prunes (ap_loop ?c)\<rparr>)" by (rule went_on [OF _ engine]) (use True in simp_all)
  with True show ?thesis by (simp add: shutdown_advance_def advance_def)
next
  case False
  then have "shutdown_advance opts now s = shutdown_next opts now s" by (auto simp: shutdown_advance_def)
  with went_on [OF assms awaited] show ?thesis by simp
qed

lemma advances_live: "app_lives opts s \<Longrightarrow> app_lives opts ((shutdown_advance opts now ^^ n) s)"
  by (induction n) (simp_all add: advance_lives)

text \<open>
  \<^bold>\<open>C34.\<close> In every state of a running process the dispatcher runs while webhooks are accepted, and
  the database is open while anything can use it.  A signal, whatever the process is doing and
  however often it comes, leads to the exit within two own steps per chained job and four more:
  no cycle of the loop begins meanwhile, the chains have run empty, the listeners and the
  database are closed, and the one boot that was announced has its one shutdown.
\<close>

theorem shutdown_exits:
  assumes "app_lives opts s"
  shows "(ap_ingest s \<longrightarrow> lc_running (ap_loop s)) \<and> (ap_ingest s \<or> ap_planes s \<or> \<not> drained (ap_loop s) \<longrightarrow> ap_db s) \<and>
    (\<exists>n t. n \<le> 2 * max (length (lc_inFlight (ap_loop s))) (length (lc_pruneWork (ap_loop s))) + 4 \<and>
       t = (shutdown_advance opts now ^^ n) (shutdown s) \<and> ap_phase t = Exited \<and> lc_begun (ap_loop t) = lc_begun (ap_loop s) \<and>
       drained (ap_loop t) \<and> \<not> ap_ingest t \<and> \<not> ap_planes t \<and> \<not> ap_db t \<and> \<not> mg_timer (ap_manager t) \<and>
       (rpo_enabled opts \<longrightarrow> sent_for Boot (ap_reporter t) = 1 \<and> sent_for Shutdown (ap_reporter t) = 1))"
proof -
  note ok = process_ok_lives [OF assms]
  let ?N = "2 * max (length (lc_inFlight (ap_loop s))) (length (lc_pruneWork (ap_loop s)))"
  have lives: "lives True (ap_loop s)" using ok by (simp add: process_ok_def)
  obtain k where k: "k \<le> ?N" "drained ((advance ^^ k) (request_stop (ap_loop s)))"
    using stop_drains [OF lives] by blast
  have goal: ?thesis if n: "n \<le> ?N + 4" "ap_phase ((shutdown_advance opts now ^^ n) (shutdown s)) = Exited"
    "lc_begun (ap_loop ((shutdown_advance opts now ^^ n) (shutdown s))) = lc_begun (ap_loop s)" for n
  proof -
    let ?t = "(shutdown_advance opts now ^^ n) (shutdown s)"
    have "process_ok opts ?t" by (intro process_ok_lives advances_live went_on [OF assms signalled])
    with n(2) have "drained (ap_loop ?t) \<and> \<not> ap_ingest ?t \<and> \<not> ap_planes ?t \<and> \<not> ap_db ?t \<and> \<not> mg_timer (ap_manager ?t) \<and>
       (rpo_enabled opts \<longrightarrow> sent_for Boot (ap_reporter ?t) = 1 \<and> sent_for Shutdown (ap_reporter ?t) = 1)"
      by (auto simp: process_ok_def boots_ok_def)
    moreover have "(ap_ingest s \<longrightarrow> lc_running (ap_loop s)) \<and> (ap_ingest s \<or> ap_planes s \<or> \<not> drained (ap_loop s) \<longrightarrow> ap_db s)"
      using ok by (cases "ap_phase s") (simp_all add: process_ok_def)
    ultimately show ?thesis using n by blast
  qed
  have not_running: "request_stop (ap_loop s) = ap_loop s" if "\<not> lc_running (ap_loop s)"
    using that lifecycle_ok_lives [OF lives] by (simp add: request_stop_def lifecycle_ok_def)
  have begun: "lc_begun (request_stop (ap_loop s)) = lc_begun (ap_loop s)" by (simp add: request_stop_def)
  have stopped: "\<not> lc_running (request_stop (ap_loop s))" "lifecycle_ok (request_stop (ap_loop s))"
    using lifecycle_ok_step [OF lifecycle_step.intros(7) lifecycle_ok_lives [OF lives]] by (simp_all add: engine_running)
  have relay: ?thesis if u: "u = (shutdown_advance opts now ^^ j) (shutdown s)" "j \<le> 1" "ap_phase u = StoppingRelay"
    "ap_loop u = request_stop (ap_loop s)" for u j
  proof -
    from stopping_exits [OF u(3), of k opts now] stopped k(2) u(4) obtain m where
      m: "m \<le> k + 3" "ap_phase ((shutdown_advance opts now ^^ m) u) = Exited" "lc_begun (ap_loop ((shutdown_advance opts now ^^ m) u)) = lc_begun (ap_loop u)"
      by auto
    have "(shutdown_advance opts now ^^ (m + j)) (shutdown s) = (shutdown_advance opts now ^^ m) u" unfolding funpow_add comp_apply u(1) ..
    with m k(1) u(2,4) begun show ?thesis by (intro goal [of "m + j"]) simp_all
  qed
  show ?thesis
  proof (cases "ap_phase s")
    case Serving
    then show ?thesis
      by (intro relay [OF refl, of 1]) (simp_all add: shutdown_def shuttingDown_def shutdown_advance_def shutdown_next_def)
  next
    case ClosingIngest
    then show ?thesis
      by (intro relay [OF refl, of 1]) (simp_all add: shutdown_def shuttingDown_def shutdown_advance_def shutdown_next_def)
  next
    case StoppingRelay
    then have "\<not> lc_running (ap_loop s)" using ok by (simp add: process_ok_def)
    with StoppingRelay not_running show ?thesis by (intro relay [OF refl, of 0]) (simp_all add: shutdown_def shuttingDown_def)
  next
    case StoppingReporter
    then show ?thesis
      by (intro goal [of "Suc (Suc 0)"]) (simp_all add: shutdown_def shuttingDown_def shutdown_advance_def shutdown_next_def)
  next
    case ClosingPlanes
    then show ?thesis
      by (intro goal [of 1]) (simp_all add: shutdown_def shuttingDown_def shutdown_advance_def shutdown_next_def)
  next
    case Exited
    then show ?thesis by (intro goal [of 0]) (simp_all add: shutdown_def shuttingDown_def)
  qed
qed

text \<open>A relay that has just started and is told to stop.\<close>

definition idle_manager :: manager where
  "idle_manager = \<lparr>mg_status = \<lparr>ow_state = StUnmanaged, ow_managed = False, ow_environment = None, ow_error = None, ow_retrying = False,
     ow_last_checked_at = Some 0, ow_last_confirmed_at = Some 0\<rparr>, mg_inFlight = False, mg_timer = False\<rparr>"

theorem shutdown_exits_witness:
  "\<exists>n t. n \<le> 6 \<and> t = (shutdown_advance (createInstanceReporter ''1.0.0'' True ''key'') (5, Local) ^^ n)
       (shutdown (start_running (createInstanceReporter ''1.0.0'' True ''key'') (0, Local) idle_manager)) \<and>
     ap_phase t = Exited \<and> \<not> ap_db t \<and> sent_for Shutdown (ap_reporter t) = 1"
proof -
  let ?opts = "createInstanceReporter ''1.0.0'' True ''key''"
  let ?s = "start_running ?opts (0, Local) idle_manager"
  have "length (lc_inFlight (ap_loop ?s)) = 1" "length (lc_pruneWork (ap_loop ?s)) = 1" "rpo_enabled ?opts"
    by (simp_all add: start_running_def lifecycle_defs Let_def new_lifecycle_def createInstanceReporter_def)
  with shutdown_exits [OF started [of ?opts "(0, Local)" idle_manager], of "(5, Local)"] show ?thesis by auto
qed

section \<open>Bootstrap mode\<close>

text \<open>
  Without a configuration only the management plane is served.  A document from End Close or an
  applied one restarts the process: \<open>bs_exiting\<close> is the exit that \<open>restart\<close> has scheduled.
\<close>

record bootstrap =
  bs_restarting :: bool
  bs_manager :: manager
  bs_reporter :: reporter
  bs_exiting :: bool

definition start_bootstrap :: "reporter_opts \<Rightarrow> moment \<Rightarrow> manager \<Rightarrow> bootstrap" where
  "start_bootstrap opts now m =
     \<lparr>bs_restarting = False, bs_manager = start_polling m, bs_reporter = reporter_start opts now new_reporter, bs_exiting = False\<rparr>"

definition restart :: "reporter_opts \<Rightarrow> moment \<Rightarrow> bootstrap \<Rightarrow> bootstrap" where
  "restart opts now s = (if bs_restarting s then s
     else s\<lparr>bs_restarting := True, bs_manager := stop_polling (bs_manager s), bs_reporter := reporter_stop opts now (bs_reporter s), bs_exiting := True\<rparr>)"

definition bootstrap_onCheck :: "reporter_opts \<Rightarrow> moment \<Rightarrow> remote_check \<Rightarrow> bootstrap \<Rightarrow> bootstrap" where
  "bootstrap_onCheck opts now again s =
     (if bs_restarting s then s else (case again of Managed _ _ _ \<Rightarrow> restart opts now s | _ \<Rightarrow> s))"

text \<open>A poll's answer, or an applied document.\<close>

datatype bootstrap_call = Checked remote_check | BootstrapApplied

fun bootstrap_do :: "reporter_opts \<Rightarrow> moment \<times> bootstrap_call \<Rightarrow> bootstrap \<Rightarrow> bootstrap" where
  "bootstrap_do opts (now, Checked again) s =
     bootstrap_onCheck opts now again (s\<lparr>bs_manager := settle_check again (fst now) (bs_manager s)\<rparr>)"
| "bootstrap_do opts (now, BootstrapApplied) s = restart opts now s"

fun brings_config :: "bootstrap_call \<Rightarrow> bool" where
  "brings_config (Checked (Managed _ _ _)) = True"
| "brings_config BootstrapApplied = True"
| "brings_config _ = False"

definition bootstrap_ok :: "reporter_opts \<Rightarrow> bootstrap \<Rightarrow> bool" where
  "bootstrap_ok opts s \<longleftrightarrow> bs_exiting s = bs_restarting s \<and> mg_timer (bs_manager s) = (\<not> bs_restarting s) \<and>
     rp_running (bs_reporter s) = (rpo_enabled opts \<and> \<not> bs_restarting s) \<and>
     (rpo_enabled opts \<longrightarrow> boots_ok (bs_reporter s) \<and> sent_for Boot (bs_reporter s) = 1)"

lemma settle_timer [simp]: "mg_timer (settle_check again now m) = mg_timer m" by (simp add: settle_check_def)

lemma restart_ok: "bootstrap_ok opts s \<Longrightarrow> bootstrap_ok opts (restart opts now s) \<and> bs_restarting (restart opts now s)"
  by (auto simp: bootstrap_ok_def restart_def stop_polling_def reporter_stop_ok)

lemma bootstrap_do_ok:
  assumes "bootstrap_ok opts s"
  shows "bootstrap_ok opts (bootstrap_do opts (now, c) s) \<and>
    bs_restarting (bootstrap_do opts (now, c) s) = (bs_restarting s \<or> brings_config c)"
proof (cases c)
  case BootstrapApplied
  with restart_ok [OF assms] show ?thesis by simp
next
  case (Checked again)
  let ?s = "s\<lparr>bs_manager := settle_check again (fst now) (bs_manager s)\<rparr>"
  have "bootstrap_ok opts ?s" using assms by (simp add: bootstrap_ok_def)
  with restart_ok [OF this, of now] Checked show ?thesis by (cases again) (auto simp: bootstrap_onCheck_def)
qed

text \<open>
  However answers and applied documents come, the process is restarting exactly when one of
  them brought a configuration; it then polls no more, and has announced one shutdown.
\<close>

theorem bootstrap_restarts_once:
  "let s = fold (bootstrap_do opts) calls (start_bootstrap opts now m) in
     bs_exiting s = list_ex (brings_config \<circ> snd) calls \<and> mg_timer (bs_manager s) = (\<not> bs_exiting s) \<and>
     (rpo_enabled opts \<longrightarrow> sent_for Shutdown (bs_reporter s) = (if bs_exiting s then 1 else 0))"
proof -
  have start: "bootstrap_ok opts (start_bootstrap opts now m)" "\<not> bs_restarting (start_bootstrap opts now m)"
    by (auto simp: bootstrap_ok_def start_bootstrap_def start_polling_def reporter_start_def new_reporter_def boots_ok_def sent_for_def
        reporter_announce_def buildManifest_def Let_def)
  have all: "bootstrap_ok opts (fold (bootstrap_do opts) calls s) \<and>
      bs_restarting (fold (bootstrap_do opts) calls s) = (bs_restarting s \<or> list_ex (brings_config \<circ> snd) calls)" if "bootstrap_ok opts s" for s
    using that
  proof (induction calls arbitrary: s)
    case (Cons x xs)
    obtain t c where x: "x = (t, c)" by (cases x)
    from bootstrap_do_ok [OF Cons.prems, of t c] Cons.IH [of "bootstrap_do opts x s"] show ?case by (auto simp: x)
  qed simp
  from all [OF start(1)] start(2) show ?thesis by (auto simp: Let_def bootstrap_ok_def boots_ok_def)
qed

end
