(* ===== verification/Cli.thy ===== *)
theory Cli imports Admin AppEnv begin

text \<open>
  \<open>relayctl\<close>, the operator's command line (\<open>apps/relay/src/cli\<close>): its flags, its client of the
  admin API and its commands.  The admin API is a function that answers requests; files, standard
  input and the editor belong to the host.
\<close>

section \<open>What a command leaves\<close>

text \<open>\<open>Exited\<close>: the process is gone, past every handler; \<open>Threw\<close>: any other exception.\<close>

datatype cli_exn = ApiError nat json | Exited nat | Threw exn

datatype usage = MainHelp | ConfigHelp | EventsHelp

text \<open>\<open>Pretty\<close>: \<open>printJson\<close>; \<open>Raw\<close>: written without a line end; \<open>Help\<close>: one of the three usage texts.
  A dash of a message that is no Latin-1 character is a hyphen here.\<close>

datatype cli_line = Line string | Pretty json | Raw string | Help usage

record web_call =
  wc_verb :: string
  wc_url :: string
  wc_headers :: "(string \<times> string) list"
  wc_body :: "string option"

text \<open>An exchange: method, path, the body before it is serialized, and what came back.\<close>

record exchange =
  ex_verb :: string
  ex_path :: string
  ex_body :: "json option"
  ex_answer :: "cli_exn + json"

record 'h cli =
  cw_host :: 'h
  cw_exchanges :: "exchange list"
  cw_out :: "cli_line list"
  cw_err :: "string list"

record 'h cli_host =
  ch_fetch :: "web_call \<Rightarrow> ('h, exn, nat \<times> string) sem"
  ch_json_parse :: "string \<Rightarrow> exn + json"
  ch_read :: "string \<Rightarrow> ('h, exn, string) sem"
  ch_stdin :: "('h, exn, string) sem"
  ch_isTTY :: bool
  ch_write :: "string \<Rightarrow> string \<Rightarrow> ('h, exn, unit) sem"
  ch_editor :: "string \<Rightarrow> string \<Rightarrow> ('h, exn, (string option \<times> string)) sem"    \<comment> \<open>the failure, if any; the file it leaves\<close>
  ch_env :: environment
  ch_is_type_error :: "exn \<Rightarrow> bool"

record admin_client =
  ac_baseUrl :: string
  ac_authHeader :: string

definition cli_catch :: "('s, cli_exn, 'a) sem \<Rightarrow> (cli_exn \<Rightarrow> ('s, cli_exn, 'a) sem) \<Rightarrow> ('s, cli_exn, 'a) sem" where
  "cli_catch m h = catchE m (\<lambda>e. case e of Exited c \<Rightarrow> throwE (Exited c) | _ \<Rightarrow> h e)"

definition on_host :: "('h, exn, 'a) sem \<Rightarrow> ('h cli, cli_exn, 'a) sem" where
  "on_host m = catchE (zoomE cw_host (\<lambda>h w. w\<lparr>cw_host := h\<rparr>) m) (\<lambda>e. throwE (Threw e))"

definition print_line :: "cli_line \<Rightarrow> ('h cli, cli_exn, unit) sem" where
  "print_line l = modifyE (\<lambda>w. w\<lparr>cw_out := cw_out w @ [l]\<rparr>)"

definition print_error :: "string \<Rightarrow> ('h cli, cli_exn, unit) sem" where
  "print_error l = modifyE (\<lambda>w. w\<lparr>cw_err := cw_err w @ [l]\<rparr>)"

definition die :: "string \<Rightarrow> ('h cli, cli_exn, 'a) sem" where
  "die m = thenE (print_error (''relayctl: '' @ m)) (throwE (Exited 1))"

section \<open>Values as text\<close>

definition truthy :: "json option \<Rightarrow> bool" where
  "truthy v = (case v of None \<Rightarrow> False | Some JNull \<Rightarrow> False | Some (JBool b) \<Rightarrow> b | Some (JNum n) \<Rightarrow> n \<notin> {''0'', ''-0'', ''NaN''}
     | Some (JStr s) \<Rightarrow> s \<noteq> [] | _ \<Rightarrow> True)"

text \<open>\<open>String(v)\<close>; an element of a joined array that is \<open>null\<close> is empty.  (\<open>JSON.parse\<close> makes no \<open>JNative\<close>.)\<close>

fun js_String :: "json \<Rightarrow> string" where
  "js_String JNull = ''null''"
| "js_String (JBool b) = (if b then ''true'' else ''false'')"
| "js_String (JNum n) = n"
| "js_String (JStr s) = s"
| "js_String (JArr vs) = join '','' (map (\<lambda>v. if v = JNull then [] else js_String v) vs)"
| "js_String (JObj _) = ''[object Object]''"
| "js_String (JNative k) = k"

definition shown :: "json option \<Rightarrow> string" where
  "shown v = (case v of None \<Rightarrow> ''undefined'' | Some j \<Rightarrow> js_String j)"

definition js_join :: "string \<Rightarrow> json list \<Rightarrow> string" where
  "js_join sep vs = join sep (map (\<lambda>v. if v = JNull then [] else js_String v) vs)"

text \<open>\<open>v.endsWith(...)\<close> of a value that need not be a string.\<close>

definition text_of :: "json option \<Rightarrow> ('h cli, cli_exn, string) sem" where
  "text_of v = (case v of Some (JStr s) \<Rightarrow> ret s | _ \<Rightarrow> throwE (Threw (OtherError ''endsWith is not a function'')))"

text \<open>\<open>data.k\<close>, which throws on \<open>null\<close>.\<close>

definition field :: "json \<Rightarrow> string \<Rightarrow> ('h cli, cli_exn, json option) sem" where
  "field v k = (if v = JNull then throwE (Threw (OtherError (''Cannot read properties of null (reading '' @ [CHR 0x27] @ k @ [CHR 0x27] @ '')'')))
     else ret (get_child v k))"

section \<open>Flags\<close>

text \<open>\<open>None\<close>: a flag without a value, which the source keeps as \<open>true\<close>.\<close>

type_synonym flags = "(string \<times> string option) list"

text \<open>\<open>Inl\<close>: the name of an unknown flag.\<close>

function parseFlags :: "string list \<Rightarrow> string list \<Rightarrow> flags \<Rightarrow> string list \<Rightarrow> string + flags \<times> string list" where
  "parseFlags names [] fl rest = Inr (fl, rest)"
| "parseFlags names (a # argv) fl rest =
     (if a = ''--'' then Inr (fl, rest @ argv)
      else if starts_with ''--'' a then
        (let (name, given) = (case index_of CHR ''='' a of None \<Rightarrow> (drop 2 a, None) | Some eq \<Rightarrow> (drop 2 (take eq a), Some (drop (Suc eq) a))) in
         if name \<notin> set names then Inl name
         else (case given of
             Some v \<Rightarrow> parseFlags names argv (AList.update name (Some v) fl) rest
           | None \<Rightarrow> (case argv of
                 following # argv' \<Rightarrow> if following \<noteq> [] \<and> \<not> starts_with ''--'' following then parseFlags names argv' (AList.update name (Some following) fl) rest
                   else parseFlags names argv (AList.update name None fl) rest
               | [] \<Rightarrow> Inr (AList.update name None fl, rest))))
      else parseFlags names argv fl (rest @ [a]))"
  by pat_completeness auto
termination by (relation "measure (\<lambda>(_, argv, _, _). length argv)") auto

definition flags_of :: "string list \<Rightarrow> string list \<Rightarrow> ('h cli, cli_exn, flags \<times> string list) sem" where
  "flags_of argv names = (case parseFlags names argv [] [] of Inl name \<Rightarrow> die (''unknown flag --'' @ name) | Inr r \<Rightarrow> ret r)"

definition flagString :: "flags \<Rightarrow> string \<Rightarrow> string option" where
  "flagString fl name = (case map_of fl name of None \<Rightarrow> None | Some v \<Rightarrow> v)"

text \<open>\<open>if (flags.json)\<close>.\<close>

definition flag_set :: "flags \<Rightarrow> string \<Rightarrow> bool" where
  "flag_set fl name = (case map_of fl name of None \<Rightarrow> False | Some None \<Rightarrow> True | Some (Some v) \<Rightarrow> v \<noteq> [])"

section \<open>Files\<close>

definition readYamlInput :: "'h cli_host \<Rightarrow> string option \<Rightarrow> ('h cli, cli_exn, string) sem" where
  "readYamlInput H path = (case non_empty path of
     Some p \<Rightarrow> if p \<noteq> ''-'' then cli_catch (on_host (ch_read H p)) (\<lambda>e. case e of
           Threw x \<Rightarrow> die (''cannot read '' @ p @ '': '' @ message x)
         | e \<Rightarrow> throwE e)
       else on_host (ch_stdin H)
   | None \<Rightarrow> if \<not> ch_isTTY H then on_host (ch_stdin H) else die (''YAML path required (file, or '' @ [CHR 0x22] @ ''-'' @ [CHR 0x22] @ '' for stdin)''))"

definition with_newline :: "string \<Rightarrow> string" where
  "with_newline s = (if s \<noteq> [] \<and> last s = CHR 0x0A then s else s @ [CHR 0x0A])"

definition writeOutput :: "'h cli_host \<Rightarrow> string option \<Rightarrow> string \<Rightarrow> ('h cli, cli_exn, unit) sem" where
  "writeOutput H path content = (case non_empty path of
     Some p \<Rightarrow> if p = ''-'' then print_line (Raw (with_newline content))
       else thenE (on_host (ch_write H p (with_newline content))) (print_error (''wrote '' @ p))
   | None \<Rightarrow> print_line (Raw (with_newline content)))"

definition editInEditor :: "'h cli_host \<Rightarrow> json option \<Rightarrow> ('h cli, cli_exn, string) sem" where
  "editInEditor H initial = (case env_or (ch_env H) ''EDITOR'' (env_or (ch_env H) ''VISUAL'' []) of
     [] \<Rightarrow> die ''set EDITOR (or VISUAL) to use `config edit`, e.g. EDITOR=vi relayctl config edit''
   | editor \<Rightarrow> bindE (text_of initial) (\<lambda>initial.
       bindE (on_host (ch_editor H editor (with_newline initial))) (\<lambda>(failure, edited). case failure of
         Some status \<Rightarrow> die (''editor exited with status '' @ status)
       | None \<Rightarrow> ret edited)))"

section \<open>The client\<close>

definition api_message :: "nat \<Rightarrow> json \<Rightarrow> string" where
  "api_message status body = (case body of
     JObj kvs \<Rightarrow> (case object_get kvs ''error'' of Some e \<Rightarrow> js_String e | None \<Rightarrow> ''HTTP '' @ string_of_nat status)
   | JStr s \<Rightarrow> s
   | _ \<Rightarrow> ''HTTP '' @ string_of_nat status)"

definition answer_data :: "'h cli_host \<Rightarrow> string \<Rightarrow> json" where
  "answer_data H t = (if t = [] then JNull else case ch_json_parse H t of Inl _ \<Rightarrow> JStr t | Inr j \<Rightarrow> j)"

definition web_call_of :: "admin_client \<Rightarrow> string \<Rightarrow> string \<Rightarrow> json option \<Rightarrow> web_call" where
  "web_call_of cl verb path body = \<lparr>wc_verb = verb, wc_url = ac_baseUrl cl @ path,
     wc_headers = [(''authorization'', ac_authHeader cl), (''accept'', ''application/json''), (''user-agent'', ''relayctl'')] @
       (case body of None \<Rightarrow> [] | Some _ \<Rightarrow> [(''content-type'', ''application/json'')]),
     wc_body = (case body of None \<Rightarrow> None | Some j \<Rightarrow> stringify j)\<rparr>"

definition cli_request :: "'h cli_host \<Rightarrow> admin_client \<Rightarrow> string \<Rightarrow> string \<Rightarrow> json option \<Rightarrow> ('h cli, cli_exn, json) sem" where
  "cli_request H cl verb path body = (\<lambda>w. case bindE (on_host (ch_fetch H (web_call_of cl verb path body))) (\<lambda>(status, t).
       if \<not> status_ok status then throwE (ApiError status (answer_data H t)) else ret (answer_data H t)) w of
     (r, w') \<Rightarrow> (r, w'\<lparr>cw_exchanges := cw_exchanges w' @ [\<lparr>ex_verb = verb, ex_path = path, ex_body = body, ex_answer = r\<rparr>]\<rparr>))"

definition cli_get :: "'h cli_host \<Rightarrow> admin_client \<Rightarrow> string \<Rightarrow> ('h cli, cli_exn, json) sem" where
  "cli_get H cl path = cli_request H cl ''GET'' path None"

definition cli_post :: "'h cli_host \<Rightarrow> admin_client \<Rightarrow> string \<Rightarrow> json \<Rightarrow> ('h cli, cli_exn, json) sem" where
  "cli_post H cl path body = cli_request H cl ''POST'' path (Some body)"

definition without_slash :: "string \<Rightarrow> string" where
  "without_slash s = (if s \<noteq> [] \<and> last s = CHR ''/'' then butlast s else s)"

definition NO_AUTH :: string where
  "NO_AUTH = ''ADMIN_BASIC_AUTH is not set (or not user:password).'' @ [CHR 0x0A] @
     ''relayctl is meant to run inside the relay container, where that env var is already injected.''"

definition createClientFromEnv :: "environment \<Rightarrow> string + admin_client" where
  "createClientFromEnv env = (case non_empty (env ''ADMIN_BASIC_AUTH'') of
     None \<Rightarrow> Inl NO_AUTH
   | Some basicAuth \<Rightarrow> if \<not> includes_char basicAuth CHR '':'' then Inl NO_AUTH
       else Inr \<lparr>ac_baseUrl = without_slash (env_or env ''RELAY_ADMIN_URL'' (''http://127.0.0.1:'' @ env_or env ''RELAY_ADMIN_PORT'' ''8081'')),
         ac_authHeader = basic_auth_header basicAuth\<rparr>)"

section \<open>The configuration commands\<close>

definition configGet :: "'h cli_host \<Rightarrow> admin_client \<Rightarrow> string list \<Rightarrow> ('h cli, cli_exn, unit) sem" where
  "configGet H cl argv = bindE (flags_of argv [''o'', ''out'', ''json'']) (\<lambda>(fl, _).
     let out = (case flagString fl ''o'' of Some p \<Rightarrow> Some p | None \<Rightarrow> flagString fl ''out'') in
     cli_catch
       (bindE (cli_get H cl ''/config'') (\<lambda>data.
          if flag_set fl ''json'' then print_line (Pretty data)
          else bindE (field data ''error'') (\<lambda>error. bindE (field data ''hash'') (\<lambda>hash. bindE (field data ''yaml'') (\<lambda>yaml.
            thenE (whenE (truthy error) (print_error (''relayctl: stored config has validation error: '' @ shown error)))
            (thenE (whenE (truthy hash) (print_error (''hash: '' @ shown hash)))
            (bindE (text_of yaml) (writeOutput H out))))))))
       (\<lambda>err. case err of
          ApiError status _ \<Rightarrow> if status = 404 then die ''no configuration yet (bootstrap mode) - apply one with: relayctl config apply <file>'' else throwE err
        | _ \<Rightarrow> throwE err))"

text \<open>\<open>secret_envs?.filter((s) => !s.set).map((s) => s.name)\<close>.\<close>

definition unset_names :: "json option \<Rightarrow> string list" where
  "unset_names v = (case v of Some (JArr es) \<Rightarrow> map (\<lambda>e. shown (get_child e ''name'')) (filter (\<lambda>e. \<not> truthy (get_child e ''set'')) es) | _ \<Rightarrow> [])"

definition json_list :: "json option \<Rightarrow> json list" where
  "json_list v = (case v of Some (JArr es) \<Rightarrow> es | _ \<Rightarrow> [])"

definition yaml_body :: "string \<Rightarrow> json" where
  "yaml_body yaml = JObj [(''yaml'', JStr yaml)]"

definition configValidate :: "'h cli_host \<Rightarrow> admin_client \<Rightarrow> string list \<Rightarrow> ('h cli, cli_exn, unit) sem" where
  "configValidate H cl argv = bindE (readYamlInput H (nth_opt argv 0)) (\<lambda>yaml.
     bindE (cli_post H cl ''/config/validate'' (yaml_body yaml)) (\<lambda>data.
     bindE (field data ''valid'') (\<lambda>valid.
     if \<not> truthy valid then thenE (print_error (''invalid: '' @ shown (get_child data ''error''))) (throwE (Exited 1))
     else thenE (print_line (Line (''valid  hash='' @ shown (get_child data ''hash''))))
       (thenE (let routes = json_list (get_child data ''routes'') in
           whenE (routes \<noteq> []) (print_line (Line (''routes: '' @ js_join '', '' routes))))
       (let missing = unset_names (get_child data ''secret_envs'') in
           whenE (missing \<noteq> []) (print_error (''warning: unset secret env vars: '' @ join '', '' missing)))))))"

text \<open>What \<open>configApply\<close> and \<open>configEdit\<close> share: validate, then apply the same document.\<close>

definition apply_yaml :: "'h cli_host \<Rightarrow> admin_client \<Rightarrow> string \<Rightarrow> ('h cli, cli_exn, unit) sem" where
  "apply_yaml H cl yaml = bindE (cli_post H cl ''/config/validate'' (yaml_body yaml)) (\<lambda>check.
     bindE (field check ''valid'') (\<lambda>valid.
     if \<not> truthy valid then die (''invalid config: '' @ shown (get_child check ''error''))
     else bindE (cli_post H cl ''/config'' (yaml_body yaml)) (\<lambda>data.
       bindE (field data ''applied'') (\<lambda>applied.
       thenE (print_line (Line (''applied '' @ shown applied)))
       (thenE (whenE (truthy (get_child data ''restarting''))
          (print_line (Line ''restarting into running mode (container will exit; orchestrator should restart it)'')))
       (whenE (truthy (get_child data ''paused''))
          (print_line (Line ''forwarding held (paused) after recovery apply - resume with: relayctl killswitch resume''))))))))"

definition configApply :: "'h cli_host \<Rightarrow> admin_client \<Rightarrow> string list \<Rightarrow> ('h cli, cli_exn, unit) sem" where
  "configApply H cl argv = bindE (readYamlInput H (nth_opt argv 0)) (apply_yaml H cl)"

definition EMPTY_ROUTES :: string where "EMPTY_ROUTES = ''routes: []'' @ [CHR 0x0A]"

text \<open>The document to edit, and whether one is stored (\<open>hadConfig\<close>).\<close>

definition edited_from :: "'h cli_host \<Rightarrow> admin_client \<Rightarrow> ('h cli, cli_exn, bool \<times> json option) sem" where
  "edited_from H cl = cli_catch
     (bindE (cli_get H cl ''/config'') (\<lambda>data. bindE (field data ''yaml'') (\<lambda>yaml. ret (True, yaml))))
     (\<lambda>err. case err of
        ApiError status _ \<Rightarrow> if status = 404 then thenE (print_error ''relayctl: no config yet - starting from an empty routes document'') (ret (False, Some (JStr EMPTY_ROUTES)))
          else throwE err
      | _ \<Rightarrow> throwE err)"

definition configEdit :: "'h cli_host \<Rightarrow> admin_client \<Rightarrow> string list \<Rightarrow> ('h cli, cli_exn, unit) sem" where
  "configEdit H cl argv = (if argv \<noteq> [] then die ''config edit takes no arguments''
     else bindE (edited_from H cl) (\<lambda>(hadConfig, initial).
       bindE (editInEditor H initial) (\<lambda>edited.
       if hadConfig \<and> initial = Some (JStr edited) then print_line (Line ''unchanged - nothing applied'')
       else apply_yaml H cl edited)))"

definition version_line :: "json \<Rightarrow> string" where
  "version_line v = join [CHR 0x09] (map (\<lambda>k. shown (get_child v k)) [''id'', ''applied_at'', ''config_hash'', ''applied_by''])"

definition configVersions :: "'h cli_host \<Rightarrow> admin_client \<Rightarrow> ('h cli, cli_exn, unit) sem" where
  "configVersions H cl = bindE (cli_get H cl ''/config/versions'') (\<lambda>data. case json_list (Some data) of
     [] \<Rightarrow> print_line (Line ''(no versions)'')
   | vs \<Rightarrow> forE (\<lambda>v. print_line (Line (version_line v))) vs)"

definition configShow :: "'h cli_host \<Rightarrow> admin_client \<Rightarrow> string list \<Rightarrow> ('h cli, cli_exn, unit) sem" where
  "configShow H cl argv = bindE (flags_of argv [''o'', ''out'']) (\<lambda>(fl, rest).
     case non_empty (nth_opt rest 0) of
       None \<Rightarrow> die ''usage: relayctl config show <id> [-o file]''
     | Some i \<Rightarrow> let out = (case flagString fl ''o'' of Some p \<Rightarrow> Some p | None \<Rightarrow> flagString fl ''out'') in
         bindE (cli_get H cl (''/config/versions/'' @ i)) (\<lambda>data.
         bindE (field data ''id'') (\<lambda>shown_id.
         thenE (print_error (''id='' @ shown shown_id @ ''  hash='' @ shown (get_child data ''config_hash'') @ ''  at='' @ shown (get_child data ''applied_at'')))
         (bindE (text_of (get_child data ''config_yaml'')) (writeOutput H out)))))"

definition configPreview :: "'h cli_host \<Rightarrow> admin_client \<Rightarrow> string list \<Rightarrow> ('h cli, cli_exn, unit) sem" where
  "configPreview H cl argv = bindE (flags_of argv [''route'', ''sample'', ''file'']) (\<lambda>(fl, _).
     case (non_empty (flagString fl ''route''), non_empty (flagString fl ''sample'')) of
       (Some route, Some samplePath) \<Rightarrow>
         bindE (cli_catch (bindE (readYamlInput H (Some samplePath)) (\<lambda>t. case ch_json_parse H t of Inl e \<Rightarrow> throwE (Threw e) | Inr j \<Rightarrow> ret j))
           (\<lambda>e. case e of Threw x \<Rightarrow> die (''sample JSON: '' @ message x) | _ \<Rightarrow> throwE e)) (\<lambda>sample.
         bindE (case non_empty (flagString fl ''file'') of None \<Rightarrow> ret [] | Some f \<Rightarrow> bindE (readYamlInput H (Some f)) (\<lambda>yaml. ret [(''yaml'', JStr yaml)])) (\<lambda>draft.
         bindE (cli_post H cl ''/config/preview'' (JObj ([(''route'', JStr route), (''sample'', sample)] @ draft))) (\<lambda>data.
         print_line (Pretty data))))
     | _ \<Rightarrow> die ''usage: relayctl config preview --route <id> --sample <payload.json> [--file yaml]'')"

definition is_help :: "string \<Rightarrow> bool" where
  "is_help s \<longleftrightarrow> s \<in> {''help'', ''-h'', ''--help''}"

definition configCommand :: "'h cli_host \<Rightarrow> admin_client \<Rightarrow> string list \<Rightarrow> ('h cli, cli_exn, unit) sem" where
  "configCommand H cl argv = (case non_empty (nth_opt argv 0) of
     None \<Rightarrow> print_line (Help ConfigHelp)
   | Some sub \<Rightarrow> let rest = tl argv in
       if is_help sub then print_line (Help ConfigHelp)
       else if sub = ''get'' then configGet H cl rest
       else if sub = ''validate'' then configValidate H cl rest
       else if sub = ''apply'' \<or> sub = ''set'' then configApply H cl rest
       else if sub = ''edit'' then configEdit H cl rest
       else if sub = ''versions'' then configVersions H cl
       else if sub = ''show'' then configShow H cl rest
       else if sub = ''preview'' then configPreview H cl rest
       else die (''unknown config subcommand: '' @ sub))"

section \<open>The other commands\<close>

definition KILLSWITCH_ACTIONS :: "(string \<times> json) list" where
  "KILLSWITCH_ACTIONS = [(''pause'', JStr ''pause''), (''resume'', JStr ''none''), (''none'', JStr ''none''), (''panic'', JStr ''panic'')]"

text \<open>\<open>v?.k\<close>, and \<open>v ?? d\<close> inside a text.\<close>

definition opt_get :: "json option \<Rightarrow> string \<Rightarrow> json option" where
  "opt_get v k = (case v of None \<Rightarrow> None | Some j \<Rightarrow> if j = JNull then None else get_child j k)"

definition shown_or :: "json option \<Rightarrow> string \<Rightarrow> string" where
  "shown_or v d = (case v of None \<Rightarrow> d | Some JNull \<Rightarrow> d | Some j \<Rightarrow> js_String j)"

definition show_killswitch :: "'h cli_host \<Rightarrow> admin_client \<Rightarrow> ('h cli, cli_exn, unit) sem" where
  "show_killswitch H cl = bindE (cli_get H cl ''/status'') (\<lambda>data. bindE (field data ''killswitch'') (\<lambda>ks.
     bindE (case ks of None \<Rightarrow> throwE (Threw (OtherError ''Cannot read properties of undefined'')) | Some j \<Rightarrow> field j ''global'') (\<lambda>global.
     thenE (print_line (Line (''global: '' @ shown global)))
     (let paused = json_list (opt_get ks ''routes_paused'') in
        whenE (paused \<noteq> []) (print_line (Line (''routes_paused: '' @ js_join '', '' paused)))))))"

definition killswitchCommand :: "'h cli_host \<Rightarrow> admin_client \<Rightarrow> string list \<Rightarrow> ('h cli, cli_exn, unit) sem" where
  "killswitchCommand H cl argv = (case non_empty (nth_opt argv 0) of
     Some action \<Rightarrow> if action \<notin> {''get'', ''status''} then
         (let state = object_get KILLSWITCH_ACTIONS action in
          if \<not> truthy state then die ''usage: relayctl killswitch [get|pause|resume|panic|none]''
          else bindE (cli_post H cl ''/killswitch'' (JObj [(''state'', the state)])) (\<lambda>data. print_line (Pretty data)))
       else show_killswitch H cl
   | None \<Rightarrow> show_killswitch H cl)"

text \<open>\<open>application/x-www-form-urlencoded\<close>, as \<open>URLSearchParams\<close> serializes.\<close>

definition form_byte :: "8 word \<Rightarrow> string" where
  "form_byte b = (let c = char_of (unat b) in
     if is_word c \<or> c \<in> {CHR ''*'', CHR ''-'', CHR ''.''} then [c] else if c = CHR '' '' then ''+''
     else CHR ''%'' # map (\<lambda>d. if d \<in> set ''abcdef'' then char_of (of_char d - 32 :: nat) else d) (hex_byte b))"

definition form_encode :: "string \<Rightarrow> string" where
  "form_encode s = concat (map form_byte (utf8 s))"

definition events_path :: "flags \<Rightarrow> string" where
  "events_path fl = (let qs = concat (map (\<lambda>k. case non_empty (flagString fl k) of None \<Rightarrow> [] | Some v \<Rightarrow> [k @ ''='' @ form_encode v]) [''status'', ''route'', ''limit''])
     in ''/events'' @ (if qs = [] then [] else ''?'' @ join ''&'' qs))"

definition event_line :: "json \<Rightarrow> string" where
  "event_line e = join [CHR 0x09] [shown (get_child e ''id''), shown (get_child e ''status''), shown (get_child e ''route_id''),
     shown_or (get_child e ''event_type'') ''-'', shown (get_child e ''received_at'')] @
     (if truthy (get_child e ''last_error'') then ''  err='' @ shown (get_child e ''last_error'') else [])"

definition eventsList :: "'h cli_host \<Rightarrow> admin_client \<Rightarrow> string list \<Rightarrow> ('h cli, cli_exn, unit) sem" where
  "eventsList H cl argv = bindE (flags_of argv [''status'', ''route'', ''limit'', ''json'']) (\<lambda>(fl, _).
     bindE (cli_get H cl (events_path fl)) (\<lambda>data.
     if flag_set fl ''json'' then print_line (Pretty data)
     else (case json_list (Some data) of
         [] \<Rightarrow> print_line (Line ''(no events)'')
       | es \<Rightarrow> forE (\<lambda>e. print_line (Line (event_line e))) es)))"

definition eventsPayload :: "'h cli_host \<Rightarrow> admin_client \<Rightarrow> string list \<Rightarrow> ('h cli, cli_exn, unit) sem" where
  "eventsPayload H cl argv = (case non_empty (nth_opt argv 0) of
     None \<Rightarrow> die ''usage: relayctl events payload <id>''
   | Some i \<Rightarrow> bindE (cli_get H cl (''/events/'' @ i @ ''/payload'')) (\<lambda>data.
       bindE (field data ''payload'') (\<lambda>payload. print_line (case payload of None \<Rightarrow> Line ''undefined'' | Some j \<Rightarrow> Pretty j))))"

definition eventsReplay :: "'h cli_host \<Rightarrow> admin_client \<Rightarrow> string list \<Rightarrow> ('h cli, cli_exn, unit) sem" where
  "eventsReplay H cl argv = (case non_empty (nth_opt argv 0) of
     None \<Rightarrow> die ''usage: relayctl events replay <id>''
   | Some i \<Rightarrow> bindE (cli_post H cl (''/events/'' @ i @ ''/replay'') (JObj [])) (\<lambda>data. print_line (Pretty data)))"

definition eventsReplayParked :: "'h cli_host \<Rightarrow> admin_client \<Rightarrow> ('h cli, cli_exn, unit) sem" where
  "eventsReplayParked H cl = bindE (cli_post H cl ''/events/replay-parked'' (JObj [])) (\<lambda>data. print_line (Pretty data))"

definition eventsCommand :: "'h cli_host \<Rightarrow> admin_client \<Rightarrow> string list \<Rightarrow> ('h cli, cli_exn, unit) sem" where
  "eventsCommand H cl argv = (case non_empty (nth_opt argv 0) of
     None \<Rightarrow> print_line (Help EventsHelp)
   | Some sub \<Rightarrow> let rest = tl argv in
       if is_help sub then print_line (Help EventsHelp)
       else if sub = ''list'' \<or> sub = ''ls'' then eventsList H cl rest
       else if sub = ''payload'' then eventsPayload H cl rest
       else if sub = ''replay'' then eventsReplay H cl rest
       else if sub = ''replay-parked'' then eventsReplayParked H cl
       else die (''unknown events subcommand: '' @ sub))"

section \<open>Status\<close>

definition json_entries :: "json option \<Rightarrow> (string \<times> json) list" where
  "json_entries v = (case v of Some (JObj kvs) \<Rightarrow> kvs | _ \<Rightarrow> [])"

definition remote_line :: "json \<Rightarrow> string" where
  "remote_line r = ''remote:      '' @
     (if truthy (get_child r ''managed'')
      then ''managed by End Close'' @ (if truthy (get_child r ''environment'') then '' ('' @ shown (get_child r ''environment'') @ '')'' else [])
      else shown (get_child r ''state'')) @
     (if truthy (get_child r ''error'') then '' - '' @ shown (get_child r ''error'') else [])"

definition route_line :: "json \<Rightarrow> string" where
  "route_line r = (let counts = join '' '' (map (\<lambda>(k, v). k @ ''='' @ js_String v) (json_entries (get_child r ''counts''))) in
     ''  '' @ shown (get_child r ''id'') @ (if truthy (get_child r ''paused'') then '' (paused)'' else []) @ (if counts = [] then [] else ''  '' @ counts))"

definition status_lines :: "json \<Rightarrow> string list" where
  "status_lines data = (let g = get_child data; storage = g ''storage''; queue = json_entries (g ''queue''); routes = json_list (g ''routes'') in
     [''mode:        '' @ shown (g ''mode''), ''version:     '' @ shown (g ''version''),
      ''killswitch:  '' @ shown_or (opt_get (g ''killswitch'') ''global'') ''?'', ''config:      '' @ shown_or (g ''config_hash'') ''(none)''] @
     (if truthy (g ''config_error'') then [''config_err:  '' @ shown (g ''config_error'')] else []) @
     (if truthy (g ''remote_config'') then [remote_line (the (g ''remote_config''))] else []) @
     [''db:          '' @ shown_or (opt_get storage ''db_path'') ''?'',
      ''persistent:  '' @ (if opt_get storage ''persistent'' = Some (JBool True) then ''yes''
        else if opt_get storage ''persistent'' = Some (JBool False) then ''NO - ephemeral'' else ''unknown'')] @
     (if queue = [] then [] else ''queue:'' # map (\<lambda>(k, v). ''  '' @ k @ '': '' @ js_String v) (sort_key (\<lambda>(k, v). k @ '','' @ js_String v) queue)) @
     (if routes = [] then [] else ''routes:'' # map route_line routes))"

definition statusCommand :: "'h cli_host \<Rightarrow> admin_client \<Rightarrow> ('h cli, cli_exn, unit) sem" where
  "statusCommand H cl = bindE (cli_get H cl ''/status'') (\<lambda>data. thenE (bindE (field data ''mode'') (\<lambda>_. ret ()))
     (forE (\<lambda>l. print_line (Line l)) (status_lines data)))"

definition statusJsonCommand :: "'h cli_host \<Rightarrow> admin_client \<Rightarrow> ('h cli, cli_exn, unit) sem" where
  "statusJsonCommand H cl = bindE (cli_get H cl ''/status'') (\<lambda>data. print_line (Pretty data))"

section \<open>The program\<close>

definition cli_command :: "'h cli_host \<Rightarrow> admin_client \<Rightarrow> string \<Rightarrow> string list \<Rightarrow> ('h cli, cli_exn, unit) sem" where
  "cli_command H cl cmd argv =
     (if cmd = ''status'' then (if ''--json'' \<in> set argv then statusJsonCommand H cl else statusCommand H cl)
      else if cmd = ''config'' then configCommand H cl (tl argv)
      else if cmd = ''killswitch'' then killswitchCommand H cl (tl argv)
      else if cmd = ''events'' then eventsCommand H cl (tl argv)
      else die (''unknown command: '' @ cmd))"

definition relayctl :: "'h cli_host \<Rightarrow> string list \<Rightarrow> ('h cli, cli_exn, unit) sem" where
  "relayctl H argv = (case non_empty (nth_opt argv 0) of
     None \<Rightarrow> print_line (Help MainHelp)
   | Some cmd \<Rightarrow> if is_help cmd then print_line (Help MainHelp)
       else (case createClientFromEnv (ch_env H) of
           Inl m \<Rightarrow> die m
         | Inr cl \<Rightarrow> cli_catch (cli_command H cl cmd argv) (\<lambda>err. case err of
             ApiError status body \<Rightarrow> die (api_message status body @ '' (HTTP '' @ string_of_nat status @ '')'')
           | Threw e \<Rightarrow> if message e = ''fetch failed'' \<or> ch_is_type_error H e
               then die (''cannot reach admin API at '' @ ac_baseUrl cl @ '' ('' @ message e @ '').'')
               else die (message e)
           | Exited c \<Rightarrow> throwE (Exited c))))"

end
