(* ===== verification/CliFacts.thy ===== *)
theory CliFacts imports Cli begin

text \<open>
  What \<open>relayctl\<close> may send: the relation \<open>sends\<close> between the states of a run is kept by every
  combinator, so a command's requests are read off its calls; only \<open>apply_yaml\<close> needs a look at
  two calls in a row.
\<close>

section \<open>Requests that may be sent\<close>

definition applies :: "exchange \<Rightarrow> bool" where
  "applies e \<longleftrightarrow> ex_verb e = ''POST'' \<and> ex_path e = ''/config''"

text \<open>The exchange validated this very body, and the answer said it is valid.\<close>

definition approves :: "exchange \<Rightarrow> json option \<Rightarrow> bool" where
  "approves e body \<longleftrightarrow> ex_verb e = ''POST'' \<and> ex_path e = ''/config/validate'' \<and> ex_body e = body \<and>
     (case ex_answer e of Inl _ \<Rightarrow> False | Inr data \<Rightarrow> truthy (get_child data ''valid''))"

text \<open>A request that asks for a switch the admin API knows, or is none of those; see \<open>killswitch_of_prototype\<close>.\<close>

definition switches_right :: "exchange \<Rightarrow> bool" where
  "switches_right e \<longleftrightarrow> (if ex_verb e = ''POST'' \<and> ex_path e = ''/killswitch''
     then (\<exists>v. ex_body e = Some (JObj [(''state'', v)]) \<and> (killswitch_of_json (Some v) \<noteq> None \<or> v \<in> range JNative)) else True)"

fun validated :: "exchange option \<Rightarrow> exchange list \<Rightarrow> bool" where
  "validated before [] = True"
| "validated before (e # es) =
     ((if applies e then (case before of None \<Rightarrow> False | Some p \<Rightarrow> approves p (ex_body e)) else True) \<and> switches_right e \<and> validated (Some e) es)"

lemma validated_weaken: "validated None es \<Longrightarrow> validated before es"
  by (cases es) auto

lemma validated_append: "validated before es \<Longrightarrow> validated None fs \<Longrightarrow> validated before (es @ fs)"
  by (induction before es rule: validated.induct) (auto intro: validated_weaken)

definition sends :: "'h cli \<Rightarrow> 'h cli \<Rightarrow> bool" where
  "sends w w' \<longleftrightarrow> (\<exists>es. cw_exchanges w' = cw_exchanges w @ es \<and> validated None es)"

interpretation sent: step_relation sends
proof
  show "sends w w" for w :: "'h cli" by (auto simp: sends_def intro: exI [of _ "[]"])
  fix w w' w'' :: "'h cli" assume "sends w w'" "sends w' w''"
  then show "sends w w''" unfolding sends_def by (metis append.assoc validated_append)
qed

lemma cli_keeps_quiet: "(\<And>w. cw_exchanges (snd (m w)) = cw_exchanges w) \<Longrightarrow> keeps sends m"
  by (rule keepsI) (auto simp: sends_def intro: exI [of _ "[]"])

named_theorems cli_rules

lemma cli_keeps_cli_catch [cli_rules]: "keeps sends m \<Longrightarrow> (\<And>e. keeps sends (h e)) \<Longrightarrow> keeps sends (cli_catch m h)"
  unfolding cli_catch_def by (intro keeps_rules) (auto intro: keeps_rules split: cli_exn.splits)

lemma exchanges_on_host: "on_host m w = (r, w') \<Longrightarrow> cw_exchanges w' = cw_exchanges w"
  by (auto simp: on_host_def catchE_def zoomE_def throwE_def split: prod.splits sum.splits)

lemma cli_keeps_on_host [cli_rules]: "keeps sends (on_host m)"
  by (rule cli_keeps_quiet) (metis exchanges_on_host prod.collapse)

lemma cli_keeps_prints [cli_rules]: "keeps sends (print_line l)" "keeps sends (print_error t)"
  by (rule cli_keeps_quiet, simp add: print_line_def print_error_def modifyE_def)+

lemma cli_keeps_die [cli_rules]: "keeps sends (die m)"
  unfolding die_def by (intro keeps_rules cli_rules)

lemma cli_keeps_exn [cli_rules]:
  "(\<And>n j. keeps R (f n j)) \<Longrightarrow> (\<And>c. keeps R (g c)) \<Longrightarrow> (\<And>x. keeps R (h x)) \<Longrightarrow>
     keeps R (case e of ApiError n j \<Rightarrow> f n j | Exited c \<Rightarrow> g c | Threw x \<Rightarrow> h x)"
  by (cases e) simp_all

lemma cli_keeps_reads [cli_rules]: "keeps sends (field v k)" "keeps sends (text_of x)" "keeps sends (flags_of argv names)"
proof -
  show "keeps sends (field v k)" unfolding field_def by (intro keeps_rules)
  show "keeps sends (text_of x)" by (auto simp: text_of_def intro: keeps_rules split: option.splits json.splits)
  show "keeps sends (flags_of argv names)" unfolding flags_of_def by (auto intro: keeps_rules cli_rules split: sum.splits)
qed

lemma cli_keeps_host [cli_rules]: "keeps sends (readYamlInput H path)" "keeps sends (writeOutput H p c)" "keeps sends (editInEditor H i)"
  unfolding readYamlInput_def writeOutput_def editInEditor_def by (intro keeps_rules cli_rules)+

section \<open>Single requests\<close>

lemma request_exchange:
  "cli_request H cl verb path body w = (r, w') \<Longrightarrow>
     cw_exchanges w' = cw_exchanges w @ [\<lparr>ex_verb = verb, ex_path = path, ex_body = body, ex_answer = r\<rparr>]"
  by (auto simp: cli_request_def bindE_def ret_def throwE_def dest: exchanges_on_host split: prod.splits sum.splits if_splits)

lemma cli_keeps_request:
  assumes "verb = ''POST'' \<Longrightarrow> path \<noteq> ''/config''"
    and "verb = ''POST'' \<Longrightarrow> path = ''/killswitch'' \<Longrightarrow>
      \<exists>v. body = Some (JObj [(''state'', v)]) \<and> (killswitch_of_json (Some v) \<noteq> None \<or> v \<in> range JNative)"
  shows "keeps sends (cli_request H cl verb path body)"
proof (rule keepsI)
  fix w
  obtain r w' where r: "cli_request H cl verb path body w = (r, w')" by fastforce
  show "sends w (snd (cli_request H cl verb path body w))"
    using request_exchange [OF r] assms by (auto simp: r sends_def applies_def switches_right_def)
qed

lemma cli_keeps_get [cli_rules]: "keeps sends (cli_get H cl path)"
  unfolding cli_get_def by (rule cli_keeps_request) simp_all

lemma cli_keeps_post [cli_rules]: "path \<noteq> ''/config'' \<Longrightarrow> path \<noteq> ''/killswitch'' \<Longrightarrow> keeps sends (cli_post H cl path body)"
  unfolding cli_post_def by (rule cli_keeps_request) simp_all

section \<open>The commands\<close>

lemma cli_keeps_configGet [cli_rules]: "keeps sends (configGet H cl argv)"
  unfolding configGet_def Let_def by (intro keeps_rules cli_rules)

lemma cli_keeps_validate [cli_rules]: "keeps sends (configValidate H cl argv)"
  unfolding configValidate_def Let_def by (intro keeps_rules cli_rules; simp)

lemma cli_keeps_versions [cli_rules]: "keeps sends (configVersions H cl)"
  unfolding configVersions_def by (intro keeps_rules cli_rules)

lemma cli_keeps_show [cli_rules]: "keeps sends (configShow H cl argv)"
  unfolding configShow_def Let_def by (intro keeps_rules cli_rules)

lemma cli_keeps_preview [cli_rules]: "keeps sends (configPreview H cl argv)"
  unfolding configPreview_def Let_def by (intro keeps_rules cli_rules; simp)

lemma cli_keeps_events [cli_rules]: "keeps sends (eventsCommand H cl argv)"
  unfolding eventsCommand_def Let_def eventsList_def eventsPayload_def eventsReplay_def eventsReplayParked_def
  by (intro keeps_rules cli_rules; simp)

lemma cli_keeps_status [cli_rules]: "keeps sends (statusCommand H cl)" "keeps sends (statusJsonCommand H cl)"
  unfolding statusCommand_def statusJsonCommand_def by (intro keeps_rules cli_rules)+

lemma known_switch: "truthy (object_get KILLSWITCH_ACTIONS a) \<Longrightarrow>
    killswitch_of_json (Some (the (object_get KILLSWITCH_ACTIONS a))) \<noteq> None \<or> the (object_get KILLSWITCH_ACTIONS a) \<in> range JNative"
  by (auto simp: KILLSWITCH_ACTIONS_def object_get_def killswitch_of_json_def truthy_def split: if_splits option.splits)

lemma cli_keeps_killswitch [cli_rules]: "keeps sends (killswitchCommand H cl argv)"
proof -
  have show_it: "keeps sends (show_killswitch H cl)"
    unfolding show_killswitch_def Let_def by (intro keeps_rules cli_rules)
  have post: "keeps sends (cli_post H cl ''/killswitch'' (JObj [(''state'', the (object_get KILLSWITCH_ACTIONS a))]))"
    if "truthy (object_get KILLSWITCH_ACTIONS a)" for a
    unfolding cli_post_def by (rule cli_keeps_request) (use known_switch [OF that] in simp_all)
  show ?thesis unfolding killswitchCommand_def Let_def by (intro keeps_rules cli_rules show_it post; simp)
qed

text \<open>Validate, then apply: the only place where a document is applied.\<close>

lemma cli_keeps_apply [cli_rules]: "keeps sends (apply_yaml H cl yaml)"
proof (rule keepsI)
  fix w
  let ?body = "Some (yaml_body yaml)"
  let ?quiet = "\<lambda>data. bindE (field data ''applied'') (\<lambda>applied.
       thenE (print_line (Line (''applied '' @ shown applied)))
       (thenE (whenE (truthy (get_child data ''restarting''))
          (print_line (Line ''restarting into running mode (container will exit; orchestrator should restart it)'')))
       (whenE (truthy (get_child data ''paused''))
          (print_line (Line ''forwarding held (paused) after recovery apply - resume with: relayctl killswitch resume'')))))"
  have quiet: "sends v (snd (?quiet data v))" for data and v :: "'a cli"
  proof -
    have "keeps sends (?quiet data :: ('a cli, cli_exn, unit) sem)" by (intro keeps_rules cli_rules)
    then show ?thesis unfolding keeps_def by (rule spec)
  qed
  obtain r w1 where v: "cli_post H cl ''/config/validate'' (yaml_body yaml) w = (r, w1)" by fastforce
  let ?e1 = "\<lparr>ex_verb = ''POST'', ex_path = ''/config/validate'', ex_body = ?body, ex_answer = r\<rparr>"
  from v have e1: "cw_exchanges w1 = cw_exchanges w @ [?e1]" unfolding cli_post_def by (rule request_exchange)
  then have s1: "sends w w1" by (simp add: sends_def applies_def switches_right_def)
  show "sends w (snd (apply_yaml H cl yaml w))"
  proof (cases "\<exists>check. r = Inr check \<and> check \<noteq> JNull \<and> truthy (get_child check ''valid'')")
    case False
    moreover have "sends w1 (snd (die m w1))" for m by (rule cli_keeps_die [unfolded keeps_def, rule_format])
    ultimately show ?thesis using v s1 sent.R_trans [OF s1]
      by (cases r) (auto simp: apply_yaml_def bindE_def field_def throwE_def ret_def)
  next
    case True
    then obtain check where c: "r = Inr check" "check \<noteq> JNull" "truthy (get_child check ''valid'')" by blast
    obtain q w2 where p: "cli_post H cl ''/config'' (yaml_body yaml) w1 = (q, w2)" by fastforce
    let ?e2 = "\<lparr>ex_verb = ''POST'', ex_path = ''/config'', ex_body = ?body, ex_answer = q\<rparr>"
    from p have "cw_exchanges w2 = cw_exchanges w1 @ [?e2]" unfolding cli_post_def by (rule request_exchange)
    with e1 have "cw_exchanges w2 = cw_exchanges w @ [?e1, ?e2]" by simp
    moreover have "validated None [?e1, ?e2]" using c by (simp add: applies_def approves_def switches_right_def)
    ultimately have s2: "sends w w2" unfolding sends_def by blast
    have "apply_yaml H cl yaml w = (case q of Inl e \<Rightarrow> (Inl e, w2) | Inr data \<Rightarrow> ?quiet data w2)"
      using v p c by (simp add: apply_yaml_def bindE_def field_def ret_def split: sum.splits)
    then show ?thesis using s2 quiet sent.R_trans [OF s2] by (cases q) simp_all
  qed
qed

lemma cli_keeps_edit [cli_rules]: "keeps sends (configEdit H cl argv)"
  unfolding configEdit_def edited_from_def Let_def by (intro keeps_rules cli_rules)

lemma cli_keeps_configApply [cli_rules]: "keeps sends (configApply H cl argv)"
  unfolding configApply_def by (intro keeps_rules cli_rules)

lemma cli_keeps_config [cli_rules]: "keeps sends (configCommand H cl argv)"
  unfolding configCommand_def Let_def by (intro keeps_rules cli_rules)

lemma cli_keeps_relayctl: "keeps sends (relayctl H argv)"
  unfolding relayctl_def cli_command_def by (intro keeps_rules cli_rules)

definition new_cli :: "'h \<Rightarrow> 'h cli" where
  "new_cli h = \<lparr>cw_host = h, cw_exchanges = [], cw_out = [], cw_err = []\<rparr>"

text \<open>
  \<^bold>\<open>C40.\<close> Whatever the arguments, the files, the editor and the answers of the admin API: every
  document \<open>relayctl\<close> applies was sent for validation in the request just before it, word for word,
  and found valid; and every change of the killswitch it asks for names one of the three states,
  or has no state at all (for an action that is the name of a property of \<open>Object.prototype\<close>).
\<close>

theorem relayctl_validates_first: "validated None (cw_exchanges (snd (relayctl H argv (new_cli h))))"
proof -
  have "sends (new_cli h) (snd (relayctl H argv (new_cli h)))" by (rule cli_keeps_relayctl [unfolded keeps_def, rule_format])
  then show ?thesis by (auto simp: sends_def new_cli_def)
qed

section \<open>Corners\<close>

text \<open>An action named like a property of \<open>Object.prototype\<close> is no usage error: it is sent, without a state.\<close>

lemma killswitch_of_prototype:
  "killswitchCommand H cl [''constructor''] = bindE (cli_post H cl ''/killswitch'' (JObj [(''state'', JNative ''constructor'')])) (\<lambda>data. print_line (Pretty data))"
  by (rule ext) (simp add: killswitchCommand_def nth_opt_def non_empty_def object_get_def KILLSWITCH_ACTIONS_def proto_names_def truthy_def)

text \<open>The documented \<open>-o file\<close> is not a flag: the document goes to standard output and no file is written.\<close>

lemma short_out_is_no_flag:
  "f \<noteq> ''--'' \<Longrightarrow> \<not> starts_with ''--'' f \<Longrightarrow> parseFlags names [''-o'', f] [] [] = Inr ([], [''-o'', f])"
  by simp

lemma configGet_ignores_o:
  "f \<noteq> ''--'' \<Longrightarrow> \<not> starts_with ''--'' f \<Longrightarrow> configGet H cl [''-o'', f] = configGet H cl []"
  by (simp add: configGet_def flags_of_def)

lemma configShow_takes_o_for_id:
  "f \<noteq> ''--'' \<Longrightarrow> \<not> starts_with ''--'' f \<Longrightarrow> \<not> starts_with ''--'' i \<Longrightarrow> configShow H cl [''-o'', f, i] = configShow H cl [''-o'']"
  by (rule ext) (simp add: configShow_def flags_of_def nth_opt_def)

text \<open>Flags written as \<open>--name=value\<close> before \<open>--\<close> are read back, whatever the values and the arguments after it.\<close>

definition flag_text :: "string \<times> string \<Rightarrow> string" where
  "flag_text kv = ''--'' @ fst kv @ ''='' @ snd kv"

lemma parseFlags_reads:
  assumes "list_all (\<lambda>kv. fst kv \<in> set names \<and> CHR ''='' \<notin> set (fst kv)) kvs"
  shows "parseFlags names (map flag_text kvs @ ''--'' # argv) fl rest = Inr (fold (\<lambda>(k, v). AList.update k (Some v)) kvs fl, rest @ argv)"
  using assms
proof (induction kvs arbitrary: fl)
  case (Cons kv kvs)
  obtain k v where kv: "kv = (k, v)" by (cases kv)
  with Cons.prems have k: "k \<in> set names" "CHR ''='' \<notin> set k" by simp_all
  have "index_of CHR ''='' (flag_text kv) = Some (length (''--'' @ k))"
    using index_of_append [of "CHR ''=''" "''--'' @ k" v] k by (simp add: flag_text_def kv)
  moreover have "flag_text kv \<noteq> ''--''" "starts_with ''--'' (flag_text kv)" by (simp_all add: flag_text_def kv starts_with_iff)
  moreover have "drop 2 (take (length (''--'' @ k)) (flag_text kv)) = k" "drop (Suc (length (''--'' @ k))) (flag_text kv) = v"
    by (simp_all add: flag_text_def kv)
  ultimately show ?case using Cons k by (simp add: kv Let_def)
qed simp

lemma parseFlags_roundtrip:
  assumes "list_all (\<lambda>kv. fst kv \<in> set names \<and> CHR ''='' \<notin> set (fst kv)) kvs" and "distinct (map fst kvs)"
  shows "\<exists>fl. parseFlags names (map flag_text kvs @ ''--'' # argv) [] [] = Inr (fl, argv) \<and> (\<forall>k. flagString fl k = map_of kvs k)"
proof -
  have "map_of (fold (\<lambda>(k, v). AList.update k (Some v)) kvs fl) k = (case map_of kvs k of Some v \<Rightarrow> Some (Some v) | None \<Rightarrow> map_of fl k)"
    if "distinct (map fst kvs)" for kvs :: "(string \<times> string) list" and fl k
    using that
  proof (induction kvs arbitrary: fl)
    case (Cons kv kvs)
    have "map_of kvs (fst kv) = None" using Cons.prems by (simp add: map_of_eq_None_iff)
    then show ?case using Cons by (cases kv) (simp add: AList.update_conv' split: option.splits)
  qed simp
  with assms(2) have "flagString (fold (\<lambda>(k, v). AList.update k (Some v)) kvs []) k = map_of kvs k" for k
    by (simp add: flagString_def split: option.splits)
  with parseFlags_reads [OF assms(1), of argv "[]" "[]"] show ?thesis by simp
qed

text \<open>The client's credentials are those the admin API expects when both read the same variable.\<close>

lemma client_is_authorized:
  assumes "createClientFromEnv env = Inr cl" and "env ''ADMIN_BASIC_AUTH'' = Some (dp_basicAuth dp)"
    and "aq_authorization rq = Some (ac_authHeader cl)"
  shows "authorized dp rq"
  using assms by (auto simp: createClientFromEnv_def non_empty_def authorized_def Let_def timing_safe_equal_def split: option.splits if_splits)

end
