(* ===== verification/Spec2Isabelle.thy ===== *)
theory Spec2Isabelle
imports ReportFacts MaskNames Codec MemoryStore Control IngestFacts CycleProps PruneFacts Busy SqliteFacts SqliteControl
  StoreSpec SqliteHost SqliteCycle Migrations Lifecycle Routes RemoteConfig Relay FlushFacts Boot AppLife CliFacts
begin

text \<open>
  \<^bold>\<open>A verification library for the End Close relay.\<close>

  The relay accepts webhooks from payment processors, stores them before it acknowledges them,
  maps each through a route's declarative map into a record, and forwards batches of records to
  the End Close API until each event is delivered, filtered out or parked for an operator.  The
  library models the engine (\<open>packages/core/src\<close>), its SQLite persistence
  (\<open>packages/store-sqlite/src\<close>) and the application around it (\<open>apps/relay/src\<close>).

  \<^bold>\<open>How the parts interact.\<close>  \<open>createRelay\<close> wires a store, a control store, a route provider,
  secrets and a codec into \<open>ingestWebhook\<close> and a \<open>Dispatcher\<close>.  Ingestion checks killswitch, route,
  size and authenticity, stores the event under an idempotency key and signals the dispatcher.
  A dispatch cycle sweeps expired leases, asks the store for routes with due events, claims a
  batch per route under a lease, decodes, maps and enriches each event, posts the batch, polls
  its outcome and settles every row; what is left claimed is released.  The application keeps its
  configuration as versions in the same database: an operator applies a document through the
  admin API, or End Close owns it and the manager stores each document it serves; routes are
  read live from what was applied last.

  \<^bold>\<open>Conventions\<close> (theory \<open>Prelude\<close>).  A method that may throw is a computation from a state to
  an exception or a value, and the state after it: \<open>await\<close> is \<open>bindE\<close>, \<open>try/catch\<close> is \<open>catchE\<close>,
  \<open>try/finally\<close> is \<open>finallyE\<close>.  A \<open>Map\<close> or plain object is an association list whose
  \<open>AList.update\<close> keeps the place of a key.  Strings are lists of characters with code points
  below 256, taken for UTF-16 units; buffers are lists of bytes (\<open>8 word\<close>); times are
  milliseconds; JSON numbers are their texts.  The exceptions are those of theory \<open>Exn\<close>.

  \<^bold>\<open>Theories and code.\<close>
  \<^item> \<open>JsString\<close>, \<open>Regex\<close>, \<open>Bytes\<close>, \<open>Json\<close>, \<open>Dates\<close>: the JavaScript that the code uses: string and
    regular expression semantics with backtracking, UTF-8 and hex, \<open>JSON.stringify\<close>, property
    access with \<open>Object.prototype\<close>, ISO dates.
  \<^item> \<open>Mask\<close>, \<open>MaskFacts\<close>, \<open>MaskNames\<close>: \<open>mask/defaults.ts\<close>, \<open>mask/paths.ts\<close>, the hard denylist.
  \<^item> \<open>Schema\<close>, \<open>Mapper\<close>, \<open>MapperFacts\<close>, \<open>MapEventFacts\<close>, \<open>ReportFacts\<close>: \<open>config/schema.ts\<close> (types
    and refinements) and \<open>forward/mapper.ts\<close>.
  \<^item> \<open>Codec\<close>: \<open>engine/codec.ts\<close>, \<open>crypto/at-rest.ts\<close>, \<open>crypto/keys.ts\<close>.  \<open>Hooks\<close>: \<open>engine/hooks.ts\<close>.
    \<open>Adapters\<close>: \<open>ingest/adapters\<close> and \<open>engine/secrets.ts\<close>.  \<open>Enrich\<close>: \<open>forward/enrich.ts\<close>.
    \<open>Backoff\<close>: \<open>forward/backoff.ts\<close>.  \<open>Client\<close>: \<open>forward/endclose-client.ts\<close>.
  \<^item> \<open>Store\<close>, \<open>Control\<close>: \<open>engine/store.ts\<close>; the contracts are the locales \<open>event_store\<close> and
    \<open>control_store\<close>.  \<open>MemoryStore\<close>: \<open>engine/memory-store.ts\<close>.
  \<^item> \<open>Busy\<close>, \<open>Sqlite\<close>, \<open>SqliteFacts\<close>, \<open>SqliteControl\<close>, \<open>Migrations\<close>: \<open>busy.ts\<close>, \<open>repo/events.ts\<close>,
    \<open>store.ts\<close>, \<open>repo/kv.ts\<close>, \<open>migrations.ts\<close> of the SQLite package.  A statement is a function on
    the table or the failure the driver throws instead; a transaction restores the table.
  \<^item> \<open>StoreSpec\<close>: the store without a database, as a specification any contract-keeping store refines.
  \<^item> \<open>Host\<close>: what the engine is given, with the locale \<open>engine_host\<close>; hosts put together from a
    store, a control store and a world.  \<open>SqliteHost\<close>: the host of the application;
    \<open>SqliteCycle\<close>: the dispatcher on it.
  \<^item> \<open>Ingest\<close>, \<open>IngestFacts\<close>: \<open>engine/ingest.ts\<close>.  \<open>Dispatcher\<close>, \<open>DispatcherFacts\<close>, \<open>CycleFacts\<close>,
    \<open>CycleDemo\<close>, \<open>CycleProps\<close>, \<open>PruneFacts\<close>: \<open>forward/dispatcher.ts\<close>; \<open>Lifecycle\<close>: its loop.
  \<^item> \<open>Routes\<close>: \<open>engine/routes.ts\<close>, \<open>engine/manifest.ts\<close>.  \<open>RemoteConfig\<close>: \<open>engine/remote-config.ts\<close>.
    \<open>Relay\<close>, \<open>FlushFacts\<close>: \<open>engine/relay.ts\<close>, \<open>engine/settings.ts\<close>.
  \<^item> \<open>AppDb\<close>, \<open>AppDbFacts\<close>: the application's tables and transactions, \<open>config/store.ts\<close>,
    \<open>config/load.ts\<close>, \<open>db/repo\<close>.  \<open>ManagedConfig\<close>, \<open>ManagedFacts\<close>: \<open>config/remote.ts\<close>.  \<open>Admin\<close>,
    \<open>AdminFacts\<close>: \<open>admin/server.ts\<close>.  \<open>Application\<close>: these together with the boot of \<open>index.ts\<close>, as
    a step relation.  \<open>AppHost\<close>: the relay on the application's database, \<open>db/route-provider.ts\<close>,
    \<open>ingest/server.ts\<close>.  \<open>Cli\<close>, \<open>CliFacts\<close>: \<open>cli\<close>, the command \<open>relayctl\<close>.
  \<^item> \<open>AppEnv\<close>, \<open>AppEnvFacts\<close>: \<open>config/secrets.ts\<close>, \<open>config/runtime.ts\<close>, \<open>db/persistence.ts\<close>, the check of
    \<open>admin/setup-server.ts\<close>.  \<open>Telemetry\<close>: \<open>forward/manifest.ts\<close>, \<open>metrics\<close>.  \<open>Boot\<close>: \<open>index.ts\<close>, from the
    environment to a mode and what it is given; \<open>AppLife\<close>: its two long-lived modes as state
    machines, with the shutdown and the restart.

  \<^bold>\<open>What the lemmas show.\<close>  Masking and mapping: what can leave the network (no social security
  number, sensitive names only as keyed hashes, nothing but the mapped paths) and that the
  report of what stays misses nothing.  Stores: both implementations meet the contract, hence the
  specification; instances that share a database never hold one event
  at once, as long as none settles or releases what another holds.  Ingestion: nothing is
  acknowledged before it is stored.  Dispatching, over any host that meets the contract: rows
  are conserved one for one, settled rows are final, no claim is stranded, counters and posts are
  accounted for.  The proofs keep a relation through every combinator (locale
  \<open>step_relation\<close>).  The loop loses no wake-up and drains on stop; the route provider keeps the
  document it holds; a flush returns and its report is true.  The application: applying a document
  is all or nothing, what a question to End Close leaves behind, which tables a management
  request may change and that it is audited, and over any history that the latest version and
  the routes agree; what was applied is what lookups serve; cycles and webhooks on its database
  touch the events only; the command line validates what it applies; the secrets file is read
  back as written; every boot ends in a mode that has what it needs, and every signal in an
  orderly exit.

  \<^bold>\<open>Fuel and bounds.\<close>  \<open>prune_loop\<close> and \<open>flush_loop\<close> take fuel and give \<open>None\<close> when it runs out.
  \<open>runPrune_completes\<close> shows two turns per row and one more to be enough, \<open>flush_returns\<close> one per
  reading of the clock before the deadline and one more.  All other loops recurse on their data or on the code's own bound.

  \<^bold>\<open>Parameters\<close>, code that is not in the repository: \<open>node:crypto\<close> (with the laws of AES-GCM and of
  the length of SHA-256 as named hypotheses), \<open>fetch\<close>, \<open>JSON.parse\<close>, \<open>Date.parse\<close>, \<open>Number\<close>, the clock
  (for termination of a flush: it is read finitely often before any instant, \<open>time_passes\<close>),
  \<open>Math.random\<close>, the host's enrichments and adapters, the parser of the zod package, the effect
  of a migration's script, the order of a query without \<open>ORDER BY\<close>.

  \<^bold>\<open>Not modelled.\<close>  Logging, and timers as such (a sleep is a call of the host).  A cycle runs
  without ingestion between its calls: the store's operations are atomic, and what other
  instances may do between them is the matter of \<open>StoreSpec\<close>.  The limit of SQLite on bound
  variables, and ids above 2^53.  Of the application: the HTTP framework and its rate limit, the
  user interface (drawing what the admin API answers), the setup page, opening the database, the
  listening of servers, the scripts.
\<close>

end
